(* ===== verification/Prelude.thy ===== *)
theory Prelude
  imports Main "HOL-Library.Char_ord" "HOL-Library.List_Lexorder" "HOL-Library.Sublist"
    "HOL-Library.AList" "HOL-Library.Multiset"
begin

text \<open>
  The shared vocabulary of the development: the parts of Go's standard library that the
  modelled packages call (byte strings, decimal printing, sorting, 64-bit durations,
  maps), and the generic lemmas the component theories rely on.

  \<^item> A Go string is a \<^typ>\<open>string\<close>, a list of bytes; ordering is the bytewise order of
    \<^verbatim>\<open>strings.Compare\<close>. Case folding and white space are those of ASCII, which is the
    alphabet of the DNS names, Kubernetes names and header names the code folds.
  \<^item> A Go map that is only looked up is a partial function; a map that is iterated is an
    association list with distinct keys, its order standing for one iteration order.
  \<^item> \<^verbatim>\<open>slices.SortFunc\<close> takes a three-way comparison returning an integer. The model
    sorts stably; the locales below say when every sorting algorithm returns the
    same list, which is what makes a result of the (unstable) Go sort determined.
  \<^item> \<^verbatim>\<open>time.Duration\<close> is an integer number of nanoseconds with 64-bit wrap-around written
    out, \<^verbatim>\<open>time.Time\<close> an integer number of nanoseconds since Go's zero time.
\<close>

named_theorems go_simps "unfolding rules for the modelled Go library functions"

section \<open>Results\<close>

type_synonym 'a result = "string + 'a"

section \<open>Strings\<close>

definition has_prefix :: "string \<Rightarrow> string \<Rightarrow> bool" where
  "has_prefix s p = (take (length p) s = p)"

definition has_suffix :: "string \<Rightarrow> string \<Rightarrow> bool" where
  "has_suffix s p = (length p \<le> length s \<and> drop (length s - length p) s = p)"

definition trim_prefix :: "string \<Rightarrow> string \<Rightarrow> string" where
  "trim_prefix s p = (if has_prefix s p then drop (length p) s else s)"

definition trim_suffix :: "string \<Rightarrow> string \<Rightarrow> string" where
  "trim_suffix s p = (if has_suffix s p then take (length s - length p) s else s)"

definition lower_char :: "char \<Rightarrow> char" where
  "lower_char c =
     (let n = of_char c :: nat in if 65 \<le> n \<and> n \<le> 90 then char_of (n + 32) else c)"

definition to_lower :: "string \<Rightarrow> string" where
  "to_lower = map lower_char"

definition equal_fold :: "string \<Rightarrow> string \<Rightarrow> bool" where
  "equal_fold a b = (to_lower a = to_lower b)"

definition is_space :: "char \<Rightarrow> bool" where
  "is_space c = (let n = of_char c :: nat in n = 32 \<or> (9 \<le> n \<and> n \<le> 13))"

definition trim_right_func :: "(char \<Rightarrow> bool) \<Rightarrow> string \<Rightarrow> string" where
  "trim_right_func P s = rev (dropWhile P (rev s))"

definition trim_space :: "string \<Rightarrow> string" where
  "trim_space s = trim_right_func is_space (dropWhile is_space s)"

definition trim_right :: "string \<Rightarrow> char \<Rightarrow> string" where
  "trim_right s c = trim_right_func (\<lambda>x. x = c) s"

definition trim_char :: "string \<Rightarrow> char \<Rightarrow> string" where
  "trim_char s c = trim_right (dropWhile (\<lambda>x. x = c) s) c"

definition contains_char :: "string \<Rightarrow> char \<Rightarrow> bool" where
  "contains_char s c = (c \<in> set s)"

fun contains_str :: "string \<Rightarrow> string \<Rightarrow> bool" where
  "contains_str s sub =
     (has_prefix s sub \<or> (case s of [] \<Rightarrow> False | _ # s' \<Rightarrow> contains_str s' sub))"

declare contains_str.simps [simp del]

text \<open>\<^verbatim>\<open>strings.Cut\<close> and \<^verbatim>\<open>strings.Split\<close> with a one-byte separator.\<close>

definition cut :: "string \<Rightarrow> char \<Rightarrow> string \<times> string \<times> bool" where
  "cut s c = (takeWhile (\<lambda>x. x \<noteq> c) s, drop (Suc (length (takeWhile (\<lambda>x. x \<noteq> c) s))) s, c \<in> set s)"

fun split :: "string \<Rightarrow> char \<Rightarrow> string list" where
  "split [] c = [[]]"
| "split (x # xs) c =
     (if x = c then [] # split xs c
      else (case split xs c of [] \<Rightarrow> [[x]] | w # ws \<Rightarrow> (x # w) # ws))"

fun join :: "string list \<Rightarrow> string \<Rightarrow> string" where
  "join [] sep = []"
| "join [w] sep = w"
| "join (w # v # ws) sep = w @ sep @ join (v # ws) sep"

definition replace_char :: "string \<Rightarrow> char \<Rightarrow> char \<Rightarrow> string" where
  "replace_char s a b = map (\<lambda>x. if x = a then b else x) s"

text \<open>\<^verbatim>\<open>fmt.Sprintf\<close> with \<^verbatim>\<open>%d\<close> and \<^verbatim>\<open>%q\<close>, and hexadecimal encoding of bytes.\<close>

fun show_nat :: "nat \<Rightarrow> string" where
  "show_nat n = (if n < 10 then [char_of (48 + n)] else show_nat (n div 10) @ [char_of (48 + n mod 10)])"

declare show_nat.simps [simp del]

definition show_int :: "int \<Rightarrow> string" where
  "show_int i = (if i < 0 then CHR ''-'' # show_nat (nat (- i)) else show_nat (nat i))"

definition hex_digit :: "nat \<Rightarrow> char" where
  "hex_digit n = (if n < 10 then char_of (48 + n) else char_of (87 + n))"

definition hex_byte :: "char \<Rightarrow> string" where
  "hex_byte c = [hex_digit (of_char c div 16), hex_digit (of_char c mod 16)]"

definition hex_encode :: "string \<Rightarrow> string" where
  "hex_encode s = concat (map hex_byte s)"

definition quote_char :: "char \<Rightarrow> string" where
  "quote_char c =
     (let n = of_char c :: nat in
      if n = 34 then [CHR 0x5C, c] else if n = 92 then [CHR 0x5C, c]
      else if n = 7 then CHR 0x5C # ''a'' else if n = 8 then CHR 0x5C # ''b''
      else if n = 9 then CHR 0x5C # ''t'' else if n = 10 then CHR 0x5C # ''n''
      else if n = 11 then CHR 0x5C # ''v'' else if n = 12 then CHR 0x5C # ''f''
      else if n = 13 then CHR 0x5C # ''r''
      else if n < 32 \<or> n = 127 then CHR 0x5C # CHR ''x'' # hex_byte c
      else [c])"

definition show_q :: "string \<Rightarrow> string" where
  "show_q s = CHR 0x22 # concat (map quote_char s) @ [CHR 0x22]"

section \<open>Integers, durations and times\<close>

type_synonym duration = int
type_synonym time = int

definition max_int64 :: int where "max_int64 = 2 ^ 63 - 1"
definition min_int64 :: int where "min_int64 = - (2 ^ 63)"

definition wrap64 :: "int \<Rightarrow> int" where
  "wrap64 i = (i + 2 ^ 63) mod 2 ^ 64 - 2 ^ 63"

definition wrap32 :: "int \<Rightarrow> int" where
  "wrap32 i = (i + 2 ^ 31) mod 2 ^ 32 - 2 ^ 31"

definition second :: duration where "second = 1000000000"
definition minute :: duration where "minute = 60 * second"

text \<open>\<^verbatim>\<open>Time.IsZero\<close>, \<^verbatim>\<open>Time.After\<close> and \<^verbatim>\<open>Time.Sub\<close>; \<^verbatim>\<open>Sub\<close> saturates at the ends of the range.\<close>

definition time_is_zero :: "time \<Rightarrow> bool" where "time_is_zero t = (t = 0)"

definition time_after :: "time \<Rightarrow> time \<Rightarrow> bool" where "time_after t u = (u < t)"

definition time_sub :: "time \<Rightarrow> time \<Rightarrow> duration" where
  "time_sub t u = (let d = t - u in if d < min_int64 then min_int64 else if d > max_int64 then max_int64 else d)"

definition int64_ok :: "int \<Rightarrow> bool" where
  "int64_ok i = (min_int64 \<le> i \<and> i \<le> max_int64)"

section \<open>Sorting\<close>

definition compare :: "'a::linorder \<Rightarrow> 'a \<Rightarrow> int" where
  "compare a b = (if a < b then - 1 else if b < a then 1 else 0)"

text \<open>
  \<open>cmp_then c d\<close> is Go's \<^verbatim>\<open>if cmp := c(a, b); cmp != 0 { return cmp }; return d(a, b)\<close>;
  \<open>cmp_desc f\<close> is \<^verbatim>\<open>f(b) - f(a)\<close> and \<open>cmp_asc f\<close> is \<^verbatim>\<open>f(a) - f(b)\<close>.
\<close>

definition cmp_then :: "('a \<Rightarrow> 'a \<Rightarrow> int) \<Rightarrow> ('a \<Rightarrow> 'a \<Rightarrow> int) \<Rightarrow> 'a \<Rightarrow> 'a \<Rightarrow> int" where
  "cmp_then c d a b = (if c a b \<noteq> 0 then c a b else d a b)"

definition cmp_on :: "('a \<Rightarrow> 'b) \<Rightarrow> ('b \<Rightarrow> 'b \<Rightarrow> int) \<Rightarrow> 'a \<Rightarrow> 'a \<Rightarrow> int" where
  "cmp_on f c a b = c (f a) (f b)"

definition cmp_asc :: "('a \<Rightarrow> int) \<Rightarrow> 'a \<Rightarrow> 'a \<Rightarrow> int" where
  "cmp_asc f a b = f a - f b"

definition cmp_desc :: "('a \<Rightarrow> int) \<Rightarrow> 'a \<Rightarrow> 'a \<Rightarrow> int" where
  "cmp_desc f a b = f b - f a"

fun insert_func :: "('a \<Rightarrow> 'a \<Rightarrow> int) \<Rightarrow> 'a \<Rightarrow> 'a list \<Rightarrow> 'a list" where
  "insert_func c x [] = [x]"
| "insert_func c x (y # ys) = (if c x y \<le> 0 then x # y # ys else y # insert_func c x ys)"

fun sort_func :: "('a \<Rightarrow> 'a \<Rightarrow> int) \<Rightarrow> 'a list \<Rightarrow> 'a list" where
  "sort_func c [] = []"
| "sort_func c (x # xs) = insert_func c x (sort_func c xs)"

text \<open>Sorting keeps the elements whatever the comparison function is.\<close>

lemma mset_insert_any: "mset (insert_func c x xs) = add_mset x (mset xs)"
  by (induction xs) auto

lemma mset_sort_any: "mset (sort_func c xs) = mset xs"
  by (induction xs) (auto simp: mset_insert_any)

lemma set_sort_any: "set (sort_func c xs) = set xs"
  by (metis mset_sort_any set_mset_mset)

lemma sort_func_cong:
  assumes "\<And>x y. x \<in> set xs \<Longrightarrow> y \<in> set xs \<Longrightarrow> c x y = d x y"
  shows "sort_func c xs = sort_func d xs"
proof -
  have insert: "insert_func c x ys = insert_func d x ys" if "\<And>y. y \<in> set ys \<Longrightarrow> c x y = d x y" for x ys
    using that by (induction ys) auto
  show ?thesis using assms
  proof (induction xs)
    case (Cons a xs)
    then have "sort_func c xs = sort_func d xs" by simp
    moreover have "insert_func c a (sort_func d xs) = insert_func d a (sort_func d xs)"
      using Cons.prems by (intro insert) (auto simp: set_sort_any)
    ultimately show ?case by simp
  qed simp
qed

definition sorted_func :: "('a \<Rightarrow> 'a \<Rightarrow> int) \<Rightarrow> 'a list \<Rightarrow> bool" where
  "sorted_func c xs = sorted_wrt (\<lambda>a b. c a b \<le> 0) xs"

text \<open>\<^verbatim>\<open>slices.Sort\<close> on an ordered type followed by \<^verbatim>\<open>slices.Compact\<close>.\<close>

definition sort_compact :: "'a::linorder list \<Rightarrow> 'a list" where
  "sort_compact xs = remdups_adj (sort xs)"

text \<open>First occurrence of every value, in order: a loop over a \<^verbatim>\<open>seen\<close> set.\<close>

fun unique_from :: "'k list \<Rightarrow> ('a \<Rightarrow> 'k) \<Rightarrow> 'a list \<Rightarrow> 'a list" where
  "unique_from seen key [] = []"
| "unique_from seen key (x # xs) =
     (if key x \<in> set seen then unique_from seen key xs
      else x # unique_from (key x # seen) key xs)"

definition unique_by :: "('a \<Rightarrow> 'k) \<Rightarrow> 'a list \<Rightarrow> 'a list" where
  "unique_by = unique_from []"

section \<open>Iterated maps\<close>

type_synonym ('k, 'v) gomap = "('k \<times> 'v) list"

abbreviation mget :: "('k, 'v) gomap \<Rightarrow> 'k \<Rightarrow> 'v option" where
  "mget m k \<equiv> map_of m k"

abbreviation mput :: "'k \<Rightarrow> 'v \<Rightarrow> ('k, 'v) gomap \<Rightarrow> ('k, 'v) gomap" where
  "mput \<equiv> AList.update"

abbreviation mdel :: "'k \<Rightarrow> ('k, 'v) gomap \<Rightarrow> ('k, 'v) gomap" where
  "mdel \<equiv> AList.delete"

text \<open>Go's \<^verbatim>\<open>m[k]\<close> on a missing key is the zero value of the element type.\<close>

definition mget_default :: "('k, 'v) gomap \<Rightarrow> 'k \<Rightarrow> 'v \<Rightarrow> 'v" where
  "mget_default m k d = (case map_of m k of None \<Rightarrow> d | Some v \<Rightarrow> v)"

definition keys_ok :: "('k, 'v) gomap \<Rightarrow> bool" where
  "keys_ok m = distinct (map fst m)"

section \<open>Lemmas on strings\<close>

lemma has_prefix_iff: "has_prefix s p \<longleftrightarrow> (\<exists>t. s = p @ t)"
proof
  assume "has_prefix s p"
  then have "s = p @ drop (length p) s"
    by (metis append_take_drop_id has_prefix_def)
  then show "\<exists>t. s = p @ t" ..
qed (auto simp: has_prefix_def)

lemma has_prefix_append [simp]: "has_prefix (p @ t) p"
  by (simp add: has_prefix_def)

lemma has_suffix_iff: "has_suffix s p \<longleftrightarrow> (\<exists>t. s = t @ p)"
proof
  assume "has_suffix s p"
  then have "s = take (length s - length p) s @ p"
    by (metis append_take_drop_id has_suffix_def)
  then show "\<exists>t. s = t @ p" ..
qed (auto simp: has_suffix_def)

lemma has_suffix_append [simp]: "has_suffix (t @ p) p"
  by (simp add: has_suffix_def)

lemma trim_suffix_append [simp]: "trim_suffix (t @ p) p = t"
  by (simp add: trim_suffix_def)

lemma trim_prefix_append [simp]: "trim_prefix (p @ t) p = t"
  by (simp add: trim_prefix_def)

lemma to_lower_append [simp]: "to_lower (a @ b) = to_lower a @ to_lower b"
  by (simp add: to_lower_def)

lemma length_to_lower [simp]: "length (to_lower s) = length s"
  by (simp add: to_lower_def)

lemma lower_char_idem [simp]: "lower_char (lower_char c) = lower_char c"
proof (cases "65 \<le> (of_char c :: nat) \<and> (of_char c :: nat) \<le> 90")
  case True
  then have "(of_char (char_of ((of_char c :: nat) + 32) :: char) :: nat) = of_char c + 32"
    by (simp add: of_char_of)
  with True show ?thesis by (simp add: lower_char_def Let_def)
qed (auto simp: lower_char_def Let_def)

lemma to_lower_idem [simp]: "to_lower (to_lower s) = to_lower s"
  by (simp add: to_lower_def)

lemma takeWhile_to_sep: "c \<notin> set a \<Longrightarrow> takeWhile (\<lambda>x. x \<noteq> c) (a @ c # b) = a"
  by (induction a) auto

lemma takeWhile_no_sep: "c \<notin> set a \<Longrightarrow> takeWhile (\<lambda>x. x \<noteq> c) a = a"
  by (induction a) auto

lemma cut_append [simp]: "c \<notin> set a \<Longrightarrow> cut (a @ c # b) c = (a, b, True)"
  by (simp add: cut_def takeWhile_to_sep)

lemma cut_absent: "c \<notin> set a \<Longrightarrow> cut a c = (a, [], False)"
  by (simp add: cut_def takeWhile_no_sep)

lemma cut_unique:
  fixes c :: char
  shows "c \<notin> set a \<Longrightarrow> c \<notin> set a' \<Longrightarrow> a @ c # b = a' @ c # b' \<Longrightarrow> a = a' \<and> b = b'"
  by (drule arg_cong [where f = "\<lambda>s. cut s c"]) simp

lemma cut_last_unique:
  fixes c :: char
  assumes "c \<notin> set b" and "c \<notin> set b'" and "a @ c # b = a' @ c # b'"
  shows "a = a' \<and> b = b'"
  using cut_unique [of c "rev b" "rev b'" "rev a" "rev a'"] arg_cong [OF assms(3), of rev] assms(1,2) by simp

lemma split_nonempty [simp]: "split s c \<noteq> []"
  by (cases s) (auto split: list.splits)

lemma split_absent: "c \<notin> set s \<Longrightarrow> split s c = [s]"
  by (induction s) auto

lemma split_append_sep: "c \<notin> set a \<Longrightarrow> split (a @ c # b) c = a # split b c"
  by (induction a) auto

lemma join_split [simp]: "join (split s c) [c] = s"
proof (induction s)
  case (Cons x s)
  show ?case
  proof (cases "split s c")
    case Nil
    then show ?thesis by (metis split_nonempty)
  next
    case outer: (Cons w ws)
    with Cons show ?thesis by (cases ws) auto
  qed
qed simp

lemma split_no_sep: "w \<in> set (split s c) \<Longrightarrow> c \<notin> set w"
proof (induction s arbitrary: w)
  case (Cons x s)
  then show ?case
    by (cases "split s c") (auto split: if_splits)
qed simp

section \<open>Lemmas on integers and times\<close>

lemma wrap64_id: "int64_ok i \<Longrightarrow> wrap64 i = i"
  by (simp add: wrap64_def int64_ok_def min_int64_def max_int64_def)

lemma wrap64_range: "int64_ok (wrap64 i)"
proof -
  have "0 \<le> (i + 2 ^ 63) mod 2 ^ 64" and "(i + 2 ^ 63) mod 2 ^ 64 < 2 ^ 64"
    by simp_all
  then show ?thesis by (simp add: wrap64_def int64_ok_def min_int64_def max_int64_def)
qed

lemma time_sub_bounds:
  assumes "0 \<le> time_sub now at" and "time_sub now at < d" and "int64_ok d"
  shows "at \<le> now" and "now - at < d" and "time_sub now at = now - at"
  using assms by (auto simp: time_sub_def Let_def int64_ok_def min_int64_def max_int64_def split: if_splits)

section \<open>Three-way comparisons\<close>

lemma sorted_func_Nil [simp]: "sorted_func c []"
  by (simp add: sorted_func_def)

text \<open>
  What \<^verbatim>\<open>slices.SortFunc\<close> asks of its comparison (a strict weak order), as an interface:
  under it the result is sorted and a permutation. With \<open>cmp_exact\<close> (only equal elements
  compare as 0) the sorted permutation is unique, so an unstable sort returns it too.
\<close>

locale comparator =
  fixes cmp :: "'a \<Rightarrow> 'a \<Rightarrow> int"
  assumes cmp_flip: "cmp x y < 0 \<longleftrightarrow> 0 < cmp y x"
    and cmp_trans: "cmp x y \<le> 0 \<Longrightarrow> cmp y z \<le> 0 \<Longrightarrow> cmp x z \<le> 0"
begin

lemma cmp_refl [simp]: "cmp x x = 0"
  using cmp_flip [of x x] by linarith

lemma cmp_total: "cmp x y \<le> 0 \<or> cmp y x \<le> 0"
  using cmp_flip [of y x] by linarith

lemma cmp_zero_sym: "cmp x y = 0 \<Longrightarrow> cmp y x = 0"
  using cmp_flip [of x y] cmp_flip [of y x] by linarith

lemma set_insert_func [simp]: "set (insert_func cmp x xs) = insert x (set xs)"
  by (induction xs) auto

lemma mset_insert_func [simp]: "mset (insert_func cmp x xs) = add_mset x (mset xs)"
  by (induction xs) auto

lemma sorted_insert_func: "sorted_func cmp xs \<Longrightarrow> sorted_func cmp (insert_func cmp x xs)"
proof (induction xs)
  case (Cons y ys)
  have ys: "sorted_func cmp ys" and y: "\<And>z. z \<in> set ys \<Longrightarrow> cmp y z \<le> 0"
    using Cons.prems by (auto simp: sorted_func_def)
  show ?case
  proof (cases "cmp x y \<le> 0")
    case True
    with Cons.prems y show ?thesis by (auto simp: sorted_func_def intro: cmp_trans)
  next
    case False
    then have "cmp y x \<le> 0" using cmp_total by blast
    with False Cons.IH [OF ys] y show ?thesis by (auto simp: sorted_func_def)
  qed
qed (simp add: sorted_func_def)

lemma mset_sort_func [simp]: "mset (sort_func cmp xs) = mset xs"
  by (induction xs) auto

lemma set_sort_func [simp]: "set (sort_func cmp xs) = set xs"
  by (metis mset_sort_func set_mset_mset)

lemma length_sort_func [simp]: "length (sort_func cmp xs) = length xs"
  by (metis mset_sort_func size_mset)

lemma sorted_sort_func: "sorted_func cmp (sort_func cmp xs)"
  by (induction xs) (simp_all add: sorted_insert_func)

lemma sorted_nth: "sorted_func cmp xs \<Longrightarrow> i < j \<Longrightarrow> j < length xs \<Longrightarrow> cmp (xs ! i) (xs ! j) \<le> 0"
  by (simp add: sorted_func_def sorted_wrt_iff_nth_less)

end

locale exact_comparator = comparator +
  assumes cmp_exact: "cmp x y = 0 \<Longrightarrow> x = y"
begin

lemma sorted_unique:
  "mset xs = mset ys \<Longrightarrow> sorted_func cmp xs \<Longrightarrow> sorted_func cmp ys \<Longrightarrow> xs = ys"
proof (induction xs arbitrary: ys)
  case (Cons x xs)
  from Cons.prems(1) obtain y ys' where ys: "ys = y # ys'"
    by (cases ys) auto
  have members: "set (x # xs) = set ys"
    using Cons.prems(1) by (metis set_mset_mset)
  have "cmp x y \<le> 0"
    using Cons.prems(2) members ys by (force simp: sorted_func_def)
  moreover have "cmp y x \<le> 0"
    using Cons.prems(3) members ys by (force simp: sorted_func_def)
  ultimately have "cmp x y = 0"
    using cmp_flip [of x y] by linarith
  then have "x = y" by (rule cmp_exact)
  with Cons ys show ?case by (auto simp: sorted_func_def)
qed simp

theorem any_sort: "mset ys = mset xs \<Longrightarrow> sorted_func cmp ys \<Longrightarrow> ys = sort_func cmp xs"
  by (rule sorted_unique) (simp_all add: sorted_sort_func)

end

lemma comparator_compare: "comparator compare"
  by unfold_locales (auto simp: compare_def split: if_splits)

lemma comparator_cmp_asc: "comparator (cmp_asc f)"
  by unfold_locales (auto simp: cmp_asc_def)

lemma comparator_cmp_desc: "comparator (cmp_desc f)"
  by unfold_locales (auto simp: cmp_desc_def)

lemma comparator_on: "comparator c \<Longrightarrow> comparator (cmp_on f c)"
  by (simp add: comparator_def cmp_on_def)

lemma comparator_then:
  assumes "comparator c" and "comparator d"
  shows "comparator (cmp_then c d)"
proof
  fix x y z
  show "cmp_then c d x y < 0 \<longleftrightarrow> 0 < cmp_then c d y x"
    using comparator.cmp_flip [OF assms(1)] comparator.cmp_flip [OF assms(2)]
      comparator.cmp_zero_sym [OF assms(1)]
    by (auto simp: cmp_then_def)
  assume xy: "cmp_then c d x y \<le> 0" and yz: "cmp_then c d y z \<le> 0"
  then have c: "c x y \<le> 0" "c y z \<le> 0"
    by (auto simp: cmp_then_def split: if_splits)
  then have xz: "c x z \<le> 0"
    by (rule comparator.cmp_trans [OF assms(1)])
  show "cmp_then c d x z \<le> 0"
  proof (cases "c x z = 0")
    case True
    then have zx: "c z x \<le> 0"
      by (simp add: comparator.cmp_zero_sym [OF assms(1)])
    have "c z y \<le> 0" and "c y x \<le> 0"
      using comparator.cmp_trans [OF assms(1) zx c(1)] comparator.cmp_trans [OF assms(1) c(2) zx]
      by auto
    then have "c x y = 0" and "c y z = 0"
      using c comparator.cmp_flip [OF assms(1)] by (metis linorder_not_le order_antisym_conv)+
    with True xy yz show ?thesis
      by (auto simp: cmp_then_def intro: comparator.cmp_trans [OF assms(2)])
  next
    case False
    with xz show ?thesis by (simp add: cmp_then_def)
  qed
qed

lemmas comparator_intros =
  comparator_compare comparator_cmp_asc comparator_cmp_desc comparator_on comparator_then

lemma compare_zero [simp]: "compare a b = 0 \<longleftrightarrow> a = b"
  by (auto simp: compare_def)

lemma compare_le [simp]: "compare a b \<le> 0 \<longleftrightarrow> a \<le> b"
  by (auto simp: compare_def)

lemma cmp_then_zero: "cmp_then c d a b = 0 \<longleftrightarrow> c a b = 0 \<and> d a b = 0"
  by (simp add: cmp_then_def)

lemmas cmp_defs = cmp_then_def cmp_on_def cmp_asc_def cmp_desc_def

section \<open>Lemmas on deduplication\<close>

lemma set_sort_compact [simp]: "set (sort_compact xs) = set xs"
  by (simp add: sort_compact_def)

lemma sorted_sort_compact [simp]: "sorted (sort_compact xs)"
  by (simp add: sort_compact_def sorted_remdups_adj)

lemma distinct_sort_compact [simp]: "distinct (sort_compact xs)"
proof -
  have "distinct (remdups_adj ys)" if "sorted ys" for ys :: "'a::linorder list"
    using that
  proof (induction ys rule: remdups_adj.induct)
    case (3 x y xs)
    then show ?case by (cases "x = y") (auto simp: order_antisym)
  qed auto
  then show ?thesis by (simp add: sort_compact_def)
qed

lemma sort_compact_cong: "set xs = set ys \<Longrightarrow> sort_compact xs = sort_compact ys"
  by (metis distinct_sort_compact set_sort_compact sorted_distinct_set_unique sorted_sort_compact)

lemma sort_compact_idem [simp]: "sort_compact (sort_compact xs) = sort_compact xs"
  by (rule sort_compact_cong) simp

lemma set_unique_from: "set (unique_from seen key xs) \<subseteq> set xs"
  by (induction seen key xs rule: unique_from.induct) auto

lemma keys_unique_from:
  "key ` set (unique_from seen key xs) = key ` set xs - set seen"
  by (induction seen key xs rule: unique_from.induct) auto

lemma distinct_unique_from:
  "distinct (map key (unique_from seen key xs))"
proof (induction seen key xs rule: unique_from.induct)
  case (2 seen key x xs)
  then show ?case
    using keys_unique_from [of key "key x # seen" xs] by auto
qed simp

lemma unique_by_subset: "set (unique_by key xs) \<subseteq> set xs"
  by (simp add: unique_by_def set_unique_from)

lemma unique_by_keys: "key ` set (unique_by key xs) = key ` set xs"
  by (simp add: unique_by_def keys_unique_from)

lemma unique_by_distinct: "distinct (map key (unique_by key xs))"
  by (simp add: unique_by_def distinct_unique_from)

lemma sorted_wrt_unique_from: "sorted_wrt P xs \<Longrightarrow> sorted_wrt P (unique_from seen key xs)"
proof (induction seen key xs rule: unique_from.induct)
  case (2 seen key x xs)
  then show ?case
    using set_unique_from [of "key x # seen" key xs] by auto
qed simp

lemma sorted_wrt_unique_by: "sorted_wrt P xs \<Longrightarrow> sorted_wrt P (unique_by key xs)"
  by (simp add: unique_by_def sorted_wrt_unique_from)

section \<open>Lemmas on iterated maps\<close>

lemma mget_mput [simp]: "mget (mput k v m) k' = (if k' = k then Some v else mget m k')"
  by (simp add: update_conv')

lemma mget_mdel [simp]: "mget (mdel k m) k' = (if k' = k then None else mget m k')"
  by (simp add: delete_conv')

lemma keys_ok_Nil [simp]: "keys_ok []"
  by (simp add: keys_ok_def)

lemma set_mput_subset: "set (mput k v m) \<subseteq> insert (k, v) (set m)"
  by (induction m) auto

lemma find_found: "List.find P xs = Some x \<Longrightarrow> x \<in> set xs \<and> P x"
  by (induction xs) (auto split: if_splits)

lemma keys_ok_mput [simp]: "keys_ok m \<Longrightarrow> keys_ok (mput k v m)"
  by (simp add: keys_ok_def distinct_update)

lemma keys_ok_mdel [simp]: "keys_ok m \<Longrightarrow> keys_ok (mdel k m)"
  by (simp add: keys_ok_def distinct_delete)

lemma mget_iff_mem: "keys_ok m \<Longrightarrow> mget m k = Some v \<longleftrightarrow> (k, v) \<in> set m"
  by (auto simp: keys_ok_def dest: map_of_SomeD)

section \<open>Lemmas on decimal numbers\<close>

definition digit_val :: "char \<Rightarrow> nat" where
  "digit_val c = of_char c - 48"

definition dec_val :: "string \<Rightarrow> nat" where
  "dec_val s = foldl (\<lambda>a c. 10 * a + digit_val c) 0 s"

lemma digit_val_char: "n < 10 \<Longrightarrow> digit_val (char_of (48 + n)) = n"
  by (simp add: digit_val_def of_char_of)

lemma dec_val_show_nat [simp]: "dec_val (show_nat n) = n"
proof (induction n rule: show_nat.induct)
  case (1 n)
  show ?case
  proof (cases "n < 10")
    case True
    then show ?thesis by (simp add: show_nat.simps [of n] dec_val_def digit_val_char)
  next
    case False
    then have "dec_val (show_nat (n div 10)) = n div 10" by (rule 1)
    moreover have "digit_val (char_of (48 + n mod 10)) = n mod 10"
      by (rule digit_val_char) simp
    ultimately show ?thesis
      using False by (simp add: show_nat.simps [of n] dec_val_def)
  qed
qed

lemma show_nat_inj: "show_nat m = show_nat n \<longleftrightarrow> m = n"
  by (metis dec_val_show_nat)

lemma show_nat_digits: "c \<in> set (show_nat n) \<Longrightarrow> 48 \<le> (of_char c :: nat) \<and> (of_char c :: nat) \<le> 57"
proof (induction n rule: show_nat.induct)
  case (1 n)
  have digit: "(of_char (char_of (48 + d) :: char) :: nat) = 48 + d" if "d < 10" for d :: nat
    using that by (simp add: of_char_of)
  show ?case
  proof (cases "n < 10")
    case True
    then show ?thesis using "1.prems" digit [of n] by (simp add: show_nat.simps [of n])
  next
    case False
    then show ?thesis using 1 digit [of "n mod 10"] by (auto simp: show_nat.simps [of n])
  qed
qed

lemma show_nat_nonempty [simp]: "show_nat n \<noteq> []"
  by (simp add: show_nat.simps [of n])

lemma show_int_inj: "show_int i = show_int j \<longleftrightarrow> i = j"
proof -
  have minus: "CHR ''-'' # s \<noteq> show_nat n" for s n
  proof
    assume "CHR ''-'' # s = show_nat n"
    then have "CHR ''-'' \<in> set (show_nat n)" by (metis list.set_intros(1))
    from show_nat_digits [OF this] show False by simp
  qed
  show ?thesis
    using minus minus [symmetric] show_nat_inj
    by (auto simp: show_int_def split: if_splits)
qed

lemma set_map_filter: "y \<in> set (List.map_filter f xs) \<longleftrightarrow> (\<exists>x \<in> set xs. f x = Some y)"
  by (induction xs) (auto simp: map_filter_simps split: option.split)

section \<open>Hexadecimal encoding\<close>

lemma of_char_small: "(of_char c :: nat) < 256"
  using of_char_mod_256 [of c, where ?'a = nat] by (metis mod_less_divisor zero_less_numeral)

lemma of_char_hex_digit: "n < 16 \<Longrightarrow> (of_char (hex_digit n) :: nat) = (if n < 10 then 48 + n else 87 + n)"
  unfolding hex_digit_def by (simp add: of_char_of)

lemma hex_digit_inj:
  assumes "m < 16" and "n < 16"
  shows "hex_digit m = hex_digit n \<longleftrightarrow> m = n"
proof
  assume "hex_digit m = hex_digit n"
  then have "(of_char (hex_digit m) :: nat) = of_char (hex_digit n)" by simp
  then show "m = n" using assms by (simp only: of_char_hex_digit) (simp split: if_splits)
qed simp

lemma hex_nibbles: "(of_char c :: nat) div 16 < 16" "(of_char c :: nat) mod 16 < 16"
proof -
  have "(of_char c :: nat) < 16 * 16" using of_char_small [of c] by simp
  then show "(of_char c :: nat) div 16 < 16" by (rule less_mult_imp_div_less)
qed simp

lemma hex_byte_inj: "hex_byte c = hex_byte d \<longleftrightarrow> c = d"
proof
  assume "hex_byte c = hex_byte d"
  then have "(of_char c :: nat) div 16 = of_char d div 16" and "(of_char c :: nat) mod 16 = of_char d mod 16"
    by (simp_all add: hex_byte_def hex_digit_inj hex_nibbles)
  then have "(of_char c :: nat) = of_char d" by (metis div_mult_mod_eq)
  then show "c = d" by simp
qed simp

lemma hex_encode_Cons: "hex_encode (c # s) = hex_byte c @ hex_encode s"
  by (simp add: hex_encode_def)

lemma length_hex_byte [simp]: "length (hex_byte c) = 2"
  by (simp add: hex_byte_def)

lemma hex_encode_Nil [simp]: "hex_encode s = [] \<longleftrightarrow> s = []" "hex_encode [] = []"
  by (cases s; simp add: hex_encode_def hex_byte_def)+

lemma hex_encode_inj: "hex_encode s = hex_encode t \<longleftrightarrow> s = t"
proof (induction s arbitrary: t)
  case (Cons c s)
  then show ?case by (cases t) (simp_all add: hex_encode_Cons hex_byte_inj append_eq_append_conv, simp add: hex_byte_def)
qed (metis hex_encode_Nil)

lemma hex_encode_digits:
  assumes "x \<in> set (hex_encode s)"
  shows "(of_char x :: nat) \<in> {48..57} \<union> {97..102}"
proof -
  obtain c where "x \<in> set (hex_byte c)" using assms by (auto simp: hex_encode_def)
  then obtain n where "x = hex_digit n" and "n < 16" using hex_nibbles [of c] by (auto simp: hex_byte_def)
  then show ?thesis by (auto simp: of_char_hex_digit)
qed

end
