(* ===== verification/Freshness.thy ===== *)
theory Freshness
  imports Prelude
begin

text \<open>
  The package \<^verbatim>\<open>src/internal/freshness\<close>: the freshness grades and the policy of their
  cache bounds (\<^verbatim>\<open>types.go\<close>, \<^verbatim>\<open>grades.go\<close>), the two gate judgements (\<^verbatim>\<open>evaluate.go\<close>) and the
  in-memory latch (\<^verbatim>\<open>latch.go\<close>). The latch methods act on a pointer that may be nil, here
  an option. \<^verbatim>\<open>ConfirmContent\<close> reads the baseline, runs the matcher without the lock and then
  records; the two critical sections are separate operations, and \<open>latch_step\<close> interleaves
  them with every other method.
\<close>

named_theorems latch_simps "unfolding rules of the latch methods"

section \<open>Grades and policy\<close>

datatype grade = GradeAlways | GradeAuthz | GradeTraffic | GradeIndirect | GradeDisplay | GradeUnknown int

definition grade_String :: "grade \<Rightarrow> string" where
  "grade_String g =
     (case g of
        GradeAlways \<Rightarrow> ''Always(T0)''
      | GradeAuthz \<Rightarrow> ''Authz(T1)''
      | GradeTraffic \<Rightarrow> ''Traffic(T2)''
      | GradeIndirect \<Rightarrow> ''Indirect(T3)''
      | GradeDisplay \<Rightarrow> ''Display(T4)''
      | GradeUnknown n \<Rightarrow> ''UnknownGrade('' @ show_int n @ '')'')"

record policy =
  pol_Authz :: duration
  pol_Traffic :: duration
  pol_Indirect :: duration
  pol_Display :: duration

definition DefaultPolicy :: policy where
  "DefaultPolicy = \<lparr>pol_Authz = 60 * second, pol_Traffic = 300 * second,
     pol_Indirect = 1800 * second, pol_Display = 0\<rparr>"

definition TTL :: "policy \<Rightarrow> grade \<Rightarrow> duration" where
  "TTL p g =
     (case g of
        GradeAlways \<Rightarrow> 0
      | GradeAuthz \<Rightarrow> pol_Authz p
      | GradeTraffic \<Rightarrow> pol_Traffic p
      | GradeIndirect \<Rightarrow> pol_Indirect p
      | GradeDisplay \<Rightarrow> pol_Display p
      | GradeUnknown _ \<Rightarrow> 0)"

datatype policy_error =
    NegativeAuthz duration | NegativeTraffic duration | NegativeIndirect duration | NegativeDisplay duration
  | AuthzAboveTraffic duration duration | TrafficAboveIndirect duration duration
  | AuthzAboveIndirect duration duration

definition Validate :: "policy \<Rightarrow> policy_error option" where
  "Validate p =
     (if pol_Authz p < 0 then Some (NegativeAuthz (pol_Authz p))
      else if pol_Traffic p < 0 then Some (NegativeTraffic (pol_Traffic p))
      else if pol_Indirect p < 0 then Some (NegativeIndirect (pol_Indirect p))
      else if pol_Display p < 0 then Some (NegativeDisplay (pol_Display p))
      else if 0 < pol_Authz p \<and> 0 < pol_Traffic p \<and> pol_Traffic p < pol_Authz p
        then Some (AuthzAboveTraffic (pol_Authz p) (pol_Traffic p))
      else if 0 < pol_Traffic p \<and> 0 < pol_Indirect p \<and> pol_Indirect p < pol_Traffic p
        then Some (TrafficAboveIndirect (pol_Traffic p) (pol_Indirect p))
      else if 0 < pol_Authz p \<and> 0 < pol_Indirect p \<and> pol_Indirect p < pol_Authz p
        then Some (AuthzAboveIndirect (pol_Authz p) (pol_Indirect p))
      else None)"

definition gradeByKind :: "(string, grade) gomap" where
  "gradeByKind =
     [(''AccessApplication'', GradeAuthz), (''AccessStandaloneApplication'', GradeAuthz),
      (''AccessPolicy'', GradeAuthz), (''AccessGroup'', GradeAuthz),
      (''AccessCustomPage'', GradeAuthz), (''AccessInfrastructureTarget'', GradeAuthz),
      (''ServiceToken'', GradeAuthz), (''IdentityProvider'', GradeAuthz),
      (''CloudflareTunnel'', GradeTraffic), (''DNSRecord'', GradeTraffic),
      (''ZeroTrustGatewayPolicy'', GradeTraffic), (''ZeroTrustList'', GradeTraffic),
      (''VirtualNetwork'', GradeTraffic), (''NetworkRoute'', GradeTraffic),
      (''HostnameRoute'', GradeTraffic),
      (''DeviceProfile'', GradeIndirect), (''DevicePostureRule'', GradeIndirect),
      (''DevicePostureIntegration'', GradeIndirect), (''DeviceSettings'', GradeIndirect),
      (''ZeroTrustOrganization'', GradeIndirect), (''WARPConnector'', GradeIndirect)]"

definition GradeForKind :: "string \<Rightarrow> grade option" where
  "GradeForKind kind = mget gradeByKind kind"

definition GradedKinds :: "string list" where
  "GradedKinds = map fst gradeByKind"

section \<open>Gate judgements\<close>

datatype decision = DecisionOpen | DecisionClosedHash | DecisionClosedTTL | DecisionClosedInvalidated
  | DecisionNotGated | DecisionUnset

record gate =
  gate_Open :: bool
  gate_Requeue :: duration
  gate_Decision :: decision

definition closed_gate :: "decision \<Rightarrow> gate" where
  "closed_gate d = \<lparr>gate_Open = False, gate_Requeue = 0, gate_Decision = d\<rparr>"

definition Evaluate :: "policy \<Rightarrow> grade \<Rightarrow> string \<Rightarrow> string \<Rightarrow> time \<Rightarrow> time \<Rightarrow> bool \<Rightarrow> gate" where
  "Evaluate p grade appliedHash desiredHash appliedAt now invalidated =
     (if grade = GradeAlways then closed_gate DecisionNotGated
      else let ttl = TTL p grade in
        if ttl \<le> 0 then closed_gate DecisionClosedTTL
        else if invalidated then closed_gate DecisionClosedInvalidated
        else if appliedHash = [] \<or> desiredHash = [] \<or> appliedHash \<noteq> desiredHash
          then closed_gate DecisionClosedHash
        else if time_is_zero appliedAt then closed_gate DecisionClosedTTL
        else let age = time_sub now appliedAt in
          if age < 0 \<or> ttl \<le> age then closed_gate DecisionClosedTTL
          else let requeue = wrap64 (ttl - age) in
            if requeue \<le> 0 then closed_gate DecisionClosedTTL
            else \<lparr>gate_Open = True, gate_Requeue = requeue, gate_Decision = DecisionOpen\<rparr>)"

definition SweepConfirmationWindow :: "policy \<Rightarrow> grade \<Rightarrow> duration" where
  "SweepConfirmationWindow p grade = wrap64 (2 * TTL p grade)"

definition EvaluateSweepConfirmed ::
  "policy \<Rightarrow> grade \<Rightarrow> string \<Rightarrow> string \<Rightarrow> time \<Rightarrow> time \<Rightarrow> bool \<Rightarrow> gate" where
  "EvaluateSweepConfirmed p grade appliedHash desiredHash confirmedAt now invalidated =
     (if grade = GradeAlways then closed_gate DecisionNotGated
      else let window = SweepConfirmationWindow p grade in
        if window \<le> 0 then closed_gate DecisionClosedTTL
        else if invalidated then closed_gate DecisionClosedInvalidated
        else if appliedHash = [] \<or> desiredHash = [] \<or> appliedHash \<noteq> desiredHash
          then closed_gate DecisionClosedHash
        else if time_is_zero confirmedAt then closed_gate DecisionClosedTTL
        else let age = time_sub now confirmedAt in
          if age < 0 \<or> window \<le> age then closed_gate DecisionClosedTTL
          else \<lparr>gate_Open = True, gate_Requeue = wrap64 (window - age), gate_Decision = DecisionOpen\<rparr>)"

section \<open>The latch\<close>

record latchKey =
  lk_kind :: string
  lk_namespace :: string
  lk_name :: string

record namespacedName =
  nn_Namespace :: string
  nn_Name :: string

record verification =
  ver_hash :: string
  ver_at :: time

record 'o baseline =
  bl_hash :: string
  bl_matches :: "'o \<Rightarrow> bool"

record 'o latch =
  lt_reasons :: "latchKey \<rightharpoonup> string"
  lt_verified :: "latchKey \<rightharpoonup> verification"
  lt_baselines :: "latchKey \<rightharpoonup> 'o baseline"
  lt_confirmed :: "latchKey \<rightharpoonup> verification"

type_synonym 'o latch_ptr = "'o latch option"

definition latch_key :: "string \<Rightarrow> namespacedName \<Rightarrow> latchKey" where
  "latch_key kind key = \<lparr>lk_kind = kind, lk_namespace = nn_Namespace key, lk_name = nn_Name key\<rparr>"

definition NewLatch :: "'o latch" where
  "NewLatch = \<lparr>lt_reasons = Map.empty, lt_verified = Map.empty, lt_baselines = Map.empty,
     lt_confirmed = Map.empty\<rparr>"

definition Invalidate :: "string \<Rightarrow> namespacedName \<Rightarrow> string \<Rightarrow> 'o latch_ptr \<Rightarrow> 'o latch_ptr" where
  "Invalidate kind key reason lp =
     (case lp of None \<Rightarrow> None
      | Some l \<Rightarrow> let k = latch_key kind key in
          Some (l\<lparr>lt_reasons := (lt_reasons l)(k \<mapsto> reason),
                  lt_verified := (lt_verified l)(k := None),
                  lt_confirmed := (lt_confirmed l)(k := None)\<rparr>))"

definition IsInvalidated :: "string \<Rightarrow> namespacedName \<Rightarrow> 'o latch_ptr \<Rightarrow> bool" where
  "IsInvalidated kind key lp =
     (case lp of None \<Rightarrow> False | Some l \<Rightarrow> lt_reasons l (latch_key kind key) \<noteq> None)"

definition Clear :: "string \<Rightarrow> namespacedName \<Rightarrow> 'o latch_ptr \<Rightarrow> 'o latch_ptr" where
  "Clear kind key lp =
     (case lp of None \<Rightarrow> None
      | Some l \<Rightarrow> Some (l\<lparr>lt_reasons := (lt_reasons l)(latch_key kind key := None)\<rparr>))"

definition Forget :: "string \<Rightarrow> namespacedName \<Rightarrow> 'o latch_ptr \<Rightarrow> 'o latch_ptr" where
  "Forget kind key lp =
     (case lp of None \<Rightarrow> None
      | Some l \<Rightarrow> let k = latch_key kind key in
          Some (l\<lparr>lt_verified := (lt_verified l)(k := None),
                  lt_baselines := (lt_baselines l)(k := None),
                  lt_confirmed := (lt_confirmed l)(k := None)\<rparr>))"

definition Remove :: "string \<Rightarrow> namespacedName \<Rightarrow> 'o latch_ptr \<Rightarrow> 'o latch_ptr" where
  "Remove kind key lp =
     (case lp of None \<Rightarrow> None
      | Some l \<Rightarrow> let k = latch_key kind key in
          Some (l\<lparr>lt_reasons := (lt_reasons l)(k := None),
                  lt_verified := (lt_verified l)(k := None),
                  lt_baselines := (lt_baselines l)(k := None),
                  lt_confirmed := (lt_confirmed l)(k := None)\<rparr>))"

definition MarkVerified :: "string \<Rightarrow> namespacedName \<Rightarrow> string \<Rightarrow> time \<Rightarrow> 'o latch_ptr \<Rightarrow> 'o latch_ptr" where
  "MarkVerified kind key hash at lp =
     (case lp of None \<Rightarrow> None
      | Some l \<Rightarrow>
          if hash = [] then Some l
          else Some (l\<lparr>lt_verified := (lt_verified l)
                 (latch_key kind key \<mapsto> \<lparr>ver_hash = hash, ver_at = at\<rparr>)\<rparr>))"

text \<open>The Go result \<^verbatim>\<open>(time.Time, bool)\<close> is an option; the time returned with false is the zero time.\<close>

definition VerifiedAt :: "string \<Rightarrow> namespacedName \<Rightarrow> string \<Rightarrow> 'o latch_ptr \<Rightarrow> time option" where
  "VerifiedAt kind key hash lp =
     (case lp of None \<Rightarrow> None
      | Some l \<Rightarrow>
          if hash = [] then None
          else (case lt_verified l (latch_key kind key) of
                  None \<Rightarrow> None
                | Some record \<Rightarrow> if ver_hash record \<noteq> hash then None else Some (ver_at record)))"

definition SetBaseline ::
  "string \<Rightarrow> namespacedName \<Rightarrow> string \<Rightarrow> ('o \<Rightarrow> bool) option \<Rightarrow> 'o latch_ptr \<Rightarrow> 'o latch_ptr" where
  "SetBaseline kind key hash matches lp =
     (case lp of None \<Rightarrow> None
      | Some l \<Rightarrow>
          let k = latch_key kind key; l' = l\<lparr>lt_confirmed := (lt_confirmed l)(k := None)\<rparr> in
          Some (case matches of
                  None \<Rightarrow> l'\<lparr>lt_baselines := (lt_baselines l')(k := None)\<rparr>
                | Some m \<Rightarrow>
                    if hash = [] then l'\<lparr>lt_baselines := (lt_baselines l')(k := None)\<rparr>
                    else l'\<lparr>lt_baselines := (lt_baselines l')(k \<mapsto> \<lparr>bl_hash = hash, bl_matches = m\<rparr>)\<rparr>))"

text \<open>
  \<^verbatim>\<open>ConfirmContent\<close>: the locked read of the baseline, the matcher, and the locked write that
  records only a confirmation of a baseline whose hash is still the one compared.
\<close>

definition confirm_read :: "string \<Rightarrow> namespacedName \<Rightarrow> 'o latch_ptr \<Rightarrow> 'o baseline option" where
  "confirm_read kind key lp = (case lp of None \<Rightarrow> None | Some l \<Rightarrow> lt_baselines l (latch_key kind key))"

definition confirm_record :: "string \<Rightarrow> namespacedName \<Rightarrow> string \<Rightarrow> time \<Rightarrow> 'o latch_ptr \<Rightarrow> 'o latch_ptr" where
  "confirm_record kind key comparedHash at lp =
     (case lp of None \<Rightarrow> None
      | Some l \<Rightarrow> let k = latch_key kind key in
          (case lt_baselines l k of
             None \<Rightarrow> Some l
           | Some latest \<Rightarrow>
               if bl_hash latest = comparedHash \<and>
                  (case lt_confirmed l k of
                     None \<Rightarrow> True
                   | Some previous \<Rightarrow> ver_hash previous \<noteq> comparedHash \<or> time_after at (ver_at previous))
               then Some (l\<lparr>lt_confirmed := (lt_confirmed l)(k \<mapsto> \<lparr>ver_hash = comparedHash, ver_at = at\<rparr>)\<rparr>)
               else Some l))"

definition ConfirmContent :: "string \<Rightarrow> namespacedName \<Rightarrow> 'o \<Rightarrow> time \<Rightarrow> 'o latch_ptr \<Rightarrow> bool \<times> 'o latch_ptr" where
  "ConfirmContent kind key observed at lp =
     (case confirm_read kind key lp of
        None \<Rightarrow> (False, lp)
      | Some current \<Rightarrow>
          if \<not> bl_matches current observed then (True, lp)
          else (False, confirm_record kind key (bl_hash current) at lp))"

definition ConfirmedAt :: "string \<Rightarrow> namespacedName \<Rightarrow> string \<Rightarrow> 'o latch_ptr \<Rightarrow> time option" where
  "ConfirmedAt kind key hash lp =
     (case lp of None \<Rightarrow> None
      | Some l \<Rightarrow>
          if hash = [] then None
          else (case lt_confirmed l (latch_key kind key) of
                  None \<Rightarrow> None
                | Some record \<Rightarrow> if ver_hash record \<noteq> hash then None else Some (ver_at record)))"

section \<open>Interleaved executions of the latch\<close>

text \<open>
  Every method is one step, except \<^verbatim>\<open>ConfirmContent\<close>, which is two: a successful comparison
  puts the compared hash in flight, and a later step records it.
\<close>

record 'o latch_run =
  run_latch :: "'o latch"
  run_inflight :: "(string \<times> namespacedName \<times> string \<times> time) list"

datatype latch_event =
    EvInvalidate string namespacedName string
  | EvClear string namespacedName
  | EvForget string namespacedName
  | EvRemove string namespacedName
  | EvMarkVerified string namespacedName string time
  | EvSetBaseline string namespacedName string
  | EvCompared string namespacedName
  | EvConfirmed string namespacedName

inductive latch_step :: "'o latch_run \<Rightarrow> latch_event \<Rightarrow> 'o latch_run \<Rightarrow> bool" where
  invalidate: "Invalidate kind key reason (Some (run_latch r)) = Some l \<Longrightarrow>
     latch_step r (EvInvalidate kind key reason) (r\<lparr>run_latch := l\<rparr>)"
| clear: "Clear kind key (Some (run_latch r)) = Some l \<Longrightarrow>
     latch_step r (EvClear kind key) (r\<lparr>run_latch := l\<rparr>)"
| forget: "Forget kind key (Some (run_latch r)) = Some l \<Longrightarrow>
     latch_step r (EvForget kind key) (r\<lparr>run_latch := l\<rparr>)"
| remove: "Remove kind key (Some (run_latch r)) = Some l \<Longrightarrow>
     latch_step r (EvRemove kind key) (r\<lparr>run_latch := l\<rparr>)"
| mark_verified: "MarkVerified kind key hash at (Some (run_latch r)) = Some l \<Longrightarrow>
     latch_step r (EvMarkVerified kind key hash at) (r\<lparr>run_latch := l\<rparr>)"
| set_baseline: "SetBaseline kind key hash matches (Some (run_latch r)) = Some l \<Longrightarrow>
     latch_step r (EvSetBaseline kind key hash) (r\<lparr>run_latch := l\<rparr>)"
| compared: "confirm_read kind key (Some (run_latch r)) = Some b \<Longrightarrow> bl_matches b observed \<Longrightarrow>
     latch_step r (EvCompared kind key)
       (r\<lparr>run_inflight := run_inflight r @ [(kind, key, bl_hash b, at)]\<rparr>)"
| confirmed: "run_inflight r = before @ (kind, key, hash, at) # after \<Longrightarrow>
     confirm_record kind key hash at (Some (run_latch r)) = Some l \<Longrightarrow>
     latch_step r (EvConfirmed kind key) (r\<lparr>run_latch := l, run_inflight := before @ after\<rparr>)"

inductive latch_runs :: "'o latch_run \<Rightarrow> latch_event list \<Rightarrow> 'o latch_run \<Rightarrow> bool" where
  stop: "latch_runs r [] r"
| more: "latch_step r e s \<Longrightarrow> latch_runs s es t \<Longrightarrow> latch_runs r (e # es) t"

inductive_cases latch_runs_NilE: "latch_runs r [] t"
inductive_cases latch_runs_ConsE: "latch_runs r (e # es) t"

text \<open>
  What holds between the maps: a confirmation always names the hash of the current baseline,
  and no recorded hash is empty.
\<close>

definition latch_inv :: "'o latch \<Rightarrow> bool" where
  "latch_inv l =
     ((\<forall>k v. lt_confirmed l k = Some v \<longrightarrow>
         (\<exists>b. lt_baselines l k = Some b \<and> bl_hash b = ver_hash v)) \<and>
      (\<forall>k b. lt_baselines l k = Some b \<longrightarrow> bl_hash b \<noteq> []) \<and>
      (\<forall>k v. lt_verified l k = Some v \<longrightarrow> ver_hash v \<noteq> []))"

definition releases :: "string \<Rightarrow> namespacedName \<Rightarrow> latch_event \<Rightarrow> bool" where
  "releases kind key e = (e = EvClear kind key \<or> e = EvRemove kind key)"

section \<open>The judgements as one interface\<close>

text \<open>
  Both judgements promise the same: they open exactly when the grade is gated, the bound is
  positive, nothing is invalidated, both hashes are present and equal, and the recorded time
  lies within the bound; an open gate requeues at its own expiry.
\<close>

definition policy_ok :: "policy \<Rightarrow> bool" where
  "policy_ok p = (int64_ok (pol_Authz p) \<and> int64_ok (pol_Traffic p) \<and> int64_ok (pol_Indirect p) \<and>
     int64_ok (pol_Display p))"

locale gate_judgement =
  fixes bound :: "policy \<Rightarrow> grade \<Rightarrow> duration"
    and judge :: "policy \<Rightarrow> grade \<Rightarrow> string \<Rightarrow> string \<Rightarrow> time \<Rightarrow> time \<Rightarrow> bool \<Rightarrow> gate"
  assumes bound_int64: "policy_ok p \<Longrightarrow> int64_ok (bound p g)"
    and open_iff: "policy_ok p \<Longrightarrow>
      gate_Open (judge p g applied desired at now invalidated) \<longleftrightarrow>
        g \<noteq> GradeAlways \<and> \<not> invalidated \<and> desired \<noteq> [] \<and> applied = desired \<and> at \<noteq> 0 \<and>
        0 \<le> time_sub now at \<and> time_sub now at < bound p g"
    and open_requeue: "policy_ok p \<Longrightarrow> gate_Open (judge p g applied desired at now invalidated) \<Longrightarrow>
      gate_Requeue (judge p g applied desired at now invalidated) = bound p g - time_sub now at"
    and decision_open: "gate_Decision (judge p g applied desired at now invalidated) = DecisionOpen
      \<longleftrightarrow> gate_Open (judge p g applied desired at now invalidated)"
    and decision_not_gated: "gate_Decision (judge p g applied desired at now invalidated) = DecisionNotGated
      \<longleftrightarrow> g = GradeAlways"
begin

lemma open_recent:
  assumes "policy_ok p" and "gate_Open (judge p g applied desired at now invalidated)"
  shows "at \<le> now" and "now - at < bound p g" and "time_sub now at = now - at"
  using assms time_sub_bounds [of now at "bound p g"] by (auto simp: open_iff bound_int64)

lemma requeue_positive:
  assumes "policy_ok p" and "gate_Open (judge p g applied desired at now invalidated)"
  shows "0 < gate_Requeue (judge p g applied desired at now invalidated)"
    and "gate_Requeue (judge p g applied desired at now invalidated) \<le> bound p g"
  using open_recent [OF assms] by (simp_all add: open_requeue [OF assms])

lemma self_expiry:
  assumes "policy_ok p" and "gate_Open (judge p g applied desired at now invalidated)" and "now \<le> later"
  shows "gate_Open (judge p g applied desired at later invalidated) \<longleftrightarrow>
    later < now + gate_Requeue (judge p g applied desired at now invalidated)"
proof -
  note recent = open_recent [OF assms(1,2)]
  have bound: "int64_ok (bound p g)" by (rule bound_int64 [OF assms(1)])
  have rq: "now + gate_Requeue (judge p g applied desired at now invalidated) = at + bound p g"
    using recent by (simp add: open_requeue [OF assms(1,2)])
  have "0 \<le> time_sub later at \<and> (time_sub later at < bound p g \<longleftrightarrow> later - at < bound p g)"
    using recent(1) assms(3) bound
    by (auto simp: time_sub_def Let_def int64_ok_def min_int64_def max_int64_def)
  then show ?thesis using assms(1,2) unfolding rq by (auto simp: open_iff)
qed

lemma doubt_closes:
  assumes "policy_ok p"
    and "invalidated \<or> applied \<noteq> desired \<or> desired = [] \<or> at = 0 \<or> bound p g \<le> 0 \<or> now < at \<or> g = GradeAlways"
  shows "\<not> gate_Open (judge p g applied desired at now invalidated)"
proof
  assume opened: "gate_Open (judge p g applied desired at now invalidated)"
  from opened have "\<not> invalidated \<and> applied = desired \<and> desired \<noteq> [] \<and> at \<noteq> 0 \<and> g \<noteq> GradeAlways"
    by (simp add: open_iff [OF assms(1)])
  with open_recent [OF assms(1) opened] assms(2) show False by linarith
qed

end

lemma TTL_int64: "policy_ok p \<Longrightarrow> int64_ok (TTL p g)"
  by (auto simp: policy_ok_def TTL_def int64_ok_def min_int64_def max_int64_def split: grade.splits)

lemma wrap64_age: "int64_ok d \<Longrightarrow> 0 \<le> a \<Longrightarrow> a < d \<Longrightarrow> wrap64 (d - a) = d - a"
  by (rule wrap64_id) (auto simp: int64_ok_def min_int64_def)

interpretation ttl_gate: gate_judgement TTL Evaluate
proof
  fix p g applied desired at now invalidated
  assume p: "policy_ok p"
  show "int64_ok (TTL p g)" using p by (rule TTL_int64)
  note ttl = this
  show iff: "gate_Open (Evaluate p g applied desired at now invalidated) \<longleftrightarrow>
      g \<noteq> GradeAlways \<and> \<not> invalidated \<and> desired \<noteq> [] \<and> applied = desired \<and> at \<noteq> 0 \<and>
      0 \<le> time_sub now at \<and> time_sub now at < TTL p g"
    using wrap64_age [OF ttl, of "time_sub now at"]
    by (auto simp: Evaluate_def closed_gate_def time_is_zero_def Let_def)
  assume "gate_Open (Evaluate p g applied desired at now invalidated)"
  then show "gate_Requeue (Evaluate p g applied desired at now invalidated) = TTL p g - time_sub now at"
    using wrap64_age [OF ttl, of "time_sub now at"]
    by (auto simp: Evaluate_def closed_gate_def Let_def split: if_splits)
qed (auto simp: Evaluate_def closed_gate_def Let_def)

interpretation sweep_gate: gate_judgement SweepConfirmationWindow EvaluateSweepConfirmed
proof
  fix p g applied desired at now invalidated
  show w: "int64_ok (SweepConfirmationWindow p g)"
    by (simp add: SweepConfirmationWindow_def wrap64_range)
  show "gate_Open (EvaluateSweepConfirmed p g applied desired at now invalidated) \<longleftrightarrow>
      g \<noteq> GradeAlways \<and> \<not> invalidated \<and> desired \<noteq> [] \<and> applied = desired \<and> at \<noteq> 0 \<and>
      0 \<le> time_sub now at \<and> time_sub now at < SweepConfirmationWindow p g"
    by (auto simp: EvaluateSweepConfirmed_def closed_gate_def time_is_zero_def Let_def)
  assume "gate_Open (EvaluateSweepConfirmed p g applied desired at now invalidated)"
  then show "gate_Requeue (EvaluateSweepConfirmed p g applied desired at now invalidated) =
      SweepConfirmationWindow p g - time_sub now at"
    using wrap64_age [OF w, of "time_sub now at"]
    by (auto simp: EvaluateSweepConfirmed_def closed_gate_def Let_def split: if_splits)
qed (auto simp: EvaluateSweepConfirmed_def closed_gate_def Let_def)

section \<open>The latch as an interface\<close>

text \<open>
  The drift sweep sees the latch through the interface \<^verbatim>\<open>sweep.Invalidator\<close>: an invalidation
  holds until it is cleared, for its own object only.
\<close>

locale invalidator =
  fixes invalidate :: "string \<Rightarrow> namespacedName \<Rightarrow> string \<Rightarrow> 's \<Rightarrow> 's"
    and is_invalidated :: "string \<Rightarrow> namespacedName \<Rightarrow> 's \<Rightarrow> bool"
    and clear :: "string \<Rightarrow> namespacedName \<Rightarrow> 's \<Rightarrow> 's"
    and live :: "'s \<Rightarrow> bool"
  assumes invalidate_live: "live s \<Longrightarrow> live (invalidate kind key reason s)"
    and clear_live: "live s \<Longrightarrow> live (clear kind key s)"
    and invalidate_sets: "live s \<Longrightarrow> is_invalidated kind' key' (invalidate kind key reason s) \<longleftrightarrow>
      (kind' = kind \<and> key' = key) \<or> is_invalidated kind' key' s"
    and clear_resets: "live s \<Longrightarrow> is_invalidated kind' key' (clear kind key s) \<longleftrightarrow>
      \<not> (kind' = kind \<and> key' = key) \<and> is_invalidated kind' key' s"
begin

lemma fold_invalidate_live:
  "live s \<Longrightarrow> live (fold (\<lambda>(kind, key, reason). invalidate kind key reason) xs s)"
  by (induction xs arbitrary: s) (auto simp: invalidate_live)

lemma fold_invalidate:
  "live s \<Longrightarrow>
   is_invalidated kind' key' (fold (\<lambda>(kind, key, reason). invalidate kind key reason) xs s) \<longleftrightarrow>
     (\<exists>reason. (kind', key', reason) \<in> set xs) \<or> is_invalidated kind' key' s"
  by (induction xs arbitrary: s) (auto simp: invalidate_live invalidate_sets)

end

lemma latch_key_eq [simp]:
  "latch_key kind key = latch_key kind' key' \<longleftrightarrow> kind = kind' \<and> key = key'"
  by (cases key; cases key') (auto simp: latch_key_def)

lemmas latch_defs [latch_simps] =
  Invalidate_def IsInvalidated_def Clear_def Forget_def Remove_def MarkVerified_def VerifiedAt_def
  SetBaseline_def confirm_read_def confirm_record_def ConfirmedAt_def Let_def

interpretation latch: invalidator Invalidate IsInvalidated Clear "\<lambda>lp. lp \<noteq> (None :: 'o latch_ptr)"
  by unfold_locales (auto simp: latch_simps split: option.splits)

lemma latch_inv_NewLatch: "latch_inv NewLatch"
  by (simp add: latch_inv_def NewLatch_def)

lemma latch_inv_Invalidate: "latch_inv l \<Longrightarrow> Invalidate kind key reason (Some l) = Some l' \<Longrightarrow> latch_inv l'"
  by (auto simp: latch_inv_def latch_simps split: if_splits)

lemma latch_inv_Clear: "latch_inv l \<Longrightarrow> Clear kind key (Some l) = Some l' \<Longrightarrow> latch_inv l'"
  by (auto simp: latch_inv_def latch_simps split: if_splits)

lemma latch_inv_Forget: "latch_inv l \<Longrightarrow> Forget kind key (Some l) = Some l' \<Longrightarrow> latch_inv l'"
  by (auto simp: latch_inv_def latch_simps split: if_splits)

lemma latch_inv_Remove: "latch_inv l \<Longrightarrow> Remove kind key (Some l) = Some l' \<Longrightarrow> latch_inv l'"
  by (auto simp: latch_inv_def latch_simps split: if_splits)

lemma latch_inv_MarkVerified: "latch_inv l \<Longrightarrow> MarkVerified kind key hash at (Some l) = Some l' \<Longrightarrow> latch_inv l'"
  by (auto simp: latch_inv_def latch_simps split: if_splits)

lemma latch_inv_SetBaseline:
  "latch_inv l \<Longrightarrow> SetBaseline kind key hash matches (Some l) = Some l' \<Longrightarrow> latch_inv l'"
  by (auto simp: latch_inv_def latch_simps split: if_splits option.splits)

lemma latch_inv_confirm_record:
  "latch_inv l \<Longrightarrow> confirm_record kind key hash at (Some l) = Some l' \<Longrightarrow> latch_inv l'"
  by (auto simp: latch_inv_def latch_simps split: if_splits option.splits)

lemmas latch_inv_ops =
  latch_inv_Invalidate latch_inv_Clear latch_inv_Forget latch_inv_Remove latch_inv_MarkVerified
  latch_inv_SetBaseline latch_inv_confirm_record

lemma latch_step_inv: "latch_step r e s \<Longrightarrow> latch_inv (run_latch r) \<Longrightarrow> latch_inv (run_latch s)"
  by (induction rule: latch_step.induct) (simp_all, (blast intro: latch_inv_ops)+)

lemma latch_runs_inv: "latch_runs r es s \<Longrightarrow> latch_inv (run_latch r) \<Longrightarrow> latch_inv (run_latch s)"
  by (induction rule: latch_runs.induct) (auto intro: latch_step_inv)

lemma latch_step_keeps_invalidation:
  "latch_step r e s \<Longrightarrow> \<not> releases kind key e \<Longrightarrow>
   IsInvalidated kind key (Some (run_latch r)) \<Longrightarrow> IsInvalidated kind key (Some (run_latch s))"
  by (induction rule: latch_step.induct)
    (auto simp: latch_simps releases_def split: if_splits option.splits)

lemma latch_runs_keeps_invalidation:
  "latch_runs r es s \<Longrightarrow> \<forall>e \<in> set es. \<not> releases kind key e \<Longrightarrow>
   IsInvalidated kind key (Some (run_latch r)) \<Longrightarrow> IsInvalidated kind key (Some (run_latch s))"
  by (induction rule: latch_runs.induct) (auto intro: latch_step_keeps_invalidation)

end
