(* ===== verification/FreshnessGate.thy ===== *)
theory FreshnessGate
  imports Freshness
begin

text \<open>
  \<^verbatim>\<open>src/internal/controller/freshness_gate.go\<close>: how every gated reconciler asks the gate and
  records a converged pass. \<^verbatim>\<open>freshness.DesiredHash\<close> serialises an arbitrary value to JSON and
  digests it; here it is the parameter \<open>DesiredHash\<close>. The calls to the Kubernetes client in
  \<^verbatim>\<open>persistGateStamp\<close> are arguments: what the read returns and whether the patch is accepted.
  An observation of the gate metric is part of the result, so that each pass shows what it
  reports.
\<close>

record 's gateInput =
  gi_Kind :: string
  gi_Namespace :: string
  gi_Name :: string
  gi_UID :: string
  gi_RemoteID :: string
  gi_AccountID :: string
  gi_ClusterID :: string
  gi_Spec :: 's

record gateDecision =
  gd_Gate :: gate
  gd_DesiredHash :: string

type_synonym 'o gate_result = "gateDecision \<times> 'o latch_ptr \<times> (string \<times> decision) option"

text \<open>The zero value of \<^verbatim>\<open>gateDecision\<close>, whose decision string is empty.\<close>

definition zero_gateDecision :: gateDecision where
  "zero_gateDecision = \<lparr>gd_Gate = closed_gate DecisionUnset, gd_DesiredHash = []\<rparr>"

definition gate_applied_at ::
  "string \<Rightarrow> namespacedName \<Rightarrow> string \<Rightarrow> time option \<Rightarrow> 'o latch_ptr \<Rightarrow> time" where
  "gate_applied_at kind key desiredHash appliedAt latch =
     (let applied = (case appliedAt of None \<Rightarrow> 0 | Some t \<Rightarrow> t) in
      case VerifiedAt kind key desiredHash latch of
        None \<Rightarrow> applied
      | Some verified \<Rightarrow> if time_after verified applied then verified else applied)"

definition evaluateGateWithHash ::
  "policy \<Rightarrow> 'o latch_ptr \<Rightarrow> grade \<Rightarrow> string \<Rightarrow> namespacedName \<Rightarrow> string \<Rightarrow> string \<Rightarrow> time option \<Rightarrow> time
    \<Rightarrow> 'o gate_result" where
  "evaluateGateWithHash policy latch grade kind key appliedHash desiredHash appliedAt now =
     (let invalidated = IsInvalidated kind key latch;
          applied = gate_applied_at kind key desiredHash appliedAt latch;
          gate0 = Evaluate policy grade appliedHash desiredHash applied now invalidated;
          gate = (case ConfirmedAt kind key desiredHash latch of
                    None \<Rightarrow> gate0
                  | Some confirmed \<Rightarrow>
                      let swept = EvaluateSweepConfirmed policy grade appliedHash desiredHash confirmed now invalidated in
                      if gate_Open swept \<and> (\<not> gate_Open gate0 \<or> gate_Requeue swept > gate_Requeue gate0)
                      then swept else gate0);
          latch' = (if \<not> gate_Open gate \<and> gate_Decision gate \<noteq> DecisionNotGated
                    then Forget kind key latch else latch);
          observed = (if gate_Decision gate \<noteq> DecisionNotGated then Some (kind, gate_Decision gate) else None)
      in (\<lparr>gd_Gate = gate, gd_DesiredHash = desiredHash\<rparr>, latch', observed))"

definition evaluateGate ::
  "('s gateInput \<Rightarrow> string result) \<Rightarrow> policy \<Rightarrow> 'o latch_ptr \<Rightarrow> grade \<Rightarrow> 's gateInput \<Rightarrow> string
    \<Rightarrow> time option \<Rightarrow> time \<Rightarrow> 'o gate_result" where
  "evaluateGate DesiredHash policy latch grade input appliedHash appliedAt now =
     (case DesiredHash input of
        Inl err \<Rightarrow> (zero_gateDecision, latch, Some (gi_Kind input, DecisionClosedHash))
      | Inr desired \<Rightarrow>
          if desired = [] then (zero_gateDecision, latch, Some (gi_Kind input, DecisionClosedHash))
          else evaluateGateWithHash policy latch grade (gi_Kind input)
                 \<lparr>nn_Namespace = gi_Namespace input, nn_Name = gi_Name input\<rparr>
                 appliedHash desired appliedAt now)"

definition clearGate :: "'o latch_ptr \<Rightarrow> string \<Rightarrow> namespacedName \<Rightarrow> 'o latch_ptr" where
  "clearGate latch kind key = Clear kind key latch"

text \<open>Errors of the Kubernetes client: whether \<^verbatim>\<open>IsNotFound\<close> holds, and the text.\<close>

datatype kube_error = NotFound string | OtherError string

definition releaseGoneObject ::
  "'o latch_ptr \<Rightarrow> string \<Rightarrow> namespacedName \<Rightarrow> kube_error option \<Rightarrow> kube_error option \<times> 'o latch_ptr" where
  "releaseGoneObject latch kind key err =
     (case err of
        Some (NotFound _) \<Rightarrow> (None, Remove kind key latch)
      | _ \<Rightarrow> (err, latch))"

definition gateClusterID :: "string result \<Rightarrow> string" where
  "gateClusterID clusterID = (case clusterID of Inl _ \<Rightarrow> [] | Inr i \<Rightarrow> i)"

definition convergedRequeue :: "policy \<Rightarrow> grade \<Rightarrow> duration \<Rightarrow> duration" where
  "convergedRequeue policy grade fallback = (let ttl = TTL policy grade in if ttl > 0 then ttl else fallback)"

record 'o gateStamp =
  gs_Hash :: string
  gs_At :: time
  gs_Content :: "('o \<Rightarrow> bool) option"

definition newGateStamp :: "string \<Rightarrow> time \<Rightarrow> 'o gateStamp" where
  "newGateStamp hash at = \<lparr>gs_Hash = hash, gs_At = at, gs_Content = None\<rparr>"

definition withContent :: "'o gateStamp \<Rightarrow> ('o \<Rightarrow> bool) option \<Rightarrow> 'o gateStamp" where
  "withContent stamp matches = stamp\<lparr>gs_Content := matches\<rparr>"

definition recordGateVerification ::
  "string \<Rightarrow> namespacedName \<Rightarrow> 'o gateStamp \<Rightarrow> 'o latch_ptr \<Rightarrow> 'o latch_ptr" where
  "recordGateVerification kind key stamp latch =
     SetBaseline kind key (gs_Hash stamp) (gs_Content stamp)
       (MarkVerified kind key (gs_Hash stamp) (gs_At stamp) latch)"

definition contentBaseline :: "('o \<Rightarrow> bool) option \<Rightarrow> 'o \<Rightarrow> ('o \<Rightarrow> bool) option" where
  "contentBaseline matches verified =
     (case matches of None \<Rightarrow> None | Some m \<Rightarrow> if m verified then Some m else None)"

definition nextGateStamp :: "string \<Rightarrow> time option \<Rightarrow> 'o gateStamp \<Rightarrow> string \<times> time option \<times> bool" where
  "nextGateStamp storedHash storedAt stamp =
     (if gs_Hash stamp = storedHash \<and> storedAt \<noteq> None then (storedHash, storedAt, False)
      else (gs_Hash stamp, Some (gs_At stamp), True))"

text \<open>The Go types of the objects that reach \<^verbatim>\<open>gateStampFields\<close>; \<open>OtherType\<close> is its default case.\<close>

datatype object_type =
    TVirtualNetwork | TNetworkRoute | THostnameRoute | TIdentityProvider | TAccessGroup | TAccessPolicy
  | TAccessCustomPage | TAccessInfrastructureTarget | TAccessStandaloneApplication | TAccessApplication
  | TDeviceSettings | TDeviceProfile | TDevicePostureRule | TDevicePostureIntegration | TServiceToken
  | TWARPConnector | TZeroTrustList | TZeroTrustGatewayPolicy | TZeroTrustOrganization | OtherType string

record stamped_object =
  so_Type :: object_type
  so_Key :: namespacedName
  so_AppliedHash :: string
  so_AppliedAt :: "time option"

definition gateStampFields :: "stamped_object \<Rightarrow> (string \<times> string \<times> time option) option" where
  "gateStampFields object =
     (let fields = (\<lambda>kind. Some (kind, so_AppliedHash object, so_AppliedAt object)) in
      case so_Type object of
        TVirtualNetwork \<Rightarrow> fields ''VirtualNetwork''
      | TNetworkRoute \<Rightarrow> fields ''NetworkRoute''
      | THostnameRoute \<Rightarrow> fields ''HostnameRoute''
      | TIdentityProvider \<Rightarrow> fields ''IdentityProvider''
      | TAccessGroup \<Rightarrow> fields ''AccessGroup''
      | TAccessPolicy \<Rightarrow> fields ''AccessPolicy''
      | TAccessCustomPage \<Rightarrow> fields ''AccessCustomPage''
      | TAccessInfrastructureTarget \<Rightarrow> fields ''AccessInfrastructureTarget''
      | TAccessStandaloneApplication \<Rightarrow> fields ''AccessStandaloneApplication''
      | TAccessApplication \<Rightarrow> fields ''AccessApplication''
      | TDeviceSettings \<Rightarrow> fields ''DeviceSettings''
      | TDeviceProfile \<Rightarrow> fields ''DeviceProfile''
      | TDevicePostureRule \<Rightarrow> fields ''DevicePostureRule''
      | TDevicePostureIntegration \<Rightarrow> fields ''DevicePostureIntegration''
      | TServiceToken \<Rightarrow> fields ''ServiceToken''
      | TWARPConnector \<Rightarrow> fields ''WARPConnector''
      | TZeroTrustList \<Rightarrow> fields ''ZeroTrustList''
      | TZeroTrustGatewayPolicy \<Rightarrow> fields ''ZeroTrustGatewayPolicy''
      | TZeroTrustOrganization \<Rightarrow> fields ''ZeroTrustOrganization''
      | OtherType _ \<Rightarrow> None)"

datatype persist_error = PersistRead kube_error | PersistNoFields object_type | PersistPatch kube_error

text \<open>
  \<open>got\<close> is what the read of the stored object returns and \<open>patch\<close> what the status patch
  answers. The result is the error, the status write that was sent, and the new latch.
\<close>

definition persistGateStamp ::
  "(kube_error + stamped_object) \<Rightarrow> (stamped_object \<Rightarrow> kube_error option) \<Rightarrow> 'o latch_ptr \<Rightarrow> 'o gateStamp
    \<Rightarrow> persist_error option \<times> stamped_object option \<times> 'o latch_ptr" where
  "persistGateStamp got patch latch stamp =
     (if gs_Hash stamp = [] then (None, None, latch)
      else (case got of
              Inl (NotFound _) \<Rightarrow> (None, None, latch)
            | Inl err \<Rightarrow> (Some (PersistRead err), None, latch)
            | Inr current \<Rightarrow>
                (case gateStampFields current of
                   None \<Rightarrow> (Some (PersistNoFields (so_Type current)), None, latch)
                 | Some (kind, hash, at) \<Rightarrow>
                     let key = so_Key current;
                         (nextHash, nextAt, changed) = nextGateStamp hash at stamp in
                     if changed then
                       let written = current\<lparr>so_AppliedHash := nextHash, so_AppliedAt := nextAt\<rparr> in
                       (case patch written of
                          Some err \<Rightarrow> (Some (PersistPatch err), Some written, latch)
                        | None \<Rightarrow> (None, Some written, recordGateVerification kind key stamp latch))
                     else (None, None, recordGateVerification kind key stamp latch))))"

section \<open>Lemmas\<close>

lemma VerifiedAt_after_record:
  "gs_Hash stamp \<noteq> [] \<Longrightarrow>
   VerifiedAt kind key (gs_Hash stamp) (recordGateVerification kind key stamp (Some l)) = Some (gs_At stamp)"
  by (auto simp: recordGateVerification_def latch_simps split: option.splits)

lemma ConfirmedAt_after_record:
  "ConfirmedAt kind key hash (recordGateVerification kind key stamp lp) = None"
  by (auto simp: recordGateVerification_def latch_simps split: option.splits)

lemma IsInvalidated_record:
  "IsInvalidated kind' key' (recordGateVerification kind key stamp lp) = IsInvalidated kind' key' lp"
  by (auto simp: recordGateVerification_def latch_simps split: option.splits)

lemma records_after_Forget:
  "VerifiedAt kind key hash (Forget kind key lp) = None"
  "ConfirmedAt kind key hash (Forget kind key lp) = None"
  by (auto simp: latch_simps split: option.splits)

text \<open>The judgement the helper settles on, without its effects.\<close>

definition settled_gate ::
  "policy \<Rightarrow> 'o latch_ptr \<Rightarrow> grade \<Rightarrow> string \<Rightarrow> namespacedName \<Rightarrow> string \<Rightarrow> string \<Rightarrow> time option \<Rightarrow> time \<Rightarrow> gate" where
  "settled_gate policy latch grade kind key appliedHash desiredHash appliedAt now =
     gd_Gate (fst (evaluateGateWithHash policy latch grade kind key appliedHash desiredHash appliedAt now))"

lemma settled_gate_choice:
  "settled_gate policy latch grade kind key ah dh appliedAt now =
     Evaluate policy grade ah dh (gate_applied_at kind key dh appliedAt latch) now (IsInvalidated kind key latch) \<or>
   (\<exists>confirmed. ConfirmedAt kind key dh latch = Some confirmed \<and>
      settled_gate policy latch grade kind key ah dh appliedAt now =
        EvaluateSweepConfirmed policy grade ah dh confirmed now (IsInvalidated kind key latch) \<and>
      gate_Open (EvaluateSweepConfirmed policy grade ah dh confirmed now (IsInvalidated kind key latch)))"
  unfolding settled_gate_def evaluateGateWithHash_def Let_def by (auto split: option.split)

lemma settled_gate_cases:
  obtains (ttl) "settled_gate policy latch grade kind key ah dh appliedAt now =
      Evaluate policy grade ah dh (gate_applied_at kind key dh appliedAt latch) now (IsInvalidated kind key latch)"
  | (swept) confirmed where "ConfirmedAt kind key dh latch = Some confirmed"
      "settled_gate policy latch grade kind key ah dh appliedAt now =
        EvaluateSweepConfirmed policy grade ah dh confirmed now (IsInvalidated kind key latch)"
      "gate_Open (EvaluateSweepConfirmed policy grade ah dh confirmed now (IsInvalidated kind key latch))"
  using settled_gate_choice by blast

lemma settled_not_gated:
  "gate_Decision (settled_gate policy latch grade kind key ah dh appliedAt now) = DecisionNotGated \<longleftrightarrow>
   grade = GradeAlways"
  by (rule settled_gate_cases [of policy latch grade kind key ah dh appliedAt now])
    (simp_all add: ttl_gate.decision_not_gated sweep_gate.decision_not_gated)

lemma settled_open_conditions:
  assumes "policy_ok policy" and "gate_Open (settled_gate policy latch grade kind key ah dh appliedAt now)"
  shows "grade \<noteq> GradeAlways \<and> \<not> IsInvalidated kind key latch \<and> dh \<noteq> [] \<and> ah = dh"
  using assms
  by (cases rule: settled_gate_cases [of policy latch grade kind key ah dh appliedAt now])
    (auto simp: ttl_gate.open_iff sweep_gate.open_iff)

lemma gate_applied_at_source:
  "gate_applied_at kind key dh appliedAt latch = t \<Longrightarrow> t \<noteq> 0 \<Longrightarrow>
   appliedAt = Some t \<or> VerifiedAt kind key dh latch = Some t"
  by (auto simp: gate_applied_at_def Let_def split: option.splits if_splits)

lemma evaluateGateWithHash_latch:
  "fst (snd (evaluateGateWithHash policy latch grade kind key ah dh appliedAt now)) =
     (if \<not> gate_Open (settled_gate policy latch grade kind key ah dh appliedAt now) \<and> grade \<noteq> GradeAlways
      then Forget kind key latch else latch)"
proof -
  have "fst (snd (evaluateGateWithHash policy latch grade kind key ah dh appliedAt now)) =
     (if \<not> gate_Open (settled_gate policy latch grade kind key ah dh appliedAt now) \<and>
         gate_Decision (settled_gate policy latch grade kind key ah dh appliedAt now) \<noteq> DecisionNotGated
      then Forget kind key latch else latch)"
    by (simp add: settled_gate_def evaluateGateWithHash_def Let_def)
  then show ?thesis by (simp add: settled_not_gated)
qed

lemma settled_open_evidence:
  assumes "policy_ok policy" and "gate_Open (settled_gate policy latch grade kind key ah dh appliedAt now)"
  shows "\<exists>t \<le> now.
     (appliedAt = Some t \<or> VerifiedAt kind key dh latch = Some t) \<and> now - t < TTL policy grade \<or>
     ConfirmedAt kind key dh latch = Some t \<and> now - t < SweepConfirmationWindow policy grade"
proof (cases rule: settled_gate_cases [of policy latch grade kind key ah dh appliedAt now])
  case ttl
  let ?t = "gate_applied_at kind key dh appliedAt latch"
  from ttl assms(2) have opened:
    "gate_Open (Evaluate policy grade ah dh ?t now (IsInvalidated kind key latch))" by simp
  then have "?t \<noteq> 0" by (simp add: ttl_gate.open_iff [OF assms(1)])
  then show ?thesis
    using gate_applied_at_source [OF refl] ttl_gate.open_recent [OF assms(1) opened] by blast
next
  case (swept confirmed)
  then show ?thesis using sweep_gate.open_recent [OF assms(1) swept(3)] by blast
qed

lemma persist_success:
  assumes "persistGateStamp (Inr current) patch (Some l) stamp = (None, written, latch')"
    and "gs_Hash stamp \<noteq> []"
  obtains kind where "gateStampFields current = Some (kind, so_AppliedHash current, so_AppliedAt current)"
    and "latch' = recordGateVerification kind (so_Key current) stamp (Some l)"
    and "written = (if gs_Hash stamp = so_AppliedHash current \<and> so_AppliedAt current \<noteq> None then None
       else Some (current\<lparr>so_AppliedHash := gs_Hash stamp, so_AppliedAt := Some (gs_At stamp)\<rparr>))"
proof -
  obtain kind where kind: "gateStampFields current = Some (kind, so_AppliedHash current, so_AppliedAt current)"
    using assms by (cases "so_Type current") (auto simp: persistGateStamp_def gateStampFields_def)
  with assms that show thesis
    by (auto simp: persistGateStamp_def nextGateStamp_def Let_def split: if_splits option.splits)
qed

lemma settled_open_after_record:
  assumes "policy_ok policy" and "gs_Hash stamp \<noteq> []" and "grade \<noteq> GradeAlways"
    and "\<not> IsInvalidated kind key (Some l)"
    and "0 < gs_At stamp" and "gs_At stamp \<le> now" and "now < gs_At stamp + TTL policy grade"
    and "\<forall>t. appliedAt = Some t \<longrightarrow> t \<le> now"
  shows "gate_Open (settled_gate policy (recordGateVerification kind key stamp (Some l)) grade kind key
     (gs_Hash stamp) (gs_Hash stamp) appliedAt now)"
proof -
  let ?latch = "recordGateVerification kind key stamp (Some l)"
  define applied where "applied = gate_applied_at kind key (gs_Hash stamp) appliedAt ?latch"
  have bounds: "gs_At stamp \<le> applied" "applied \<le> now"
    using assms(5,6,8) by (auto simp: applied_def gate_applied_at_def VerifiedAt_after_record [OF assms(2)] time_after_def
        Let_def not_less split: option.split)
  have "gate_Open (Evaluate policy grade (gs_Hash stamp) (gs_Hash stamp) applied now False)"
    using assms(1-7) bounds TTL_int64 [OF assms(1), of grade]
    by (auto simp: ttl_gate.open_iff [OF assms(1)] time_sub_def Let_def int64_ok_def min_int64_def max_int64_def)
  then show ?thesis
    using assms(4)
    by (simp add: settled_gate_def evaluateGateWithHash_def applied_def ConfirmedAt_after_record
        IsInvalidated_record Let_def)
qed

section \<open>Properties\<close>

text \<open>
  C6: the gate lets a reconciler skip its remote reads only on evidence. When it opens, the
  object is not invalidated, the applied and desired hashes are present and equal, and there
  is a recorded time, not in the future, at which exactly this desired hash was applied or
  verified less than the grade's TTL ago, or confirmed by a sweep less than the sweep window
  ago; the latch is left as it was.
\<close>
theorem gate_open_evidence:
  assumes "policy_ok policy"
    and "evaluateGateWithHash policy latch grade kind key ah dh appliedAt now = (gd, latch', observed)"
    and "gate_Open (gd_Gate gd)"
  shows "grade \<noteq> GradeAlways \<and> \<not> IsInvalidated kind key latch \<and> dh \<noteq> [] \<and> ah = dh \<and> latch' = latch \<and>
    (\<exists>t \<le> now.
       (appliedAt = Some t \<or> VerifiedAt kind key dh latch = Some t) \<and> now - t < TTL policy grade \<or>
       ConfirmedAt kind key dh latch = Some t \<and> now - t < SweepConfirmationWindow policy grade)"
proof -
  have opened: "gate_Open (settled_gate policy latch grade kind key ah dh appliedAt now)"
    using assms(2,3) by (simp add: settled_gate_def)
  have "latch' = latch"
    using evaluateGateWithHash_latch [of policy latch grade kind key ah dh appliedAt now] assms(2) opened by simp
  with settled_open_conditions [OF assms(1) opened] settled_open_evidence [OF assms(1) opened]
  show ?thesis by blast
qed

theorem gate_open_evidence_witness:
  "\<exists>t \<le> (7::int). (Some (5::int) = Some t \<or>
      VerifiedAt ''AccessPolicy'' \<lparr>nn_Namespace = ''n'', nn_Name = ''p''\<rparr> ''h'' (Some (NewLatch :: nat latch)) = Some t) \<and>
        7 - t < TTL DefaultPolicy GradeAuthz \<or>
     ConfirmedAt ''AccessPolicy'' \<lparr>nn_Namespace = ''n'', nn_Name = ''p''\<rparr> ''h'' (Some (NewLatch :: nat latch)) = Some t \<and>
        7 - t < SweepConfirmationWindow DefaultPolicy GradeAuthz"
proof -
  let ?key = "\<lparr>nn_Namespace = ''n'', nn_Name = ''p''\<rparr>"
  let ?latch = "Some (NewLatch :: nat latch)"
  have ok: "policy_ok DefaultPolicy"
    by (simp add: policy_ok_def DefaultPolicy_def int64_ok_def min_int64_def max_int64_def second_def)
  have eval: "evaluateGateWithHash DefaultPolicy ?latch GradeAuthz ''AccessPolicy'' ?key ''h'' ''h'' (Some 5) 7 =
      (\<lparr>gd_Gate = \<lparr>gate_Open = True, gate_Requeue = 59999999998, gate_Decision = DecisionOpen\<rparr>,
        gd_DesiredHash = ''h''\<rparr>, ?latch, Some (''AccessPolicy'', DecisionOpen))"
    by (simp add: evaluateGateWithHash_def gate_applied_at_def Evaluate_def latch_simps NewLatch_def TTL_def
        DefaultPolicy_def second_def time_is_zero_def time_sub_def wrap64_def min_int64_def max_int64_def)
  show ?thesis using gate_open_evidence [OF ok eval] by simp
qed

text \<open>
  A closed gate leaves nothing behind that could re-open it. After an evaluation that closes a
  gated object, no verification and no sweep confirmation of any hash is recorded for it, and
  whether any object is invalidated is unchanged.
\<close>
theorem gate_closed_forgets:
  assumes "evaluateGateWithHash policy latch grade kind key ah dh appliedAt now = (gd, latch', observed)"
    and "\<not> gate_Open (gd_Gate gd)" and "grade \<noteq> GradeAlways"
  shows "VerifiedAt kind key hash latch' = None \<and> ConfirmedAt kind key hash latch' = None \<and>
    IsInvalidated kind' key' latch' = IsInvalidated kind' key' latch \<and>
    observed = Some (kind, gate_Decision (gd_Gate gd))"
proof -
  have settled: "settled_gate policy latch grade kind key ah dh appliedAt now = gd_Gate gd"
    using assms(1) by (simp add: settled_gate_def)
  have "latch' = Forget kind key latch"
    using evaluateGateWithHash_latch [of policy latch grade kind key ah dh appliedAt now] assms settled by simp
  moreover have "observed = Some (kind, gate_Decision (gd_Gate gd))"
    using assms(1,3) settled_not_gated [of policy latch grade kind key ah dh appliedAt now] settled
    by (auto simp: evaluateGateWithHash_def Let_def)
  moreover have "IsInvalidated kind' key' (Forget kind key latch) = IsInvalidated kind' key' latch"
    by (simp add: latch_simps split: option.splits)
  ultimately show ?thesis by (simp add: records_after_Forget)
qed

theorem gate_closed_forgets_witness:
  "VerifiedAt ''AccessPolicy'' \<lparr>nn_Namespace = ''n'', nn_Name = ''p''\<rparr> ''old''
     (Forget ''AccessPolicy'' \<lparr>nn_Namespace = ''n'', nn_Name = ''p''\<rparr>
       (MarkVerified ''AccessPolicy'' \<lparr>nn_Namespace = ''n'', nn_Name = ''p''\<rparr> ''old'' 5 (Some (NewLatch :: nat latch)))) = None"
proof -
  let ?key = "\<lparr>nn_Namespace = ''n'', nn_Name = ''p''\<rparr>"
  let ?latch = "MarkVerified ''AccessPolicy'' ?key ''old'' 5 (Some (NewLatch :: nat latch))"
  have eval: "evaluateGateWithHash DefaultPolicy ?latch GradeAuthz ''AccessPolicy'' ?key ''old'' ''new'' (Some 5) 7 =
      (\<lparr>gd_Gate = closed_gate DecisionClosedHash, gd_DesiredHash = ''new''\<rparr>,
       Forget ''AccessPolicy'' ?key ?latch, Some (''AccessPolicy'', DecisionClosedHash))"
    by (simp add: evaluateGateWithHash_def gate_applied_at_def Evaluate_def latch_simps NewLatch_def TTL_def
        DefaultPolicy_def second_def closed_gate_def)
  show ?thesis using gate_closed_forgets [OF eval] by (simp add: closed_gate_def)
qed

text \<open>
  C17: a converged pass opens its own gate. When persisting a stamp succeeds for an object that is
  not invalidated, the stored hash is the stamp's, and until the grade's TTL has passed since the
  stamp the next evaluation of the same desired state opens; a re-verify that confirms the stored
  hash writes no status. In that last case, where the time stored with the equal hash stays, the evaluation must not be
  before that stored time (no clock of a writer runs ahead of it); otherwise the stored time is the stamp's.
\<close>
theorem persisted_stamp_opens_gate:
  assumes "persistGateStamp (Inr current) patch (Some l) stamp = (None, written, latch')"
    and "gs_Hash stamp \<noteq> []" and "policy_ok policy" and "grade \<noteq> GradeAlways"
    and "gateStampFields current = Some (kind, h, at)" and "\<not> IsInvalidated kind (so_Key current) (Some l)"
    and "so_AppliedHash current = gs_Hash stamp \<Longrightarrow> \<forall>t. so_AppliedAt current = Some t \<longrightarrow> t \<le> now"
    and "0 < gs_At stamp" and "gs_At stamp \<le> now" and "now < gs_At stamp + TTL policy grade"
  shows "let stored = (case written of None \<Rightarrow> current | Some w \<Rightarrow> w) in
    so_AppliedHash stored = gs_Hash stamp \<and>
    (written = None \<longleftrightarrow> gs_Hash stamp = so_AppliedHash current \<and> so_AppliedAt current \<noteq> None) \<and>
    gate_Open (gd_Gate (fst (evaluateGateWithHash policy latch' grade kind (so_Key current)
      (so_AppliedHash stored) (gs_Hash stamp) (so_AppliedAt stored) now)))"
proof -
  obtain kind' where fields: "gateStampFields current = Some (kind', so_AppliedHash current, so_AppliedAt current)"
    and latch': "latch' = recordGateVerification kind' (so_Key current) stamp (Some l)"
    and written: "written = (if gs_Hash stamp = so_AppliedHash current \<and> so_AppliedAt current \<noteq> None then None
       else Some (current\<lparr>so_AppliedHash := gs_Hash stamp, so_AppliedAt := Some (gs_At stamp)\<rparr>))"
    using persist_success [OF assms(1,2)] by blast
  have kind: "kind' = kind" using fields assms(5) by simp
  define stored where "stored = (case written of None \<Rightarrow> current | Some w \<Rightarrow> w)"
  have hash: "so_AppliedHash stored = gs_Hash stamp"
    by (auto simp: stored_def written)
  have at: "\<forall>t. so_AppliedAt stored = Some t \<longrightarrow> t \<le> now"
    using assms(7,9) by (auto simp: stored_def written)
  have "gate_Open (settled_gate policy latch' grade kind (so_Key current)
      (gs_Hash stamp) (gs_Hash stamp) (so_AppliedAt stored) now)"
    unfolding latch' kind
    by (rule settled_open_after_record [OF assms(3,2,4,6,8,9,10) at])
  then have "gate_Open (gd_Gate (fst (evaluateGateWithHash policy latch' grade kind (so_Key current)
      (so_AppliedHash stored) (gs_Hash stamp) (so_AppliedAt stored) now)))"
    by (simp add: settled_gate_def hash)
  with hash show ?thesis unfolding stored_def by (auto simp: written Let_def)
qed

theorem persisted_stamp_opens_gate_witness:
  "gate_Open (gd_Gate (fst (evaluateGateWithHash DefaultPolicy
     (recordGateVerification ''AccessPolicy'' \<lparr>nn_Namespace = ''n'', nn_Name = ''p''\<rparr>
        (newGateStamp ''h'' 9) (Some (NewLatch :: nat latch)))
     GradeAuthz ''AccessPolicy'' \<lparr>nn_Namespace = ''n'', nn_Name = ''p''\<rparr> ''h'' ''h'' (Some 9) 11)))"
proof -
  let ?key = "\<lparr>nn_Namespace = ''n'', nn_Name = ''p''\<rparr>"
  let ?obj = "\<lparr>so_Type = TAccessPolicy, so_Key = ?key, so_AppliedHash = ''old'', so_AppliedAt = Some 3\<rparr>"
  let ?stamp = "newGateStamp ''h'' 9 :: nat gateStamp"
  have ok: "policy_ok DefaultPolicy"
    by (simp add: policy_ok_def DefaultPolicy_def int64_ok_def min_int64_def max_int64_def second_def)
  have fields: "gateStampFields ?obj = Some (''AccessPolicy'', ''old'', Some 3)"
    by (simp add: gateStampFields_def)
  have persist: "persistGateStamp (Inr ?obj) (\<lambda>_. None) (Some NewLatch) ?stamp =
      (None, Some (?obj\<lparr>so_AppliedHash := ''h'', so_AppliedAt := Some 9\<rparr>),
       recordGateVerification ''AccessPolicy'' ?key ?stamp (Some NewLatch))"
    by (simp add: persistGateStamp_def fields nextGateStamp_def newGateStamp_def Let_def)
  show ?thesis
    using persisted_stamp_opens_gate [OF persist _ ok, of GradeAuthz "''AccessPolicy''" "''old''" "Some 3" 11] fields
    by (simp add: newGateStamp_def TTL_def DefaultPolicy_def second_def IsInvalidated_def NewLatch_def)
qed

text \<open>
  C16: an invalidation is never lost. Whatever sequence of latch methods runs concurrently, with the
  two halves of a content confirmation interleaved arbitrarily, as long as none of them clears or
  removes the object, a gate of that object stays closed at every grade, hash and time.
\<close>
theorem invalidation_keeps_gate_closed:
  assumes "latch_runs r events s" and "\<forall>e \<in> set events. \<not> releases kind key e"
    and "IsInvalidated kind key (Some (run_latch r))" and "policy_ok policy"
  shows "\<not> gate_Open (gd_Gate (fst (evaluateGateWithHash policy (Some (run_latch s)) grade kind key
    ah dh appliedAt now)))"
proof -
  have "IsInvalidated kind key (Some (run_latch s))"
    using assms(1-3) by (rule latch_runs_keeps_invalidation)
  then show ?thesis
    using settled_open_conditions [OF assms(4), of "Some (run_latch s)" grade kind key ah dh appliedAt now]
    by (auto simp: settled_gate_def)
qed

theorem invalidation_keeps_gate_closed_witness:
  "\<not> gate_Open (gd_Gate (fst (evaluateGateWithHash DefaultPolicy
     (MarkVerified ''AccessPolicy'' \<lparr>nn_Namespace = ''n'', nn_Name = ''p''\<rparr> ''h'' 5
       (Invalidate ''AccessPolicy'' \<lparr>nn_Namespace = ''n'', nn_Name = ''p''\<rparr> ''drift'' (Some (NewLatch :: nat latch))))
     GradeAuthz ''AccessPolicy'' \<lparr>nn_Namespace = ''n'', nn_Name = ''p''\<rparr> ''h'' ''h'' (Some 5) 6)))"
proof -
  let ?key = "\<lparr>nn_Namespace = ''n'', nn_Name = ''p''\<rparr>"
  let ?l = "the (Invalidate ''AccessPolicy'' ?key ''drift'' (Some (NewLatch :: nat latch)))"
  let ?l' = "the (MarkVerified ''AccessPolicy'' ?key ''h'' 5 (Some ?l))"
  let ?r = "\<lparr>run_latch = ?l, run_inflight = []\<rparr>"
  have step: "latch_step ?r (EvMarkVerified ''AccessPolicy'' ?key ''h'' 5) (?r\<lparr>run_latch := ?l'\<rparr>)"
    by (rule latch_step.mark_verified) (simp add: MarkVerified_def)
  have runs: "latch_runs ?r [EvMarkVerified ''AccessPolicy'' ?key ''h'' 5] (?r\<lparr>run_latch := ?l'\<rparr>)"
    by (rule latch_runs.more [OF step latch_runs.stop])
  have ok: "policy_ok DefaultPolicy"
    by (simp add: policy_ok_def DefaultPolicy_def int64_ok_def min_int64_def max_int64_def second_def)
  show ?thesis
    using invalidation_keeps_gate_closed [OF runs, of "''AccessPolicy''" ?key DefaultPolicy] ok
    by (simp add: releases_def IsInvalidated_def Invalidate_def MarkVerified_def Let_def)
qed

text \<open>
  In every latch reachable from an empty one, under every interleaving, a sweep confirmation
  names the hash of the content baseline that is registered now, so a confirmation of replaced
  content can never open a gate: the hash it is asked for is non-empty and is the baseline's.
\<close>
theorem confirmation_matches_baseline:
  assumes "latch_runs \<lparr>run_latch = NewLatch, run_inflight = []\<rparr> events s"
    and "ConfirmedAt kind key hash (Some (run_latch s)) = Some t"
  shows "\<exists>b. confirm_read kind key (Some (run_latch s)) = Some b \<and> bl_hash b = hash \<and> hash \<noteq> []"
proof -
  have "latch_inv (run_latch s)"
    using latch_runs_inv [OF assms(1)] by (simp add: latch_inv_NewLatch)
  with assms(2) show ?thesis
    by (force simp: ConfirmedAt_def confirm_read_def latch_inv_def split: option.splits if_splits)
qed

theorem confirmation_matches_baseline_witness:
  "\<exists>b. confirm_read ''AccessPolicy'' \<lparr>nn_Namespace = ''n'', nn_Name = ''p''\<rparr>
      (confirm_record ''AccessPolicy'' \<lparr>nn_Namespace = ''n'', nn_Name = ''p''\<rparr> ''h'' 4
        (SetBaseline ''AccessPolicy'' \<lparr>nn_Namespace = ''n'', nn_Name = ''p''\<rparr> ''h'' (Some (\<lambda>x::nat. x = 1)) (Some NewLatch))) = Some b \<and>
     bl_hash b = ''h'' \<and> ''h'' \<noteq> []"
proof -
  let ?key = "\<lparr>nn_Namespace = ''n'', nn_Name = ''p''\<rparr>"
  let ?l1 = "the (SetBaseline ''AccessPolicy'' ?key ''h'' (Some (\<lambda>x::nat. x = 1)) (Some NewLatch))"
  let ?l2 = "the (confirm_record ''AccessPolicy'' ?key ''h'' 4 (Some ?l1))"
  let ?r0 = "\<lparr>run_latch = NewLatch, run_inflight = []\<rparr>"
  let ?r1 = "?r0\<lparr>run_latch := ?l1\<rparr>"
  let ?r2 = "?r1\<lparr>run_inflight := [(''AccessPolicy'', ?key, ''h'', 4)]\<rparr>"
  have s1: "latch_step ?r0 (EvSetBaseline ''AccessPolicy'' ?key ''h'') ?r1"
    by (rule latch_step.set_baseline [where matches = "Some (\<lambda>x. x = 1)"]) (simp add: SetBaseline_def Let_def)
  have s2: "latch_step ?r1 (EvCompared ''AccessPolicy'' ?key) ?r2"
    using latch_step.compared [of "''AccessPolicy''" ?key ?r1 "\<lparr>bl_hash = ''h'', bl_matches = (\<lambda>x. x = 1)\<rparr>" 1 4]
    by (simp add: confirm_read_def SetBaseline_def Let_def)
  have s3: "latch_step ?r2 (EvConfirmed ''AccessPolicy'' ?key) (?r2\<lparr>run_latch := ?l2, run_inflight := [] @ []\<rparr>)"
    by (rule latch_step.confirmed [where before = "[]" and after = "[]" and hash = "''h''" and at = 4])
      (simp_all add: confirm_record_def SetBaseline_def NewLatch_def Let_def)
  note runs = latch_runs.more [OF s1 latch_runs.more [OF s2 latch_runs.more [OF s3 latch_runs.stop]]]
  show ?thesis
    using confirmation_matches_baseline [OF runs, of "''AccessPolicy''" ?key "''h''" 4]
    by (simp add: ConfirmedAt_def confirm_record_def SetBaseline_def NewLatch_def Let_def)
qed

end
