(* ===== verification/AckTracker.thy ===== *)
theory AckTracker
  imports Prelude
begin

text \<open>
  \<^verbatim>\<open>src/internal/xds/server/tracker.go\<close>: the tracker that correlates Delta xDS responses with the ACKs and NACKs of
  the Envoy streams and decides when a snapshot has converged. Nested Go maps, whose missing and empty inner
  maps read alike, are maps on tuples of keys; the maps the code iterates over are association lists. Every
  method runs under the tracker's mutex, so a method is one step. \<open>json\<close> and \<open>sha\<close> stand for \<^verbatim>\<open>encoding/json\<close> and
  \<^verbatim>\<open>crypto/sha256\<close>.
\<close>

section \<open>State and messages\<close>

record nack =
  na_Version :: string
  na_TypeURL :: string
  na_Detail :: string

record pendingResponse =
  pn_node :: string
  pn_version :: string

record streamAck =
  sa_version :: string
  sa_fingerprint :: string

record expectedSnapshot =
  ex_version :: string
  ex_required :: "string list"

record ackTracker =
  at_pending :: "int \<times> string \<times> string \<rightharpoonup> pendingResponse"
  at_nodes :: "(int, string) gomap"
  at_subscriptions :: "int \<times> string \<Rightarrow> bool"
  at_expected :: "string \<rightharpoonup> expectedSnapshot"
  at_fingerprints :: "string \<Rightarrow> (string, string) gomap"
  at_acked :: "int \<times> string \<rightharpoonup> streamAck"
  at_nacks :: "int \<rightharpoonup> nack"
  at_initialFingerprints :: "int \<Rightarrow> (string, string) gomap"

record deltaRequest =
  dr_NodeCluster :: string
  dr_TypeUrl :: string
  dr_ResponseNonce :: string
  dr_InitialResourceVersions :: "(string, string) gomap"
  dr_ErrorDetail :: "string option"

record deltaResponse =
  ds_Nonce :: string
  ds_TypeUrl :: string
  ds_SystemVersionInfo :: string

definition NewAckTracker :: ackTracker where
  "NewAckTracker = \<lparr>at_pending = Map.empty, at_nodes = [], at_subscriptions = (\<lambda>_. False), at_expected = Map.empty,
     at_fingerprints = (\<lambda>_. []), at_acked = Map.empty, at_nacks = Map.empty, at_initialFingerprints = (\<lambda>_. [])\<rparr>"

section \<open>Operations\<close>

definition sameFingerprints :: "(string, string) gomap \<Rightarrow> (string, string) gomap \<Rightarrow> bool" where
  "sameFingerprints left right \<longleftrightarrow>
     length left = length right \<and> list_all (\<lambda>(typeURL, fingerprint). mget_default right typeURL [] = fingerprint) left"

definition fingerprintVersionMap ::
  "((string, string) gomap \<Rightarrow> string option) \<Rightarrow> (string \<Rightarrow> string) \<Rightarrow> (string, string) gomap \<Rightarrow> string option" where
  "fingerprintVersionMap json sha versionMap = map_option (\<lambda>data. hex_encode (sha data)) (json versionMap)"

definition subscribeLocked :: "int \<Rightarrow> string \<Rightarrow> ackTracker \<Rightarrow> ackTracker" where
  "subscribeLocked streamID typeURL t =
     (if typeURL = [] then t else t\<lparr>at_subscriptions := (at_subscriptions t)((streamID, typeURL) := True)\<rparr>)"

definition forgetInitialFingerprintLocked :: "int \<Rightarrow> string \<Rightarrow> ackTracker \<Rightarrow> ackTracker" where
  "forgetInitialFingerprintLocked streamID typeURL t =
     t\<lparr>at_initialFingerprints := (at_initialFingerprints t)(streamID := mdel typeURL (at_initialFingerprints t streamID))\<rparr>"

text \<open>Clear a recorded rejection of this version and type.\<close>

definition clear_nack :: "int \<Rightarrow> string \<Rightarrow> string \<Rightarrow> ackTracker \<Rightarrow> ackTracker" where
  "clear_nack streamID version typeURL t =
     (case at_nacks t streamID of
        Some n \<Rightarrow> if na_Version n = version \<and> na_TypeURL n = typeURL
                  then t\<lparr>at_nacks := (at_nacks t)(streamID := None)\<rparr> else t
      | None \<Rightarrow> t)"

definition acceptInitialFingerprintLocked :: "int \<Rightarrow> string \<Rightarrow> string \<Rightarrow> string \<Rightarrow> ackTracker \<Rightarrow> ackTracker" where
  "acceptInitialFingerprintLocked streamID node typeURL fingerprint t =
     (case at_expected t node of
        None \<Rightarrow> t
      | Some expected \<Rightarrow>
          if fingerprint \<noteq> mget_default (at_fingerprints t node) typeURL [] then t
          else clear_nack streamID (ex_version expected) typeURL
                 (t\<lparr>at_acked := (at_acked t)((streamID, typeURL) \<mapsto>
                    \<lparr>sa_version = ex_version expected, sa_fingerprint = fingerprint\<rparr>)\<rparr>))"

definition acceptInitialVersionsLocked ::
  "((string, string) gomap \<Rightarrow> string option) \<Rightarrow> (string \<Rightarrow> string) \<Rightarrow> int \<Rightarrow> string \<Rightarrow> string \<Rightarrow> (string, string) gomap
    \<Rightarrow> ackTracker \<Rightarrow> ackTracker" where
  "acceptInitialVersionsLocked json sha streamID node typeURL versions t =
     (if node = [] \<or> typeURL = [] \<or> versions = [] then t
      else case fingerprintVersionMap json sha versions of
        None \<Rightarrow> t
      | Some fingerprint \<Rightarrow>
          if fingerprint = [] then t
          else if at_expected t node = None then
            t\<lparr>at_initialFingerprints := (at_initialFingerprints t)(streamID :=
              mput typeURL fingerprint (at_initialFingerprints t streamID))\<rparr>
          else acceptInitialFingerprintLocked streamID node typeURL fingerprint t)"

definition hasStreamLocked :: "string \<Rightarrow> ackTracker \<Rightarrow> bool" where
  "hasStreamLocked node t = list_ex (\<lambda>(_, streamNode). streamNode = node) (at_nodes t)"

definition streamIDsLocked :: "string \<Rightarrow> ackTracker \<Rightarrow> int list" where
  "streamIDsLocked node t = sort (map fst (filter (\<lambda>(_, streamNode). streamNode = node) (at_nodes t)))"

text \<open>The body of the loop over the node's streams in \<^verbatim>\<open>ExpectSnapshot\<close>.\<close>

definition consume_initial :: "string \<Rightarrow> int \<Rightarrow> ackTracker \<Rightarrow> ackTracker" where
  "consume_initial node streamID t =
     (let t1 = t\<lparr>at_nacks := (at_nacks t)(streamID := None)\<rparr>;
          t2 = fold (\<lambda>(typeURL, fingerprint). acceptInitialFingerprintLocked streamID node typeURL fingerprint)
                 (at_initialFingerprints t streamID) t1
      in t2\<lparr>at_initialFingerprints := (at_initialFingerprints t2)(streamID := [])\<rparr>)"

definition ExpectSnapshot ::
  "string \<Rightarrow> string \<Rightarrow> (string, string) gomap \<Rightarrow> string list \<Rightarrow> ackTracker \<Rightarrow> ackTracker" where
  "ExpectSnapshot node version fingerprints required t =
     (if (case at_expected t node of None \<Rightarrow> False | Some expected \<Rightarrow> ex_version expected = version) \<and>
         sameFingerprints (at_fingerprints t node) fingerprints then t
      else
        fold (consume_initial node) (map fst (filter (\<lambda>(_, streamNode). streamNode = node) (at_nodes t)))
          (t\<lparr>at_fingerprints := (at_fingerprints t)(node := fingerprints),
             at_expected := (at_expected t)(node \<mapsto>
               \<lparr>ex_version = version, ex_required = filter (\<lambda>typeURL. mget fingerprints typeURL \<noteq> None) required\<rparr>)\<rparr>))"

text \<open>Requests and responses name their node only on the first message of a stream.\<close>

definition stream_node :: "int \<Rightarrow> string \<Rightarrow> ackTracker \<Rightarrow> string \<times> ackTracker" where
  "stream_node streamID node t =
     (if node \<noteq> [] then (node, t\<lparr>at_nodes := mput streamID node (at_nodes t)\<rparr>)
      else (mget_default (at_nodes t) streamID [], t))"

definition OnResponse :: "int \<Rightarrow> deltaRequest option \<Rightarrow> deltaResponse option \<Rightarrow> ackTracker \<Rightarrow> ackTracker" where
  "OnResponse streamID req resp t =
     (case (req, resp) of
        (Some rq, Some rs) \<Rightarrow>
          if ds_Nonce rs = [] then t
          else let (node, t1) = stream_node streamID (dr_NodeCluster rq) t in
            if node = [] then t1
            else let t2 = forgetInitialFingerprintLocked streamID (ds_TypeUrl rs) (subscribeLocked streamID (ds_TypeUrl rs) t1) in
              t2\<lparr>at_pending := (at_pending t2)((streamID, ds_TypeUrl rs, ds_Nonce rs) \<mapsto>
                \<lparr>pn_node = node, pn_version = ds_SystemVersionInfo rs\<rparr>)\<rparr>
      | _ \<Rightarrow> t)"

text \<open>A matched nonce: a rejection, or an acknowledgement that counts when it is for the expected version.\<close>

definition consume_nonce :: "int \<Rightarrow> deltaRequest \<Rightarrow> pendingResponse \<Rightarrow> ackTracker \<Rightarrow> ackTracker" where
  "consume_nonce streamID req pending t =
     (let typeURL = dr_TypeUrl req;
          t1 = t\<lparr>at_pending := (at_pending t)((streamID, typeURL, dr_ResponseNonce req) := None)\<rparr>
      in case dr_ErrorDetail req of
           Some detail \<Rightarrow>
             t1\<lparr>at_nacks := (at_nacks t1)(streamID \<mapsto>
                  \<lparr>na_Version = pn_version pending, na_TypeURL = typeURL, na_Detail = detail\<rparr>),
                at_acked := (at_acked t1)((streamID, typeURL) := None)\<rparr>
         | None \<Rightarrow>
             clear_nack streamID (pn_version pending) typeURL
               (if (case at_expected t1 (pn_node pending) of None \<Rightarrow> False
                    | Some expected \<Rightarrow> ex_version expected = pn_version pending)
                then t1\<lparr>at_acked := (at_acked t1)((streamID, typeURL) \<mapsto>
                       \<lparr>sa_version = pn_version pending,
                        sa_fingerprint = mget_default (at_fingerprints t1 (pn_node pending)) typeURL []\<rparr>)\<rparr>
                else t1))"

definition OnRequest ::
  "((string, string) gomap \<Rightarrow> string option) \<Rightarrow> (string \<Rightarrow> string) \<Rightarrow> int \<Rightarrow> deltaRequest option \<Rightarrow> ackTracker \<Rightarrow> ackTracker" where
  "OnRequest json sha streamID req t =
     (case req of
        None \<Rightarrow> t
      | Some rq \<Rightarrow>
          (let (node, t1) = stream_node streamID (dr_NodeCluster rq) t;
               t2 = subscribeLocked streamID (dr_TypeUrl rq) t1
           in if dr_ResponseNonce rq = [] then
                acceptInitialVersionsLocked json sha streamID node (dr_TypeUrl rq) (dr_InitialResourceVersions rq) t2
              else let t3 = forgetInitialFingerprintLocked streamID (dr_TypeUrl rq) t2 in
                case at_pending t3 (streamID, dr_TypeUrl rq, dr_ResponseNonce rq) of
                  None \<Rightarrow> t3
                | Some pending \<Rightarrow> consume_nonce streamID rq pending t3))"

definition OnStreamClosed :: "int \<Rightarrow> ackTracker \<Rightarrow> ackTracker" where
  "OnStreamClosed streamID t =
     t\<lparr>at_pending := (\<lambda>k. if fst k = streamID then None else at_pending t k),
       at_nodes := mdel streamID (at_nodes t),
       at_subscriptions := (\<lambda>k. if fst k = streamID then False else at_subscriptions t k),
       at_acked := (\<lambda>k. if fst k = streamID then None else at_acked t k),
       at_nacks := (at_nacks t)(streamID := None),
       at_initialFingerprints := (at_initialFingerprints t)(streamID := [])\<rparr>"

definition tracker_Forget :: "string \<Rightarrow> ackTracker \<Rightarrow> ackTracker" where
  "tracker_Forget node t =
     t\<lparr>at_expected := (at_expected t)(node := None),
       at_fingerprints := (at_fingerprints t)(node := []),
       at_acked := (\<lambda>k. if mget (at_nodes t) (fst k) = Some node then None else at_acked t k),
       at_nacks := (\<lambda>s. if mget (at_nodes t) s = Some node then None else at_nacks t s),
       at_initialFingerprints := (\<lambda>s. if mget (at_nodes t) s = Some node then [] else at_initialFingerprints t s),
       at_pending := (\<lambda>k. case at_pending t k of None \<Rightarrow> None
                         | Some p \<Rightarrow> if pn_node p = node then None else Some p)\<rparr>"

section \<open>Queries\<close>

definition acked_fingerprint :: "int \<Rightarrow> string \<Rightarrow> ackTracker \<Rightarrow> string" where
  "acked_fingerprint streamID typeURL t =
     (case at_acked t (streamID, typeURL) of None \<Rightarrow> [] | Some a \<Rightarrow> sa_fingerprint a)"

definition type_blocks :: "ackTracker \<Rightarrow> expectedSnapshot \<Rightarrow> int \<Rightarrow> string \<Rightarrow> string \<Rightarrow> bool" where
  "type_blocks t expected streamID typeURL fingerprint \<longleftrightarrow>
     (at_subscriptions t (streamID, typeURL) \<or> typeURL \<in> set (ex_required expected)) \<and>
     acked_fingerprint streamID typeURL t \<noteq> fingerprint"

definition IsACKed :: "string \<Rightarrow> string \<Rightarrow> ackTracker \<Rightarrow> bool" where
  "IsACKed node version t =
     (case at_expected t node of
        None \<Rightarrow> False
      | Some expected \<Rightarrow>
          if ex_version expected \<noteq> version then False
          else let present = at_fingerprints t node in
            if present = [] then True
            else if \<not> hasStreamLocked node t then False
            else list_all (\<lambda>(streamID, streamNode).
              streamNode \<noteq> node \<or>
              ((case at_nacks t streamID of None \<Rightarrow> True | Some n \<Rightarrow> na_Version n \<noteq> version) \<and>
               list_all (\<lambda>(typeURL, fingerprint). \<not> type_blocks t expected streamID typeURL fingerprint) present))
              (at_nodes t))"

definition LastNACK :: "string \<Rightarrow> ackTracker \<Rightarrow> nack option" where
  "LastNACK node t =
     (case at_expected t node of
        None \<Rightarrow> None
      | Some expected \<Rightarrow>
          (case filter (\<lambda>n. na_Version n = ex_version expected) (List.map_filter (at_nacks t) (streamIDsLocked node t)) of
             [] \<Rightarrow> None | n # _ \<Rightarrow> Some n))"

definition shortTypeURL :: "string \<Rightarrow> string" where
  "shortTypeURL typeURL = rev (takeWhile (\<lambda>c. c \<noteq> CHR ''.'') (rev typeURL))"

definition shortVersion :: "string \<Rightarrow> string" where
  "shortVersion version = take 12 version"

text \<open>The states are \<^verbatim>\<open>staleAck\<close> = 0, \<^verbatim>\<open>noAck\<close> = 1 and \<^verbatim>\<open>notSubscribed\<close> = 2; the map of worst states reads 0 where it has no key.\<close>

definition missing_state :: "ackTracker \<Rightarrow> int \<Rightarrow> string \<Rightarrow> nat" where
  "missing_state t streamID typeURL =
     (if \<not> at_subscriptions t (streamID, typeURL) then 2
      else case at_acked t (streamID, typeURL) of
        None \<Rightarrow> 1 | Some a \<Rightarrow> if sa_version a \<noteq> [] \<or> sa_fingerprint a \<noteq> [] then 0 else 1)"

definition note_missing ::
  "ackTracker \<Rightarrow> expectedSnapshot \<Rightarrow> int \<Rightarrow> string \<times> string \<Rightarrow> (string, nat) gomap \<Rightarrow> (string, nat) gomap" where
  "note_missing t expected streamID tf worst =
     (let typeURL = fst tf; state = missing_state t streamID typeURL in
      if type_blocks t expected streamID typeURL (snd tf) \<and> state > mget_default worst typeURL 0
      then mput typeURL state worst else worst)"

definition worst_states :: "string \<Rightarrow> expectedSnapshot \<Rightarrow> ackTracker \<Rightarrow> (string, nat) gomap" where
  "worst_states node expected t =
     fold (\<lambda>streamID. fold (note_missing t expected streamID) (at_fingerprints t node)) (streamIDsLocked node t) []"

definition missing_detail :: "string \<times> nat \<Rightarrow> string" where
  "missing_detail ts =
     shortTypeURL (fst ts) @ ''('' @
     (if snd ts = 2 then ''not subscribed'' else if snd ts = 0 then ''stale ACK'' else ''no ACK'') @ '')''"

definition ConvergenceDetails :: "string \<Rightarrow> string \<Rightarrow> ackTracker \<Rightarrow> string" where
  "ConvergenceDetails node version t =
     (case at_expected t node of
        None \<Rightarrow> ''snapshot is not registered''
      | Some expected \<Rightarrow>
          if ex_version expected \<noteq> version then
            ''expected version '' @ shortVersion (ex_version expected) @ '', requested '' @ shortVersion version
          else let streams = streamIDsLocked node t in
            if at_fingerprints t node \<noteq> [] \<and> streams = [] then ''no live xDS stream''
            else (case filter (\<lambda>n. na_Version n = version) (List.map_filter (at_nacks t) streams) of
                    n # _ \<Rightarrow> ''NACK '' @ shortTypeURL (na_TypeURL n) @ '': '' @ na_Detail n
                  | [] \<Rightarrow>
                      (let missing = sort (map missing_detail (worst_states node expected t)) in
                       if missing = [] then []
                       else ''want '' @ shortVersion version @ '', '' @ show_int (int (length streams)) @
                            '' live stream(s), missing '' @ join missing '','')))"

section \<open>Runs\<close>

datatype tracker_event =
    EvExpect string string "(string, string) gomap" "string list"
  | EvResponse int "deltaRequest option" "deltaResponse option"
  | EvRequest int "deltaRequest option"
  | EvClosed int
  | EvForget string

definition tracker_step ::
  "((string, string) gomap \<Rightarrow> string option) \<Rightarrow> (string \<Rightarrow> string) \<Rightarrow> tracker_event \<Rightarrow> ackTracker \<Rightarrow> ackTracker" where
  "tracker_step json sha e t =
     (case e of
        EvExpect node version fingerprints required \<Rightarrow> ExpectSnapshot node version fingerprints required t
      | EvResponse s req resp \<Rightarrow> OnResponse s req resp t
      | EvRequest s req \<Rightarrow> OnRequest json sha s req t
      | EvClosed s \<Rightarrow> OnStreamClosed s t
      | EvForget node \<Rightarrow> tracker_Forget node t)"

definition tracker_run ::
  "((string, string) gomap \<Rightarrow> string option) \<Rightarrow> (string \<Rightarrow> string) \<Rightarrow> tracker_event list \<Rightarrow> ackTracker" where
  "tracker_run json sha es = fold (tracker_step json sha) es NewAckTracker"

text \<open>
  The protocol evidence an event gives, in the state before it, that a stream holds a resource fingerprint: an ACK whose
  nonce answers a response of the expected version, initial versions equal to the expected ones, or initial versions
  reported earlier that the newly expected snapshot confirms.
\<close>

definition proves ::
  "((string, string) gomap \<Rightarrow> string option) \<Rightarrow> (string \<Rightarrow> string) \<Rightarrow> ackTracker \<Rightarrow> tracker_event \<Rightarrow> int \<Rightarrow> string \<Rightarrow> streamAck \<Rightarrow> bool" where
  "proves json sha t e s ty a \<longleftrightarrow>
     (\<exists>rq p x. e = EvRequest s (Some rq) \<and> dr_TypeUrl rq = ty \<and> dr_ResponseNonce rq \<noteq> [] \<and> dr_ErrorDetail rq = None \<and>
        at_pending t (s, ty, dr_ResponseNonce rq) = Some p \<and> at_expected t (pn_node p) = Some x \<and>
        ex_version x = pn_version p \<and>
        a = \<lparr>sa_version = pn_version p, sa_fingerprint = mget_default (at_fingerprints t (pn_node p)) ty []\<rparr>) \<or>
     (\<exists>rq node x. e = EvRequest s (Some rq) \<and> dr_TypeUrl rq = ty \<and> dr_ResponseNonce rq = [] \<and> at_expected t node = Some x \<and>
        fingerprintVersionMap json sha (dr_InitialResourceVersions rq) = Some (sa_fingerprint a) \<and>
        sa_version a = ex_version x \<and> sa_fingerprint a = mget_default (at_fingerprints t node) ty []) \<or>
     (\<exists>node version fps req. e = EvExpect node version fps req \<and> mget (at_nodes t) s = Some node \<and>
        (ty, sa_fingerprint a) \<in> set (at_initialFingerprints t s) \<and> sa_version a = version \<and>
        sa_fingerprint a = mget_default fps ty [])"

section \<open>Lemmas\<close>

lemma tracker_run_snoc: "tracker_run json sha (es @ [e]) = tracker_step json sha e (tracker_run json sha es)"
  by (simp add: tracker_run_def)

lemma clear_nack_fields [simp]:
  "at_pending (clear_nack s v ty t) = at_pending t" "at_nodes (clear_nack s v ty t) = at_nodes t"
  "at_subscriptions (clear_nack s v ty t) = at_subscriptions t" "at_expected (clear_nack s v ty t) = at_expected t"
  "at_fingerprints (clear_nack s v ty t) = at_fingerprints t" "at_acked (clear_nack s v ty t) = at_acked t"
  "at_initialFingerprints (clear_nack s v ty t) = at_initialFingerprints t"
  by (simp_all add: clear_nack_def split: option.split)

lemma clear_nack_nacks:
  "at_nacks (clear_nack s v ty t) s' =
     (if s' = s \<and> (\<exists>n. at_nacks t s = Some n \<and> na_Version n = v \<and> na_TypeURL n = ty) then None else at_nacks t s')"
  by (auto simp: clear_nack_def split: option.split)

lemma accept_initial_fields [simp]:
  "at_pending (acceptInitialFingerprintLocked s node ty fp t) = at_pending t"
  "at_nodes (acceptInitialFingerprintLocked s node ty fp t) = at_nodes t"
  "at_subscriptions (acceptInitialFingerprintLocked s node ty fp t) = at_subscriptions t"
  "at_expected (acceptInitialFingerprintLocked s node ty fp t) = at_expected t"
  "at_fingerprints (acceptInitialFingerprintLocked s node ty fp t) = at_fingerprints t"
  "at_initialFingerprints (acceptInitialFingerprintLocked s node ty fp t) = at_initialFingerprints t"
  by (simp_all add: acceptInitialFingerprintLocked_def split: option.split)

lemma accept_initial_acked:
  "at_acked (acceptInitialFingerprintLocked s node ty fp t) (s', ty') =
     (case at_expected t node of
        Some x \<Rightarrow> if s' = s \<and> ty' = ty \<and> fp = mget_default (at_fingerprints t node) ty []
                  then Some \<lparr>sa_version = ex_version x, sa_fingerprint = fp\<rparr> else at_acked t (s', ty')
      | None \<Rightarrow> at_acked t (s', ty'))"
  by (auto simp: acceptInitialFingerprintLocked_def split: option.split)

lemma subscribe_fields [simp]:
  "at_pending (subscribeLocked s ty t) = at_pending t" "at_nodes (subscribeLocked s ty t) = at_nodes t"
  "at_expected (subscribeLocked s ty t) = at_expected t" "at_fingerprints (subscribeLocked s ty t) = at_fingerprints t"
  "at_acked (subscribeLocked s ty t) = at_acked t" "at_nacks (subscribeLocked s ty t) = at_nacks t"
  "at_initialFingerprints (subscribeLocked s ty t) = at_initialFingerprints t"
  by (simp_all add: subscribeLocked_def)

lemma forget_initial_fields [simp]:
  "at_pending (forgetInitialFingerprintLocked s ty t) = at_pending t" "at_nodes (forgetInitialFingerprintLocked s ty t) = at_nodes t"
  "at_subscriptions (forgetInitialFingerprintLocked s ty t) = at_subscriptions t"
  "at_expected (forgetInitialFingerprintLocked s ty t) = at_expected t"
  "at_fingerprints (forgetInitialFingerprintLocked s ty t) = at_fingerprints t"
  "at_acked (forgetInitialFingerprintLocked s ty t) = at_acked t" "at_nacks (forgetInitialFingerprintLocked s ty t) = at_nacks t"
  by (simp_all add: forgetInitialFingerprintLocked_def)

lemma stream_node_fields [simp]:
  "at_pending (snd (stream_node s n t)) = at_pending t" "at_subscriptions (snd (stream_node s n t)) = at_subscriptions t"
  "at_expected (snd (stream_node s n t)) = at_expected t" "at_fingerprints (snd (stream_node s n t)) = at_fingerprints t"
  "at_acked (snd (stream_node s n t)) = at_acked t" "at_nacks (snd (stream_node s n t)) = at_nacks t"
  "at_initialFingerprints (snd (stream_node s n t)) = at_initialFingerprints t"
  by (simp_all add: stream_node_def)

lemma accept_versions_acked:
  "at_acked (acceptInitialVersionsLocked json sha s node ty versions t) (s', ty') = at_acked t (s', ty') \<or>
   (s' = s \<and> ty' = ty \<and> (\<exists>x fp. at_expected t node = Some x \<and> fingerprintVersionMap json sha versions = Some fp \<and>
      fp = mget_default (at_fingerprints t node) ty [] \<and>
      at_acked (acceptInitialVersionsLocked json sha s node ty versions t) (s', ty') =
        Some \<lparr>sa_version = ex_version x, sa_fingerprint = fp\<rparr>))"
  by (auto simp: acceptInitialVersionsLocked_def accept_initial_acked split: option.split)

text \<open>Every change of the ACK record of a stream and type is backed by evidence or removes the record.\<close>

lemma request_acked:
  assumes "at_acked (OnRequest json sha s req t) (s', ty) = Some a" and "at_acked t (s', ty) \<noteq> Some a"
  shows "proves json sha t (EvRequest s req) s' ty a"
proof -
  obtain rq where rq: "req = Some rq" using assms by (cases req) (auto simp: OnRequest_def)
  obtain node t1 where node: "stream_node s (dr_NodeCluster rq) t = (node, t1)" by (metis surj_pair)
  have t1: "at_acked t1 = at_acked t" "at_expected t1 = at_expected t" "at_fingerprints t1 = at_fingerprints t"
    "at_pending t1 = at_pending t"
    using stream_node_fields [of s "dr_NodeCluster rq" t] node by simp_all
  let ?t2 = "subscribeLocked s (dr_TypeUrl rq) t1"
  let ?t3 = "forgetInitialFingerprintLocked s (dr_TypeUrl rq) ?t2"
  show ?thesis
  proof (cases "dr_ResponseNonce rq = []")
    case True
    then have "OnRequest json sha s req t =
        acceptInitialVersionsLocked json sha s node (dr_TypeUrl rq) (dr_InitialResourceVersions rq) ?t2"
      by (simp add: OnRequest_def rq node)
    with accept_versions_acked [of json sha s node "dr_TypeUrl rq" "dr_InitialResourceVersions rq" ?t2 s' ty] assms
    obtain x where "s' = s" "ty = dr_TypeUrl rq" "at_expected t node = Some x"
      "fingerprintVersionMap json sha (dr_InitialResourceVersions rq) = Some (sa_fingerprint a)" "sa_version a = ex_version x"
      "sa_fingerprint a = mget_default (at_fingerprints t node) (dr_TypeUrl rq) []"
      by (auto simp: t1)
    then show ?thesis using True unfolding proves_def rq by blast
  next
    case False
    then have eq: "OnRequest json sha s req t =
        (case at_pending t (s, dr_TypeUrl rq, dr_ResponseNonce rq) of None \<Rightarrow> ?t3 | Some p \<Rightarrow> consume_nonce s rq p ?t3)"
      by (simp add: OnRequest_def rq node t1 Let_def)
    then obtain p where p: "at_pending t (s, dr_TypeUrl rq, dr_ResponseNonce rq) = Some p"
      using assms t1 by (cases "at_pending t (s, dr_TypeUrl rq, dr_ResponseNonce rq)") auto
    then have "at_acked (consume_nonce s rq p ?t3) (s', ty) = Some a" using assms(1) eq by simp
    then have "dr_ErrorDetail rq = None \<and> s' = s \<and> ty = dr_TypeUrl rq \<and>
        (\<exists>x. at_expected t (pn_node p) = Some x \<and> ex_version x = pn_version p) \<and>
        a = \<lparr>sa_version = pn_version p, sa_fingerprint = mget_default (at_fingerprints t (pn_node p)) ty []\<rparr>"
      using assms(2)
      by (auto simp: consume_nonce_def Let_def t1 split: option.splits if_splits)
    then show ?thesis using False p unfolding proves_def rq by blast
  qed
qed

definition same_expectation :: "ackTracker \<Rightarrow> ackTracker \<Rightarrow> bool" where
  "same_expectation t u \<longleftrightarrow> at_expected t = at_expected u \<and> at_fingerprints t = at_fingerprints u \<and> at_nodes t = at_nodes u \<and>
     at_pending t = at_pending u \<and> at_subscriptions t = at_subscriptions u"

lemma fold_accept_initial:
  fixes xs :: "(string, string) gomap" and s :: int and node :: string
  defines "T \<equiv> \<lambda>t. fold (\<lambda>(typeURL, fingerprint). acceptInitialFingerprintLocked s node typeURL fingerprint) xs t"
  shows "same_expectation (T t) t \<and> at_initialFingerprints (T t) = at_initialFingerprints t \<and>
    (at_acked (T t) (s', ty) = at_acked t (s', ty) \<or>
     (s' = s \<and> (\<exists>x fp. at_expected t node = Some x \<and> (ty, fp) \<in> set xs \<and> fp = mget_default (at_fingerprints t node) ty [] \<and>
        at_acked (T t) (s', ty) = Some \<lparr>sa_version = ex_version x, sa_fingerprint = fp\<rparr>)))"
  unfolding T_def
proof (induction xs arbitrary: t)
  case (Cons p xs)
  obtain ty0 fp0 where p: "p = (ty0, fp0)" by (cases p)
  let ?t = "acceptInitialFingerprintLocked s node ty0 fp0 t"
  have "same_expectation ?t t" by (simp add: same_expectation_def)
  moreover have "at_acked ?t (s', ty) = at_acked t (s', ty) \<or>
      (s' = s \<and> ty = ty0 \<and> (\<exists>x. at_expected t node = Some x \<and> fp0 = mget_default (at_fingerprints t node) ty [] \<and>
        at_acked ?t (s', ty) = Some \<lparr>sa_version = ex_version x, sa_fingerprint = fp0\<rparr>))"
    by (auto simp: accept_initial_acked split: option.split)
  ultimately show ?case
    using Cons [of ?t] unfolding p by (auto simp: same_expectation_def)
qed (simp add: same_expectation_def)

lemma consume_initial_acked:
  "same_expectation (consume_initial node s t) t \<and>
   (at_initialFingerprints (consume_initial node s t) s' = at_initialFingerprints t s' \<or>
    at_initialFingerprints (consume_initial node s t) s' = []) \<and>
   (at_acked (consume_initial node s t) (s', ty) = at_acked t (s', ty) \<or>
    (s' = s \<and> (\<exists>x fp. at_expected t node = Some x \<and> (ty, fp) \<in> set (at_initialFingerprints t s) \<and>
       fp = mget_default (at_fingerprints t node) ty [] \<and>
       at_acked (consume_initial node s t) (s', ty) = Some \<lparr>sa_version = ex_version x, sa_fingerprint = fp\<rparr>)))"
  using fold_accept_initial [of s node "at_initialFingerprints t s" "t\<lparr>at_nacks := (at_nacks t)(s := None)\<rparr>" s' ty]
  by (auto simp: consume_initial_def same_expectation_def Let_def)

lemma fold_consume_initial:
  "same_expectation (fold (consume_initial node) ids t) t \<and>
   (at_initialFingerprints (fold (consume_initial node) ids t) s = at_initialFingerprints t s \<or>
    at_initialFingerprints (fold (consume_initial node) ids t) s = []) \<and>
   (at_acked (fold (consume_initial node) ids t) (s, ty) = at_acked t (s, ty) \<or>
    (s \<in> set ids \<and> (\<exists>x fp. at_expected t node = Some x \<and> (ty, fp) \<in> set (at_initialFingerprints t s) \<and>
       fp = mget_default (at_fingerprints t node) ty [] \<and>
       at_acked (fold (consume_initial node) ids t) (s, ty) = Some \<lparr>sa_version = ex_version x, sa_fingerprint = fp\<rparr>)))"
proof (induction ids arbitrary: t)
  case (Cons i ids)
  note head = consume_initial_acked [of node i t s ty]
  note tail = Cons [of "consume_initial node i t"]
  have exp: "same_expectation (fold (consume_initial node) ids (consume_initial node i t)) t"
    using head tail by (simp add: same_expectation_def)
  have init: "set (at_initialFingerprints (consume_initial node i t) s) \<subseteq> set (at_initialFingerprints t s)"
    using head by auto
  have same: "at_expected (consume_initial node i t) = at_expected t" "at_fingerprints (consume_initial node i t) = at_fingerprints t"
    using head by (simp_all add: same_expectation_def)
  show ?case using exp init head tail unfolding same by (auto simp: subset_iff)
qed (simp add: same_expectation_def)

lemma expect_acked:
  assumes nodes: "keys_ok (at_nodes t)"
    and "at_acked (ExpectSnapshot node version fps req t) (s, ty) = Some a" and "at_acked t (s, ty) \<noteq> Some a"
  shows "proves json sha t (EvExpect node version fps req) s ty a"
proof -
  define ids where "ids = map fst (filter (\<lambda>(_, streamNode). streamNode = node) (at_nodes t))"
  define x where "x = \<lparr>ex_version = version, ex_required = filter (\<lambda>typeURL. mget fps typeURL \<noteq> None) req\<rparr>"
  define u where "u = t\<lparr>at_fingerprints := (at_fingerprints t)(node := fps), at_expected := (at_expected t)(node \<mapsto> x)\<rparr>"
  have "ExpectSnapshot node version fps req t = t \<or> ExpectSnapshot node version fps req t = fold (consume_initial node) ids u"
    by (simp add: ExpectSnapshot_def ids_def u_def x_def)
  then have run: "ExpectSnapshot node version fps req t = fold (consume_initial node) ids u" using assms by auto
  have u: "at_acked u = at_acked t" "at_expected u node = Some x" "at_fingerprints u node = fps"
    "at_initialFingerprints u = at_initialFingerprints t" by (simp_all add: u_def)
  obtain fp where "s \<in> set ids" "(ty, fp) \<in> set (at_initialFingerprints t s)" "fp = mget_default fps ty []"
    "a = \<lparr>sa_version = ex_version x, sa_fingerprint = fp\<rparr>"
    using fold_consume_initial [of node ids u s ty] assms(2,3) by (auto simp: run u)
  moreover have "mget (at_nodes t) s = Some node"
    using \<open>s \<in> set ids\<close> nodes by (auto simp: ids_def mget_iff_mem)
  ultimately show ?thesis unfolding proves_def by (auto simp: x_def)
qed

lemma nodes_ok_step:
  assumes "keys_ok (at_nodes t)"
  shows "keys_ok (at_nodes (tracker_step json sha e t))"
proof (cases e)
  case (EvExpect node version fps req)
  then show ?thesis using assms fold_consume_initial
    by (auto simp: tracker_step_def ExpectSnapshot_def same_expectation_def)
next
  case (EvResponse s req resp)
  then show ?thesis using assms
    by (auto simp: tracker_step_def OnResponse_def stream_node_def Let_def split: option.split prod.split)
next
  case (EvRequest s req)
  have "at_nodes (acceptInitialVersionsLocked json sha s n ty vs u) = at_nodes u" for n ty vs u
    by (simp add: acceptInitialVersionsLocked_def split: option.split)
  moreover have "at_nodes (consume_nonce s rq p u) = at_nodes u" for rq p u
    by (simp add: consume_nonce_def Let_def split: option.split)
  ultimately show ?thesis using assms EvRequest
    by (auto simp: tracker_step_def OnRequest_def stream_node_def Let_def split: option.split prod.split)
qed (simp_all add: assms tracker_step_def OnStreamClosed_def tracker_Forget_def)

lemma nodes_ok_run: "keys_ok (at_nodes (tracker_run json sha es))"
  by (induction es rule: rev_induct)
    (simp_all add: tracker_run_snoc nodes_ok_step, simp add: tracker_run_def NewAckTracker_def)

lemma response_acked [simp]: "at_acked (OnResponse s req resp t) = at_acked t"
proof -
  have "at_acked t1 = at_acked t" if "stream_node s n t = (node, t1)" for n node t1
    using stream_node_fields(5) [of s n t] that by simp
  then show ?thesis by (simp add: OnResponse_def Let_def split: option.split prod.split)
qed

lemma step_acked:
  assumes "keys_ok (at_nodes t)" and "at_acked (tracker_step json sha e t) (s, ty) = Some a"
  shows "e \<noteq> EvClosed s \<and> (at_acked t (s, ty) = Some a \<or> proves json sha t e s ty a)"
proof (cases e)
  case (EvExpect node version fps req)
  then show ?thesis using assms expect_acked [OF assms(1), of node version fps req s ty a json sha] by (auto simp: tracker_step_def)
next
  case (EvRequest s0 req)
  then show ?thesis using assms request_acked [of json sha s0 req t s ty a] by (auto simp: tracker_step_def)
qed (use assms in \<open>auto simp: tracker_step_def OnStreamClosed_def tracker_Forget_def split: if_splits\<close>)

lemma acked_evidence:
  assumes "at_acked (tracker_run json sha es) (s, ty) = Some a"
  shows "\<exists>pre e post. es = pre @ e # post \<and> proves json sha (tracker_run json sha pre) e s ty a \<and> EvClosed s \<notin> set post"
  using assms
proof (induction es rule: rev_induct)
  case (snoc e es)
  note step = step_acked [OF nodes_ok_run snoc.prems [unfolded tracker_run_snoc]]
  show ?case
  proof (cases "at_acked (tracker_run json sha es) (s, ty) = Some a")
    case True
    from snoc.IH [OF this] obtain pre e0 post where "es = pre @ e0 # post"
      "proves json sha (tracker_run json sha pre) e0 s ty a" "EvClosed s \<notin> set post" by blast
    then show ?thesis using step by (intro exI [of _ pre] exI [of _ e0] exI [of _ "post @ [e]"]) auto
  next
    case False
    then have "proves json sha (tracker_run json sha es) e s ty a" using step by simp
    then show ?thesis by (intro exI [of _ es] exI [of _ e] exI [of _ "[]"]) simp
  qed
qed (simp add: tracker_run_def NewAckTracker_def)

text \<open>A pending response was sent on that stream, with that nonce, type and version.\<close>

lemma expect_pending [simp]: "at_pending (ExpectSnapshot node version fps req t) = at_pending t"
  using fold_consume_initial by (simp add: ExpectSnapshot_def same_expectation_def)

lemma response_pending:
  assumes "at_pending (OnResponse s0 req resp t) (s, ty, n) = Some p" and "at_pending t (s, ty, n) \<noteq> Some p"
  shows "s0 = s \<and> (\<exists>rs. resp = Some rs \<and> ds_Nonce rs = n \<and> ds_TypeUrl rs = ty \<and> ds_SystemVersionInfo rs = pn_version p)"
proof -
  obtain rq rs where some: "req = Some rq" "resp = Some rs"
    using assms by (auto simp: OnResponse_def split: option.splits)
  have "at_pending t1 = at_pending t" if "stream_node s0 m t = (node, t1)" for m node t1
    using stream_node_fields(1) [of s0 m t] that by simp
  then show ?thesis using assms
    by (auto simp: OnResponse_def some Let_def split: prod.splits if_splits)
qed

lemma request_pending:
  assumes "at_pending (OnRequest json sha s0 req t) k = Some p"
  shows "at_pending t k = Some p"
proof -
  have accept: "at_pending (acceptInitialVersionsLocked json sha s0 n ty vs u) = at_pending u" for n ty vs u
    by (simp add: acceptInitialVersionsLocked_def split: option.split)
  have consume: "at_pending u k = Some p" if "at_pending (consume_nonce s0 rq q u) k = Some p" for rq q u
    using that by (auto simp: consume_nonce_def Let_def split: option.splits if_splits)
  show ?thesis
  proof (cases req)
    case (Some rq)
    obtain node t1 where node: "stream_node s0 (dr_NodeCluster rq) t = (node, t1)" by (metis surj_pair)
    have t1: "at_pending t1 = at_pending t" using stream_node_fields(1) [of s0 "dr_NodeCluster rq" t] node by simp
    show ?thesis
    proof (cases "dr_ResponseNonce rq = []")
      case True
      then show ?thesis using assms by (simp add: OnRequest_def Some node accept t1)
    next
      case False
      then show ?thesis
        using assms consume [of rq _ "forgetInitialFingerprintLocked s0 (dr_TypeUrl rq) (subscribeLocked s0 (dr_TypeUrl rq) t1)"]
        by (cases "at_pending t (s0, dr_TypeUrl rq, dr_ResponseNonce rq)") (simp_all add: OnRequest_def Some node t1 Let_def)
    qed
  qed (use assms in \<open>simp add: OnRequest_def\<close>)
qed

lemma pending_sent:
  assumes "at_pending (tracker_run json sha es) (s, ty, n) = Some p"
  shows "\<exists>req rs. EvResponse s req (Some rs) \<in> set es \<and> ds_Nonce rs = n \<and> ds_TypeUrl rs = ty \<and>
    ds_SystemVersionInfo rs = pn_version p"
  using assms
proof (induction es rule: rev_induct)
  case (snoc e es)
  let ?t = "tracker_run json sha es"
  have "at_pending ?t (s, ty, n) = Some p \<or>
      (\<exists>req rs. e = EvResponse s req (Some rs) \<and> ds_Nonce rs = n \<and> ds_TypeUrl rs = ty \<and> ds_SystemVersionInfo rs = pn_version p)"
  proof (cases e)
    case (EvResponse s0 req resp)
    then show ?thesis using snoc.prems response_pending [of s0 req resp ?t s ty n p]
      by (auto simp: tracker_run_snoc tracker_step_def)
  next
    case (EvRequest s0 req)
    then show ?thesis using snoc.prems request_pending [of json sha s0 req ?t] by (auto simp: tracker_run_snoc tracker_step_def)
  qed (use snoc.prems in \<open>auto simp: tracker_run_snoc tracker_step_def OnStreamClosed_def tracker_Forget_def split: if_splits option.splits\<close>)
  then show ?case using snoc.IH by auto
qed (simp add: tracker_run_def NewAckTracker_def)

section \<open>Convergence\<close>

lemma IsACKed_iff:
  "IsACKed node version t \<longleftrightarrow>
     (\<exists>x. at_expected t node = Some x \<and> ex_version x = version \<and>
       (at_fingerprints t node = [] \<or>
        ((\<exists>s. (s, node) \<in> set (at_nodes t)) \<and>
         (\<forall>s. (s, node) \<in> set (at_nodes t) \<longrightarrow>
           (\<forall>n. at_nacks t s = Some n \<longrightarrow> na_Version n \<noteq> version) \<and>
           (\<forall>(ty, fp) \<in> set (at_fingerprints t node). \<not> type_blocks t x s ty fp)))))"
  by (auto simp: IsACKed_def Let_def hasStreamLocked_def list_ex_iff list_all_iff split: option.split)

text \<open>
  C18: convergence is never vacuous and never inherited. When a non-empty snapshot, every type of which has a non-empty
  fingerprint, counts as converged after any run, there is a live stream of the node, no live stream of the node rejected that
  version, whatever it subscribes to, and for every
  live stream and every type of the snapshot that it subscribes to or must subscribe to, the run contains protocol
  evidence from that very stream, since it was last closed, that it holds the current fingerprint of the type.
\<close>
theorem converged_streams_proved:
  assumes "IsACKed node version (tracker_run json sha es)"
    and "at_fingerprints (tracker_run json sha es) node \<noteq> []"
    and "\<forall>(ty, fp) \<in> set (at_fingerprints (tracker_run json sha es) node). fp \<noteq> []"
  shows "\<exists>x. at_expected (tracker_run json sha es) node = Some x \<and> ex_version x = version \<and>
    (\<exists>s. mget (at_nodes (tracker_run json sha es)) s = Some node) \<and>
    (\<forall>s n. mget (at_nodes (tracker_run json sha es)) s = Some node \<and> at_nacks (tracker_run json sha es) s = Some n \<longrightarrow>
       na_Version n \<noteq> version) \<and>
    (\<forall>s ty fp. mget (at_nodes (tracker_run json sha es)) s = Some node \<and> (ty, fp) \<in> set (at_fingerprints (tracker_run json sha es) node) \<and>
       (at_subscriptions (tracker_run json sha es) (s, ty) \<or> ty \<in> set (ex_required x)) \<longrightarrow>
       (\<exists>a pre e post. es = pre @ e # post \<and> proves json sha (tracker_run json sha pre) e s ty a \<and>
          sa_fingerprint a = fp \<and> EvClosed s \<notin> set post))"
proof -
  let ?t = "tracker_run json sha es"
  have live: "mget (at_nodes ?t) s = Some node \<longleftrightarrow> (s, node) \<in> set (at_nodes ?t)" for s
    using mget_iff_mem [OF nodes_ok_run] .
  obtain x where x: "at_expected ?t node = Some x" "ex_version x = version" "\<exists>s. (s, node) \<in> set (at_nodes ?t)"
    and streams: "\<And>s. (s, node) \<in> set (at_nodes ?t) \<Longrightarrow> (\<forall>n. at_nacks ?t s = Some n \<longrightarrow> na_Version n \<noteq> version) \<and>
      (\<forall>(ty, fp) \<in> set (at_fingerprints ?t node). \<not> type_blocks ?t x s ty fp)"
    using assms(1,2) by (auto simp: IsACKed_iff)
  have "\<exists>a pre e post. es = pre @ e # post \<and> proves json sha (tracker_run json sha pre) e s ty a \<and>
      sa_fingerprint a = fp \<and> EvClosed s \<notin> set post"
    if "(s, node) \<in> set (at_nodes ?t)" "(ty, fp) \<in> set (at_fingerprints ?t node)"
      "at_subscriptions ?t (s, ty) \<or> ty \<in> set (ex_required x)" for s ty fp
  proof -
    have "acked_fingerprint s ty ?t = fp" using streams [OF that(1)] that(2,3) by (auto simp: type_blocks_def)
    moreover have "fp \<noteq> []" using assms(3) that(2) by auto
    ultimately obtain a where "at_acked ?t (s, ty) = Some a" "sa_fingerprint a = fp"
      by (auto simp: acked_fingerprint_def split: option.splits)
    then show ?thesis using acked_evidence [of json sha es s ty a] by blast
  qed
  then show ?thesis using x streams unfolding live by blast
qed

definition example_json :: "(string, string) gomap \<Rightarrow> string option" where "example_json = (\<lambda>_. Some ''a'')"

definition example_request :: "string \<Rightarrow> deltaRequest" where
  "example_request nonce = \<lparr>dr_NodeCluster = ''n'', dr_TypeUrl = ''T'', dr_ResponseNonce = nonce,
     dr_InitialResourceVersions = [], dr_ErrorDetail = None\<rparr>"

definition example_acked :: "tracker_event list" where
  "example_acked =
     [EvExpect ''n'' ''v1'' [(''T'', ''f1'')] [''T''], EvRequest 1 (Some (example_request [])),
      EvResponse 1 (Some (example_request [])) (Some \<lparr>ds_Nonce = ''x'', ds_TypeUrl = ''T'', ds_SystemVersionInfo = ''v1''\<rparr>),
      EvRequest 1 (Some (example_request ''x''))]"

lemmas tracker_eval = tracker_run_def tracker_step_def NewAckTracker_def ExpectSnapshot_def OnRequest_def OnResponse_def
  stream_node_def subscribeLocked_def forgetInitialFingerprintLocked_def acceptInitialVersionsLocked_def consume_nonce_def
  clear_nack_def consume_initial_def Let_def example_request_def example_acked_def mget_default_def

lemma example_acked_run:
  "at_fingerprints (tracker_run example_json id example_acked) ''n'' = [(''T'', ''f1'')]"
  "at_nodes (tracker_run example_json id example_acked) = [(1, ''n'')]"
  "at_expected (tracker_run example_json id example_acked) ''n'' = Some \<lparr>ex_version = ''v1'', ex_required = [''T'']\<rparr>"
  "at_acked (tracker_run example_json id example_acked) (1, ''T'') = Some \<lparr>sa_version = ''v1'', sa_fingerprint = ''f1''\<rparr>"
  "at_nacks (tracker_run example_json id example_acked) = Map.empty"
  "at_subscriptions (tracker_run example_json id example_acked) (1, ''T'')"
  "at_initialFingerprints (tracker_run example_json id example_acked) 1 = []"
  by (simp_all add: tracker_eval)

theorem converged_streams_proved_witness:
  "\<exists>a pre e post. example_acked = pre @ e # post \<and> proves example_json id (tracker_run example_json id pre) e 1 ''T'' a \<and>
     sa_fingerprint a = ''f1''"
proof -
  have "IsACKed ''n'' ''v1'' (tracker_run example_json id example_acked)"
    by (simp add: IsACKed_def hasStreamLocked_def example_acked_run type_blocks_def acked_fingerprint_def)
  note evidence = converged_streams_proved [OF this]
  then have "\<forall>s. (if s = 1 then Some ''n'' else None) = Some ''n'' \<longrightarrow>
      (\<exists>a pre e post. example_acked = pre @ e # post \<and> proves example_json id (tracker_run example_json id pre) e s ''T'' a \<and>
        sa_fingerprint a = ''f1'' \<and> EvClosed s \<notin> set post)"
    by (simp add: example_acked_run)
  from this [rule_format, of 1] obtain a pre e post where "example_acked = pre @ e # post"
    "proves example_json id (tracker_run example_json id pre) e 1 ''T'' a" "sa_fingerprint a = ''f1''" by auto
  then show ?thesis by (intro exI conjI)
qed

text \<open>
  C19: an unconverged snapshot can go unexplained. When every blocking type of every live stream is subscribed and has an older
  acknowledgement, and no stream rejected the version, the snapshot is not converged and yet
  \<^verbatim>\<open>ConvergenceDetails\<close> returns the empty explanation: the stale state ranks 0, which never exceeds the zero default of the map.
\<close>
theorem stale_ack_unexplained:
  assumes "at_expected t node = Some x" and "ex_version x = version"
    and "(s, node) \<in> set (at_nodes t)" and "(ty, fp) \<in> set (at_fingerprints t node)" and "type_blocks t x s ty fp"
    and "\<forall>s n. (s, node) \<in> set (at_nodes t) \<longrightarrow> at_nacks t s = Some n \<longrightarrow> na_Version n \<noteq> version"
    and "\<forall>s ty fp. (s, node) \<in> set (at_nodes t) \<longrightarrow> (ty, fp) \<in> set (at_fingerprints t node) \<longrightarrow> type_blocks t x s ty fp \<longrightarrow>
      at_subscriptions t (s, ty) \<and> (\<exists>a. at_acked t (s, ty) = Some a \<and> sa_version a \<noteq> [])"
  shows "\<not> IsACKed node version t \<and> ConvergenceDetails node version t = []"
proof
  show "\<not> IsACKed node version t" using assms(1-5) unfolding IsACKed_iff by force
  have ids: "set (streamIDsLocked node t) = {s. (s, node) \<in> set (at_nodes t)}"
    by (auto simp: streamIDsLocked_def image_iff)
  have inner: "fold (note_missing t x i) tfs w = w"
    if "(i, node) \<in> set (at_nodes t)" "set tfs \<subseteq> set (at_fingerprints t node)" for i tfs w
    using that
  proof (induction tfs arbitrary: w)
    case (Cons tf tfs)
    then have "note_missing t x i tf w = w"
      using assms(7) by (cases tf) (fastforce simp: note_missing_def missing_state_def Let_def)
    then show ?case using Cons by simp
  qed simp
  have "fold (\<lambda>i. fold (note_missing t x i) (at_fingerprints t node)) is [] = []"
    if "set is \<subseteq> {s. (s, node) \<in> set (at_nodes t)}" for "is"
    using that by (induction "is") (simp_all add: inner)
  then have worst: "worst_states node x t = []" unfolding worst_states_def using ids by simp
  have nacks: "filter (\<lambda>n. na_Version n = version) (List.map_filter (at_nacks t) (streamIDsLocked node t)) = []"
    unfolding filter_empty_conv
  proof
    fix n assume "n \<in> set (List.map_filter (at_nacks t) (streamIDsLocked node t))"
    then obtain i where "i \<in> set (streamIDsLocked node t)" "at_nacks t i = Some n" unfolding set_map_filter by (elim bexE)
    then show "na_Version n \<noteq> version" using assms(6) ids by simp
  qed
  have "streamIDsLocked node t \<noteq> []" using ids assms(3) by auto
  then show "ConvergenceDetails node version t = []"
    using assms(1,2) nacks worst by (simp add: ConvergenceDetails_def Let_def)
qed

theorem stale_ack_unexplained_witness:
  "\<exists>t. t = tracker_run example_json id (example_acked @ [EvExpect ''n'' ''v2'' [(''T'', ''f2'')] [''T'']]) \<and>
     \<not> IsACKed ''n'' ''v2'' t \<and> ConvergenceDetails ''n'' ''v2'' t = []"
proof -
  let ?u = "tracker_run example_json id example_acked"
  let ?t = "tracker_run example_json id (example_acked @ [EvExpect ''n'' ''v2'' [(''T'', ''f2'')] [''T'']])"
  have run: "?t = consume_initial ''n'' 1 (?u\<lparr>at_fingerprints := (at_fingerprints ?u)(''n'' := [(''T'', ''f2'')]),
      at_expected := (at_expected ?u)(''n'' \<mapsto> \<lparr>ex_version = ''v2'', ex_required = [''T'']\<rparr>)\<rparr>)"
    by (simp add: tracker_run_snoc tracker_step_def ExpectSnapshot_def example_acked_run)
  have t: "at_expected ?t ''n'' = Some \<lparr>ex_version = ''v2'', ex_required = [''T'']\<rparr>" "at_nodes ?t = [(1, ''n'')]"
    "at_fingerprints ?t ''n'' = [(''T'', ''f2'')]" "at_acked ?t (1, ''T'') = Some \<lparr>sa_version = ''v1'', sa_fingerprint = ''f1''\<rparr>"
    "at_nacks ?t 1 = None" "at_subscriptions ?t (1, ''T'')"
    unfolding run by (simp_all add: consume_initial_def example_acked_run)
  have "\<not> IsACKed ''n'' ''v2'' ?t \<and> ConvergenceDetails ''n'' ''v2'' ?t = []"
    by (rule stale_ack_unexplained [where x = "\<lparr>ex_version = ''v2'', ex_required = [''T'']\<rparr>" and s = 1 and ty = "''T''" and fp = "''f2''"])
      (simp_all add: t type_blocks_def acked_fingerprint_def)
  then show ?thesis by simp
qed

section \<open>Isolation and progress\<close>

text \<open>What the tracker knows of one stream.\<close>

definition same_stream :: "int \<Rightarrow> ackTracker \<Rightarrow> ackTracker \<Rightarrow> bool" where
  "same_stream s t u \<longleftrightarrow> mget (at_nodes t) s = mget (at_nodes u) s \<and> at_nacks t s = at_nacks u s \<and>
     at_initialFingerprints t s = at_initialFingerprints u s \<and>
     (\<forall>ty. at_acked t (s, ty) = at_acked u (s, ty) \<and> at_subscriptions t (s, ty) = at_subscriptions u (s, ty)) \<and>
     (\<forall>ty n. at_pending t (s, ty, n) = at_pending u (s, ty, n))"

lemma same_stream_trans: "same_stream s t u \<Longrightarrow> same_stream s u v \<Longrightarrow> same_stream s t v"
  by (simp add: same_stream_def)

lemma same_stream_parts:
  assumes "s \<noteq> s'"
  shows "same_stream s (snd (stream_node s' n t)) t" "same_stream s (subscribeLocked s' ty t) t"
    "same_stream s (forgetInitialFingerprintLocked s' ty t) t" "same_stream s (clear_nack s' v ty t) t"
    "same_stream s (acceptInitialFingerprintLocked s' node ty fp t) t"
    "same_stream s (acceptInitialVersionsLocked json sha s' node ty vs t) t" "same_stream s (consume_nonce s' rq p t) t"
    "same_stream s (OnStreamClosed s' t) t"
proof -
  show accept: "same_stream s (acceptInitialFingerprintLocked s' node ty fp t) t" for node ty fp t
    using assms by (simp add: same_stream_def acceptInitialFingerprintLocked_def clear_nack_nacks split: option.split)
  show "same_stream s (acceptInitialVersionsLocked json sha s' node ty vs t) t"
    using assms accept by (auto simp: acceptInitialVersionsLocked_def split: option.split) (auto simp: same_stream_def)
  show "same_stream s (consume_nonce s' rq p t) t"
    using assms by (auto simp: same_stream_def consume_nonce_def clear_nack_nacks Let_def split: option.split)
qed (use assms in \<open>simp_all add: same_stream_def stream_node_def subscribeLocked_def forgetInitialFingerprintLocked_def
      clear_nack_nacks OnStreamClosed_def\<close>)

lemma same_stream_request:
  assumes "s \<noteq> s'"
  shows "same_stream s (OnRequest json sha s' req t) t"
proof (cases req)
  case (Some rq)
  obtain node t1 where node: "stream_node s' (dr_NodeCluster rq) t = (node, t1)" by (metis surj_pair)
  let ?t2 = "subscribeLocked s' (dr_TypeUrl rq) t1"
  let ?t3 = "forgetInitialFingerprintLocked s' (dr_TypeUrl rq) ?t2"
  have "same_stream s t1 t" using same_stream_parts(1) [OF assms, of "dr_NodeCluster rq" t] by (simp add: node)
  then have t2: "same_stream s ?t2 t" using same_stream_parts(2) [OF assms] same_stream_trans by blast
  then have t3: "same_stream s ?t3 t" using same_stream_parts(3) [OF assms] same_stream_trans by blast
  have "OnRequest json sha s' req t = acceptInitialVersionsLocked json sha s' node (dr_TypeUrl rq) (dr_InitialResourceVersions rq) ?t2 \<or>
      OnRequest json sha s' req t = ?t3 \<or> (\<exists>p. OnRequest json sha s' req t = consume_nonce s' rq p ?t3)"
    by (auto simp: OnRequest_def Some node Let_def split: option.split)
  then show ?thesis
    using t2 t3 same_stream_parts(6,7) [OF assms] same_stream_trans by metis
qed (simp add: OnRequest_def same_stream_def)

lemma same_stream_response:
  assumes "s \<noteq> s'"
  shows "same_stream s (OnResponse s' req resp t) t"
proof (cases "req = None \<or> resp = None")
  case False
  then obtain rq rs where some: "req = Some rq" "resp = Some rs" by auto
  obtain node t1 where node: "stream_node s' (dr_NodeCluster rq) t = (node, t1)" by (metis surj_pair)
  let ?t2 = "forgetInitialFingerprintLocked s' (ds_TypeUrl rs) (subscribeLocked s' (ds_TypeUrl rs) t1)"
  have t1: "same_stream s t1 t" using same_stream_parts(1) [OF assms, of "dr_NodeCluster rq" t] by (simp add: node)
  then have t2: "same_stream s ?t2 t" using same_stream_parts(2,3) [OF assms] same_stream_trans by metis
  have "same_stream s (?t2\<lparr>at_pending := (at_pending ?t2)((s', k) \<mapsto> p)\<rparr>) ?t2" for k p
    using assms by (simp add: same_stream_def)
  with t2 have "same_stream s (?t2\<lparr>at_pending := (at_pending ?t2)((s', k) \<mapsto> p)\<rparr>) t" for k p
    using same_stream_trans by blast
  then show ?thesis using t1 by (simp add: OnResponse_def some node Let_def) (simp add: same_stream_def)
qed (auto simp: OnResponse_def same_stream_def split: option.split)

text \<open>
  Streams are isolated. A message on one stream, or its end, changes nothing the tracker knows of any other stream: its node,
  subscriptions, pending responses, acknowledgements, rejection and initial fingerprints. One Envoy replica can neither
  converge nor clear the rejection of a peer.
\<close>
theorem streams_isolated:
  assumes "s \<noteq> s'" and "e = EvRequest s' req \<or> e = EvResponse s' req resp \<or> e = EvClosed s'"
  shows "same_stream s (tracker_step json sha e t) t"
  using assms same_stream_request same_stream_response same_stream_parts(8) by (auto simp: tracker_step_def)

theorem streams_isolated_witness:
  "same_stream 2 (tracker_step example_json id (EvClosed 1) NewAckTracker) NewAckTracker"
  by (rule streams_isolated [where req = None and resp = None and s' = 1]) simp_all

text \<open>The ACK of one type by the only stream of a node.\<close>

definition ack_request :: "string \<Rightarrow> string \<Rightarrow> deltaRequest" where
  "ack_request ty nonce = \<lparr>dr_NodeCluster = [], dr_TypeUrl = ty, dr_ResponseNonce = nonce,
     dr_InitialResourceVersions = [], dr_ErrorDetail = None\<rparr>"

lemma ack_step:
  fixes json :: "(string, string) gomap \<Rightarrow> string option" and sha :: "string \<Rightarrow> string"
  assumes "nonce \<noteq> []" and "at_pending t (s, ty, nonce) = Some \<lparr>pn_node = node, pn_version = version\<rparr>"
    and "at_expected t node = Some x" and "ex_version x = version" and "at_nacks t s = None"
  defines "u \<equiv> OnRequest json sha s (Some (ack_request ty nonce)) t"
  shows "at_nodes u = at_nodes t" "at_expected u = at_expected t" "at_fingerprints u = at_fingerprints t" "at_nacks u = at_nacks t"
    "at_pending u = (at_pending t)((s, ty, nonce) := None)"
    "at_acked u = (at_acked t)((s, ty) \<mapsto> \<lparr>sa_version = version, sa_fingerprint = mget_default (at_fingerprints t node) ty []\<rparr>)"
  using assms
  by (simp_all add: OnRequest_def ack_request_def stream_node_def consume_nonce_def clear_nack_def Let_def)

lemma ack_all:
  fixes json :: "(string, string) gomap \<Rightarrow> string option" and sha :: "string \<Rightarrow> string"
  assumes "\<forall>ty \<in> set tys. nonce ty \<noteq> [] \<and> at_pending t (s, ty, nonce ty) = Some \<lparr>pn_node = node, pn_version = version\<rparr>"
    and "distinct tys" and "at_expected t node = Some x" and "ex_version x = version" and "at_nacks t s = None"
  defines "u \<equiv> fold (\<lambda>ty. OnRequest json sha s (Some (ack_request ty (nonce ty)))) tys t"
  shows "at_nodes u = at_nodes t \<and> at_expected u = at_expected t \<and> at_fingerprints u = at_fingerprints t \<and> at_nacks u = at_nacks t \<and>
    (\<forall>ty. at_acked u (s, ty) = (if ty \<in> set tys
      then Some \<lparr>sa_version = version, sa_fingerprint = mget_default (at_fingerprints t node) ty []\<rparr> else at_acked t (s, ty)))"
  using assms(1-5) unfolding u_def
proof (induction tys arbitrary: t)
  case (Cons ty tys)
  let ?t = "OnRequest json sha s (Some (ack_request ty (nonce ty))) t"
  have here: "nonce ty \<noteq> []" "at_pending t (s, ty, nonce ty) = Some \<lparr>pn_node = node, pn_version = version\<rparr>"
    using Cons.prems(1) by simp_all
  note step = ack_step [OF here Cons.prems(3,4,5), of json sha]
  have "\<forall>ty' \<in> set tys. nonce ty' \<noteq> [] \<and> at_pending ?t (s, ty', nonce ty') = Some \<lparr>pn_node = node, pn_version = version\<rparr>"
    using Cons.prems(1,2) by (auto simp: step(5))
  from Cons.IH [OF this] Cons.prems(2-5) show ?case by (auto simp: step)
qed simp

text \<open>
  C20: acknowledging is enough. When the node has one live stream with a response of the expected version pending for every type of
  the snapshot and no recorded rejection, the snapshot has converged after the stream ACKs each of them once, in any order,
  whatever the streams of other nodes have done.
\<close>
theorem acks_converge:
  assumes "\<forall>s'. (s', node) \<in> set (at_nodes t) \<longleftrightarrow> s' = s"
    and "at_expected t node = Some x" and "ex_version x = version" and "at_nacks t s = None"
    and "keys_ok (at_fingerprints t node)" and "distinct tys" and "set tys = fst ` set (at_fingerprints t node)"
    and "\<forall>ty \<in> set tys. nonce ty \<noteq> [] \<and> at_pending t (s, ty, nonce ty) = Some \<lparr>pn_node = node, pn_version = version\<rparr>"
  shows "IsACKed node version (fold (\<lambda>ty. OnRequest json sha s (Some (ack_request ty (nonce ty)))) tys t)"
proof -
  note acked = ack_all [OF assms(8,6,2,3,4), of json sha]
  have "mget_default (at_fingerprints t node) ty [] = fp" if "(ty, fp) \<in> set (at_fingerprints t node)" for ty fp
    using that assms(5) by (simp add: mget_default_def keys_ok_def)
  note fps = this
  let ?u = "fold (\<lambda>ty. OnRequest json sha s (Some (ack_request ty (nonce ty)))) tys t"
  have "\<not> type_blocks ?u x s ty fp" if "(ty, fp) \<in> set (at_fingerprints t node)" for ty fp
  proof -
    have "ty \<in> set tys" using that assms(7) by force
    then show ?thesis using acked fps [OF that] by (simp add: type_blocks_def acked_fingerprint_def)
  qed
  then show ?thesis using acked assms(1-4) by (auto simp: IsACKed_iff)
qed

theorem acks_converge_witness:
  "IsACKed ''n'' ''v1'' (OnRequest example_json id 1 (Some (ack_request ''T'' ''x''))
     (tracker_run example_json id (EvRequest 2 (Some ((example_request [])\<lparr>dr_NodeCluster := ''m''\<rparr>)) # take 3 example_acked)))"
proof -
  let ?t = "tracker_run example_json id (EvRequest 2 (Some ((example_request [])\<lparr>dr_NodeCluster := ''m''\<rparr>)) # take 3 example_acked)"
  have t: "set (at_nodes ?t) = {(2, ''m''), (1, ''n'')}" "at_expected ?t ''n'' = Some \<lparr>ex_version = ''v1'', ex_required = [''T'']\<rparr>"
    "at_nacks ?t 1 = None" "at_fingerprints ?t ''n'' = [(''T'', ''f1'')]"
    "at_pending ?t (1, ''T'', ''x'') = Some \<lparr>pn_node = ''n'', pn_version = ''v1''\<rparr>"
    by (simp_all add: tracker_eval)
  have "IsACKed ''n'' ''v1'' (fold (\<lambda>ty. OnRequest example_json id 1 (Some (ack_request ty ''x''))) [''T''] ?t)"
    by (rule acks_converge [OF _ t(2) _ t(3)]) (simp_all add: t keys_ok_def)
  then show ?thesis by simp
qed

end
