(* ===== verification/IR.thy ===== *)
theory IR
  imports Prelude
begin

text \<open>
  \<^verbatim>\<open>src/internal/ir/types.go\<close>: the intermediate representation between the Gateway API
  translator and the Envoy and cloudflared compilers. Every Go struct is a record with the
  same fields; pointers are options, byte slices and UIDs are strings. The mirror percentage, a
  quotient of two integers computed in floating point, is kept as its two integers.
\<close>

named_theorems ir_consts "the string constants of the intermediate representation"

type_synonym nsname = "string \<times> string"

definition GuardForwarding :: string where [ir_consts]: "GuardForwarding = ''Forwarding''"
definition GuardBlocked :: string where [ir_consts]: "GuardBlocked = ''Blocked''"
definition GuardUnprotected :: string where [ir_consts]: "GuardUnprotected = ''Unprotected''"
definition ListenerBindingLoopback :: string where [ir_consts]: "ListenerBindingLoopback = ''Loopback''"
definition ListenerBindingPodIP :: string where [ir_consts]: "ListenerBindingPodIP = ''PodIP''"
definition PathMatchExact :: string where [ir_consts]: "PathMatchExact = ''Exact''"
definition PathMatchRegularExpression :: string where [ir_consts]: "PathMatchRegularExpression = ''RegularExpression''"
definition PathMatchPathPrefix :: string where [ir_consts]: "PathMatchPathPrefix = ''PathPrefix''"
definition StringMatchExact :: string where [ir_consts]: "StringMatchExact = ''Exact''"
definition StringMatchRegularExpression :: string where [ir_consts]: "StringMatchRegularExpression = ''RegularExpression''"
definition PathModifierReplaceFullPath :: string where [ir_consts]: "PathModifierReplaceFullPath = ''ReplaceFullPath''"
definition PathModifierReplacePrefixMatch :: string where [ir_consts]: "PathModifierReplacePrefixMatch = ''ReplacePrefixMatch''"

section \<open>Tunnel configuration\<close>

record gatewayOriginRequest =
  gor_ConnectTimeout :: "duration option"
  gor_KeepAliveTimeout :: "duration option"
  gor_TCPKeepAlive :: "duration option"
  gor_KeepAliveConnections :: "int option"
  gor_NoHappyEyeballs :: "bool option"
  gor_DisableChunkedEncoding :: "bool option"
  gor_HTTP2Origin :: "bool option"

definition empty_gatewayOriginRequest :: gatewayOriginRequest where
  "empty_gatewayOriginRequest = \<lparr>gor_ConnectTimeout = None, gor_KeepAliveTimeout = None, gor_TCPKeepAlive = None,
     gor_KeepAliveConnections = None, gor_NoHappyEyeballs = None, gor_DisableChunkedEncoding = None,
     gor_HTTP2Origin = None\<rparr>"

record cloudflare =
  cf_AccountID :: string
  cf_TunnelName :: string
  cf_TunnelID :: string
  cf_TokenSecretName :: string
  cf_ManagementPolicy :: string
  cf_Teardown :: bool
  cf_WARPRouting :: bool
  cf_OriginRequest :: gatewayOriginRequest

record originIPRule =
  oir_Prefix :: string
  oir_Ports :: "int list"
  oir_Allow :: bool

record originAccess =
  oa_AUDTags :: "string list"
  oa_TeamName :: string
  oa_Required :: "bool option"

definition OriginProxyTypeRegular :: string where "OriginProxyTypeRegular = ''Regular''"
definition OriginProxyTypeSOCKS5 :: string where "OriginProxyTypeSOCKS5 = ''SOCKS5''"

record originRequest =
  or_Access :: "originAccess option"
  or_CAPool :: "string option"
  or_ConnectTimeout :: "int option"
  or_DisableChunkedEncoding :: "bool option"
  or_HTTP2Origin :: "bool option"
  or_HTTPHostHeader :: "string option"
  or_KeepAliveConnections :: "int option"
  or_KeepAliveTimeout :: "int option"
  or_MatchSNIToHost :: "bool option"
  or_NoHappyEyeballs :: "bool option"
  or_NoTLSVerify :: "bool option"
  or_OriginServerName :: "string option"
  or_ProxyType :: "string option"
  or_TCPKeepAlive :: "int option"
  or_TLSTimeout :: "int option"
  or_IPRules :: "originIPRule list"

definition empty_originRequest :: originRequest where
  "empty_originRequest = \<lparr>or_Access = None, or_CAPool = None, or_ConnectTimeout = None,
     or_DisableChunkedEncoding = None, or_HTTP2Origin = None, or_HTTPHostHeader = None,
     or_KeepAliveConnections = None, or_KeepAliveTimeout = None, or_MatchSNIToHost = None,
     or_NoHappyEyeballs = None, or_NoTLSVerify = None, or_OriginServerName = None, or_ProxyType = None,
     or_TCPKeepAlive = None, or_TLSTimeout = None, or_IPRules = []\<rparr>"

text \<open>
  The eleven optional pointers of a service: addresses and UNIX paths are their strings, a status
  service its code, a built-in service its presence.
\<close>

record tunnelIngressService =
  ts_HTTP :: "string option"
  ts_HTTPS :: "string option"
  ts_TCP :: "string option"
  ts_SSH :: "string option"
  ts_RDP :: "string option"
  ts_SMB :: "string option"
  ts_Unix :: "string option"
  ts_UnixTLS :: "string option"
  ts_HelloWorld :: "unit option"
  ts_HTTPStatus :: "int option"
  ts_Bastion :: "unit option"

definition empty_service :: tunnelIngressService where
  "empty_service = \<lparr>ts_HTTP = None, ts_HTTPS = None, ts_TCP = None, ts_SSH = None, ts_RDP = None, ts_SMB = None,
     ts_Unix = None, ts_UnixTLS = None, ts_HelloWorld = None, ts_HTTPStatus = None, ts_Bastion = None\<rparr>"

record tunnelIngress =
  ti_Hostname :: string
  ti_Path :: string
  ti_Service :: tunnelIngressService
  ti_OriginRequest :: "originRequest option"

record warpRouting =
  wr_Enabled :: "bool option"
  wr_ConnectTimeout :: "int option"
  wr_TCPKeepAlive :: "int option"
  wr_MaxActiveFlows :: "int option"

record tunnelConfiguration =
  tc_Ingress :: "tunnelIngress list"
  tc_OriginRequest :: "originRequest option"
  tc_WARPRouting :: "warpRouting option"

section \<open>Routes\<close>

record reason =
  re_Code :: string
  re_Message :: string

record routeSource =
  rs_Namespace :: string
  rs_Name :: string
  rs_RuleName :: string
  rs_RuleIndex :: int
  rs_MatchIndex :: int
  rs_PathExplicit :: bool

record pathMatch =
  pm_Type :: string
  pm_Value :: string

record headerMatch =
  hm_Name :: string
  hm_Type :: string
  hm_Value :: string

record queryMatch =
  qm_Name :: string
  qm_Type :: string
  qm_Value :: string

record headerValue =
  hv_Name :: string
  hv_Value :: string

record headerModifier =
  hd_Set :: "headerValue list"
  hd_Add :: "headerValue list"
  hd_Remove :: "string list"

record pathModifier =
  pmod_Type :: string
  pmod_Replace :: string

record redirect =
  rd_Scheme :: string
  rd_Hostname :: string
  rd_Port :: "int option"
  rd_StatusCode :: int
  rd_Path :: "pathModifier option"

record urlRewrite =
  ur_Hostname :: string
  ur_Path :: "pathModifier option"

record backendFilters =
  bf_RequestHeaders :: "headerModifier option"
  bf_ResponseHeaders :: "headerModifier option"
  bf_URLRewrite :: "urlRewrite option"

definition empty_backendFilters :: backendFilters where
  "empty_backendFilters = \<lparr>bf_RequestHeaders = None, bf_ResponseHeaders = None, bf_URLRewrite = None\<rparr>"

record irBackendRef =
  ib_Name :: string
  ib_Namespace :: string
  ib_ClusterName :: string
  ib_Port :: int
  ib_Weight :: int
  ib_Filters :: backendFilters
  ib_Invalid :: "reason option"

record mirror =
  mi_Backend :: irBackendRef
  mi_Percent :: "int \<times> int"

record cors =
  co_AllowOrigins :: "string list"
  co_AllowMethods :: "string list"
  co_AllowHeaders :: "string list"
  co_ExposeHeaders :: "string list"
  co_MaxAge :: "int option"
  co_AllowCredentials :: bool

record filters =
  fi_RequestHeaders :: "headerModifier option"
  fi_ResponseHeaders :: "headerModifier option"
  fi_Redirect :: "redirect option"
  fi_URLRewrite :: "urlRewrite option"
  fi_Mirrors :: "mirror list"
  fi_CORS :: "cors option"

definition empty_filters :: filters where
  "empty_filters = \<lparr>fi_RequestHeaders = None, fi_ResponseHeaders = None, fi_Redirect = None,
     fi_URLRewrite = None, fi_Mirrors = [], fi_CORS = None\<rparr>"

record timeouts =
  to_Request :: "duration option"
  to_BackendRequest :: "duration option"

record route =
  ro_Name :: string
  ro_Source :: routeSource
  ro_Match :: pathMatch
  ro_Headers :: "headerMatch list"
  ro_Query :: "queryMatch list"
  ro_Method :: "string option"
  ro_Filters :: filters
  ro_Backends :: "irBackendRef list"
  ro_Timeouts :: timeouts
  ro_Invalid :: "reason option"

section \<open>Domains, listeners and clusters\<close>

record virtualHost =
  vh_Name :: string
  vh_Hostname :: string
  vh_Routes :: "route list"

record accessGuard =
  ag_AUDs :: "string list"
  ag_TeamName :: string
  ag_AuthDomain :: string
  ag_OptionsPreflightBypass :: bool

text \<open>\<^verbatim>\<open>CanonicalAUDs\<close> is called on a pointer; a nil guard has no audience.\<close>

definition CanonicalAUDs :: "accessGuard option \<Rightarrow> string list" where
  "CanonicalAUDs guard =
     (case guard of None \<Rightarrow> [] | Some g \<Rightarrow> sort_compact (filter (\<lambda>audience. audience \<noteq> []) (ag_AUDs g)))"

record protectionDomain =
  pd_Name :: string
  pd_ListenerName :: string
  pd_EnvoyPort :: int
  pd_Protected :: bool
  pd_OriginJWTDisabled :: bool
  pd_Access :: "accessGuard option"
  pd_AccessApplication :: string
  pd_Guard :: string
  pd_StripAccessHeaders :: bool
  pd_IngressPaths :: "pathMatch list"
  pd_VirtualHosts :: "virtualHost list"

record irListener =
  il_Name :: string
  il_Hostname :: string
  il_Port :: int
  il_EnvoyPort :: int
  il_Protocol :: string
  il_Exposure :: string
  il_Binding :: string
  il_TLS :: "string option"

record endpoint =
  ep_Address :: string
  ep_Port :: int

record subjectAltName =
  sn_Type :: string
  sn_Value :: string

record backendTLS =
  bt_ServerName :: string
  bt_CACertificate :: string
  bt_WellKnownCACertificates :: string
  bt_SubjectAltNames :: "subjectAltName list"

record cluster =
  cl_Name :: string
  cl_Namespace :: string
  cl_Service :: string
  cl_Port :: int
  cl_AppProtocol :: string
  cl_Endpoints :: "endpoint list"
  cl_TLS :: "backendTLS option"

record tlsSecret =
  sec_Name :: string
  sec_Certificate :: string
  sec_PrivateKey :: string
  sec_CA :: string

record irGateway =
  ig_Key :: nsname
  ig_UID :: string
  ig_ConformanceMode :: bool
  ig_InfrastructureLabels :: "(string, string) gomap"
  ig_InfrastructureAnnotations :: "(string, string) gomap"
  ig_Cloudflare :: "cloudflare option"
  ig_Listeners :: "irListener list"
  ig_Domains :: "protectionDomain list"
  ig_Clusters :: "cluster list"
  ig_Secrets :: "tlsSecret list"

text \<open>Zero values of the structures that are built field by field.\<close>

definition empty_routeSource :: routeSource where
  "empty_routeSource = \<lparr>rs_Namespace = [], rs_Name = [], rs_RuleName = [], rs_RuleIndex = 0, rs_MatchIndex = 0,
     rs_PathExplicit = False\<rparr>"

definition empty_route :: route where
  "empty_route = \<lparr>ro_Name = [], ro_Source = empty_routeSource, ro_Match = \<lparr>pm_Type = [], pm_Value = []\<rparr>, ro_Headers = [],
     ro_Query = [], ro_Method = None, ro_Filters = empty_filters, ro_Backends = [],
     ro_Timeouts = \<lparr>to_Request = None, to_BackendRequest = None\<rparr>, ro_Invalid = None\<rparr>"

definition empty_domain :: protectionDomain where
  "empty_domain = \<lparr>pd_Name = [], pd_ListenerName = [], pd_EnvoyPort = 0, pd_Protected = False,
     pd_OriginJWTDisabled = False, pd_Access = None, pd_AccessApplication = [], pd_Guard = [],
     pd_StripAccessHeaders = False, pd_IngressPaths = [], pd_VirtualHosts = []\<rparr>"

definition empty_gateway :: irGateway where
  "empty_gateway = \<lparr>ig_Key = ([], []), ig_UID = [], ig_ConformanceMode = False, ig_InfrastructureLabels = [],
     ig_InfrastructureAnnotations = [], ig_Cloudflare = None, ig_Listeners = [], ig_Domains = [], ig_Clusters = [],
     ig_Secrets = []\<rparr>"

lemmas ir_zero_defs = empty_routeSource_def empty_route_def empty_domain_def empty_gateway_def empty_filters_def
  empty_backendFilters_def

section \<open>Lemmas\<close>

lemma CanonicalAUDs_None [simp]: "CanonicalAUDs None = []"
  by (simp add: CanonicalAUDs_def)

lemma CanonicalAUDs_set [simp]: "set (CanonicalAUDs (Some g)) = {a \<in> set (ag_AUDs g). a \<noteq> []}"
  by (auto simp: CanonicalAUDs_def)

text \<open>The canonical form depends on the set of non-empty audiences only.\<close>

lemma CanonicalAUDs_canonical:
  assumes "{a \<in> set (ag_AUDs g). a \<noteq> []} = {a \<in> set (ag_AUDs h). a \<noteq> []}"
  shows "CanonicalAUDs (Some g) = CanonicalAUDs (Some h)"
proof -
  have "set (filter (\<lambda>a. a \<noteq> []) (ag_AUDs g)) = set (filter (\<lambda>a. a \<noteq> []) (ag_AUDs h))"
    using assms by simp
  then show ?thesis unfolding CanonicalAUDs_def option.case by (rule sort_compact_cong)
qed

end
