(* ===== verification/ApiTypes.thy ===== *)
theory ApiTypes
  imports Prelude
begin

text \<open>
  The objects the translators read: the flareway API types of \<^verbatim>\<open>src/api/v1alpha1\<close> and, of the
  Kubernetes and Gateway API types they embed, the fields the modelled code reads. String
  enumerations stay strings, as in the Go types, so that an empty or unknown value is
  representable; optional pointers are options.
\<close>

section \<open>Kubernetes metadata\<close>

type_synonym labels = "string \<rightharpoonup> string"

record labelSelectorRequirement =
  lsr_key :: string
  lsr_operator :: string
  lsr_values :: "string list"

record labelSelector =
  ls_matchLabels :: "(string \<times> string) list"
  ls_matchExpressions :: "labelSelectorRequirement list"

text \<open>
  \<^verbatim>\<open>metav1.LabelSelectorAsSelector\<close> and \<^verbatim>\<open>Selector.Matches\<close> of apimachinery are the parameter
  \<open>selector\<close> of the definitions that use them: an error, or whether the labels match.
\<close>

type_synonym selector_engine = "labelSelector \<Rightarrow> labels \<Rightarrow> bool result"

record namespace =
  ns_Name :: string
  ns_Labels :: labels

section \<open>CloudflareAccount\<close>

definition ExposurePublic :: string where "ExposurePublic = ''Public''"
definition ExposurePrivate :: string where "ExposurePrivate = ''Private''"
definition GrantPermissionAllowed :: string where "GrantPermissionAllowed = ''Allowed''"
definition BackendNamespaceSame :: string where "BackendNamespaceSame = ''Same''"
definition BackendNamespaceSelector :: string where "BackendNamespaceSelector = ''Selector''"
definition BackendKindService :: string where "BackendKindService = ''Service''"

record privateRouteGrant =
  prg_NetworkRouteSelector :: "labelSelector option"
  prg_HostnameRouteSelector :: "labelSelector option"

record backendGrant =
  bg_Namespaces :: string
  bg_Selector :: "labelSelector option"
  bg_Kinds :: "string list"

record accountGrant =
  gr_NamespaceSelector :: labelSelector
  gr_Hostnames :: "string list"
  gr_Zones :: "string list"
  gr_Exposures :: "string list"
  gr_UnprotectedHostnames :: "string list"
  gr_AccessPolicyRefs :: string
  gr_AccessCustomPageRefs :: string
  gr_DevicePostureIntegrationRefs :: string
  gr_PlatformObjects :: string
  gr_PrivateRoutes :: "privateRouteGrant option"
  gr_Backends :: "backendGrant option"

record cloudflareAccount =
  ca_Name :: string
  ca_AccountID :: string
  ca_Grants :: "accountGrant list"
  ca_TeamName :: string
  ca_AuthDomain :: string

section \<open>Conditions and status entries\<close>

definition ConditionStatusTrue :: string where "ConditionStatusTrue = ''True''"
definition ConditionStatusFalse :: string where "ConditionStatusFalse = ''False''"
definition ConditionStatusUnknown :: string where "ConditionStatusUnknown = ''Unknown''"

record condition =
  cd_Type :: string
  cd_Status :: string
  cd_ObservedGeneration :: int
  cd_LastTransitionTime :: time
  cd_Reason :: string
  cd_Message :: string

record parentReference =
  pr_Group :: "string option"
  pr_Kind :: "string option"
  pr_Namespace :: "string option"
  pr_Name :: string
  pr_SectionName :: "string option"
  pr_Port :: "int option"

record routeParentStatus =
  rps_ParentRef :: parentReference
  rps_ControllerName :: string
  rps_Conditions :: "condition list"

record policyAncestorStatus =
  pas_AncestorRef :: parentReference
  pas_ControllerName :: string
  pas_Conditions :: "condition list"

section \<open>Gateway API\<close>

definition gatewayGroup :: string where "gatewayGroup = ''gateway.networking.k8s.io''"
definition ControllerName :: string where "ControllerName = ''flareway.bhyoo.com/gateway-controller''"

record referenceGrantFrom =
  rgf_Group :: string
  rgf_Kind :: string
  rgf_Namespace :: string

record referenceGrantTo =
  rgt_Group :: string
  rgt_Kind :: string
  rgt_Name :: "string option"

record referenceGrant =
  rg_Namespace :: string
  rg_From :: "referenceGrantFrom list"
  rg_To :: "referenceGrantTo list"

record httpHeader =
  hh_Name :: string
  hh_Value :: string

record httpHeaderFilter =
  hhf_Set :: "httpHeader list"
  hhf_Add :: "httpHeader list"
  hhf_Remove :: "string list"

record httpPathModifier =
  hpm_Type :: string
  hpm_ReplaceFullPath :: "string option"
  hpm_ReplacePrefixMatch :: "string option"

record httpRequestRedirectFilter =
  hrr_Scheme :: "string option"
  hrr_Hostname :: "string option"
  hrr_Path :: "httpPathModifier option"
  hrr_Port :: "int option"
  hrr_StatusCode :: "int option"

record httpURLRewriteFilter =
  hur_Hostname :: "string option"
  hur_Path :: "httpPathModifier option"

record backendObjectReference =
  bo_Group :: "string option"
  bo_Kind :: "string option"
  bo_Name :: string
  bo_Namespace :: "string option"
  bo_Port :: "int option"

record fraction =
  fr_Numerator :: int
  fr_Denominator :: "int option"

record httpRequestMirrorFilter =
  hrm_BackendRef :: backendObjectReference
  hrm_Percent :: "int option"
  hrm_Fraction :: "fraction option"

record httpCORSFilter =
  hco_AllowOrigins :: "string list"
  hco_AllowCredentials :: "bool option"
  hco_AllowMethods :: "string list"
  hco_AllowHeaders :: "string list"
  hco_ExposeHeaders :: "string list"
  hco_MaxAge :: int

record httpRouteFilter =
  hf_Type :: string
  hf_RequestHeaderModifier :: "httpHeaderFilter option"
  hf_ResponseHeaderModifier :: "httpHeaderFilter option"
  hf_RequestMirror :: "httpRequestMirrorFilter option"
  hf_RequestRedirect :: "httpRequestRedirectFilter option"
  hf_URLRewrite :: "httpURLRewriteFilter option"
  hf_CORS :: "httpCORSFilter option"

record httpBackendRef =
  hb_Ref :: backendObjectReference
  hb_Weight :: "int option"
  hb_Filters :: "httpRouteFilter list"

record httpPathMatch =
  hp_Type :: "string option"
  hp_Value :: "string option"

record httpValueMatch =
  hvm_Type :: "string option"
  hvm_Name :: string
  hvm_Value :: string

record httpRouteMatch =
  ma_Path :: "httpPathMatch option"
  ma_Headers :: "httpValueMatch list"
  ma_QueryParams :: "httpValueMatch list"
  ma_Method :: "string option"

record httpRouteTimeouts =
  ht_Request :: "string option"
  ht_BackendRequest :: "string option"

text \<open>A retry or session persistence policy is only tested for presence.\<close>

record httpRouteRule =
  ru_Name :: "string option"
  ru_Matches :: "httpRouteMatch list"
  ru_Filters :: "httpRouteFilter list"
  ru_BackendRefs :: "httpBackendRef list"
  ru_Timeouts :: "httpRouteTimeouts option"
  ru_Retry :: bool
  ru_SessionPersistence :: bool

record httpRoute =
  hr_Namespace :: string
  hr_Name :: string
  hr_Generation :: int
  hr_CreationTimestamp :: time
  hr_ParentRefs :: "parentReference list"
  hr_Hostnames :: "string list"
  hr_Rules :: "httpRouteRule list"
  hr_StatusParents :: "routeParentStatus list"

record certificateRef =
  cr_Group :: "string option"
  cr_Kind :: "string option"
  cr_Name :: string
  cr_Namespace :: "string option"

record listenerTLS =
  lt_Mode :: "string option"
  lt_CertificateRefs :: "certificateRef list"
  lt_Options :: "(string, string) gomap"

record routeGroupKind =
  rgk_Group :: "string option"
  rgk_Kind :: string

record routeNamespaces =
  rn_From :: "string option"
  rn_Selector :: "labelSelector option"

record allowedRoutes =
  ar_Namespaces :: "routeNamespaces option"
  ar_Kinds :: "routeGroupKind list"

record gwListener =
  ln_Name :: string
  ln_Hostname :: "string option"
  ln_Port :: int
  ln_Protocol :: string
  ln_TLS :: "listenerTLS option"
  ln_AllowedRoutes :: "allowedRoutes option"

record listenerStatus =
  lst_Name :: string
  lst_SupportedKinds :: "routeGroupKind list"
  lst_AttachedRoutes :: int
  lst_Conditions :: "condition list"

record parametersRef =
  par_Group :: string
  par_Kind :: string
  par_Name :: string

record gatewayInfrastructure =
  gi_Labels :: "(string, string) gomap"
  gi_Annotations :: "(string, string) gomap"
  gi_ParametersRef :: "parametersRef option"

record gateway =
  gw_Namespace :: string
  gw_Name :: string
  gw_UID :: string
  gw_Generation :: int
  gw_Listeners :: "gwListener list"
  gw_Addresses :: "string list"
  gw_AllowedListeners :: bool
  gw_Infrastructure :: "gatewayInfrastructure option"
  gw_StatusConditions :: "condition list"
  gw_StatusListeners :: "listenerStatus list"

section \<open>Services, endpoints, policies and secrets\<close>

record servicePort =
  sp_Name :: string
  sp_Port :: int
  sp_AppProtocol :: "string option"

record service =
  sv_Namespace :: string
  sv_Name :: string
  sv_Type :: string
  sv_Ports :: "servicePort list"

record sliceEndpoint =
  se_Addresses :: "string list"
  se_Ready :: "bool option"
  se_Terminating :: "bool option"

record slicePort =
  slp_Name :: "string option"
  slp_Port :: "int option"

record endpointSlice =
  es_Namespace :: string
  es_Labels :: labels
  es_Ports :: "slicePort list"
  es_Endpoints :: "sliceEndpoint list"

record policyTargetRef =
  ptr_Group :: string
  ptr_Kind :: string
  ptr_Name :: string
  ptr_SectionName :: "string option"

record localObjectReference =
  lor_Group :: string
  lor_Kind :: string
  lor_Name :: string

record policySubjectAltName =
  psn_Type :: string
  psn_Hostname :: string
  psn_URI :: string

record backendTLSPolicyValidation =
  bv_CACertificateRefs :: "localObjectReference list"
  bv_WellKnownCACertificates :: "string option"
  bv_Hostname :: string
  bv_SubjectAltNames :: "policySubjectAltName list"

record backendTLSPolicy =
  bp_Namespace :: string
  bp_Name :: string
  bp_Generation :: int
  bp_CreationTimestamp :: time
  bp_TargetRefs :: "policyTargetRef list"
  bp_Validation :: backendTLSPolicyValidation
  bp_StatusAncestors :: "policyAncestorStatus list"

record configMap =
  cm_Namespace :: string
  cm_Name :: string
  cm_Data :: "string \<rightharpoonup> string"
  cm_BinaryData :: "string \<rightharpoonup> string"

record secret =
  st_Namespace :: string
  st_Name :: string
  st_Type :: string
  st_Data :: "string \<rightharpoonup> string"

text \<open>Go's lookup in a \<^verbatim>\<open>map[string]string\<close> or \<^verbatim>\<open>map[string][]byte\<close>: a missing key reads as empty.\<close>

definition str_get :: "(string \<rightharpoonup> string) \<Rightarrow> string \<Rightarrow> string" where
  "str_get m k = (case m k of None \<Rightarrow> [] | Some v \<Rightarrow> v)"

section \<open>Tunnels, applications and private networks\<close>

definition FlarewayGroup :: string where "FlarewayGroup = ''flareway.bhyoo.com''"
definition ManagementPolicyManaged :: string where "ManagementPolicyManaged = ''Managed''"
definition ManagementPolicyObserveOnly :: string where "ManagementPolicyObserveOnly = ''ObserveOnly''"
definition CloudflareTunnelTeardownAnnotation :: string where
  "CloudflareTunnelTeardownAnnotation = ''flareway.bhyoo.com/teardown''"

record tunnelListener =
  tl_Name :: string
  tl_Exposure :: string
  tl_VirtualNetworkRef :: "string option"

record tunnelListenerStatus =
  tls_Name :: string
  tls_Binding :: string

record tunnelHostnameStatus =
  ths_Hostname :: string
  ths_ProtectionDomain :: string
  ths_AccessApplication :: string

record cloudflareTunnel =
  tu_Namespace :: string
  tu_Name :: string
  tu_Annotations :: "string \<rightharpoonup> string"
  tu_ManagementPolicy :: string
  tu_AccountRef :: string
  tu_TunnelName :: string
  tu_Listeners :: "tunnelListener list"
  tu_StatusTunnelID :: string
  tu_StatusDeletedAt :: "time option"
  tu_StatusOwnershipVerified :: bool
  tu_StatusConnectorTokenSecretRef :: "string option"
  tu_StatusGatewayRef :: "string option"
  tu_StatusGatewayUID :: string
  tu_StatusHostnames :: "tunnelHostnameStatus list"
  tu_StatusListeners :: "tunnelListenerStatus list"

record classOriginRequest =
  cor_ConnectTimeout :: "duration option"
  cor_KeepAliveTimeout :: "duration option"
  cor_TCPKeepAlive :: "duration option"
  cor_KeepAliveConnections :: "int option"
  cor_NoHappyEyeballs :: "bool option"
  cor_DisableChunkedEncoding :: "bool option"
  cor_HTTP2Origin :: "bool option"

record gatewayClassConfig =
  gcc_ConformanceMode :: bool
  gcc_OriginRequest :: classOriginRequest

definition AccessOriginJWTModeRequired :: string where "AccessOriginJWTModeRequired = ''Required''"
definition AccessOriginJWTModeDisabled :: string where "AccessOriginJWTModeDisabled = ''Disabled''"
definition AccessOriginJWTAudienceScopeApplication :: string where
  "AccessOriginJWTAudienceScopeApplication = ''Application''"
definition DestinationPublic :: string where "DestinationPublic = ''Public''"
definition DestinationPrivate :: string where "DestinationPrivate = ''Private''"
definition DestinationViaMCPServerPortal :: string where "DestinationViaMCPServerPortal = ''ViaMCPServerPortal''"
definition DestinationWorker :: string where "DestinationWorker = ''Worker''"
definition DestinationPreviewWorker :: string where "DestinationPreviewWorker = ''PreviewWorker''"
definition DestinationAllWorkers :: string where "DestinationAllWorkers = ''AllWorkers''"
definition DestinationAllPreviewWorkers :: string where "DestinationAllPreviewWorkers = ''AllPreviewWorkers''"

record privateDestination =
  pvd_NetworkRouteRef :: "string option"
  pvd_HostnameRouteRef :: "string option"
  pvd_CIDR :: string
  pvd_PortRange :: string
  pvd_L4Protocol :: "string option"

record applicationDestination =
  apd_Type :: string
  apd_Private :: "privateDestination option"
  apd_ViaMCPServerPortal :: "string option"
  apd_Worker :: "string option"
  apd_PreviewWorker :: "string option"

record applicationTargetRef =
  atr_Group :: string
  atr_Kind :: string
  atr_Name :: string
  atr_SectionName :: "string option"

record pathScope =
  pts_Type :: string
  pts_Value :: string

record dataPlaneStatus =
  dps_Tunnel :: string
  dps_Listener :: string
  dps_ProtectionDomain :: string
  dps_EnvoyPort :: int

record destinationStatus =
  dst_Hostname :: string
  dst_URI :: string

record accessApplication =
  aa_Namespace :: string
  aa_Name :: string
  aa_CreationTimestamp :: time
  aa_DeletionTimestamp :: time
  aa_Annotations :: "string \<rightharpoonup> string"
  aa_AccountRef :: string
  aa_TargetRefs :: "applicationTargetRef list"
  aa_PathScope :: "pathScope option"
  aa_Destinations :: "applicationDestination list"
  aa_OriginJWTMode :: string
  aa_OriginJWTAudienceScope :: string
  aa_OptionsPreflightBypass :: "bool option"
  aa_StatusDataPlanes :: "dataPlaneStatus list"
  aa_StatusDestinations :: "destinationStatus list"

record allowedNamespaces =
  an_From :: string
  an_Selector :: "labelSelector option"

record appliedRoute =
  ap_ObservedGeneration :: int
  ap_Network :: string
  ap_Hostname :: string
  ap_TunnelID :: string
  ap_VirtualNetworkID :: string

text \<open>\<^verbatim>\<open>NetworkRoute\<close> and \<^verbatim>\<open>HostnameRoute\<close> have the same shape; the network or hostname is in \<open>Applied\<close>.\<close>

record privateRoute =
  pvr_Namespace :: string
  pvr_Name :: string
  pvr_Generation :: int
  pvr_DeletionTimestamp :: time
  pvr_Labels :: labels
  pvr_AccountRef :: string
  pvr_AllowedNamespaces :: allowedNamespaces
  pvr_StatusRouteID :: string
  pvr_StatusObservedGeneration :: int
  pvr_StatusApplied :: appliedRoute
  pvr_StatusConditions :: "condition list"

record virtualNetwork =
  vn_Namespace :: string
  vn_Name :: string
  vn_Generation :: int
  vn_AccountRef :: string
  vn_IsDefault :: bool
  vn_StatusVirtualNetworkID :: string
  vn_StatusObservedGeneration :: int
  vn_StatusConditions :: "condition list"

record audSecret =
  aud_AUD :: string
  aud_ApplicationID :: string
  aud_Ready :: bool

section \<open>Translator inputs\<close>

text \<open>
  A parsed IP prefix: the address length (32 or 128), the address as a number and the prefix length.
\<close>

record ipPrefix =
  ipp_BitLen :: nat
  ipp_Addr :: nat
  ipp_Bits :: nat

text \<open>
  What the translator calls outside this repository: the label selector library, key pair and
  certificate parsing, the text formats of durations and IP prefixes, and SHA-256.
\<close>

record externals =
  ext_selector :: selector_engine
  ext_X509KeyPair :: "string \<Rightarrow> string \<Rightarrow> bool"
  ext_AppendCertsFromPEM :: "string \<Rightarrow> bool"
  ext_ParseDuration :: "string \<Rightarrow> duration option"
  ext_ParsePrefix :: "string \<Rightarrow> ipPrefix option"
  ext_showPrefix :: "ipPrefix \<Rightarrow> string"
  ext_sha256 :: "string \<Rightarrow> string"

record inputs =
  in_Gateway :: "gateway option"
  in_GatewayClassConfig :: "gatewayClassConfig option"
  in_CloudflareTunnel :: "cloudflareTunnel option"
  in_CloudflareAccount :: "cloudflareAccount option"
  in_AccessApplications :: "accessApplication list"
  in_AUDSecrets :: "string \<times> string \<rightharpoonup> audSecret"
  in_VirtualNetworks :: "virtualNetwork list"
  in_NetworkRoutes :: "privateRoute list"
  in_HostnameRoutes :: "privateRoute list"
  in_Namespaces :: "namespace list"
  in_HTTPRoutes :: "httpRoute list"
  in_ReferenceGrants :: "referenceGrant list"
  in_BackendTLSPolicies :: "backendTLSPolicy list"
  in_Services :: "service list"
  in_EndpointSlices :: "endpointSlice list"
  in_Secrets :: "secret list"
  in_ConfigMaps :: "configMap list"
  in_Now :: time

text \<open>The zero value of \<^verbatim>\<open>Inputs\<close>.\<close>

definition empty_inputs :: inputs where
  "empty_inputs = \<lparr>in_Gateway = None, in_GatewayClassConfig = None, in_CloudflareTunnel = None,
     in_CloudflareAccount = None, in_AccessApplications = [], in_AUDSecrets = Map.empty, in_VirtualNetworks = [],
     in_NetworkRoutes = [], in_HostnameRoutes = [], in_Namespaces = [], in_HTTPRoutes = [], in_ReferenceGrants = [],
     in_BackendTLSPolicies = [], in_Services = [], in_EndpointSlices = [], in_Secrets = [], in_ConfigMaps = [],
     in_Now = 0\<rparr>"

lemma empty_inputs_simps [simp]:
  "in_Gateway empty_inputs = None"
  "in_GatewayClassConfig empty_inputs = None"
  "in_CloudflareTunnel empty_inputs = None"
  "in_CloudflareAccount empty_inputs = None"
  "in_AccessApplications empty_inputs = []"
  "in_AUDSecrets empty_inputs = Map.empty"
  "in_VirtualNetworks empty_inputs = []"
  "in_NetworkRoutes empty_inputs = []"
  "in_HostnameRoutes empty_inputs = []"
  "in_Namespaces empty_inputs = []"
  "in_HTTPRoutes empty_inputs = []"
  "in_ReferenceGrants empty_inputs = []"
  "in_BackendTLSPolicies empty_inputs = []"
  "in_Services empty_inputs = []"
  "in_EndpointSlices empty_inputs = []"
  "in_Secrets empty_inputs = []"
  "in_ConfigMaps empty_inputs = []"
  "in_Now empty_inputs = 0"
  by (simp_all add: empty_inputs_def)

text \<open>
  One instance of the external functions for the worked examples: every selector matches, every key and
  certificate parses, no duration and no prefix does, and the digest is the text itself.
\<close>

definition example_externals :: externals where
  "example_externals = \<lparr>ext_selector = (\<lambda>_ _. Inr True), ext_X509KeyPair = (\<lambda>_ _. True),
     ext_AppendCertsFromPEM = (\<lambda>_. True), ext_ParseDuration = (\<lambda>_. None), ext_ParsePrefix = (\<lambda>_. None),
     ext_showPrefix = (\<lambda>_. []), ext_sha256 = id\<rparr>"

end
