(* ===== verification/AccessRegions.thy ===== *)
theory AccessRegions
  imports IR ApiTypes
begin

text \<open>
  \<^verbatim>\<open>src/internal/gatewayapi/access.go\<close>, the path regions of Access applications: normalisation of a path (with
  Go's \<^verbatim>\<open>url.PathUnescape\<close> and \<^verbatim>\<open>path.Clean\<close>), containment and overlap of regions, minimisation of
  public destinations and the removal of the reserved identity headers. The abstract meaning of a region is a set of
  request paths (\<open>region_paths\<close>).
\<close>

section \<open>Regions\<close>

record accessRegion =
  rn_kind :: string
  rn_path :: string

definition accessRegionExact :: string where "accessRegionExact = ''Exact''"
definition accessRegionPrefix :: string where "accessRegionPrefix = ''Prefix''"

definition hex_value :: "char \<Rightarrow> nat option" where
  "hex_value c =
     (let n = of_char c :: nat in
      if 48 \<le> n \<and> n \<le> 57 then Some (n - 48)
      else if 97 \<le> n \<and> n \<le> 102 then Some (n - 87)
      else if 65 \<le> n \<and> n \<le> 70 then Some (n - 55)
      else None)"

text \<open>\<^verbatim>\<open>url.PathUnescape\<close>; the error quotes the malformed escape.\<close>

fun PathUnescape :: "string \<Rightarrow> string result" where
  "PathUnescape [] = Inr []"
| "PathUnescape (c # s) =
     (if c \<noteq> CHR ''%'' then (case PathUnescape s of Inl e \<Rightarrow> Inl e | Inr r \<Rightarrow> Inr (c # r))
      else (case s of
              h # l # t \<Rightarrow>
                (case (hex_value h, hex_value l) of
                   (Some x, Some y) \<Rightarrow>
                     (case PathUnescape t of Inl e \<Rightarrow> Inl e | Inr r \<Rightarrow> Inr (char_of (16 * x + y) # r))
                 | _ \<Rightarrow> Inl (''invalid URL escape '' @ show_q (take 3 (c # s))))
            | _ \<Rightarrow> Inl (''invalid URL escape '' @ show_q (take 3 (c # s)))))"

text \<open>
  \<^verbatim>\<open>path.Clean\<close> on a rooted path: empty and \<^verbatim>\<open>.\<close> elements vanish, \<^verbatim>\<open>..\<close> removes the element before it, if any.
\<close>

fun clean_segments :: "string list \<Rightarrow> string list \<Rightarrow> string list" where
  "clean_segments stack [] = rev stack"
| "clean_segments stack (x # xs) =
     (if x = [] \<or> x = ''.'' then clean_segments stack xs
      else if x = ''..'' then clean_segments (tl stack) xs
      else clean_segments (x # stack) xs)"

definition path_clean :: "string \<Rightarrow> string" where
  "path_clean p = CHR ''/'' # join (clean_segments [] (split p CHR ''/'')) ''/''"

definition normalizeAccessPath :: "string \<Rightarrow> string result" where
  "normalizeAccessPath value =
     (if value = [] then Inr ''/''
      else case PathUnescape value of
        Inl e \<Rightarrow> Inl e
      | Inr decoded \<Rightarrow> Inr (path_clean (if has_prefix decoded ''/'' then decoded else CHR ''/'' # decoded)))"

definition accessRegionForRoute :: "route \<Rightarrow> string + accessRegion" where
  "accessRegionForRoute route =
     (if pm_Type (ro_Match route) = PathMatchRegularExpression \<or>
         \<not> rs_PathExplicit (ro_Source route) \<and> (ro_Method route \<noteq> None \<or> ro_Headers route \<noteq> [] \<or> ro_Query route \<noteq> [])
      then Inr \<lparr>rn_kind = accessRegionPrefix, rn_path = ''/''\<rparr>
      else case normalizeAccessPath (pm_Value (ro_Match route)) of
        Inl e \<Rightarrow> Inl (''normalize route '' @ ro_Name route @ '' path: '' @ e)
      | Inr normalized \<Rightarrow>
          if pm_Type (ro_Match route) = PathMatchExact then Inr \<lparr>rn_kind = accessRegionExact, rn_path = normalized\<rparr>
          else if pm_Type (ro_Match route) = PathMatchPathPrefix then Inr \<lparr>rn_kind = accessRegionPrefix, rn_path = normalized\<rparr>
          else Inl (''route '' @ ro_Name route @ '' uses unsupported access path match '' @ show_q (pm_Type (ro_Match route))))"

definition accessRegionContains :: "accessRegion \<Rightarrow> accessRegion \<Rightarrow> bool" where
  "accessRegionContains container candidate =
     (if rn_kind container = accessRegionExact
      then rn_kind candidate = accessRegionExact \<and> rn_path container = rn_path candidate
      else if rn_path container = ''/'' then True
      else if rn_path candidate = rn_path container then True
      else has_prefix (rn_path candidate) (rn_path container @ ''/''))"

definition accessRegionsOverlap :: "accessRegion \<Rightarrow> accessRegion \<Rightarrow> bool" where
  "accessRegionsOverlap left right \<longleftrightarrow> accessRegionContains left right \<or> accessRegionContains right left"

definition accessRegionsCoverWholeHost :: "(string, accessRegion list) gomap \<Rightarrow> bool" where
  "accessRegionsCoverWholeHost regions =
     list_ex (\<lambda>(_, ownerRegions). list_ex (\<lambda>r. rn_kind r = accessRegionPrefix \<and> rn_path r = ''/'') ownerRegions) regions"

definition appendUniqueAccessRegion :: "accessRegion list \<Rightarrow> accessRegion \<Rightarrow> accessRegion list" where
  "appendUniqueAccessRegion regions candidate = (if candidate \<in> set regions then regions else regions @ [candidate])"

definition accessRegionsToMatches :: "accessRegion list \<Rightarrow> pathMatch list" where
  "accessRegionsToMatches regions =
     map (\<lambda>r. \<lparr>pm_Type = (if rn_kind r = accessRegionExact then PathMatchExact else PathMatchPathPrefix),
               pm_Value = rn_path r\<rparr>) regions"

section \<open>Reserved headers\<close>

definition reservedAccessHeaders :: "string list" where
  "reservedAccessHeaders = [''cf-access-jwt-assertion'', ''cf-access-authenticated-user-email'',
     ''cf-access-authenticated-user-id'', ''cf-access-authenticated-user-name'', ''cf-access-device-posture'',
     ''cf-access-client-id'', ''cf-access-client-secret'']"

definition access_header :: "string \<Rightarrow> bool" where
  "access_header name \<longleftrightarrow> has_prefix (to_lower name) ''cf-access-''"

definition add_reserved :: "string list \<Rightarrow> string \<Rightarrow> string list" where
  "add_reserved removed header =
     (if list_ex (\<lambda>r. equal_fold r header) removed then removed else removed @ [header])"

definition sanitizeAccessHeaderModifier :: "headerModifier option \<Rightarrow> headerModifier option" where
  "sanitizeAccessHeaderModifier modifier =
     (case modifier of
        None \<Rightarrow> None
      | Some m \<Rightarrow> Some
          \<lparr>hd_Set = filter (\<lambda>v. \<not> access_header (hv_Name v)) (hd_Set m),
           hd_Add = filter (\<lambda>v. \<not> access_header (hv_Name v)) (hd_Add m),
           hd_Remove = sort (foldl add_reserved (hd_Remove m) reservedAccessHeaders)\<rparr>)"

definition sanitizeUnprotectedRoute :: "route \<Rightarrow> route" where
  "sanitizeUnprotectedRoute r =
     r\<lparr>ro_Filters := (ro_Filters r)\<lparr>fi_RequestHeaders := sanitizeAccessHeaderModifier (fi_RequestHeaders (ro_Filters r))\<rparr>,
       ro_Backends := map (\<lambda>b. b\<lparr>ib_Filters := (ib_Filters b)\<lparr>bf_RequestHeaders :=
         sanitizeAccessHeaderModifier (bf_RequestHeaders (ib_Filters b))\<rparr>\<rparr>) (ro_Backends r)\<rparr>"

definition markPublicDomainsForHeaderStripping :: "irGateway \<Rightarrow> irGateway" where
  "markPublicDomainsForHeaderStripping gateway =
     (if ig_ConformanceMode gateway then gateway
      else gateway\<lparr>ig_Domains := map (\<lambda>d.
        if pd_Protected d \<or> pd_Guard d \<noteq> GuardUnprotected then d
        else d\<lparr>pd_StripAccessHeaders := True,
               pd_VirtualHosts := map (\<lambda>h. h\<lparr>vh_Routes := map sanitizeUnprotectedRoute (vh_Routes h)\<rparr>) (pd_VirtualHosts d)\<rparr>)
        (ig_Domains gateway)\<rparr>)"

section \<open>Destinations\<close>

record accessDestination =
  acd_Type :: string
  acd_URI :: string
  acd_Hostname :: string
  acd_CIDR :: string
  acd_PortRange :: string
  acd_L4Protocol :: "string option"
  acd_VNetID :: string
  acd_MCPServerID :: string
  acd_WorkerID :: string

definition empty_destination :: "string \<Rightarrow> accessDestination" where
  "empty_destination type = \<lparr>acd_Type = type, acd_URI = [], acd_Hostname = [], acd_CIDR = [], acd_PortRange = [],
     acd_L4Protocol = None, acd_VNetID = [], acd_MCPServerID = [], acd_WorkerID = []\<rparr>"

definition accessDestinationKey :: "accessDestination \<Rightarrow> string" where
  "accessDestinationKey d =
     join [acd_Type d, acd_URI d, acd_Hostname d, acd_CIDR d, acd_PortRange d,
           (case acd_L4Protocol d of None \<Rightarrow> [] | Some p \<Rightarrow> p), acd_VNetID d, acd_MCPServerID d, acd_WorkerID d] [CHR 0x00]"

definition accessURIContains :: "string \<Rightarrow> string \<Rightarrow> bool" where
  "accessURIContains container candidate =
     (let (containerHost, containerRest, _) = cut container CHR ''/'';
          (candidateHost, candidateRest, _) = cut candidate CHR ''/'';
          containerPath = trim_char containerRest CHR ''/'';
          candidatePath = trim_char candidateRest CHR ''/''
      in if containerHost \<noteq> candidateHost then False
         else if containerPath = [] then True
         else candidatePath = containerPath \<or> has_prefix candidatePath (containerPath @ ''/''))"

definition compare_uris :: "accessDestination \<Rightarrow> accessDestination \<Rightarrow> int" where
  "compare_uris = cmp_then (cmp_asc (\<lambda>d. int (length (acd_URI d)))) (cmp_on acd_URI compare)"

definition uri_covered :: "accessDestination list \<Rightarrow> accessDestination \<Rightarrow> bool" where
  "uri_covered result candidate =
     list_ex (\<lambda>e. acd_Type e = DestinationPublic \<and> accessURIContains (acd_URI e) (acd_URI candidate)) result"

definition minimizeAccessDestinations :: "accessDestination list \<Rightarrow> accessDestination list" where
  "minimizeAccessDestinations destinations =
     foldl (\<lambda>result candidate. if uri_covered result candidate then result else result @ [candidate])
       (filter (\<lambda>d. acd_Type d \<noteq> DestinationPublic) destinations)
       (sort_func compare_uris (filter (\<lambda>d. acd_Type d = DestinationPublic) destinations))"

fun compact_from :: "string \<Rightarrow> accessDestination list \<Rightarrow> accessDestination list" where
  "compact_from lastKey [] = []"
| "compact_from lastKey (d # ds) =
     (if accessDestinationKey d \<noteq> lastKey then d # compact_from (accessDestinationKey d) ds else compact_from lastKey ds)"

definition compactAccessDestinations :: "accessDestination list \<Rightarrow> accessDestination list" where
  "compactAccessDestinations destinations =
     (case destinations of [] \<Rightarrow> [] | d # ds \<Rightarrow> d # compact_from (accessDestinationKey d) ds)"

section \<open>Lemmas on regions\<close>

definition region_ok :: "accessRegion \<Rightarrow> bool" where
  "region_ok r \<longleftrightarrow> has_prefix (rn_path r) ''/'' \<and> (rn_kind r = accessRegionExact \<or> rn_kind r = accessRegionPrefix)"

text \<open>The request paths a region covers.\<close>

definition region_paths :: "accessRegion \<Rightarrow> string set" where
  "region_paths r =
     (if rn_kind r = accessRegionExact then {rn_path r}
      else if rn_path r = ''/'' then {p. has_prefix p ''/''}
      else {p. p = rn_path r \<or> has_prefix p (rn_path r @ ''/'')})"

lemma kinds_differ: "accessRegionExact \<noteq> accessRegionPrefix"
  by (simp add: accessRegionExact_def accessRegionPrefix_def)

lemma region_own_path: "region_ok r \<Longrightarrow> rn_path r \<in> region_paths r"
  by (auto simp: region_paths_def region_ok_def)

lemma below_rooted: "has_prefix p ''/'' \<Longrightarrow> has_prefix q (p @ ''/'') \<Longrightarrow> has_prefix q ''/''"
  by (auto simp: has_prefix_iff)

lemma region_rooted: "region_ok r \<Longrightarrow> p \<in> region_paths r \<Longrightarrow> has_prefix p ''/''"
  by (auto simp: region_paths_def region_ok_def below_rooted split: if_splits)

lemma prefix_linear:
  assumes "r = p \<or> has_prefix r (p @ ''/'')" and "r = q \<or> has_prefix r (q @ ''/'')" and "length p \<le> length q"
  shows "q = p \<or> has_prefix q (p @ ''/'')"
proof -
  obtain x where r: "r = p @ x" and x: "x = [] \<or> (\<exists>y. x = CHR ''/'' # y)" using assms(1) by (auto simp: has_prefix_iff)
  obtain z where r': "r = q @ z" using assms(2) by (auto simp: has_prefix_iff)
  obtain w where w: "q = p @ w" using r r' assms(3) by (auto simp: append_eq_append_conv2)
  then have "x = w @ z" using r r' by simp
  then show ?thesis using x w by (cases w) (auto simp: has_prefix_iff)
qed

text \<open>
  C23: containment and overlap of regions are those of the request paths they cover: a region contains another exactly when it covers every
  path of it, and two regions overlap exactly when some request path is in both.
\<close>
theorem region_algebra:
  assumes p: "region_ok p" and q: "region_ok q"
  shows "(accessRegionContains p q \<longleftrightarrow> region_paths q \<subseteq> region_paths p) \<and>
    (accessRegionsOverlap p q \<longleftrightarrow> region_paths p \<inter> region_paths q \<noteq> {})"
proof -
  have contains: "accessRegionContains p q \<longleftrightarrow> region_paths q \<subseteq> region_paths p" if p: "region_ok p" and q: "region_ok q" for p q
  proof
    assume "accessRegionContains p q"
    then show "region_paths q \<subseteq> region_paths p"
      using p q kinds_differ
      by (auto simp: accessRegionContains_def region_paths_def region_ok_def has_prefix_iff split: if_splits)
  next
    assume sub: "region_paths q \<subseteq> region_paths p"
    then have mem: "rn_path q \<in> region_paths p" using region_own_path [OF q] by blast
    show "accessRegionContains p q"
    proof (cases "rn_kind p = accessRegionExact")
      case True
      have "rn_kind q = accessRegionExact"
      proof (rule ccontr)
        assume "rn_kind q \<noteq> accessRegionExact"
        then have "rn_path q @ ''/x'' \<in> region_paths q"
          using q by (auto simp: region_paths_def region_ok_def has_prefix_iff)
        then have "rn_path q @ ''/x'' = rn_path p" "rn_path q = rn_path p"
          using sub mem True by (auto simp: region_paths_def [of p])
        then show False by simp
      qed
      then show ?thesis using True mem by (simp add: accessRegionContains_def region_paths_def)
    next
      case False
      then show ?thesis using mem by (auto simp: accessRegionContains_def region_paths_def split: if_splits)
    qed
  qed
  have "region_paths p \<inter> region_paths q \<noteq> {} \<longleftrightarrow> region_paths q \<subseteq> region_paths p \<or> region_paths p \<subseteq> region_paths q"
  proof
    assume "region_paths p \<inter> region_paths q \<noteq> {}"
    then obtain r where r: "r \<in> region_paths p" "r \<in> region_paths q" by blast
    have rooted: "region_paths q \<subseteq> {p. has_prefix p ''/''}" "region_paths p \<subseteq> {p. has_prefix p ''/''}"
      using region_rooted [OF q] region_rooted [OF p] by auto
    consider "rn_kind p = accessRegionExact" | "rn_kind q = accessRegionExact"
      | "rn_kind p \<noteq> accessRegionExact" "rn_path p = ''/''" | "rn_kind q \<noteq> accessRegionExact" "rn_path q = ''/''"
      | (prefixes) "rn_kind p \<noteq> accessRegionExact" "rn_kind q \<noteq> accessRegionExact" "rn_path p \<noteq> ''/''" "rn_path q \<noteq> ''/''" by blast
    then show "region_paths q \<subseteq> region_paths p \<or> region_paths p \<subseteq> region_paths q"
    proof cases
      case prefixes
      then have rp: "r = rn_path p \<or> has_prefix r (rn_path p @ ''/'')" and rq: "r = rn_path q \<or> has_prefix r (rn_path q @ ''/'')"
        using r by (auto simp: region_paths_def)
      have "accessRegionContains p q \<or> accessRegionContains q p"
        using prefix_linear [OF rp rq] prefix_linear [OF rq rp] prefixes
        by (cases "length (rn_path p) \<le> length (rn_path q)") (auto simp: accessRegionContains_def)
      then show ?thesis using contains [OF p q] contains [OF q p] by blast
    qed (use r rooted in \<open>auto simp: region_paths_def [of p] region_paths_def [of q]\<close>)
  qed (use region_own_path p q in blast)
  then show ?thesis using contains [OF p q] contains [OF q p] by (auto simp: accessRegionsOverlap_def)
qed

theorem region_algebra_witness:
  "region_paths \<lparr>rn_kind = accessRegionExact, rn_path = ''/a/b''\<rparr> \<subseteq> region_paths \<lparr>rn_kind = accessRegionPrefix, rn_path = ''/a''\<rparr> \<and>
   region_paths \<lparr>rn_kind = accessRegionPrefix, rn_path = ''/a''\<rparr> \<inter> region_paths \<lparr>rn_kind = accessRegionPrefix, rn_path = ''/ab''\<rparr> = {}"
proof -
  let ?p = "\<lparr>rn_kind = accessRegionPrefix, rn_path = ''/a''\<rparr>"
  let ?q = "\<lparr>rn_kind = accessRegionExact, rn_path = ''/a/b''\<rparr>" and ?r = "\<lparr>rn_kind = accessRegionPrefix, rn_path = ''/ab''\<rparr>"
  have ok: "region_ok ?p" "region_ok ?q" "region_ok ?r" by (simp_all add: region_ok_def has_prefix_def)
  have "accessRegionContains ?p ?q" "\<not> accessRegionsOverlap ?p ?r"
    using kinds_differ by (simp_all add: accessRegionContains_def accessRegionsOverlap_def has_prefix_def)
  then show ?thesis using region_algebra [OF ok(1,2)] region_algebra [OF ok(1,3)] by simp
qed

section \<open>Lemmas on paths\<close>

definition clean_segment :: "string \<Rightarrow> bool" where
  "clean_segment s \<longleftrightarrow> s \<noteq> [] \<and> s \<noteq> ''.'' \<and> s \<noteq> ''..'' \<and> CHR ''/'' \<notin> set s"

lemma clean_segments_clean:
  assumes "\<forall>s \<in> set stack. clean_segment s" and "\<forall>x \<in> set xs. CHR ''/'' \<notin> set x"
  shows "\<forall>s \<in> set (clean_segments stack xs). clean_segment s"
  using assms
proof (induction stack xs rule: clean_segments.induct)
  case (2 stack x xs)
  have popped: "\<forall>s \<in> set (tl stack). clean_segment s" using 2(4) by (cases stack) auto
  have rest: "\<forall>x \<in> set xs. CHR ''/'' \<notin> set x" and here: "CHR ''/'' \<notin> set x" using 2(5) by simp_all
  consider (skip) "x = [] \<or> x = ''.''" | (up) "x \<noteq> []" "x \<noteq> ''.''" "x = ''..''" | (down) "x \<noteq> []" "x \<noteq> ''.''" "x \<noteq> ''..''" by blast
  then show ?case
  proof cases
    case skip
    then show ?thesis using 2(1) [OF skip 2(4) rest] by simp
  next
    case up
    then show ?thesis using 2(2) [OF _ up(3) popped rest] by simp
  next
    case down
    then have "clean_segment x" using here unfolding clean_segment_def by (intro conjI)
    then have pushed: "\<forall>s \<in> set (x # stack). clean_segment s" using 2(4) by (simp only: list.simps ball_simps)
    have "\<not> (x = [] \<or> x = ''.'')" using down(1,2) by blast
    from 2(3) [OF this down(3) pushed rest] show ?thesis using down by (simp only: clean_segments.simps if_False simp_thms)
  qed
qed simp

lemma clean_segments_id:
  "\<forall>x \<in> set xs. clean_segment x \<Longrightarrow> clean_segments stack xs = rev stack @ xs"
  by (induction xs arbitrary: stack) (auto simp: clean_segment_def)

lemma split_join:
  "\<forall>x \<in> set xs. c \<notin> set x \<Longrightarrow> xs \<noteq> [] \<Longrightarrow> split (join xs [c]) c = xs"
proof (induction xs)
  case (Cons x xs)
  then show ?case by (cases xs) (simp_all add: split_absent split_append_sep)
qed simp

lemma path_clean_segments: "\<forall>s \<in> set (clean_segments [] (split p CHR ''/'')). clean_segment s"
  by (rule clean_segments_clean) (auto dest: split_no_sep)

lemma path_clean_idem:
  assumes "\<forall>s \<in> set segs. clean_segment s"
  shows "path_clean (CHR ''/'' # join segs ''/'') = CHR ''/'' # join segs ''/''"
proof (cases segs)
  case (Cons x xs)
  have "split (join segs ''/'') CHR ''/'' = segs"
    using assms Cons by (intro split_join) (auto simp: clean_segment_def)
  then have "split (CHR ''/'' # join segs ''/'') CHR ''/'' = [] # segs" by simp
  moreover have "clean_segments [] ([] # segs) = segs" using clean_segments_id [OF assms, of "[]"] by simp
  ultimately show ?thesis by (simp only: path_clean_def)
qed (simp add: path_clean_def)

text \<open>
  A normalised path is canonical: it is rooted, its elements are non-empty and none of them is a dot or dot-dot, and
  cleaning it again changes nothing. Encoded dots and slashes are decoded before, so that no spelling of a path
  leaves the region it is compared with.
\<close>
theorem normalized_path_canonical:
  assumes "normalizeAccessPath v = Inr p"
  shows "path_clean p = p \<and> (\<exists>segs. p = CHR ''/'' # join segs ''/'' \<and>
    (\<forall>s \<in> set segs. s \<noteq> [] \<and> s \<noteq> ''.'' \<and> s \<noteq> ''..'' \<and> CHR ''/'' \<notin> set s))"
proof -
  obtain segs where segs: "p = CHR ''/'' # join segs ''/''" "\<forall>s \<in> set segs. clean_segment s"
  proof (cases "v = []")
    case True
    then show thesis using assms that [of "[]"] by (simp add: normalizeAccessPath_def)
  next
    case False
    then obtain d where "p = path_clean d" using assms by (auto simp: normalizeAccessPath_def split: sum.splits)
    then show thesis using that path_clean_segments [of d] by (simp add: path_clean_def)
  qed
  then show ?thesis using path_clean_idem [OF segs(2)] unfolding clean_segment_def by blast
qed

theorem normalized_path_canonical_witness:
  "normalizeAccessPath ''/a/%2e%2e/b//c/.'' = Inr ''/b/c'' \<and> path_clean ''/b/c'' = ''/b/c''"
proof -
  have "normalizeAccessPath ''/a/%2e%2e/b//c/.'' = Inr ''/b/c''" by code_simp
  with normalized_path_canonical [OF this] show ?thesis by simp
qed

lemma normalized_rooted: "normalizeAccessPath v = Inr p \<Longrightarrow> has_prefix p ''/''"
  by (auto simp: normalizeAccessPath_def path_clean_def has_prefix_def split: if_splits sum.splits)

text \<open>A region in normal form: a known kind and a rooted path of plain elements, no dots, no empty elements, no slash at the end.\<close>

definition normal_path :: "string \<Rightarrow> bool" where
  "normal_path p \<longleftrightarrow> path_clean p = p \<and> (\<exists>segs. p = CHR ''/'' # join segs ''/'' \<and>
     (\<forall>s \<in> set segs. s \<noteq> [] \<and> s \<noteq> ''.'' \<and> s \<noteq> ''..'' \<and> CHR ''/'' \<notin> set s))"

definition region_normal :: "accessRegion \<Rightarrow> bool" where
  "region_normal r \<longleftrightarrow> region_ok r \<and> normal_path (rn_path r)"

lemma normalized_normal:
  assumes "normalizeAccessPath v = Inr p"
  shows "normal_path p"
  unfolding normal_path_def using assms by (rule normalized_path_canonical)

lemma region_normal_simps [simp]:
  "region_normal \<lparr>rn_kind = accessRegionPrefix, rn_path = ''/''\<rparr>"
  "normalizeAccessPath v = Inr p \<Longrightarrow> region_normal \<lparr>rn_kind = accessRegionExact, rn_path = p\<rparr>"
  "normalizeAccessPath v = Inr p \<Longrightarrow> region_normal \<lparr>rn_kind = accessRegionPrefix, rn_path = p\<rparr>"
proof -
  have "normalizeAccessPath [] = Inr ''/''" by (simp add: normalizeAccessPath_def)
  note root = normalized_normal [OF this]
  show "region_normal \<lparr>rn_kind = accessRegionPrefix, rn_path = ''/''\<rparr>"
    by (simp add: region_normal_def region_ok_def has_prefix_def root)
qed (simp_all add: region_normal_def region_ok_def normalized_rooted normalized_normal)

lemma accessRegionForRoute_normal: "accessRegionForRoute r = Inr region \<Longrightarrow> region_normal region"
  by (auto simp: accessRegionForRoute_def split: if_splits sum.splits)

section \<open>Lemmas on headers\<close>

lemma add_reserved_mono: "\<exists>r \<in> set removed. equal_fold r h \<Longrightarrow> \<exists>r \<in> set (foldl add_reserved removed hs). equal_fold r h"
  by (induction hs arbitrary: removed) (auto simp: add_reserved_def)

lemma add_reserved_all: "h \<in> set hs \<Longrightarrow> \<exists>r \<in> set (foldl add_reserved removed hs). equal_fold r h"
proof (induction hs arbitrary: removed)
  case (Cons g hs)
  show ?case
  proof (cases "h = g")
    case True
    have "\<exists>r \<in> set (add_reserved removed g). equal_fold r g"
      by (auto simp: add_reserved_def list_ex_iff equal_fold_def)
    then show ?thesis using True add_reserved_mono by simp
  qed (use Cons in simp)
qed simp

definition strips_access :: "headerModifier option \<Rightarrow> bool" where
  "strips_access m \<longleftrightarrow>
     (case m of None \<Rightarrow> True
      | Some h \<Rightarrow> (\<forall>v \<in> set (hd_Set h) \<union> set (hd_Add h). \<not> access_header (hv_Name v)) \<and>
                 (\<forall>name \<in> set reservedAccessHeaders. \<exists>r \<in> set (hd_Remove h). equal_fold r name))"

lemma sanitize_strips: "strips_access (sanitizeAccessHeaderModifier m)"
  by (auto simp: strips_access_def sanitizeAccessHeaderModifier_def add_reserved_all split: option.split)

text \<open>
  A sanitised route cannot forge an Access identity. Neither its own request header modifier nor that of any of its backends
  sets or adds a header in the Access name space, in any letter case, and each removes every reserved identity header.
\<close>
theorem sanitized_route_strips:
  "strips_access (fi_RequestHeaders (ro_Filters (sanitizeUnprotectedRoute r))) \<and>
   (\<forall>b \<in> set (ro_Backends (sanitizeUnprotectedRoute r)). strips_access (bf_RequestHeaders (ib_Filters b)))"
  by (auto simp: sanitizeUnprotectedRoute_def sanitize_strips)

definition example_spoofing_route :: route where
  "example_spoofing_route = empty_route\<lparr>ro_Filters := empty_filters\<lparr>fi_RequestHeaders :=
     Some \<lparr>hd_Set = [\<lparr>hv_Name = ''Cf-Access-Jwt-Assertion'', hv_Value = ''x''\<rparr>], hd_Add = [], hd_Remove = []\<rparr>\<rparr>\<rparr>"

theorem sanitized_route_strips_witness:
  "\<exists>h. fi_RequestHeaders (ro_Filters (sanitizeUnprotectedRoute example_spoofing_route)) = Some h \<and> hd_Set h = [] \<and>
     strips_access (Some h)"
proof -
  have reserved: "access_header ''Cf-Access-Jwt-Assertion''" by code_simp
  obtain h where h: "fi_RequestHeaders (ro_Filters (sanitizeUnprotectedRoute example_spoofing_route)) = Some h" "hd_Set h = []"
    by (simp add: sanitizeUnprotectedRoute_def sanitizeAccessHeaderModifier_def example_spoofing_route_def empty_filters_def reserved)
  with sanitized_route_strips [of example_spoofing_route] show ?thesis by auto
qed

section \<open>Lemmas on destinations\<close>

interpretation uris: comparator compare_uris
  unfolding compare_uris_def by (intro comparator_intros)

lemma uri_contains_refl: "accessURIContains u u"
  by (simp add: accessURIContains_def Let_def split: prod.split)

lemma uri_contains_trans: "accessURIContains a b \<Longrightarrow> accessURIContains b c \<Longrightarrow> accessURIContains a c"
  by (auto simp: accessURIContains_def Let_def has_prefix_iff split: prod.splits if_splits)

lemma minimize_fold:
  fixes xs init :: "accessDestination list"
  defines "out \<equiv> foldl (\<lambda>result candidate. if uri_covered result candidate then result else result @ [candidate]) init xs"
  assumes "\<forall>x \<in> set xs. acd_Type x = DestinationPublic"
  shows "set init \<subseteq> set out \<and> set out \<subseteq> set init \<union> set xs \<and> (\<forall>x \<in> set xs. uri_covered out x)"
  using assms(2) unfolding out_def
proof (induction xs arbitrary: init)
  case (Cons x xs)
  let ?init = "if uri_covered init x then init else init @ [x]"
  have covered: "uri_covered ?init x"
    using Cons.prems by (simp add: uri_covered_def uri_contains_refl)
  have mono: "set a \<subseteq> set b \<Longrightarrow> uri_covered a x \<Longrightarrow> uri_covered b x" for a b
    by (auto simp: uri_covered_def list_ex_iff)
  let ?out = "foldl (\<lambda>result candidate. if uri_covered result candidate then result else result @ [candidate]) ?init xs"
  have ih: "set ?init \<subseteq> set ?out" "set ?out \<subseteq> set ?init \<union> set xs" "\<forall>x \<in> set xs. uri_covered ?out x"
    using Cons.IH [of ?init] Cons.prems by simp_all
  have "set init \<subseteq> set ?init" "set ?init \<subseteq> insert x (set init)" by auto
  then have "set init \<subseteq> set ?out" "set ?out \<subseteq> set init \<union> set (x # xs)" using ih(1,2) by auto
  moreover have "\<forall>y \<in> set (x # xs). uri_covered ?out y" using ih(3) mono [OF ih(1) covered] by simp
  ultimately show ?case by (simp only: foldl_Cons)
qed simp

text \<open>
  Minimising destinations loses no protection and invents none. The result keeps every destination that is not public, contains only given
  destinations, and every given public URI is contained in the URI of a public destination that is kept.
\<close>
theorem minimized_destinations_cover:
  "set (minimizeAccessDestinations ds) \<subseteq> set ds \<and>
   (\<forall>d \<in> set ds. (acd_Type d \<noteq> DestinationPublic \<longrightarrow> d \<in> set (minimizeAccessDestinations ds)) \<and>
     (acd_Type d = DestinationPublic \<longrightarrow> (\<exists>k \<in> set (minimizeAccessDestinations ds).
        acd_Type k = DestinationPublic \<and> accessURIContains (acd_URI k) (acd_URI d))))"
proof -
  let ?private = "filter (\<lambda>d. acd_Type d \<noteq> DestinationPublic) ds"
  let ?public = "sort_func compare_uris (filter (\<lambda>d. acd_Type d = DestinationPublic) ds)"
  have "\<forall>x \<in> set ?public. acd_Type x = DestinationPublic" by simp
  from minimize_fold [OF this, of ?private] show ?thesis
    unfolding minimizeAccessDestinations_def uri_covered_def list_ex_iff by auto
qed

theorem minimized_destinations_cover_witness:
  "\<exists>k \<in> set (minimizeAccessDestinations [(empty_destination DestinationPublic)\<lparr>acd_URI := ''h.io/a''\<rparr>]).
     accessURIContains (acd_URI k) ''h.io/a''"
  using minimized_destinations_cover [of "[(empty_destination DestinationPublic)\<lparr>acd_URI := ''h.io/a''\<rparr>]"]
  by (auto simp: empty_destination_def)

end
