(* ===== verification/Authz.thy ===== *)
theory Authz
  imports ApiTypes
begin

text \<open>
  \<^verbatim>\<open>src/internal/authz/evaluate.go\<close>: the grants of a \<^verbatim>\<open>CloudflareAccount\<close>. One grant whose
  namespace selector matches must permit every gate a request activates. The label selector
  library is the parameter \<open>selector\<close>. \<open>grant_permits\<close> is the abstract specification of a
  single grant, without order, reasons or messages.
\<close>

named_theorems authz_simps "reasons, constructors and constants of the grant evaluation"

definition ReasonAllowed :: string where [authz_simps]: "ReasonAllowed = ''Allowed''"
definition ReasonRefNotPermitted :: string where [authz_simps]: "ReasonRefNotPermitted = ''RefNotPermitted''"
definition ReasonUnsupportedValue :: string where [authz_simps]: "ReasonUnsupportedValue = ''UnsupportedValue''"

definition PrivateRouteNetwork :: string where [authz_simps]: "PrivateRouteNetwork = ''NetworkRoute''"
definition PrivateRouteHostname :: string where [authz_simps]: "PrivateRouteHostname = ''HostnameRoute''"

record privateRouteRequest =
  prr_Kind :: string
  prr_Labels :: labels

record backendRequest =
  br_Namespace :: "namespace option"
  br_Kind :: string

record request =
  rq_Hostname :: string
  rq_Zone :: string
  rq_Exposure :: string
  rq_Unprotected :: bool
  rq_AccessPolicyRef :: bool
  rq_AccessCustomPageRef :: bool
  rq_DevicePostureIntegrationRef :: bool
  rq_PlatformObject :: bool
  rq_PrivateRoute :: "privateRouteRequest option"
  rq_Backend :: "backendRequest option"

definition empty_request :: request where
  "empty_request = \<lparr>rq_Hostname = [], rq_Zone = [], rq_Exposure = [], rq_Unprotected = False,
     rq_AccessPolicyRef = False, rq_AccessCustomPageRef = False, rq_DevicePostureIntegrationRef = False,
     rq_PlatformObject = False, rq_PrivateRoute = None, rq_Backend = None\<rparr>"

record authz_decision =
  ad_Allowed :: bool
  ad_Reason :: string
  ad_Message :: string
  ad_GrantIndex :: int

definition denied :: "string \<Rightarrow> string \<Rightarrow> authz_decision" where
  [authz_simps]: "denied reason message =
     \<lparr>ad_Allowed = False, ad_Reason = reason, ad_Message = message, ad_GrantIndex = -1\<rparr>"

text \<open>\<^verbatim>\<open>Decision{Allowed: true}\<close>: every other field is its zero value.\<close>

definition allowed_zero :: authz_decision where
  [authz_simps]: "allowed_zero = \<lparr>ad_Allowed = True, ad_Reason = [], ad_Message = [], ad_GrantIndex = 0\<rparr>"

section \<open>Name matching\<close>

definition normalizeDNSName :: "string \<Rightarrow> string" where
  "normalizeDNSName value = trim_suffix (to_lower (trim_space value)) ''.''"

definition HostnameMatches :: "string \<Rightarrow> string \<Rightarrow> bool" where
  "HostnameMatches pattern0 hostname0 =
     (let pattern = normalizeDNSName pattern0; hostname = normalizeDNSName hostname0 in
      if pattern = ''*'' then hostname \<noteq> []
      else if pattern = hostname then pattern \<noteq> []
      else if \<not> has_prefix pattern ''*.'' \<or> has_prefix hostname ''*.'' then False
      else let suffix = trim_prefix pattern ''*'' in
        if \<not> has_suffix hostname suffix then False
        else let pre = trim_suffix hostname suffix in pre \<noteq> [] \<and> \<not> contains_char pre CHR ''.'')"

definition matchesHostnameSet :: "string list \<Rightarrow> string \<Rightarrow> bool" where
  "matchesHostnameSet patterns hostname = (\<exists>p \<in> set patterns. HostnameMatches p hostname)"

definition ZoneMatches :: "string list \<Rightarrow> string \<Rightarrow> bool" where
  "ZoneMatches patterns zone =
     (let v = normalizeDNSName zone in
      \<exists>p \<in> set patterns. normalizeDNSName p = ''*'' \<or> normalizeDNSName p = v)"

definition containsExposure :: "string list \<Rightarrow> string \<Rightarrow> bool" where
  "containsExposure exposures exposure = (exposure \<in> set exposures)"

definition containsBackendKind :: "string list \<Rightarrow> string \<Rightarrow> bool" where
  "containsBackendKind kinds kind = (kind \<in> set kinds)"

definition selectorMatches :: "selector_engine \<Rightarrow> labelSelector \<Rightarrow> labels \<Rightarrow> bool result" where
  "selectorMatches selector sel objectLabels = selector sel objectLabels"

section \<open>Evaluation\<close>

definition evaluatePrivateRoute ::
  "selector_engine \<Rightarrow> privateRouteGrant option \<Rightarrow> privateRouteRequest \<Rightarrow> authz_decision" where
  "evaluatePrivateRoute selector grant request =
     (case grant of
        None \<Rightarrow> denied ReasonRefNotPermitted (prr_Kind request @ '' references are not granted'')
      | Some g \<Rightarrow>
          (let judge = (\<lambda>sel.
              (case sel of
                 None \<Rightarrow> denied ReasonRefNotPermitted (prr_Kind request @ '' references are not granted'')
               | Some s \<Rightarrow>
                   (case selectorMatches selector s (prr_Labels request) of
                      Inl err \<Rightarrow> denied ReasonRefNotPermitted (''invalid '' @ prr_Kind request @ '' selector: '' @ err)
                    | Inr matches \<Rightarrow>
                        if \<not> matches then denied ReasonRefNotPermitted (prr_Kind request @ '' labels are not granted'')
                        else allowed_zero)))
           in if prr_Kind request = PrivateRouteNetwork then judge (prg_NetworkRouteSelector g)
              else if prr_Kind request = PrivateRouteHostname then judge (prg_HostnameRouteSelector g)
              else denied ReasonRefNotPermitted (''private route kind '' @ show_q (prr_Kind request) @ '' is not supported'')))"

definition evaluateBackend ::
  "selector_engine \<Rightarrow> backendGrant option \<Rightarrow> namespace \<Rightarrow> backendRequest \<Rightarrow> authz_decision" where
  "evaluateBackend selector grant sourceNamespace request =
     (case (grant, br_Namespace request) of
        (Some g, Some ns) \<Rightarrow>
          if \<not> containsBackendKind (bg_Kinds g) (br_Kind request)
            then denied ReasonRefNotPermitted (''backend kind '' @ show_q (br_Kind request) @ '' is not granted'')
          else if bg_Namespaces g = [] \<or> bg_Namespaces g = BackendNamespaceSame then
            (if ns_Name ns \<noteq> ns_Name sourceNamespace
             then denied ReasonRefNotPermitted (''backend namespace '' @ show_q (ns_Name ns) @ '' is not the source namespace'')
             else allowed_zero)
          else if bg_Namespaces g = BackendNamespaceSelector then
            (case bg_Selector g of
               None \<Rightarrow> denied ReasonRefNotPermitted ''backend namespace selector is required''
             | Some s \<Rightarrow>
                 (case selectorMatches selector s (ns_Labels ns) of
                    Inl err \<Rightarrow> denied ReasonRefNotPermitted (''invalid backend namespace selector: '' @ err)
                  | Inr matches \<Rightarrow>
                      if \<not> matches
                      then denied ReasonRefNotPermitted (''backend namespace '' @ show_q (ns_Name ns) @ '' is not granted'')
                      else allowed_zero))
          else denied ReasonRefNotPermitted (''backend namespace mode '' @ show_q (bg_Namespaces g) @ '' is not supported'')
      | _ \<Rightarrow> denied ReasonRefNotPermitted ''backend namespace is not granted'')"

definition evaluateGrant :: "selector_engine \<Rightarrow> accountGrant \<Rightarrow> namespace \<Rightarrow> request \<Rightarrow> authz_decision" where
  "evaluateGrant selector grant namespace request =
     (if rq_Hostname request \<noteq> [] \<and> \<not> matchesHostnameSet (gr_Hostnames grant) (rq_Hostname request)
        then denied ReasonUnsupportedValue (''hostname '' @ show_q (rq_Hostname request) @ '' is not granted'')
      else if rq_Zone request \<noteq> [] \<and> \<not> ZoneMatches (gr_Zones grant) (rq_Zone request)
        then denied ReasonUnsupportedValue (''zone '' @ show_q (rq_Zone request) @ '' is not granted'')
      else if rq_Exposure request \<noteq> [] \<and> \<not> containsExposure (gr_Exposures grant) (rq_Exposure request)
        then denied ReasonUnsupportedValue (''exposure '' @ show_q (rq_Exposure request) @ '' is not granted'')
      else if rq_Unprotected request \<and> \<not> matchesHostnameSet (gr_UnprotectedHostnames grant) (rq_Hostname request)
        then denied ReasonRefNotPermitted (''unprotected hostname '' @ show_q (rq_Hostname request) @ '' is not granted'')
      else if rq_AccessPolicyRef request \<and> gr_AccessPolicyRefs grant \<noteq> GrantPermissionAllowed
        then denied ReasonRefNotPermitted ''platform Access policy references are not granted''
      else if rq_AccessCustomPageRef request \<and> gr_AccessCustomPageRefs grant \<noteq> GrantPermissionAllowed
        then denied ReasonRefNotPermitted ''managed Access custom page references are not granted''
      else if rq_DevicePostureIntegrationRef request \<and> gr_DevicePostureIntegrationRefs grant \<noteq> GrantPermissionAllowed
        then denied ReasonRefNotPermitted ''managed device posture integration references are not granted''
      else if rq_PlatformObject request \<and> gr_PlatformObjects grant \<noteq> GrantPermissionAllowed
        then denied ReasonRefNotPermitted ''platform object management is not granted''
      else let route = (case rq_PrivateRoute request of
                          None \<Rightarrow> allowed_zero
                        | Some r \<Rightarrow> evaluatePrivateRoute selector (gr_PrivateRoutes grant) r) in
        if \<not> ad_Allowed route then route
        else let backend = (case rq_Backend request of
                              None \<Rightarrow> allowed_zero
                            | Some b \<Rightarrow> evaluateBackend selector (gr_Backends grant) namespace b) in
          if \<not> ad_Allowed backend then backend
          else \<lparr>ad_Allowed = True, ad_Reason = ReasonAllowed, ad_Message = ''request is allowed'', ad_GrantIndex = -1\<rparr>)"

definition namespace_not_granted :: "cloudflareAccount \<Rightarrow> namespace \<Rightarrow> authz_decision" where
  "namespace_not_granted account namespace =
     denied ReasonRefNotPermitted
       (''namespace '' @ show_q (ns_Name namespace) @ '' is not granted by CloudflareAccount '' @ show_q (ca_Name account))"

text \<open>The loop over the grants: the next index, whether a namespace matched so far, the last denial.\<close>

fun evaluate_grants ::
  "selector_engine \<Rightarrow> cloudflareAccount \<Rightarrow> namespace \<Rightarrow> request \<Rightarrow> int \<Rightarrow> bool \<Rightarrow> authz_decision
    \<Rightarrow> accountGrant list \<Rightarrow> authz_decision" where
  "evaluate_grants selector account namespace request index matchedNamespace lastDenial [] =
     (if \<not> matchedNamespace then namespace_not_granted account namespace else lastDenial)"
| "evaluate_grants selector account namespace request index matchedNamespace lastDenial (grant # grants) =
     (case selectorMatches selector (gr_NamespaceSelector grant) (ns_Labels namespace) of
        Inl err \<Rightarrow>
          evaluate_grants selector account namespace request (index + 1) matchedNamespace
            (denied ReasonRefNotPermitted
               (''grant '' @ show_int index @ '' has an invalid namespace selector: '' @ err)) grants
      | Inr matches \<Rightarrow>
          if \<not> matches
          then evaluate_grants selector account namespace request (index + 1) matchedNamespace lastDenial grants
          else let decision = (evaluateGrant selector grant namespace request)\<lparr>ad_GrantIndex := index\<rparr> in
            if ad_Allowed decision then decision
            else evaluate_grants selector account namespace request (index + 1) True decision grants)"

definition authz_Evaluate ::
  "selector_engine \<Rightarrow> cloudflareAccount option \<Rightarrow> namespace option \<Rightarrow> request \<Rightarrow> authz_decision" where
  "authz_Evaluate selector account namespace request =
     (case account of
        None \<Rightarrow> denied ReasonRefNotPermitted ''CloudflareAccount is required''
      | Some a \<Rightarrow>
          (case namespace of
             None \<Rightarrow> denied ReasonRefNotPermitted ''request namespace is required''
           | Some ns \<Rightarrow>
               evaluate_grants selector a ns request 0 False (namespace_not_granted a ns) (ca_Grants a)))"

section \<open>Abstract specification\<close>

definition route_permitted :: "selector_engine \<Rightarrow> privateRouteGrant option \<Rightarrow> privateRouteRequest \<Rightarrow> bool" where
  "route_permitted selector grant request \<longleftrightarrow>
     (\<exists>g s. grant = Some g \<and>
        (prr_Kind request = PrivateRouteNetwork \<and> prg_NetworkRouteSelector g = Some s \<or>
         prr_Kind request = PrivateRouteHostname \<and> prg_HostnameRouteSelector g = Some s) \<and>
        selector s (prr_Labels request) = Inr True)"

definition backend_permitted :: "selector_engine \<Rightarrow> backendGrant option \<Rightarrow> namespace \<Rightarrow> backendRequest \<Rightarrow> bool" where
  "backend_permitted selector grant source request \<longleftrightarrow>
     (\<exists>g ns. grant = Some g \<and> br_Namespace request = Some ns \<and> br_Kind request \<in> set (bg_Kinds g) \<and>
        ((bg_Namespaces g = [] \<or> bg_Namespaces g = BackendNamespaceSame) \<and> ns_Name ns = ns_Name source \<or>
         bg_Namespaces g = BackendNamespaceSelector \<and>
           (\<exists>s. bg_Selector g = Some s \<and> selector s (ns_Labels ns) = Inr True)))"

definition grant_permits :: "selector_engine \<Rightarrow> accountGrant \<Rightarrow> namespace \<Rightarrow> request \<Rightarrow> bool" where
  "grant_permits selector grant namespace request \<longleftrightarrow>
     selector (gr_NamespaceSelector grant) (ns_Labels namespace) = Inr True \<and>
     (rq_Hostname request \<noteq> [] \<longrightarrow> matchesHostnameSet (gr_Hostnames grant) (rq_Hostname request)) \<and>
     (rq_Zone request \<noteq> [] \<longrightarrow> ZoneMatches (gr_Zones grant) (rq_Zone request)) \<and>
     (rq_Exposure request \<noteq> [] \<longrightarrow> rq_Exposure request \<in> set (gr_Exposures grant)) \<and>
     (rq_Unprotected request \<longrightarrow> matchesHostnameSet (gr_UnprotectedHostnames grant) (rq_Hostname request)) \<and>
     (rq_AccessPolicyRef request \<longrightarrow> gr_AccessPolicyRefs grant = GrantPermissionAllowed) \<and>
     (rq_AccessCustomPageRef request \<longrightarrow> gr_AccessCustomPageRefs grant = GrantPermissionAllowed) \<and>
     (rq_DevicePostureIntegrationRef request \<longrightarrow> gr_DevicePostureIntegrationRefs grant = GrantPermissionAllowed) \<and>
     (rq_PlatformObject request \<longrightarrow> gr_PlatformObjects grant = GrantPermissionAllowed) \<and>
     (\<forall>r. rq_PrivateRoute request = Some r \<longrightarrow> route_permitted selector (gr_PrivateRoutes grant) r) \<and>
     (\<forall>b. rq_Backend request = Some b \<longrightarrow> backend_permitted selector (gr_Backends grant) namespace b)"

section \<open>Lemmas\<close>

lemma route_kinds_differ [simp]: "PrivateRouteNetwork \<noteq> PrivateRouteHostname"
  by (simp add: authz_simps)

lemma evaluatePrivateRoute_allowed:
  "ad_Allowed (evaluatePrivateRoute selector grant r) \<longleftrightarrow> route_permitted selector grant r"
proof (cases grant)
  case (Some g)
  then show ?thesis
    using route_kinds_differ
    by (auto simp: evaluatePrivateRoute_def route_permitted_def selectorMatches_def denied_def allowed_zero_def
        Let_def split: option.splits sum.splits)
qed (simp add: evaluatePrivateRoute_def route_permitted_def denied_def)

lemma evaluateBackend_allowed:
  "ad_Allowed (evaluateBackend selector grant namespace b) \<longleftrightarrow> backend_permitted selector grant namespace b"
proof (cases "(grant, br_Namespace b)")
  case (Pair g ns)
  have modes: "BackendNamespaceSelector \<noteq> []" "BackendNamespaceSelector \<noteq> BackendNamespaceSame"
    by (simp_all add: BackendNamespaceSelector_def BackendNamespaceSame_def)
  then show ?thesis
    by (cases grant; cases "br_Namespace b")
      (auto simp: evaluateBackend_def backend_permitted_def selectorMatches_def containsBackendKind_def denied_def
        allowed_zero_def split: option.splits sum.splits)
qed

lemma evaluateGrant_allowed:
  "selector (gr_NamespaceSelector grant) (ns_Labels namespace) = Inr True \<Longrightarrow>
   ad_Allowed (evaluateGrant selector grant namespace request) \<longleftrightarrow> grant_permits selector grant namespace request"
  by (auto simp: evaluateGrant_def grant_permits_def containsExposure_def evaluatePrivateRoute_allowed
      evaluateBackend_allowed denied_def allowed_zero_def Let_def split: option.splits)

lemma grant_permits_namespace:
  "grant_permits selector grant namespace request \<Longrightarrow>
   selector (gr_NamespaceSelector grant) (ns_Labels namespace) = Inr True"
  by (simp add: grant_permits_def)

lemma denied_not_allowed [simp]: "\<not> ad_Allowed (denied reason message)"
  by (simp add: denied_def)

lemma namespace_not_granted_not_allowed [simp]: "\<not> ad_Allowed (namespace_not_granted account namespace)"
  by (simp add: namespace_not_granted_def)

text \<open>One turn of the loop: it stops exactly at a grant that permits the request.\<close>

lemma evaluate_grants_permitted:
  assumes "grant_permits selector grant namespace request"
  shows "ad_Allowed (evaluate_grants selector account namespace request i matched denial (grant # grants))"
    and "ad_GrantIndex (evaluate_grants selector account namespace request i matched denial (grant # grants)) = i"
proof -
  have matches: "selector (gr_NamespaceSelector grant) (ns_Labels namespace) = Inr True"
    using assms by (rule grant_permits_namespace)
  then have "ad_Allowed (evaluateGrant selector grant namespace request)"
    using assms by (simp add: evaluateGrant_allowed)
  with matches show "ad_Allowed (evaluate_grants selector account namespace request i matched denial (grant # grants))"
    and "ad_GrantIndex (evaluate_grants selector account namespace request i matched denial (grant # grants)) = i"
    by (simp_all add: selectorMatches_def Let_def)
qed

lemma evaluate_grants_skipped:
  assumes "\<not> grant_permits selector grant namespace request" and "\<not> ad_Allowed denial"
  obtains matched' denial' where "\<not> ad_Allowed denial'" and
    "evaluate_grants selector account namespace request i matched denial (grant # grants) =
      evaluate_grants selector account namespace request (i + 1) matched' denial' grants"
proof (cases "selectorMatches selector (gr_NamespaceSelector grant) (ns_Labels namespace)")
  case (Inl err)
  show ?thesis by (rule that [OF denied_not_allowed]) (simp only: evaluate_grants.simps Inl sum.case)
next
  case (Inr matches)
  show ?thesis
  proof (cases matches)
    case True
    then have "\<not> ad_Allowed (evaluateGrant selector grant namespace request)"
      using Inr assms(1) by (simp add: selectorMatches_def evaluateGrant_allowed)
    then show ?thesis
      using Inr True
      by (intro that [of "(evaluateGrant selector grant namespace request)\<lparr>ad_GrantIndex := i\<rparr>" True])
        (simp_all add: Let_def)
  next
    case False
    with Inr assms(2) show ?thesis by (intro that [of denial matched]) simp_all
  qed
qed

text \<open>The least index that satisfies a predicate, along the list.\<close>

definition first_index :: "('a \<Rightarrow> bool) \<Rightarrow> 'a list \<Rightarrow> nat \<Rightarrow> bool" where
  "first_index P xs j \<longleftrightarrow> j < length xs \<and> P (xs ! j) \<and> (\<forall>m < j. \<not> P (xs ! m))"

lemma first_index_Cons_hit: "P x \<Longrightarrow> first_index P (x # xs) 0"
  by (simp add: first_index_def)

lemma first_index_Cons_miss: "\<not> P x \<Longrightarrow> first_index P xs j \<Longrightarrow> first_index P (x # xs) (Suc j)"
  by (auto simp: first_index_def less_Suc_eq_0_disj)

lemma evaluate_grants_allows:
  "\<exists>g \<in> set grants. grant_permits selector g namespace request \<Longrightarrow> \<not> ad_Allowed denial \<Longrightarrow>
   \<exists>j. first_index (\<lambda>g. grant_permits selector g namespace request) grants j \<and>
     ad_Allowed (evaluate_grants selector account namespace request i matched denial grants) \<and>
     ad_GrantIndex (evaluate_grants selector account namespace request i matched denial grants) = i + int j"
proof (induction grants arbitrary: i matched denial)
  case (Cons g gs)
  show ?case
  proof (cases "grant_permits selector g namespace request")
    case True
    note now = evaluate_grants_permitted [OF True, of account i matched denial gs]
    show ?thesis using now True by (intro exI [of _ 0]) (auto intro: first_index_Cons_hit)
  next
    case False
    then obtain matched' denial' where denial': "\<not> ad_Allowed denial'"
      and step: "evaluate_grants selector account namespace request i matched denial (g # gs) =
        evaluate_grants selector account namespace request (i + 1) matched' denial' gs"
      using evaluate_grants_skipped Cons.prems(2) by metis
    have "\<exists>g \<in> set gs. grant_permits selector g namespace request"
      using Cons.prems(1) False by simp
    from Cons.IH [OF this denial', of "i + 1" matched'] obtain j where
      j: "first_index (\<lambda>g. grant_permits selector g namespace request) gs j"
      and allowed: "ad_Allowed (evaluate_grants selector account namespace request (i + 1) matched' denial' gs)"
      and index: "ad_GrantIndex (evaluate_grants selector account namespace request (i + 1) matched' denial' gs)
        = i + 1 + int j" by blast
    show ?thesis
      unfolding step using False j allowed index by (intro exI [of _ "Suc j"]) (auto intro: first_index_Cons_miss)
  qed
qed simp

lemma evaluate_grants_denies:
  "\<forall>g \<in> set grants. \<not> grant_permits selector g namespace request \<Longrightarrow> \<not> ad_Allowed denial \<Longrightarrow>
   \<not> ad_Allowed (evaluate_grants selector account namespace request i matched denial grants)"
proof (induction grants arbitrary: i matched denial)
  case (Cons g gs)
  then show ?case using evaluate_grants_skipped [of selector g namespace request denial account i matched gs]
    by (metis list.set_intros)
qed simp

lemma trim_suffix_dot_cases: "trim_suffix s ''.'' = s \<or> s = trim_suffix s ''.'' @ ''.''"
  by (auto simp: trim_suffix_def has_suffix_iff)

text \<open>
  The normalised forms on which hostname matching is decided: \<open>label . suffix\<close> against
  \<open>*. suffix\<close>.
\<close>

lemma wildcard_split:
  "has_prefix pattern ''*.'' \<Longrightarrow> trim_prefix pattern ''*'' = CHR ''.'' # drop 2 pattern"
  by (auto simp: has_prefix_iff trim_prefix_def has_prefix_def)

lemma label_suffix_iff:
  "(has_suffix h (CHR ''.'' # s) \<and> trim_suffix h (CHR ''.'' # s) \<noteq> [] \<and>
     \<not> contains_char (trim_suffix h (CHR ''.'' # s)) CHR ''.'') \<longleftrightarrow>
   (\<exists>label. label \<noteq> [] \<and> CHR ''.'' \<notin> set label \<and> h = label @ CHR ''.'' # s)"
  by (auto simp: has_suffix_iff contains_char_def)

text \<open>The whole evaluation against the specification of a single grant.\<close>

lemma authz_allowed_iff:
  "ad_Allowed (authz_Evaluate selector account namespace request) \<longleftrightarrow>
   (\<exists>a ns. account = Some a \<and> namespace = Some ns \<and>
      (\<exists>grant \<in> set (ca_Grants a). grant_permits selector grant ns request))"
proof (cases account)
  case (Some a)
  show ?thesis
  proof (cases namespace)
    case ns: (Some ns)
    have "ad_Allowed (evaluate_grants selector a ns request 0 False (namespace_not_granted a ns) (ca_Grants a)) \<longleftrightarrow>
      (\<exists>grant \<in> set (ca_Grants a). grant_permits selector grant ns request)"
      using evaluate_grants_allows [of "ca_Grants a" selector ns request "namespace_not_granted a ns" a 0 False]
        evaluate_grants_denies [of "ca_Grants a" selector ns request "namespace_not_granted a ns" a 0 False]
      by auto
    with Some ns show ?thesis by (simp add: authz_Evaluate_def)
  qed (simp add: authz_Evaluate_def Some)
qed (simp add: authz_Evaluate_def)

section \<open>Properties\<close>

text \<open>
  C9: the evaluation of an account's grants refines its specification. A request is allowed exactly
  when the account and the namespace are given and one single grant permits every gate the request
  activates; permissions are never combined across grants, and neither the order of the checks nor an
  invalid selector in another grant changes the verdict.
\<close>
theorem evaluate_refines_single_grant:
  "ad_Allowed (authz_Evaluate selector account namespace request) \<longleftrightarrow>
   (\<exists>a ns. account = Some a \<and> namespace = Some ns \<and>
      (\<exists>grant \<in> set (ca_Grants a). grant_permits selector grant ns request))"
  by (rule authz_allowed_iff)

text \<open>
  An allowed decision names the first grant that permits the request: its index is in range, the
  grant at that index permits the request on its own, and no earlier grant does.
\<close>
theorem evaluate_reports_first_grant:
  assumes "ad_Allowed (authz_Evaluate selector (Some a) (Some ns) request)"
  shows "\<exists>j. first_index (\<lambda>grant. grant_permits selector grant ns request) (ca_Grants a) j \<and>
    ad_GrantIndex (authz_Evaluate selector (Some a) (Some ns) request) = int j"
proof -
  have eval: "authz_Evaluate selector (Some a) (Some ns) request =
      evaluate_grants selector a ns request 0 False (namespace_not_granted a ns) (ca_Grants a)"
    by (simp add: authz_Evaluate_def)
  then have "\<exists>grant \<in> set (ca_Grants a). grant_permits selector grant ns request"
    using assms evaluate_grants_denies namespace_not_granted_not_allowed by metis
  then show ?thesis
    unfolding eval
    using evaluate_grants_allows [of "ca_Grants a" selector ns request "namespace_not_granted a ns" a 0 False]
    by auto
qed

text \<open>
  Two grants select the namespace; the first denies the hostname, the second grants it, so the decision
  carries index 1.
\<close>

definition example_grant :: "string list \<Rightarrow> accountGrant" where
  "example_grant hostnames = \<lparr>gr_NamespaceSelector = \<lparr>ls_matchLabels = [], ls_matchExpressions = []\<rparr>,
     gr_Hostnames = hostnames, gr_Zones = [], gr_Exposures = [], gr_UnprotectedHostnames = [],
     gr_AccessPolicyRefs = [], gr_AccessCustomPageRefs = [], gr_DevicePostureIntegrationRefs = [],
     gr_PlatformObjects = [], gr_PrivateRoutes = None, gr_Backends = None\<rparr>"

definition example_account :: cloudflareAccount where
  "example_account = \<lparr>ca_Name = ''acct'', ca_AccountID = ''a1'',
     ca_Grants = [example_grant [''b.io''], example_grant [''*.a.io'']], ca_TeamName = [], ca_AuthDomain = []\<rparr>"

lemma example_grant_permits:
  "grant_permits (\<lambda>_ _. Inr True) (example_grant [''*.a.io'']) \<lparr>ns_Name = ''n'', ns_Labels = Map.empty\<rparr>
     (empty_request\<lparr>rq_Hostname := ''x.a.io''\<rparr>)"
  by (simp add: grant_permits_def example_grant_def empty_request_def matchesHostnameSet_def HostnameMatches_def
      normalizeDNSName_def trim_space_def trim_right_func_def is_space_def to_lower_def lower_char_def trim_suffix_def
      trim_prefix_def has_suffix_def has_prefix_def contains_char_def)

lemma example_grant_refuses:
  "\<not> grant_permits (\<lambda>_ _. Inr True) (example_grant [''b.io'']) \<lparr>ns_Name = ''n'', ns_Labels = Map.empty\<rparr>
     (empty_request\<lparr>rq_Hostname := ''x.a.io''\<rparr>)"
  by (simp add: grant_permits_def example_grant_def empty_request_def matchesHostnameSet_def HostnameMatches_def
      normalizeDNSName_def trim_space_def trim_right_func_def is_space_def to_lower_def lower_char_def trim_suffix_def
      trim_prefix_def has_suffix_def has_prefix_def contains_char_def)

theorem evaluate_reports_first_grant_witness:
  "ad_GrantIndex (authz_Evaluate (\<lambda>_ _. Inr True) (Some example_account)
     (Some \<lparr>ns_Name = ''n'', ns_Labels = Map.empty\<rparr>) (empty_request\<lparr>rq_Hostname := ''x.a.io''\<rparr>)) = 1"
proof -
  let ?ns = "\<lparr>ns_Name = ''n'', ns_Labels = Map.empty :: labels\<rparr>" and ?r = "empty_request\<lparr>rq_Hostname := ''x.a.io''\<rparr>"
  let ?d = "authz_Evaluate (\<lambda>_ _. Inr True) (Some example_account) (Some ?ns) ?r"
  have grants: "ca_Grants example_account = [example_grant [''b.io''], example_grant [''*.a.io'']]"
    by (simp add: example_account_def)
  have "ad_Allowed ?d"
    using evaluate_grants_allows [of "ca_Grants example_account" "\<lambda>_ _. Inr True" ?ns ?r
        "namespace_not_granted example_account ?ns" example_account 0 False] example_grant_permits
    by (auto simp: authz_Evaluate_def grants)
  from evaluate_reports_first_grant [OF this] obtain j where
    "first_index (\<lambda>grant. grant_permits (\<lambda>_ _. Inr True) grant ?ns ?r) (ca_Grants example_account) j"
    and "ad_GrantIndex ?d = int j" by blast
  moreover from this(1) have "j = 1"
    using example_grant_refuses example_grant_permits
    by (cases j) (auto simp: first_index_def grants less_Suc_eq)
  ultimately show ?thesis by simp
qed

text \<open>
  What a hostname grant covers. After normalisation, the pattern \<open>*\<close> covers every non-empty name,
  a pattern covers itself, and \<open>*.suffix\<close> covers exactly the names with one non-empty label in front
  of the suffix: never the suffix itself, never a deeper name, never another wildcard.
\<close>
theorem hostname_grant_coverage:
  "HostnameMatches pattern hostname \<longleftrightarrow>
   (let p = normalizeDNSName pattern; h = normalizeDNSName hostname in
    p = ''*'' \<and> h \<noteq> [] \<or> p = h \<and> p \<noteq> [] \<or>
    (\<exists>suffix label. p = ''*.'' @ suffix \<and> h = label @ ''.'' @ suffix \<and>
       label \<noteq> [] \<and> CHR ''.'' \<notin> set label \<and> label \<noteq> ''*''))"
proof -
  define p h where "p = normalizeDNSName pattern" and "h = normalizeDNSName hostname"
  have "(has_prefix p ''*.'' \<and> \<not> has_prefix h ''*.'' \<and>
      has_suffix h (trim_prefix p ''*'') \<and> trim_suffix h (trim_prefix p ''*'') \<noteq> [] \<and>
      \<not> contains_char (trim_suffix h (trim_prefix p ''*'')) CHR ''.'') \<longleftrightarrow>
    (\<exists>suffix label. p = ''*.'' @ suffix \<and> h = label @ ''.'' @ suffix \<and>
       label \<noteq> [] \<and> CHR ''.'' \<notin> set label \<and> label \<noteq> ''*'')" (is "?L \<longleftrightarrow> ?R")
  proof
    assume ?L
    then have wild: "has_prefix p ''*.''" by simp
    then have p: "p = ''*.'' @ drop 2 p" by (auto simp: has_prefix_iff)
    from \<open>?L\<close> obtain label where "label \<noteq> []" "CHR ''.'' \<notin> set label" "h = label @ CHR ''.'' # drop 2 p"
      unfolding wildcard_split [OF wild] label_suffix_iff by blast
    moreover have "label \<noteq> ''*''"
      using \<open>?L\<close> calculation by (auto simp: has_prefix_def)
    ultimately show ?R using p by (intro exI [of _ "drop 2 p"] exI [of _ label]) simp
  next
    assume ?R
    then obtain suffix label where p: "p = ''*.'' @ suffix" and h: "h = label @ ''.'' @ suffix"
      and label: "label \<noteq> []" "CHR ''.'' \<notin> set label" "label \<noteq> ''*''" by blast
    have wild: "has_prefix p ''*.''" by (simp add: p has_prefix_def)
    have "\<not> has_prefix h ''*.''"
    proof
      assume "has_prefix h ''*.''"
      then obtain t where "label @ ''.'' @ suffix = ''*.'' @ t" by (auto simp: has_prefix_iff h)
      then show False using label by (cases label; cases "tl label") auto
    qed
    with wild show ?L
      unfolding wildcard_split [OF wild] label_suffix_iff using label h p by auto
  qed
  then show ?thesis
    unfolding HostnameMatches_def Let_def p_def [symmetric] h_def [symmetric]
    by (cases "p = ''*''"; cases "p = h") (auto simp: has_prefix_def)
qed

end
