(* ===== verification/Status.thy ===== *)
theory Status
  imports ApiTypes
begin

text \<open>
  \<^verbatim>\<open>src/internal/gatewayapi/status/conditions.go\<close>: merging conditions and status entries without
  disturbing what other controllers own. The route parent and policy ancestor variants differ only in
  their entry type; they are two instances of one traversal, and the locale \<open>owned_entries\<close> states the
  accessor laws under which its lemmas hold.
\<close>

section \<open>Conditions\<close>

definition MaxConditionMessageLength :: nat where "MaxConditionMessageLength = 32768"

definition truncateConditionMessage :: "string \<Rightarrow> string" where
  "truncateConditionMessage message =
     (if length message \<le> MaxConditionMessageLength then message
      else take (MaxConditionMessageLength - 3) message @ ''...'')"

definition NewCondition :: "string \<Rightarrow> string \<Rightarrow> string \<Rightarrow> string \<Rightarrow> int \<Rightarrow> time \<Rightarrow> condition" where
  "NewCondition conditionType conditionStatus reason message observedGeneration transitionTime =
     \<lparr>cd_Type = conditionType, cd_Status = conditionStatus, cd_ObservedGeneration = observedGeneration,
      cd_LastTransitionTime = transitionTime, cd_Reason = reason, cd_Message = truncateConditionMessage message\<rparr>"

definition mergeCondition :: "condition \<Rightarrow> condition \<Rightarrow> time \<Rightarrow> condition" where
  "mergeCondition previous update transitionTime =
     (let u1 = update\<lparr>cd_Message := truncateConditionMessage (cd_Message update)\<rparr>;
          u2 = (if cd_ObservedGeneration u1 = 0
                then u1\<lparr>cd_ObservedGeneration := cd_ObservedGeneration previous\<rparr> else u1)
      in if cd_Status previous = cd_Status u2
         then u2\<lparr>cd_LastTransitionTime := cd_LastTransitionTime previous\<rparr>
         else u2\<lparr>cd_LastTransitionTime := transitionTime\<rparr>)"

text \<open>\<^verbatim>\<open>updatesByType\<close> and \<^verbatim>\<open>updateOrder\<close>: the last update of a type wins, the first fixes its place.\<close>

definition updates_by_type :: "condition list \<Rightarrow> string \<rightharpoonup> condition" where
  "updates_by_type updates = foldl (\<lambda>m u. m(cd_Type u \<mapsto> u)) Map.empty updates"

definition update_order :: "condition list \<Rightarrow> string list" where
  "update_order updates = unique_by id (map cd_Type updates)"

definition stale_update :: "condition \<Rightarrow> condition \<Rightarrow> bool" where
  "stale_update previous update \<longleftrightarrow>
     cd_ObservedGeneration update \<noteq> 0 \<and> cd_ObservedGeneration previous > cd_ObservedGeneration update"

definition merge_existing :: "condition list \<Rightarrow> time \<Rightarrow> condition \<Rightarrow> condition" where
  "merge_existing updates transitionTime previous =
     (case updates_by_type updates (cd_Type previous) of
        None \<Rightarrow> previous
      | Some update \<Rightarrow>
          if stale_update previous update then previous
          else mergeCondition previous update transitionTime)"

definition new_condition :: "time \<Rightarrow> condition \<Rightarrow> condition" where
  "new_condition transitionTime update =
     update\<lparr>cd_Message := truncateConditionMessage (cd_Message update), cd_LastTransitionTime := transitionTime\<rparr>"

definition MergeConditions :: "condition list \<Rightarrow> time \<Rightarrow> condition list \<Rightarrow> condition list" where
  "MergeConditions conditions transitionTime updates =
     (if updates = [] then conditions
      else map (merge_existing updates transitionTime) conditions @
        map (\<lambda>ty. new_condition transitionTime (the (updates_by_type updates ty)))
          (filter (\<lambda>ty. ty \<notin> cd_Type ` set conditions) (update_order updates)))"

definition SetCondition :: "condition list \<Rightarrow> time \<Rightarrow> condition \<Rightarrow> condition list" where
  "SetCondition conditions transitionTime condition = MergeConditions conditions transitionTime [condition]"

definition FindCondition :: "condition list \<Rightarrow> string \<Rightarrow> condition option" where
  "FindCondition conditions conditionType = List.find (\<lambda>c. cd_Type c = conditionType) conditions"

definition RemoveCondition :: "condition list \<Rightarrow> string \<Rightarrow> condition list" where
  "RemoveCondition conditions conditionType = filter (\<lambda>c. cd_Type c \<noteq> conditionType) conditions"

definition ConditionTrue :: "condition list \<Rightarrow> string \<Rightarrow> bool" where
  "ConditionTrue conditions conditionType =
     (case FindCondition conditions conditionType of
        None \<Rightarrow> False | Some c \<Rightarrow> cd_Status c = ConditionStatusTrue)"

definition ConditionFalse :: "condition list \<Rightarrow> string \<Rightarrow> bool" where
  "ConditionFalse conditions conditionType =
     (case FindCondition conditions conditionType of
        None \<Rightarrow> False | Some c \<Rightarrow> cd_Status c = ConditionStatusFalse)"

definition ConditionUnknown :: "condition list \<Rightarrow> string \<Rightarrow> bool" where
  "ConditionUnknown conditions conditionType =
     (case FindCondition conditions conditionType of
        None \<Rightarrow> True | Some c \<Rightarrow> cd_Status c = ConditionStatusUnknown)"

section \<open>Status entries\<close>

text \<open>
  \<open>replace_owned\<close> is the body the two functions share: \<open>ref\<close>, \<open>controller\<close> and \<open>conds\<close> read an entry,
  \<open>own\<close> writes its controller name and its conditions.
\<close>

definition replace_owned ::
  "('e \<Rightarrow> parentReference) \<Rightarrow> ('e \<Rightarrow> string) \<Rightarrow> ('e \<Rightarrow> condition list) \<Rightarrow> (string \<Rightarrow> condition list \<Rightarrow> 'e \<Rightarrow> 'e)
    \<Rightarrow> 'e list \<Rightarrow> string \<Rightarrow> time \<Rightarrow> 'e list \<Rightarrow> 'e list" where
  "replace_owned ref controller conds own entries controllerName transitionTime replacements =
     (let owned = filter (\<lambda>e. controller e = controllerName) entries in
      filter (\<lambda>e. controller e \<noteq> controllerName) entries @
      map (\<lambda>r. own controllerName
             (case List.find (\<lambda>e. ref e = ref r) owned of
                Some previous \<Rightarrow> MergeConditions (conds previous) transitionTime (conds r)
              | None \<Rightarrow> MergeConditions [] transitionTime (conds r)) r) replacements)"

definition findRouteParentStatus :: "routeParentStatus list \<Rightarrow> parentReference \<Rightarrow> routeParentStatus option" where
  "findRouteParentStatus parents parentRef = List.find (\<lambda>p. rps_ParentRef p = parentRef) parents"

definition findPolicyAncestorStatus :: "policyAncestorStatus list \<Rightarrow> parentReference \<Rightarrow> policyAncestorStatus option" where
  "findPolicyAncestorStatus ancestors ancestorRef = List.find (\<lambda>a. pas_AncestorRef a = ancestorRef) ancestors"

definition own_route_parent :: "string \<Rightarrow> condition list \<Rightarrow> routeParentStatus \<Rightarrow> routeParentStatus" where
  "own_route_parent controllerName conditions r =
     r\<lparr>rps_ControllerName := controllerName, rps_Conditions := conditions\<rparr>"

definition own_policy_ancestor :: "string \<Rightarrow> condition list \<Rightarrow> policyAncestorStatus \<Rightarrow> policyAncestorStatus" where
  "own_policy_ancestor controllerName conditions r =
     r\<lparr>pas_ControllerName := controllerName, pas_Conditions := conditions\<rparr>"

definition ReplaceRouteParentStatuses ::
  "routeParentStatus list \<Rightarrow> string \<Rightarrow> time \<Rightarrow> routeParentStatus list \<Rightarrow> routeParentStatus list" where
  "ReplaceRouteParentStatuses =
     replace_owned rps_ParentRef rps_ControllerName rps_Conditions own_route_parent"

definition ReplacePolicyAncestorStatuses ::
  "policyAncestorStatus list \<Rightarrow> string \<Rightarrow> time \<Rightarrow> policyAncestorStatus list \<Rightarrow> policyAncestorStatus list" where
  "ReplacePolicyAncestorStatuses =
     replace_owned pas_AncestorRef pas_ControllerName pas_Conditions own_policy_ancestor"

section \<open>Lemmas on conditions\<close>

lemma truncate_bound: "length (truncateConditionMessage m) \<le> MaxConditionMessageLength"
  by (simp add: truncateConditionMessage_def MaxConditionMessageLength_def)

lemma truncate_idem [simp]:
  "truncateConditionMessage (truncateConditionMessage m) = truncateConditionMessage m"
  using truncate_bound [of m] by (simp add: truncateConditionMessage_def [of "truncateConditionMessage m"])

lemma updates_by_type_fold_mem:
  "foldl (\<lambda>m u. m(cd_Type u \<mapsto> u)) m us ty = Some u \<Longrightarrow> cd_Type u = ty \<and> u \<in> set us \<or> m ty = Some u"
  by (induction us arbitrary: m) (fastforce split: if_splits)+

lemma updates_by_type_mem:
  assumes "updates_by_type us ty = Some u" shows "cd_Type u = ty" and "u \<in> set us"
  using updates_by_type_fold_mem [of Map.empty us ty u] assms by (auto simp: updates_by_type_def)

lemma updates_by_type_dom [simp]: "dom (updates_by_type us) = cd_Type ` set us"
proof -
  have "dom (foldl (\<lambda>m u. m(cd_Type u \<mapsto> u)) m us) = cd_Type ` set us \<union> dom m" for m
    by (induction us arbitrary: m) auto
  then show ?thesis by (simp add: updates_by_type_def)
qed

lemma updates_by_type_known: "ty \<in> cd_Type ` set us \<Longrightarrow> \<exists>u. updates_by_type us ty = Some u"
  using updates_by_type_dom [of us] by (metis domD)

lemma update_order_set [simp]: "set (update_order us) = cd_Type ` set us"
  using unique_by_keys [of id "map cd_Type us"] by (simp add: update_order_def)

lemma type_mergeCondition [simp]: "cd_Type (mergeCondition p u t) = cd_Type u"
  by (simp add: mergeCondition_def Let_def)

lemma type_merge_existing [simp]: "cd_Type (merge_existing us t p) = cd_Type p"
  by (auto simp: merge_existing_def updates_by_type_mem(1) split: option.splits)

lemma type_new_condition [simp]: "cd_Type (new_condition t u) = cd_Type u"
  by (simp add: new_condition_def)

lemma merge_existing_again [simp]: "merge_existing us t' (merge_existing us t p) = merge_existing us t p"
proof (cases "updates_by_type us (cd_Type p)")
  case (Some u)
  then show ?thesis
    by (auto simp: merge_existing_def [of us t'] merge_existing_def [of us t] updates_by_type_mem(1)
        mergeCondition_def stale_update_def Let_def)
qed (simp add: merge_existing_def)

lemma merge_existing_new:
  "updates_by_type us ty = Some u \<Longrightarrow> merge_existing us t' (new_condition t u) = new_condition t u"
  using updates_by_type_mem(1) [of us ty u]
  by (auto simp: merge_existing_def new_condition_def mergeCondition_def stale_update_def Let_def)

lemma MergeConditions_types:
  "map cd_Type (MergeConditions cs t us) =
   map cd_Type cs @ filter (\<lambda>ty. ty \<notin> cd_Type ` set cs) (update_order us)"
proof (cases "us = []")
  case False
  have "cd_Type (new_condition t (the (updates_by_type us ty))) = ty" if "ty \<in> set (update_order us)" for ty
    using that updates_by_type_known [of ty us] updates_by_type_mem(1) by fastforce
  then have "map (\<lambda>ty. cd_Type (new_condition t (the (updates_by_type us ty))))
      (filter (\<lambda>ty. ty \<notin> cd_Type ` set cs) (update_order us)) =
    filter (\<lambda>ty. ty \<notin> cd_Type ` set cs) (update_order us)"
    by (intro map_idI) simp
  then show ?thesis using False by (simp add: MergeConditions_def comp_def)
qed (simp add: MergeConditions_def update_order_def unique_by_def)

lemma MergeConditions_type_set: "cd_Type ` set (MergeConditions cs t us) = cd_Type ` set cs \<union> cd_Type ` set us"
  using arg_cong [OF MergeConditions_types [of cs t us], of set] by auto

lemma find_map_type:
  "(\<And>c. cd_Type (f c) = cd_Type c) \<Longrightarrow> FindCondition (map f cs) ty = map_option f (FindCondition cs ty)"
  unfolding FindCondition_def by (induction cs) auto

lemma find_append: "FindCondition (xs @ ys) ty =
    (case FindCondition xs ty of None \<Rightarrow> FindCondition ys ty | Some c \<Rightarrow> Some c)"
  unfolding FindCondition_def by (induction xs) auto

lemma FindCondition_None: "FindCondition cs ty = None \<longleftrightarrow> ty \<notin> cd_Type ` set cs"
  by (auto simp: FindCondition_def find_None_iff)

lemma FindCondition_type: "FindCondition cs ty = Some c \<Longrightarrow> cd_Type c = ty"
  by (auto simp: FindCondition_def find_Some_iff)

lemma find_new:
  assumes "\<forall>ty' \<in> set tys. \<exists>u. updates_by_type us ty' = Some u"
  shows "FindCondition (map (\<lambda>ty. new_condition t (the (updates_by_type us ty))) tys) ty =
    (if ty \<in> set tys then Some (new_condition t (the (updates_by_type us ty))) else None)"
  using assms
proof (induction tys)
  case (Cons a tys)
  then have "cd_Type (new_condition t (the (updates_by_type us a))) = a"
    using updates_by_type_mem(1) by fastforce
  with Cons show ?case by (auto simp: FindCondition_def)
qed (simp add: FindCondition_def)

section \<open>Status entries as an interface\<close>

locale owned_entries =
  fixes ref :: "'e \<Rightarrow> parentReference"
    and controller :: "'e \<Rightarrow> string"
    and conds :: "'e \<Rightarrow> condition list"
    and own :: "string \<Rightarrow> condition list \<Rightarrow> 'e \<Rightarrow> 'e"
  assumes ref_own [simp]: "ref (own n cs e) = ref e"
    and controller_own [simp]: "controller (own n cs e) = n"
    and conds_own [simp]: "conds (own n cs e) = cs"
    and own_own [simp]: "own n cs (own n' cs' e) = own n cs e"
begin

lemma replace_keeps_foreign:
  "filter (\<lambda>e. controller e \<noteq> n) (replace_owned ref controller conds own entries n t rs) =
   filter (\<lambda>e. controller e \<noteq> n) entries"
  by (simp add: replace_owned_def Let_def)

lemma replace_owned_part:
  "filter (\<lambda>e. controller e = n) (replace_owned ref controller conds own entries n t rs) =
   map (\<lambda>r. own n (case List.find (\<lambda>e. ref e = ref r) (filter (\<lambda>e. controller e = n) entries) of
          Some previous \<Rightarrow> MergeConditions (conds previous) t (conds r)
        | None \<Rightarrow> MergeConditions [] t (conds r)) r) rs"
  by (simp add: replace_owned_def Let_def filter_map comp_def)

lemma replace_owned_refs:
  "map ref (filter (\<lambda>e. controller e = n) (replace_owned ref controller conds own entries n t rs)) = map ref rs"
  by (simp add: replace_owned_part)

lemma find_by_ref:
  "distinct (map ref rs) \<Longrightarrow> r \<in> set rs \<Longrightarrow> (\<And>r. ref (f r) = ref r) \<Longrightarrow>
   List.find (\<lambda>e. ref e = ref r) (map f rs) = Some (f r)"
  by (induction rs) (auto simp: image_iff)

lemma replace_owned_again:
  assumes "distinct (map ref rs)" and merge: "\<And>cs us. MergeConditions (MergeConditions cs t us) t' us = MergeConditions cs t us"
  shows "replace_owned ref controller conds own (replace_owned ref controller conds own entries n t rs) n t' rs =
    replace_owned ref controller conds own entries n t rs"
proof -
  define f where "f r = own n (case List.find (\<lambda>e. ref e = ref r) (filter (\<lambda>e. controller e = n) entries) of
          Some previous \<Rightarrow> MergeConditions (conds previous) t (conds r)
        | None \<Rightarrow> MergeConditions [] t (conds r)) r" for r
  have once: "replace_owned ref controller conds own entries n t rs =
      filter (\<lambda>e. controller e \<noteq> n) entries @ map f rs"
    by (simp add: replace_owned_def Let_def f_def)
  have parts: "filter (\<lambda>e. controller e = n) (map f rs) = map f rs" "filter (\<lambda>e. controller e \<noteq> n) (map f rs) = []"
    by (simp_all add: f_def filter_map comp_def)
  have "own n (case List.find (\<lambda>e. ref e = ref r) (map f rs) of
          Some previous \<Rightarrow> MergeConditions (conds previous) t' (conds r)
        | None \<Rightarrow> MergeConditions [] t' (conds r)) r = f r" if "r \<in> set rs" for r
  proof -
    have "List.find (\<lambda>e. ref e = ref r) (map f rs) = Some (f r)"
      using assms(1) that by (intro find_by_ref) (simp_all add: f_def)
    then show ?thesis by (simp add: merge f_def split: option.split)
  qed
  then show ?thesis unfolding once by (simp add: replace_owned_def Let_def parts)
qed

end

interpretation route_parents: owned_entries rps_ParentRef rps_ControllerName rps_Conditions own_route_parent
  by unfold_locales (simp_all add: own_route_parent_def)

interpretation policy_ancestors: owned_entries pas_AncestorRef pas_ControllerName pas_Conditions own_policy_ancestor
  by unfold_locales (simp_all add: own_policy_ancestor_def)

lemma MergeConditions_again: "MergeConditions (MergeConditions cs t us) t' us = MergeConditions cs t us"
proof (cases "us = []")
  case False
  have new: "merge_existing us t' (new_condition t (the (updates_by_type us ty))) =
      new_condition t (the (updates_by_type us ty))" if "ty \<in> set (update_order us)" for ty
    using that updates_by_type_known [of ty us] merge_existing_new by fastforce
  have "filter (\<lambda>ty. ty \<notin> cd_Type ` set (MergeConditions cs t us)) (update_order us) = []"
    by (auto simp: filter_empty_conv MergeConditions_type_set)
  then have "MergeConditions (MergeConditions cs t us) t' us =
      map (merge_existing us t') (MergeConditions cs t us)"
    using False by (simp add: MergeConditions_def [of "MergeConditions cs t us"])
  also have "\<dots> = MergeConditions cs t us"
    using False new by (auto simp: MergeConditions_def [of cs])
  finally show ?thesis .
qed (simp add: MergeConditions_def)

section \<open>Properties\<close>

text \<open>
  C10: what a merge stores for every condition type. A type without update is untouched; a new type gets the last
  update of that type stamped with the reconciliation time; a stored condition of a newer generation than a
  nonzero update generation is kept; otherwise the update replaces it, inheriting a zero generation, and the
  transition time moves only when the status differs.
\<close>
theorem merge_conditions_lookup:
  "FindCondition (MergeConditions cs t us) ty =
   (case updates_by_type us ty of
      None \<Rightarrow> FindCondition cs ty
    | Some u \<Rightarrow> Some (case FindCondition cs ty of
          None \<Rightarrow> u\<lparr>cd_Message := truncateConditionMessage (cd_Message u), cd_LastTransitionTime := t\<rparr>
        | Some p \<Rightarrow>
            if cd_ObservedGeneration u \<noteq> 0 \<and> cd_ObservedGeneration p > cd_ObservedGeneration u then p
            else u\<lparr>cd_Message := truncateConditionMessage (cd_Message u),
              cd_ObservedGeneration :=
                (if cd_ObservedGeneration u = 0 then cd_ObservedGeneration p else cd_ObservedGeneration u),
              cd_LastTransitionTime := (if cd_Status p = cd_Status u then cd_LastTransitionTime p else t)\<rparr>))"
proof (cases "us = []")
  case True
  then show ?thesis by (simp add: MergeConditions_def updates_by_type_def)
next
  case False
  let ?new = "filter (\<lambda>ty. ty \<notin> cd_Type ` set cs) (update_order us)"
  have merged: "FindCondition (MergeConditions cs t us) ty =
      (case FindCondition cs ty of
         None \<Rightarrow> if ty \<in> set ?new then Some (new_condition t (the (updates_by_type us ty))) else None
       | Some p \<Rightarrow> Some (merge_existing us t p))"
    using False updates_by_type_known
    by (simp add: MergeConditions_def find_append find_map_type find_new split: option.split)
  show ?thesis
  proof (cases "updates_by_type us ty")
    case None
    then have "ty \<notin> set ?new" using updates_by_type_known [of ty us] by auto
    with None merged show ?thesis
      by (auto simp: merge_existing_def dest: FindCondition_type split: option.splits)
  next
    case (Some u)
    then have "ty \<in> cd_Type ` set us" using updates_by_type_dom [of us] by (metis domI)
    then have new: "ty \<in> set ?new" if "FindCondition cs ty = None"
      using that by (simp add: FindCondition_None)
    show ?thesis
    proof (cases "FindCondition cs ty")
      case None
      with Some merged new show ?thesis by (simp add: new_condition_def)
    next
      case (Some p)
      have "merge_existing us t p = (if stale_update p u then p else mergeCondition p u t)"
        using \<open>updates_by_type us ty = Some u\<close> FindCondition_type [OF Some] by (simp add: merge_existing_def)
      with Some \<open>updates_by_type us ty = Some u\<close> merged show ?thesis
        by (simp add: stale_update_def mergeCondition_def Let_def)
    qed
  qed
qed

text \<open>
  Merging is stable. The order of the stored conditions is kept and new types follow in update order, and
  merging the same updates again at any later time changes nothing, so a repeated reconciliation writes no new
  status and moves no transition time.
\<close>
theorem merge_conditions_stable:
  "map cd_Type (MergeConditions cs t us) =
     map cd_Type cs @ filter (\<lambda>ty. ty \<notin> cd_Type ` set cs) (unique_by id (map cd_Type us)) \<and>
   MergeConditions (MergeConditions cs t us) t' us = MergeConditions cs t us"
  using MergeConditions_types [of cs t us] MergeConditions_again by (simp add: update_order_def)

text \<open>
  Replacing this controller's route parent statuses leaves every entry of another controller in place with
  its order and contents, leaves exactly the replacements as the owned entries, and is idempotent when the
  replacements name distinct parents.
\<close>
theorem route_parent_ownership:
  fixes parents name t
  assumes "distinct (map rps_ParentRef replacements)"
  defines "result \<equiv> ReplaceRouteParentStatuses parents name t replacements"
  shows "filter (\<lambda>p. rps_ControllerName p \<noteq> name) result = filter (\<lambda>p. rps_ControllerName p \<noteq> name) parents \<and>
    map rps_ParentRef (filter (\<lambda>p. rps_ControllerName p = name) result) = map rps_ParentRef replacements \<and>
    ReplaceRouteParentStatuses result name t' replacements = result"
  unfolding result_def ReplaceRouteParentStatuses_def
  by (intro conjI route_parents.replace_keeps_foreign route_parents.replace_owned_refs
      route_parents.replace_owned_again assms(1) MergeConditions_again)

theorem route_parent_ownership_witness:
  "let ref = \<lparr>pr_Group = None, pr_Kind = None, pr_Namespace = None, pr_Name = ''gw'', pr_SectionName = None, pr_Port = None\<rparr>;
       entry = (\<lambda>n. \<lparr>rps_ParentRef = ref, rps_ControllerName = n, rps_Conditions = []\<rparr>);
       result = ReplaceRouteParentStatuses [entry ''other'', entry ''us''] ''us'' 5 [entry ''''] in
   filter (\<lambda>p. rps_ControllerName p \<noteq> ''us'') result = [entry ''other''] \<and>
   ReplaceRouteParentStatuses result ''us'' 9 [entry ''''] = result"
proof -
  let ?e = "\<lambda>n. \<lparr>rps_ParentRef = \<lparr>pr_Group = None, pr_Kind = None, pr_Namespace = None, pr_Name = ''gw'',
      pr_SectionName = None, pr_Port = None\<rparr>, rps_ControllerName = n, rps_Conditions = []\<rparr>"
  have "distinct (map rps_ParentRef [?e ''''])" by simp
  from route_parent_ownership [OF this, where name = "''us''" and parents = "[?e ''other'', ?e ''us'']" and t = 5 and t' = 9]
  show ?thesis by (simp add: Let_def)
qed

text \<open>
  The policy ancestor variant keeps the same contract: foreign entries are untouched, the owned entries are
  the replacements, and the update is idempotent when the replacements name distinct ancestors.
\<close>
theorem policy_ancestor_ownership:
  fixes ancestors name t
  assumes "distinct (map pas_AncestorRef replacements)"
  defines "result \<equiv> ReplacePolicyAncestorStatuses ancestors name t replacements"
  shows "filter (\<lambda>p. pas_ControllerName p \<noteq> name) result = filter (\<lambda>p. pas_ControllerName p \<noteq> name) ancestors \<and>
    map pas_AncestorRef (filter (\<lambda>p. pas_ControllerName p = name) result) = map pas_AncestorRef replacements \<and>
    ReplacePolicyAncestorStatuses result name t' replacements = result"
  unfolding result_def ReplacePolicyAncestorStatuses_def
  by (intro conjI policy_ancestors.replace_keeps_foreign policy_ancestors.replace_owned_refs
      policy_ancestors.replace_owned_again assms(1) MergeConditions_again)

end
