(* ===== verification/Hostname.thy ===== *)
theory Hostname
  imports ApiTypes
begin

text \<open>
  \<^verbatim>\<open>src/internal/gatewayapi/hostname.go\<close> and \<^verbatim>\<open>refgrant.go\<close>: the intersection of Route and Listener
  hostnames and cross-namespace references. The abstract meaning of a hostname pattern is the set of
  concrete hostnames it covers (\<open>host_covers\<close>).
\<close>

section \<open>Hostname intersection\<close>

definition WildcardHostnameMatchesHostname :: "string \<Rightarrow> string \<Rightarrow> bool" where
  "WildcardHostnameMatchesHostname wildcardHostname hostname =
     (let wildcardSuffix = trim_prefix wildcardHostname ''*'' in
      if \<not> has_prefix hostname ''*''
      then has_suffix hostname wildcardSuffix \<and> trim_suffix hostname wildcardSuffix \<noteq> []
      else let hostnameSuffix = trim_prefix hostname ''*'' in
        if \<not> has_suffix hostnameSuffix wildcardSuffix then False
        else let remaining = trim_suffix hostnameSuffix wildcardSuffix in
          remaining \<noteq> [] \<and> has_prefix remaining ''.'')"

text \<open>The switch over one route hostname: the hostnames it adds to the result.\<close>

definition route_host_hits :: "string \<Rightarrow> string \<Rightarrow> string list" where
  "route_host_hits listenerHostname routeHostname =
     (if listenerHostname = [] then [routeHostname]
      else if listenerHostname = routeHostname then [routeHostname]
      else if has_prefix listenerHostname ''*'' \<and> has_prefix routeHostname ''*'' then
        (if WildcardHostnameMatchesHostname routeHostname listenerHostname then [listenerHostname] else []) @
        (if WildcardHostnameMatchesHostname listenerHostname routeHostname then [routeHostname] else [])
      else if has_prefix listenerHostname ''*'' then
        (if WildcardHostnameMatchesHostname listenerHostname routeHostname then [routeHostname] else [])
      else if has_prefix routeHostname ''*'' then
        (if WildcardHostnameMatchesHostname routeHostname listenerHostname then [listenerHostname] else [])
      else [])"

definition hostname_value :: "string option \<Rightarrow> string" where
  "hostname_value h = (case h of None \<Rightarrow> [] | Some v \<Rightarrow> v)"

definition ComputeHosts :: "string list \<Rightarrow> string option \<Rightarrow> string list \<Rightarrow> string list" where
  "ComputeHosts routeHostnames listenerHostname claimedByOtherListeners =
     (let listenerHostnameValue = hostname_value listenerHostname in
      if routeHostnames = [] then
        (if listenerHostnameValue \<noteq> [] then [listenerHostnameValue] else [''*''])
      else
        sort_compact (filter (\<lambda>h. h \<notin> set claimedByOtherListeners)
          (concat (map (route_host_hits listenerHostnameValue) routeHostnames))))"

section \<open>Cross-namespace references\<close>

record referenceSource =
  rfs_Group :: string
  rfs_Kind :: string
  rfs_Namespace :: string

record referenceTarget =
  rft_Group :: string
  rft_Kind :: string
  rft_Namespace :: string
  rft_Name :: string

definition IsCrossNamespaceReferencePermitted ::
  "referenceSource \<Rightarrow> referenceTarget \<Rightarrow> referenceGrant list \<Rightarrow> bool" where
  "IsCrossNamespaceReferencePermitted source target referenceGrants =
     (if rfs_Namespace source = rft_Namespace target then True
      else list_ex (\<lambda>grant.
        rg_Namespace grant = rft_Namespace target \<and>
        list_ex (\<lambda>f. rgf_Namespace f = rfs_Namespace source \<and> rgf_Group f = rfs_Group source \<and>
                     rgf_Kind f = rfs_Kind source) (rg_From grant) \<and>
        list_ex (\<lambda>t. rgt_Group t = rft_Group target \<and> rgt_Kind t = rft_Kind target \<and>
                     (rgt_Name t = None \<or> rgt_Name t = Some [] \<or> rgt_Name t = Some (rft_Name target)))
          (rg_To grant)) referenceGrants)"

section \<open>Abstract hostnames\<close>

definition is_wild :: "string \<Rightarrow> bool" where
  "is_wild p \<longleftrightarrow> has_prefix p ''*''"

text \<open>A concrete hostname; a well-formed pattern is concrete, \<open>*\<close>, or \<open>*.\<close> with a suffix.\<close>

definition concrete_host :: "string \<Rightarrow> bool" where
  "concrete_host h \<longleftrightarrow> h \<noteq> [] \<and> \<not> is_wild h"

definition host_pattern :: "string \<Rightarrow> bool" where
  "host_pattern p \<longleftrightarrow> concrete_host p \<or> p = ''*'' \<or> has_prefix p ''*.''"

definition host_covers :: "string \<Rightarrow> string \<Rightarrow> bool" where
  "host_covers p h \<longleftrightarrow> (if is_wild p then (\<exists>x. x \<noteq> [] \<and> h = x @ tl p) else h = p)"

text \<open>A Listener without hostname, or with the empty one, covers everything.\<close>

definition listener_covers :: "string option \<Rightarrow> string \<Rightarrow> bool" where
  "listener_covers l h \<longleftrightarrow> hostname_value l = [] \<or> host_covers (hostname_value l) h"

section \<open>Lemmas\<close>

lemma is_wild_Cons: "is_wild p \<longleftrightarrow> (\<exists>t. p = CHR ''*'' # t)"
  by (auto simp: is_wild_def has_prefix_iff)

lemma trim_star: "is_wild p \<Longrightarrow> trim_prefix p ''*'' = tl p"
  by (auto simp: is_wild_Cons trim_prefix_def has_prefix_def)

lemma wildcard_matches_concrete:
  "is_wild w \<Longrightarrow> \<not> is_wild h \<Longrightarrow> WildcardHostnameMatchesHostname w h \<longleftrightarrow> host_covers w h"
  by (auto simp: WildcardHostnameMatchesHostname_def trim_star host_covers_def is_wild_def [symmetric] has_suffix_iff
      Let_def)

text \<open>Between wildcards the match says that one suffix properly extends the other at a label boundary.\<close>

lemma wildcard_matches_wildcard:
  assumes "is_wild w" and "is_wild p"
  shows "WildcardHostnameMatchesHostname w p \<longleftrightarrow> (\<exists>r. tl p = CHR ''.'' # r @ tl w)"
proof -
  have "WildcardHostnameMatchesHostname w p \<longleftrightarrow> (\<exists>x. tl p = x @ tl w \<and> has_prefix x ''.'' \<and> x \<noteq> [])"
    using assms
    by (auto simp: WildcardHostnameMatchesHostname_def trim_star is_wild_def [symmetric] has_suffix_iff Let_def)
  also have "\<dots> \<longleftrightarrow> (\<exists>r. tl p = CHR ''.'' # r @ tl w)"
    by (force simp: has_prefix_iff)
  finally show ?thesis .
qed

lemma wildcard_matches_covers:
  "is_wild w \<Longrightarrow> is_wild p \<Longrightarrow> WildcardHostnameMatchesHostname w p \<Longrightarrow> host_covers p h \<Longrightarrow> host_covers w h"
  by (auto simp: wildcard_matches_wildcard host_covers_def)

lemma pattern_wild: "host_pattern p \<Longrightarrow> is_wild p \<Longrightarrow> tl p = [] \<or> (\<exists>s. tl p = CHR ''.'' # s)"
  by (auto simp: host_pattern_def concrete_host_def has_prefix_iff)

lemma wild_eqI: "is_wild p \<Longrightarrow> is_wild q \<Longrightarrow> tl p = tl q \<Longrightarrow> p = q"
  by (auto simp: is_wild_Cons)

text \<open>Two different overlapping wildcards are nested.\<close>

lemma wildcards_nested:
  assumes "host_pattern p" "host_pattern q" "is_wild p" "is_wild q" "p \<noteq> q" "host_covers p h" "host_covers q h"
  shows "WildcardHostnameMatchesHostname p q \<or> WildcardHostnameMatchesHostname q p"
proof -
  obtain x y where xy: "x @ tl p = y @ tl q"
    using assms by (auto simp: host_covers_def)
  have neq: "tl p \<noteq> tl q" using assms wild_eqI by blast
  from xy obtain us where "us @ tl p = tl q \<or> tl p = us @ tl q"
    by (auto simp: append_eq_append_conv2)
  moreover from this have "us \<noteq> []" using neq by auto
  ultimately consider us where "us \<noteq> []" "tl q = us @ tl p" | us where "us \<noteq> []" "tl p = us @ tl q"
    by metis
  then show ?thesis
  proof cases
    case 1
    with pattern_wild [OF assms(2,4)] obtain r where "tl q = CHR ''.'' # r @ tl p"
      by (cases us) auto
    then show ?thesis using assms by (auto simp: wildcard_matches_wildcard)
  next
    case 2
    with pattern_wild [OF assms(1,3)] obtain r where "tl p = CHR ''.'' # r @ tl q"
      by (cases us) auto
    then show ?thesis using assms by (auto simp: wildcard_matches_wildcard)
  qed
qed

lemma route_host_hits_intersect:
  assumes r: "host_pattern r" and l: "l = [] \<or> host_pattern l" and h: "concrete_host h"
  shows "(\<exists>x \<in> set (route_host_hits l r). host_covers x h) \<longleftrightarrow> (l = [] \<or> host_covers l h) \<and> host_covers r h"
proof (cases "l = [] \<or> l = r")
  case True
  then show ?thesis by (auto simp: route_host_hits_def)
next
  case False
  then have l': "host_pattern l" using l by simp
  consider (both) "is_wild l" "is_wild r" | (left) "is_wild l" "\<not> is_wild r" | (right) "\<not> is_wild l" "is_wild r"
    | (none) "\<not> is_wild l" "\<not> is_wild r" by blast
  then show ?thesis
  proof cases
    case both
    then have "(\<exists>x \<in> set (route_host_hits l r). host_covers x h) \<longleftrightarrow>
        WildcardHostnameMatchesHostname r l \<and> host_covers l h \<or> WildcardHostnameMatchesHostname l r \<and> host_covers r h"
      using False by (auto simp: route_host_hits_def is_wild_def)
    then show ?thesis
      using both False wildcards_nested [OF l' r both] wildcard_matches_covers by blast
  next
    case left
    then show ?thesis
      using False wildcard_matches_concrete [OF left]
      by (auto simp: route_host_hits_def is_wild_def [symmetric] host_covers_def [of r])
  next
    case right
    then show ?thesis
      using False wildcard_matches_concrete [OF right(2,1)]
      by (auto simp: route_host_hits_def is_wild_def [symmetric] host_covers_def [of l])
  next
    case none
    then show ?thesis
      using False by (auto simp: route_host_hits_def is_wild_def [symmetric] host_covers_def)
  qed
qed

lemma star_covers: "concrete_host h \<Longrightarrow> host_covers ''*'' h"
  by (auto simp: host_covers_def concrete_host_def is_wild_def has_prefix_def)

section \<open>Properties\<close>

text \<open>
  C13: the hostnames of a Route on a Listener denote exactly the intersection. For well-formed patterns a
  concrete hostname is covered by the computed list if and only if the Listener covers it and the Route does
  (a Route without hostnames covers everything the Listener does); the list is sorted and free of duplicates.
\<close>
theorem compute_hosts_intersection:
  assumes "\<forall>r \<in> set routeHostnames. host_pattern r"
    and "hostname_value listener = [] \<or> host_pattern (hostname_value listener)"
    and "concrete_host h"
  shows "((\<exists>x \<in> set (ComputeHosts routeHostnames listener []). host_covers x h) \<longleftrightarrow>
      listener_covers listener h \<and> (routeHostnames = [] \<or> (\<exists>r \<in> set routeHostnames. host_covers r h))) \<and>
    sorted (ComputeHosts routeHostnames listener []) \<and> distinct (ComputeHosts routeHostnames listener [])"
proof (intro conjI)
  show "(\<exists>x \<in> set (ComputeHosts routeHostnames listener []). host_covers x h) \<longleftrightarrow>
      listener_covers listener h \<and> (routeHostnames = [] \<or> (\<exists>r \<in> set routeHostnames. host_covers r h))"
  proof (cases "routeHostnames = []")
    case True
    then show ?thesis using star_covers [OF assms(3)] by (auto simp: ComputeHosts_def Let_def listener_covers_def)
  next
    case False
    then have "(\<exists>x \<in> set (ComputeHosts routeHostnames listener []). host_covers x h) \<longleftrightarrow>
        (\<exists>r \<in> set routeHostnames. \<exists>x \<in> set (route_host_hits (hostname_value listener) r). host_covers x h)"
      by (auto simp: ComputeHosts_def Let_def)
    with False show ?thesis using route_host_hits_intersect assms by (auto simp: listener_covers_def)
  qed
qed (simp_all add: ComputeHosts_def Let_def)

theorem compute_hosts_intersection_witness:
  "(\<exists>x \<in> set (ComputeHosts [''*.b.io'', ''q.io''] (Some ''*.a.b.io'') []). host_covers x ''w.a.b.io'') \<longleftrightarrow>
   listener_covers (Some ''*.a.b.io'') ''w.a.b.io'' \<and>
   ([''*.b.io'', ''q.io''] = [] \<or> (\<exists>r \<in> set [''*.b.io'', ''q.io'']. host_covers r ''w.a.b.io''))"
proof (rule compute_hosts_intersection [THEN conjunct1])
  show "\<forall>r \<in> set [''*.b.io'', ''q.io'']. host_pattern r"
    by (simp add: host_pattern_def concrete_host_def is_wild_def has_prefix_def)
  show "hostname_value (Some ''*.a.b.io'') = [] \<or> host_pattern (hostname_value (Some ''*.a.b.io''))"
    by (simp add: hostname_value_def host_pattern_def has_prefix_def)
  show "concrete_host ''w.a.b.io''"
    by (simp add: concrete_host_def is_wild_def has_prefix_def)
qed

text \<open>
  What the hostnames claimed by other Listeners change. With Route hostnames they are removed from the
  result and nothing else changes; without Route hostnames the single result is returned unchanged, even
  when it is claimed.
\<close>
theorem compute_hosts_claims:
  "set (ComputeHosts routeHostnames listener claimed) =
     (if routeHostnames = [] then {if hostname_value listener = [] then ''*'' else hostname_value listener}
      else set (ComputeHosts routeHostnames listener []) - set claimed)"
  by (auto simp: ComputeHosts_def Let_def)

end
