(* ===== verification/RouteFilters.thy ===== *)
theory RouteFilters
  imports ApiTypes IR
begin

text \<open>
  \<^verbatim>\<open>src/internal/gatewayapi/rules.go\<close>, the parts below a rule: matches, header modifiers, redirects,
  rewrites, CORS, mirror percentages and timeouts. Fallible steps return \<open>Inl\<close> a reason. The
  comparisons handed to \<^verbatim>\<open>slices.SortFunc\<close> are interpreted in the \<open>exact_comparator\<close> interface,
  so that the sorted lists do not depend on the sorting algorithm.
\<close>

named_theorems gw_consts "string constants of the Gateway API"

definition RouteReasonUnsupportedValue :: string where [gw_consts]: "RouteReasonUnsupportedValue = ''UnsupportedValue''"
definition RouteReasonInvalidKind :: string where [gw_consts]: "RouteReasonInvalidKind = ''InvalidKind''"
definition RouteReasonIncompatibleFilters :: string where [gw_consts]: "RouteReasonIncompatibleFilters = ''IncompatibleFilters''"
definition RouteReasonResolvedRefs :: string where [gw_consts]: "RouteReasonResolvedRefs = ''ResolvedRefs''"
definition RouteReasonBackendNotFound :: string where [gw_consts]: "RouteReasonBackendNotFound = ''BackendNotFound''"
definition RouteReasonRefNotPermitted :: string where [gw_consts]: "RouteReasonRefNotPermitted = ''RefNotPermitted''"
definition RouteReasonUnsupportedProtocol :: string where [gw_consts]: "RouteReasonUnsupportedProtocol = ''UnsupportedProtocol''"

definition FilterRequestHeaderModifier :: string where [gw_consts]: "FilterRequestHeaderModifier = ''RequestHeaderModifier''"
definition FilterResponseHeaderModifier :: string where [gw_consts]: "FilterResponseHeaderModifier = ''ResponseHeaderModifier''"
definition FilterRequestRedirect :: string where [gw_consts]: "FilterRequestRedirect = ''RequestRedirect''"
definition FilterURLRewrite :: string where [gw_consts]: "FilterURLRewrite = ''URLRewrite''"
definition FilterRequestMirror :: string where [gw_consts]: "FilterRequestMirror = ''RequestMirror''"
definition FilterCORS :: string where [gw_consts]: "FilterCORS = ''CORS''"
definition FilterExtensionRef :: string where [gw_consts]: "FilterExtensionRef = ''ExtensionRef''"

definition references_resolved :: string where "references_resolved = ''references resolved''"

definition unsupportedFilter :: "string \<Rightarrow> reason" where
  "unsupportedFilter message = \<lparr>re_Code = RouteReasonUnsupportedValue, re_Message = message\<rparr>"

section \<open>Header modifiers, redirects and rewrites\<close>

definition compareHeaderValues :: "headerValue \<Rightarrow> headerValue \<Rightarrow> int" where
  "compareHeaderValues = cmp_then (cmp_on hv_Name compare) (cmp_on hv_Value compare)"

definition lower_header :: "httpHeader \<Rightarrow> headerValue" where
  "lower_header h = \<lparr>hv_Name = to_lower (hh_Name h), hv_Value = hh_Value h\<rparr>"

definition compileHeaderModifier :: "httpHeaderFilter \<Rightarrow> headerModifier" where
  "compileHeaderModifier f =
     \<lparr>hd_Set = sort_func compareHeaderValues (map lower_header (hhf_Set f)),
      hd_Add = sort_func compareHeaderValues (map lower_header (hhf_Add f)),
      hd_Remove = sort (map to_lower (hhf_Remove f))\<rparr>"

definition compilePathModifier :: "httpPathModifier option \<Rightarrow> pathModifier option" where
  "compilePathModifier path =
     (case path of None \<Rightarrow> None
      | Some p \<Rightarrow> Some \<lparr>pmod_Type = hpm_Type p,
          pmod_Replace = (case hpm_ReplacePrefixMatch p of Some v \<Rightarrow> v
            | None \<Rightarrow> (case hpm_ReplaceFullPath p of Some v \<Rightarrow> v | None \<Rightarrow> []))\<rparr>)"

definition string_or_empty :: "string option \<Rightarrow> string" where
  "string_or_empty v = (case v of None \<Rightarrow> [] | Some s \<Rightarrow> s)"

definition compileRedirect :: "httpRequestRedirectFilter \<Rightarrow> redirect" where
  "compileRedirect f =
     \<lparr>rd_Scheme = string_or_empty (hrr_Scheme f), rd_Hostname = string_or_empty (hrr_Hostname f),
      rd_Port = hrr_Port f, rd_StatusCode = (case hrr_StatusCode f of None \<Rightarrow> 302 | Some c \<Rightarrow> c),
      rd_Path = compilePathModifier (hrr_Path f)\<rparr>"

definition compileURLRewrite :: "httpURLRewriteFilter \<Rightarrow> urlRewrite" where
  "compileURLRewrite f =
     \<lparr>ur_Hostname = string_or_empty (hur_Hostname f), ur_Path = compilePathModifier (hur_Path f)\<rparr>"

definition compileCORS :: "httpCORSFilter \<Rightarrow> cors" where
  "compileCORS f =
     \<lparr>co_AllowOrigins = sort (hco_AllowOrigins f), co_AllowMethods = sort (hco_AllowMethods f),
      co_AllowHeaders = sort (map to_lower (hco_AllowHeaders f)),
      co_ExposeHeaders = sort (map to_lower (hco_ExposeHeaders f)),
      co_MaxAge = Some (if hco_MaxAge f > 0 then hco_MaxAge f else 5),
      co_AllowCredentials = (case hco_AllowCredentials f of None \<Rightarrow> False | Some b \<Rightarrow> b)\<rparr>"

text \<open>The percentage as a quotient: \<open>(numerator, denominator)\<close>.\<close>

definition mirrorPercent :: "httpRequestMirrorFilter \<Rightarrow> int \<times> int" where
  "mirrorPercent f =
     (case hrm_Percent f of
        Some p \<Rightarrow> (p, 1)
      | None \<Rightarrow> (case hrm_Fraction f of
            Some fr \<Rightarrow> (fr_Numerator fr * 100, (case fr_Denominator fr of None \<Rightarrow> 100 | Some d \<Rightarrow> d))
          | None \<Rightarrow> (100, 1)))"

definition parseDuration :: "externals \<Rightarrow> string option \<Rightarrow> duration option" where
  "parseDuration ext v = (case v of None \<Rightarrow> None | Some s \<Rightarrow> ext_ParseDuration ext s)"

definition compileTimeouts :: "externals \<Rightarrow> httpRouteTimeouts option \<Rightarrow> timeouts" where
  "compileTimeouts ext t =
     (case t of None \<Rightarrow> \<lparr>to_Request = None, to_BackendRequest = None\<rparr>
      | Some t \<Rightarrow> \<lparr>to_Request = parseDuration ext (ht_Request t), to_BackendRequest = parseDuration ext (ht_BackendRequest t)\<rparr>)"

section \<open>Matches\<close>

record compiledMatch =
  cma_path :: pathMatch
  cma_headers :: "headerMatch list"
  cma_query :: "queryMatch list"
  cma_method :: "string option"

definition compile_path :: "httpPathMatch option \<Rightarrow> reason + pathMatch" where
  "compile_path path =
     (case path of
        None \<Rightarrow> Inr \<lparr>pm_Type = PathMatchPathPrefix, pm_Value = ''/''\<rparr>
      | Some p \<Rightarrow>
          (let pathType = (case hp_Type p of None \<Rightarrow> PathMatchPathPrefix | Some t \<Rightarrow> t);
               value0 = (case hp_Value p of None \<Rightarrow> ''/'' | Some v \<Rightarrow> v);
               value = (if pathType = PathMatchPathPrefix \<and> value0 \<noteq> ''/''
                        then (let trimmed = trim_right value0 CHR ''/'' in if trimmed = [] then ''/'' else trimmed)
                        else value0)
           in if pathType \<in> {PathMatchExact, PathMatchPathPrefix, PathMatchRegularExpression}
              then Inr \<lparr>pm_Type = pathType, pm_Value = value\<rparr>
              else Inl \<lparr>re_Code = RouteReasonUnsupportedValue,
                         re_Message = ''uses unsupported path match type '' @ show_q pathType\<rparr>))"

text \<open>
  One loop serves headers and query parameters: only the first entry of a name is considered, and it must
  have a supported type. \<open>what\<close> is the word of the error message.
\<close>

fun compile_values :: "string \<Rightarrow> (string \<Rightarrow> string) \<Rightarrow> string list \<Rightarrow> httpValueMatch list
    \<Rightarrow> reason + (string \<times> string \<times> string) list" where
  "compile_values what canon seen [] = Inr []"
| "compile_values what canon seen (m # ms) =
     (let name = canon (hvm_Name m) in
      if name \<in> set seen then compile_values what canon seen ms
      else let matchType = (case hvm_Type m of None \<Rightarrow> StringMatchExact | Some t \<Rightarrow> t) in
        if matchType \<noteq> StringMatchExact \<and> matchType \<noteq> StringMatchRegularExpression
        then Inl \<lparr>re_Code = RouteReasonUnsupportedValue,
                   re_Message = ''uses unsupported '' @ what @ '' match type '' @ show_q matchType\<rparr>
        else (case compile_values what canon (name # seen) ms of
                Inl e \<Rightarrow> Inl e
              | Inr rest \<Rightarrow> Inr ((name, matchType, hvm_Value m) # rest)))"

definition compare_header_matches :: "headerMatch \<Rightarrow> headerMatch \<Rightarrow> int" where
  "compare_header_matches =
     cmp_then (cmp_on hm_Name compare) (cmp_then (cmp_on hm_Type compare) (cmp_on hm_Value compare))"

definition compare_query_matches :: "queryMatch \<Rightarrow> queryMatch \<Rightarrow> int" where
  "compare_query_matches =
     cmp_then (cmp_on qm_Name compare) (cmp_then (cmp_on qm_Type compare) (cmp_on qm_Value compare))"

definition compileMatch :: "httpRouteMatch \<Rightarrow> reason + compiledMatch" where
  "compileMatch m =
     (case compile_path (ma_Path m) of
        Inl e \<Rightarrow> Inl e
      | Inr path \<Rightarrow>
          (case compile_values ''header'' to_lower [] (ma_Headers m) of
             Inl e \<Rightarrow> Inl e
           | Inr hs \<Rightarrow>
               (case compile_values ''query'' id [] (ma_QueryParams m) of
                  Inl e \<Rightarrow> Inl e
                | Inr qs \<Rightarrow> Inr
                    \<lparr>cma_path = path,
                     cma_headers = sort_func compare_header_matches
                       (map (\<lambda>(n, t, v). \<lparr>hm_Name = n, hm_Type = t, hm_Value = v\<rparr>) hs),
                     cma_query = sort_func compare_query_matches
                       (map (\<lambda>(n, t, v). \<lparr>qm_Name = n, qm_Type = t, qm_Value = v\<rparr>) qs),
                     cma_method = ma_Method m\<rparr>)))"

definition known_path :: "pathMatch \<Rightarrow> bool" where
  "known_path m \<longleftrightarrow> pm_Type m \<in> {PathMatchExact, PathMatchPathPrefix, PathMatchRegularExpression}"

lemma compileMatch_known: "compileMatch m = Inr match \<Longrightarrow> known_path (cma_path match)"
  by (auto simp: compileMatch_def compile_path_def known_path_def Let_def split: option.splits sum.splits if_splits)

section \<open>Comparisons\<close>

lemmas comparator_locales = comparator_compare comparator_on comparator_then

interpretation header_values: exact_comparator compareHeaderValues
proof (rule exact_comparator.intro)
  show "comparator compareHeaderValues"
    unfolding compareHeaderValues_def by (intro comparator_locales)
  show "exact_comparator_axioms compareHeaderValues"
    by unfold_locales (auto simp: compareHeaderValues_def cmp_then_zero cmp_on_def intro: headerValue.equality)
qed

interpretation header_matches: exact_comparator compare_header_matches
proof (rule exact_comparator.intro)
  show "comparator compare_header_matches"
    unfolding compare_header_matches_def by (intro comparator_locales)
  show "exact_comparator_axioms compare_header_matches"
    by unfold_locales (auto simp: compare_header_matches_def cmp_then_zero cmp_on_def intro: headerMatch.equality)
qed

interpretation query_matches: exact_comparator compare_query_matches
proof (rule exact_comparator.intro)
  show "comparator compare_query_matches"
    unfolding compare_query_matches_def by (intro comparator_locales)
  show "exact_comparator_axioms compare_query_matches"
    by unfold_locales (auto simp: compare_query_matches_def cmp_then_zero cmp_on_def intro: queryMatch.equality)
qed

section \<open>Lemmas\<close>

lemma compile_values_names:
  "compile_values what canon seen ms = Inr out \<Longrightarrow>
   distinct (map fst out) \<and> fst ` set out = canon ` hvm_Name ` set ms - set seen \<and>
   (\<forall>(n, t, v) \<in> set out. t = StringMatchExact \<or> t = StringMatchRegularExpression)"
proof (induction what canon seen ms arbitrary: out rule: compile_values.induct)
  case (2 what canon seen m ms)
  show ?case
  proof (cases "canon (hvm_Name m) \<in> set seen")
    case True
    then show ?thesis using 2 by (auto simp: Let_def)
  next
    case False
    let ?t = "case hvm_Type m of None \<Rightarrow> StringMatchExact | Some t \<Rightarrow> t"
    from "2.prems" False have ok: "?t = StringMatchExact \<or> ?t = StringMatchRegularExpression"
      by (auto simp: Let_def split: if_splits)
    then have "compile_values what canon seen (m # ms) =
        (case compile_values what canon (canon (hvm_Name m) # seen) ms of
           Inl e \<Rightarrow> Inl e | Inr rest \<Rightarrow> Inr ((canon (hvm_Name m), ?t, hvm_Value m) # rest))"
      using False by (simp add: Let_def del: compile_values.simps(1)) blast
    with "2.prems" obtain rest where
      rest: "compile_values what canon (canon (hvm_Name m) # seen) ms = Inr rest"
      and out: "out = (canon (hvm_Name m), ?t, hvm_Value m) # rest"
      by (auto split: sum.splits)
    from "2.IH"(2) [OF refl False refl _ rest] ok
    have IH: "distinct (map fst rest)" "fst ` set rest = canon ` hvm_Name ` set ms - set (canon (hvm_Name m) # seen)"
      "\<forall>(n, t, v) \<in> set rest. t = StringMatchExact \<or> t = StringMatchRegularExpression" by auto
    have "canon (hvm_Name m) \<notin> fst ` set rest" by (simp add: IH(2))
    then show ?thesis using IH ok False by (auto simp: out)
  qed
qed simp

lemma compile_path_normal:
  assumes "compile_path path = Inr pm" and "pm_Type pm = PathMatchPathPrefix"
  shows "pm_Value pm = ''/'' \<or> (pm_Value pm \<noteq> [] \<and> last (pm_Value pm) \<noteq> CHR ''/'')"
proof -
  have trimmed: "trim_right v c \<noteq> [] \<Longrightarrow> last (trim_right v c) \<noteq> c" for v c
    by (metis (mono_tags, lifting) hd_dropWhile last_rev rev_is_Nil_conv trim_right_def trim_right_func_def)
  show ?thesis
    using assms trimmed by (auto simp: compile_path_def Let_def split: option.splits if_splits)
qed

end
