(* ===== verification/Backends.thy ===== *)
theory Backends
  imports Authz Status Hostname RouteFilters
begin

text \<open>
  \<^verbatim>\<open>src/internal/gatewayapi/backends.go\<close>: resolving backend references, the clusters and endpoints of
  the data plane, and BackendTLSPolicy selection, validation and status. The abstract specification
  \<open>backend_admissible\<close> states when a reference may be served; \<open>compileBackendObjectRef\<close> refines it.
  Ports are the 16-bit port numbers Kubernetes admits, so the \<^verbatim>\<open>int32\<close> differences of the comparisons
  do not wrap.
\<close>

section \<open>Lookups\<close>

definition namespaceByName :: "namespace list \<Rightarrow> string \<Rightarrow> namespace option" where
  "namespaceByName namespaces name = List.find (\<lambda>n. ns_Name n = name) namespaces"

definition findService :: "service list \<Rightarrow> string \<Rightarrow> string \<Rightarrow> service option" where
  "findService services namespace name = List.find (\<lambda>s. sv_Namespace s = namespace \<and> sv_Name s = name) services"

definition findServicePort :: "service \<Rightarrow> int \<Rightarrow> servicePort option" where
  "findServicePort service port = List.find (\<lambda>p. sp_Port p = port) (sv_Ports service)"

definition supportedAppProtocol :: "string \<Rightarrow> bool" where
  "supportedAppProtocol protocol \<longleftrightarrow>
     protocol = [] \<or> equal_fold protocol ''HTTP'' \<or> equal_fold protocol ''HTTPS'' \<or>
     protocol = ''kubernetes.io/h2c'' \<or> has_prefix protocol ''kubernetes.io/ws''"

definition clusterName :: "string \<Rightarrow> string \<Rightarrow> int \<Rightarrow> string" where
  "clusterName namespace service port = ''k8s://'' @ namespace @ ''/'' @ service @ '':'' @ show_int port"

definition findConfigMap :: "configMap list \<Rightarrow> string \<Rightarrow> string \<Rightarrow> configMap option" where
  "findConfigMap configMaps namespace name =
     List.find (\<lambda>c. cm_Namespace c = namespace \<and> cm_Name c = name) configMaps"

definition configMapCABundle :: "configMap option \<Rightarrow> string" where
  "configMapCABundle configMap =
     (case configMap of
        None \<Rightarrow> []
      | Some c \<Rightarrow> if str_get (cm_Data c) ''ca.crt'' \<noteq> [] then str_get (cm_Data c) ''ca.crt''
                  else str_get (cm_BinaryData c) ''ca.crt'')"

section \<open>BackendTLSPolicy\<close>

text \<open>The inner loop over a policy's targets: how often it is a section match, and whether the whole Service matched.\<close>

fun policy_targets :: "service \<Rightarrow> servicePort \<Rightarrow> policyTargetRef list \<Rightarrow> nat \<times> bool" where
  "policy_targets service servicePort [] = (0, False)"
| "policy_targets service servicePort (target # targets) =
     (if ptr_Group target \<noteq> [] \<or> ptr_Kind target \<noteq> ''Service'' \<or> ptr_Name target \<noteq> sv_Name service
      then policy_targets service servicePort targets
      else (case ptr_SectionName target of
              Some section \<Rightarrow>
                (let (n, whole) = policy_targets service servicePort targets in
                 if section = sp_Name servicePort then (Suc n, whole) else (n, whole))
            | None \<Rightarrow> (0, True)))"

definition compare_policies :: "backendTLSPolicy \<Rightarrow> backendTLSPolicy \<Rightarrow> int" where
  "compare_policies =
     cmp_then (cmp_on bp_CreationTimestamp compare)
       (cmp_on (\<lambda>p. bp_Namespace p @ ''/'' @ bp_Name p) compare)"

definition matchingBackendTLSPolicies ::
  "backendTLSPolicy list \<Rightarrow> service \<Rightarrow> servicePort \<Rightarrow> backendTLSPolicy list" where
  "matchingBackendTLSPolicies policies service servicePort =
     (let candidates = filter (\<lambda>p. bp_Namespace p = sv_Namespace service) policies;
          sectionMatches = concat (map (\<lambda>p. replicate (fst (policy_targets service servicePort (bp_TargetRefs p))) p) candidates);
          wholeServiceMatches = filter (\<lambda>p. snd (policy_targets service servicePort (bp_TargetRefs p))) candidates
      in sort_func compare_policies (if sectionMatches \<noteq> [] then sectionMatches else wholeServiceMatches))"

definition winningBackendTLSPolicy ::
  "backendTLSPolicy list \<Rightarrow> service \<Rightarrow> servicePort \<Rightarrow> backendTLSPolicy option" where
  "winningBackendTLSPolicy policies service servicePort =
     (case matchingBackendTLSPolicies policies service servicePort of [] \<Rightarrow> None | p # _ \<Rightarrow> Some p)"

definition policy_label :: "backendTLSPolicy \<Rightarrow> string" where
  "policy_label p = ''BackendTLSPolicy '' @ bp_Namespace p @ ''/'' @ bp_Name p"

definition WellKnownCACertificatesSystem :: string where "WellKnownCACertificatesSystem = ''System''"

definition ca_ref_error :: "externals \<Rightarrow> inputs \<Rightarrow> backendTLSPolicy \<Rightarrow> localObjectReference \<Rightarrow> string" where
  "ca_ref_error ext inp policy ref =
     (if lor_Group ref \<noteq> [] \<or> lor_Kind ref \<noteq> ''ConfigMap''
      then policy_label policy @ '' CA reference must be a core ConfigMap''
      else let bundle = configMapCABundle (findConfigMap (in_ConfigMaps inp) (bp_Namespace policy) (lor_Name ref)) in
        if bundle = [] then policy_label policy @ '' CA ConfigMap '' @ lor_Name ref @ '' is missing ca.crt''
        else if \<not> ext_AppendCertsFromPEM ext bundle
          then policy_label policy @ '' CA ConfigMap '' @ lor_Name ref @ '' contains malformed certificates''
        else [])"

text \<open>The first error of the references in order, or the empty string.\<close>

fun first_message :: "('a \<Rightarrow> string) \<Rightarrow> 'a list \<Rightarrow> string" where
  "first_message f [] = []"
| "first_message f (x # xs) = (if f x \<noteq> [] then f x else first_message f xs)"

definition backendTLSPolicyValidationError :: "externals \<Rightarrow> inputs \<Rightarrow> backendTLSPolicy \<Rightarrow> string" where
  "backendTLSPolicyValidationError ext inp policy =
     (let validation = bp_Validation policy in
      case bv_WellKnownCACertificates validation of
        Some wk \<Rightarrow>
          if wk \<noteq> WellKnownCACertificatesSystem
          then policy_label policy @ '' uses unsupported wellKnownCACertificates '' @ show_q wk else []
      | None \<Rightarrow>
          if bv_CACertificateRefs validation = [] then policy_label policy @ '' has no CA certificate source''
          else first_message (ca_ref_error ext inp policy) (bv_CACertificateRefs validation))"

text \<open>Bundles are concatenated with a newline between them when the text so far does not end in one.\<close>

definition append_bundle :: "string \<Rightarrow> string \<Rightarrow> string" where
  "append_bundle acc bundle =
     (if acc \<noteq> [] \<and> last acc \<noteq> CHR 0x0A then acc @ [CHR 0x0A] @ bundle else acc @ bundle)"

definition resolveBackendTLS :: "externals \<Rightarrow> inputs \<Rightarrow> service \<Rightarrow> servicePort \<Rightarrow> backendTLS option" where
  "resolveBackendTLS ext inp service servicePort =
     (case winningBackendTLSPolicy (in_BackendTLSPolicies inp) service servicePort of
        None \<Rightarrow> None
      | Some winner \<Rightarrow>
          if backendTLSPolicyValidationError ext inp winner \<noteq> [] then None
          else
            (let validation = bp_Validation winner;
                 serverName = bv_Hostname validation;
                 sans0 = map (\<lambda>san. \<lparr>sn_Type = psn_Type san,
                   sn_Value = (if psn_Type san = ''URI'' then psn_URI san else psn_Hostname san)\<rparr>) (bv_SubjectAltNames validation);
                 sans = (if sans0 = [] then [\<lparr>sn_Type = ''Hostname'', sn_Value = serverName\<rparr>] else sans0);
                 result = \<lparr>bt_ServerName = serverName, bt_CACertificate = [], bt_WellKnownCACertificates = [],
                   bt_SubjectAltNames = sans\<rparr>
             in case bv_WellKnownCACertificates validation of
                  Some wk \<Rightarrow> Some (result\<lparr>bt_WellKnownCACertificates := wk\<rparr>)
                | None \<Rightarrow> Some (result\<lparr>bt_CACertificate :=
                    foldl append_bundle [] (map (\<lambda>ref. configMapCABundle
                      (findConfigMap (in_ConfigMaps inp) (bp_Namespace winner) (lor_Name ref)))
                      (bv_CACertificateRefs validation))\<rparr>)))"

section \<open>Backend references\<close>

fun compile_backend_filters :: "backendFilters \<Rightarrow> httpRouteFilter list \<Rightarrow> reason + backendFilters" where
  "compile_backend_filters result [] = Inr result"
| "compile_backend_filters result (f # fs) =
     (if hf_Type f = FilterRequestHeaderModifier then
        (case hf_RequestHeaderModifier f of
           None \<Rightarrow> Inl (unsupportedFilter ''backend RequestHeaderModifier has no configuration'')
         | Some m \<Rightarrow> compile_backend_filters (result\<lparr>bf_RequestHeaders := Some (compileHeaderModifier m)\<rparr>) fs)
      else if hf_Type f = FilterResponseHeaderModifier then
        (case hf_ResponseHeaderModifier f of
           None \<Rightarrow> Inl (unsupportedFilter ''backend ResponseHeaderModifier has no configuration'')
         | Some m \<Rightarrow> compile_backend_filters (result\<lparr>bf_ResponseHeaders := Some (compileHeaderModifier m)\<rparr>) fs)
      else if hf_Type f = FilterURLRewrite then
        (case hf_URLRewrite f of
           None \<Rightarrow> Inl (unsupportedFilter ''backend URLRewrite has no configuration'')
         | Some u \<Rightarrow> compile_backend_filters (result\<lparr>bf_URLRewrite := Some (compileURLRewrite u)\<rparr>) fs)
      else Inl (unsupportedFilter (''uses unsupported backend filter type '' @ show_q (hf_Type f))))"

definition compileBackendFilters :: "httpRouteFilter list \<Rightarrow> reason + backendFilters" where
  "compileBackendFilters = compile_backend_filters empty_backendFilters"

definition invalidBackend :: "irBackendRef \<Rightarrow> string \<Rightarrow> string \<Rightarrow> irBackendRef \<times> string \<times> string" where
  "invalidBackend backend reason message =
     (backend\<lparr>ib_Invalid := Some \<lparr>re_Code = reason, re_Message = message\<rparr>\<rparr>, reason, message)"

definition backend_namespace :: "httpRoute \<Rightarrow> backendObjectReference \<Rightarrow> string" where
  "backend_namespace route ref = (case bo_Namespace ref of None \<Rightarrow> hr_Namespace route | Some n \<Rightarrow> n)"

definition backend_port :: "backendObjectReference \<Rightarrow> int" where
  "backend_port ref = (case bo_Port ref of None \<Rightarrow> 0 | Some p \<Rightarrow> p)"

definition backend_base :: "httpRoute \<Rightarrow> backendObjectReference \<Rightarrow> int option \<Rightarrow> irBackendRef" where
  "backend_base route ref weightValue =
     \<lparr>ib_Name = bo_Name ref, ib_Namespace = backend_namespace route ref, ib_ClusterName = [],
      ib_Port = backend_port ref, ib_Weight = (case weightValue of None \<Rightarrow> 1 | Some w \<Rightarrow> w),
      ib_Filters = empty_backendFilters, ib_Invalid = None\<rparr>"

definition backend_reference_permitted :: "inputs \<Rightarrow> httpRoute \<Rightarrow> backendObjectReference \<Rightarrow> bool" where
  "backend_reference_permitted inp route ref \<longleftrightarrow>
     IsCrossNamespaceReferencePermitted
       \<lparr>rfs_Group = gatewayGroup, rfs_Kind = ''HTTPRoute'', rfs_Namespace = hr_Namespace route\<rparr>
       \<lparr>rft_Group = [], rft_Kind = ''Service'', rft_Namespace = backend_namespace route ref, rft_Name = bo_Name ref\<rparr>
       (in_ReferenceGrants inp)"

definition backend_decision :: "externals \<Rightarrow> inputs \<Rightarrow> httpRoute \<Rightarrow> string \<Rightarrow> authz_decision" where
  "backend_decision ext inp route namespace =
     authz_Evaluate (ext_selector ext) (in_CloudflareAccount inp)
       (namespaceByName (in_Namespaces inp) (hr_Namespace route))
       (empty_request\<lparr>rq_Backend := Some \<lparr>br_Namespace = namespaceByName (in_Namespaces inp) namespace,
          br_Kind = BackendKindService\<rparr>\<rparr>)"

text \<open>The checks of \<^verbatim>\<open>compileBackendObjectRef\<close> once the Service port is found, once the Service is found, and from the start.\<close>

definition compile_backend_port ::
  "externals \<Rightarrow> inputs \<Rightarrow> irBackendRef \<Rightarrow> service \<Rightarrow> servicePort \<Rightarrow> httpRouteFilter list \<Rightarrow> irBackendRef \<times> string \<times> string" where
  "compile_backend_port ext inp result service servicePort fs =
     (let target = ib_Namespace result @ ''/'' @ ib_Name result;
          unsupported = (case sp_AppProtocol servicePort of None \<Rightarrow> False | Some p \<Rightarrow> \<not> supportedAppProtocol p);
          tls_error = (case winningBackendTLSPolicy (in_BackendTLSPolicies inp) service servicePort of
                         None \<Rightarrow> [] | Some policy \<Rightarrow> backendTLSPolicyValidationError ext inp policy)
      in
      if unsupported then
        invalidBackend result RouteReasonUnsupportedProtocol
          (''backend Service '' @ target @ '' uses unsupported appProtocol '' @
           show_q (string_or_empty (sp_AppProtocol servicePort)))
      else if tls_error \<noteq> [] then invalidBackend result RouteReasonUnsupportedProtocol tls_error
      else let named = result\<lparr>ib_ClusterName := clusterName (ib_Namespace result) (ib_Name result) (ib_Port result)\<rparr> in
        (case compileBackendFilters fs of
           Inl invalid \<Rightarrow> (named\<lparr>ib_Invalid := Some invalid\<rparr>, RouteReasonInvalidKind, re_Message invalid)
         | Inr compiled \<Rightarrow> (named\<lparr>ib_Filters := compiled\<rparr>, RouteReasonResolvedRefs, references_resolved)))"

definition compile_backend_service ::
  "externals \<Rightarrow> inputs \<Rightarrow> httpRoute \<Rightarrow> irBackendRef \<Rightarrow> service \<Rightarrow> httpRouteFilter list \<Rightarrow> irBackendRef \<times> string \<times> string" where
  "compile_backend_service ext inp route result service fs =
     (let namespace = ib_Namespace result; target = namespace @ ''/'' @ ib_Name result;
          decision = backend_decision ext inp route namespace
      in
      if sv_Type service = ''ExternalName'' then
        invalidBackend result RouteReasonBackendNotFound (''backend Service '' @ target @ '' was not found'')
      else if in_CloudflareAccount inp \<noteq> None \<and> \<not> ad_Allowed decision then
        invalidBackend result RouteReasonRefNotPermitted (ad_Message decision)
      else
        (case findServicePort service (ib_Port result) of
           None \<Rightarrow> invalidBackend result RouteReasonBackendNotFound
             (''backend Service '' @ target @ '' has no port '' @ show_int (ib_Port result))
         | Some servicePort \<Rightarrow> compile_backend_port ext inp result service servicePort fs))"

definition compileBackendObjectRef ::
  "externals \<Rightarrow> inputs \<Rightarrow> httpRoute \<Rightarrow> backendObjectReference \<Rightarrow> int option \<Rightarrow> httpRouteFilter list
    \<Rightarrow> irBackendRef \<times> string \<times> string" where
  "compileBackendObjectRef ext inp route ref weightValue fs =
     (let namespace = backend_namespace route ref;
          result = backend_base route ref weightValue;
          group = string_or_empty (bo_Group ref);
          kind = (case bo_Kind ref of None \<Rightarrow> ''Service'' | Some k \<Rightarrow> if k = [] then ''Service'' else k);
          target = namespace @ ''/'' @ bo_Name ref
      in
      if group \<noteq> [] \<or> kind \<noteq> ''Service'' then
        invalidBackend result RouteReasonInvalidKind (''backend '' @ target @ '' must reference a core Service'')
      else if namespace \<noteq> hr_Namespace route \<and> \<not> backend_reference_permitted inp route ref then
        invalidBackend result RouteReasonRefNotPermitted
          (''backend Service '' @ target @ '' is not permitted by a ReferenceGrant'')
      else
        (case findService (in_Services inp) namespace (bo_Name ref) of
           None \<Rightarrow> invalidBackend result RouteReasonBackendNotFound (''backend Service '' @ target @ '' was not found'')
         | Some service \<Rightarrow> compile_backend_service ext inp route result service fs))"

definition compileHTTPBackendRef ::
  "externals \<Rightarrow> inputs \<Rightarrow> httpRoute \<Rightarrow> httpBackendRef \<Rightarrow> irBackendRef \<times> string \<times> string" where
  "compileHTTPBackendRef ext inp route ref =
     compileBackendObjectRef ext inp route (hb_Ref ref) (hb_Weight ref) (hb_Filters ref)"

section \<open>Clusters and endpoints\<close>

definition endpointPort :: "endpointSlice \<Rightarrow> servicePort \<Rightarrow> int" where
  "endpointPort slice servicePort =
     (case List.find (\<lambda>p. slp_Port p \<noteq> None \<and> sp_Name servicePort \<noteq> [] \<and> slp_Name p = Some (sp_Name servicePort))
        (es_Ports slice) of
        Some p \<Rightarrow> the (slp_Port p)
      | None \<Rightarrow> (case es_Ports slice of [p] \<Rightarrow> (case slp_Port p of None \<Rightarrow> 0 | Some v \<Rightarrow> v) | _ \<Rightarrow> 0))"

definition endpoint_ready :: "sliceEndpoint \<Rightarrow> bool" where
  "endpoint_ready e \<longleftrightarrow> se_Ready e \<noteq> Some False \<and> se_Terminating e \<noteq> Some True"

definition slice_endpoints :: "service \<Rightarrow> servicePort \<Rightarrow> endpointSlice \<Rightarrow> endpoint list" where
  "slice_endpoints service servicePort slice =
     (if es_Namespace slice \<noteq> sv_Namespace service \<or>
         str_get (es_Labels slice) ''kubernetes.io/service-name'' \<noteq> sv_Name service then []
      else let port = endpointPort slice servicePort in
        if port = 0 then []
        else concat (map (\<lambda>e. map (\<lambda>a. \<lparr>ep_Address = a, ep_Port = port\<rparr>) (se_Addresses e))
               (filter endpoint_ready (es_Endpoints slice))))"

definition compare_endpoints :: "endpoint \<Rightarrow> endpoint \<Rightarrow> int" where
  "compare_endpoints = cmp_then (cmp_on ep_Address compare) (cmp_asc ep_Port)"

definition extractEndpoints :: "endpointSlice list \<Rightarrow> service \<Rightarrow> servicePort \<Rightarrow> endpoint list" where
  "extractEndpoints endpointSlices service servicePort =
     sort_func compare_endpoints
       (unique_by id (concat (map (slice_endpoints service servicePort) endpointSlices)))"

text \<open>The backends and mirror backends of a gateway, in the order the loops visit them.\<close>

definition route_backends :: "route \<Rightarrow> irBackendRef list" where
  "route_backends r = ro_Backends r @ map mi_Backend (fi_Mirrors (ro_Filters r))"

definition domain_backends :: "protectionDomain list \<Rightarrow> irBackendRef list" where
  "domain_backends domains =
     concat (map (\<lambda>d. concat (map (\<lambda>h. concat (map route_backends (vh_Routes h))) (pd_VirtualHosts d))) domains)"

definition backends_by_cluster :: "protectionDomain list \<Rightarrow> (string, irBackendRef) gomap" where
  "backends_by_cluster domains =
     foldl (\<lambda>m b. if ib_Invalid b = None then mput (ib_ClusterName b) b m else m) [] (domain_backends domains)"

definition build_cluster :: "externals \<Rightarrow> inputs \<Rightarrow> string \<Rightarrow> irBackendRef \<Rightarrow> cluster option" where
  "build_cluster ext inp name backend =
     (case findService (in_Services inp) (ib_Namespace backend) (ib_Name backend) of
        None \<Rightarrow> None
      | Some service \<Rightarrow>
          (case findServicePort service (ib_Port backend) of
             None \<Rightarrow> None
           | Some servicePort \<Rightarrow> Some
               \<lparr>cl_Name = name, cl_Namespace = ib_Namespace backend, cl_Service = ib_Name backend, cl_Port = ib_Port backend,
                cl_AppProtocol = string_or_empty (sp_AppProtocol servicePort),
                cl_Endpoints = extractEndpoints (in_EndpointSlices inp) service servicePort,
                cl_TLS = resolveBackendTLS ext inp service servicePort\<rparr>))"

definition buildClusters :: "externals \<Rightarrow> inputs \<Rightarrow> irGateway \<Rightarrow> cluster list" where
  "buildClusters ext inp gateway =
     (let backends = backends_by_cluster (ig_Domains gateway);
          names = sort (map fst backends)
      in List.map_filter (\<lambda>name. case mget backends name of None \<Rightarrow> None | Some b \<Rightarrow> build_cluster ext inp name b) names)"

section \<open>BackendTLSPolicy status\<close>

definition conditionStatus :: "bool \<Rightarrow> string" where
  "conditionStatus v = (if v then ConditionStatusTrue else ConditionStatusFalse)"

type_synonym policy_statuses = "nsname \<rightharpoonup> policyAncestorStatus list"

definition gateway_ancestor_ref :: "irGateway \<Rightarrow> parentReference" where
  "gateway_ancestor_ref gateway =
     \<lparr>pr_Group = Some gatewayGroup, pr_Kind = Some ''Gateway'', pr_Namespace = Some (fst (ig_Key gateway)),
      pr_Name = snd (ig_Key gateway), pr_SectionName = None, pr_Port = None\<rparr>"

definition recordBackendTLSPolicyStatus ::
  "backendTLSPolicy \<Rightarrow> irGateway \<Rightarrow> time \<Rightarrow> bool \<Rightarrow> string \<Rightarrow> string \<Rightarrow> bool \<Rightarrow> string \<Rightarrow> string
    \<Rightarrow> policy_statuses \<Rightarrow> policy_statuses" where
  "recordBackendTLSPolicyStatus policy gateway now accepted acceptedReason acceptedMessage resolved resolvedReason
     resolvedMessage statuses =
     (let key = (bp_Namespace policy, bp_Name policy);
          current = (case statuses key of None \<Rightarrow> bp_StatusAncestors policy | Some s \<Rightarrow> s);
          ancestor = \<lparr>pas_AncestorRef = gateway_ancestor_ref gateway, pas_ControllerName = ControllerName,
            pas_Conditions =
              [NewCondition ''Accepted'' (conditionStatus accepted) acceptedReason acceptedMessage (bp_Generation policy) now,
               NewCondition ''ResolvedRefs'' (conditionStatus resolved) resolvedReason resolvedMessage (bp_Generation policy) now]\<rparr>
      in statuses(key \<mapsto> ReplacePolicyAncestorStatuses current ControllerName now [ancestor]))"

type_synonym service_reference = "string \<times> string \<times> int"

definition compare_references :: "service_reference \<Rightarrow> service_reference \<Rightarrow> int" where
  "compare_references =
     cmp_then (cmp_on fst compare) (cmp_then (cmp_on (\<lambda>r. fst (snd r)) compare) (cmp_asc (\<lambda>r. snd (snd r))))"

definition service_references :: "protectionDomain list \<Rightarrow> service_reference list" where
  "service_references domains =
     sort_func compare_references
       (unique_by id (map (\<lambda>b. (ib_Namespace b, ib_Name b, ib_Port b)) (domain_backends domains)))"

definition winner_status :: "externals \<Rightarrow> inputs \<Rightarrow> irGateway \<Rightarrow> time \<Rightarrow> backendTLSPolicy \<Rightarrow> policy_statuses \<Rightarrow> policy_statuses" where
  "winner_status ext inp gateway now winner statuses =
     (let message = backendTLSPolicyValidationError ext inp winner in
      if message = [] then
        recordBackendTLSPolicyStatus winner gateway now True ''Accepted'' ''policy accepted'' True ''ResolvedRefs''
          references_resolved statuses
      else
        (let acceptedReason = (if contains_str message ''wellKnownCACertificates'' then ''Invalid'' else ''NoValidCACertificate'');
             resolvedReason = (if contains_str message ''wellKnownCACertificates'' then ''InvalidKind''
                               else if contains_str message ''must be a core ConfigMap'' then ''InvalidKind''
                               else ''InvalidCACertificateRef'')
         in recordBackendTLSPolicyStatus winner gateway now False acceptedReason message False resolvedReason message statuses))"

definition loser_status :: "irGateway \<Rightarrow> time \<Rightarrow> backendTLSPolicy \<Rightarrow> backendTLSPolicy \<Rightarrow> policy_statuses \<Rightarrow> policy_statuses" where
  "loser_status gateway now winner policy statuses =
     recordBackendTLSPolicyStatus policy gateway now False ''Conflicted''
       (''conflicts with older '' @ policy_label winner) True ''ResolvedRefs'' references_resolved statuses"

definition reference_statuses ::
  "externals \<Rightarrow> inputs \<Rightarrow> irGateway \<Rightarrow> time \<Rightarrow> policy_statuses \<Rightarrow> service_reference \<Rightarrow> policy_statuses" where
  "reference_statuses ext inp gateway now statuses reference =
     (case findService (in_Services inp) (fst reference) (fst (snd reference)) of
        None \<Rightarrow> statuses
      | Some service \<Rightarrow>
          (case findServicePort service (snd (snd reference)) of
             None \<Rightarrow> statuses
           | Some servicePort \<Rightarrow>
               (case matchingBackendTLSPolicies (in_BackendTLSPolicies inp) service servicePort of
                  [] \<Rightarrow> statuses
                | winner # losers \<Rightarrow>
                    foldl (\<lambda>s policy. loser_status gateway now winner policy s)
                      (winner_status ext inp gateway now winner statuses) losers)))"

definition populateBackendTLSPolicyStatuses ::
  "externals \<Rightarrow> inputs \<Rightarrow> irGateway \<Rightarrow> time \<Rightarrow> policy_statuses \<Rightarrow> policy_statuses" where
  "populateBackendTLSPolicyStatuses ext inp gateway now statuses =
     foldl (reference_statuses ext inp gateway now) statuses (service_references (ig_Domains gateway))"

section \<open>Abstract specification\<close>

text \<open>
  When an HTTPRoute may send traffic to a referenced Service: it is a core Service of the same
  namespace or one a ReferenceGrant permits, it exists and is not an alias, a single grant of the account
  permits it, the port exists with a supported protocol, its TLS policy is valid and its filters compile.
\<close>

definition backend_admissible ::
  "externals \<Rightarrow> inputs \<Rightarrow> httpRoute \<Rightarrow> backendObjectReference \<Rightarrow> httpRouteFilter list \<Rightarrow> bool" where
  "backend_admissible ext inp route ref fs \<longleftrightarrow>
     bo_Group ref \<in> {None, Some []} \<and> bo_Kind ref \<in> {None, Some [], Some ''Service''} \<and>
     (backend_namespace route ref = hr_Namespace route \<or> backend_reference_permitted inp route ref) \<and>
     (\<exists>service port. findService (in_Services inp) (backend_namespace route ref) (bo_Name ref) = Some service \<and>
        sv_Type service \<noteq> ''ExternalName'' \<and>
        findServicePort service (backend_port ref) = Some port \<and>
        (\<forall>account. in_CloudflareAccount inp = Some account \<longrightarrow>
           (\<exists>source grant. namespaceByName (in_Namespaces inp) (hr_Namespace route) = Some source \<and>
              grant \<in> set (ca_Grants account) \<and>
              ext_selector ext (gr_NamespaceSelector grant) (ns_Labels source) = Inr True \<and>
              backend_permitted (ext_selector ext) (gr_Backends grant) source
                \<lparr>br_Namespace = namespaceByName (in_Namespaces inp) (backend_namespace route ref),
                 br_Kind = BackendKindService\<rparr>)) \<and>
        (\<forall>p. sp_AppProtocol port = Some p \<longrightarrow> supportedAppProtocol p) \<and>
        (\<forall>policy. winningBackendTLSPolicy (in_BackendTLSPolicies inp) service port = Some policy \<longrightarrow>
           backendTLSPolicyValidationError ext inp policy = []) \<and>
        (\<exists>compiled. compileBackendFilters fs = Inr compiled))"

text \<open>Names as Kubernetes admits them, for the boundaries of a cluster name.\<close>

definition cluster_named :: "irBackendRef \<Rightarrow> bool" where
  "cluster_named b \<longleftrightarrow> ib_ClusterName b = clusterName (ib_Namespace b) (ib_Name b) (ib_Port b) \<and>
     CHR ''/'' \<notin> set (ib_Namespace b) \<and> CHR '':'' \<notin> set (ib_Name b)"

definition cluster_resolves :: "inputs \<Rightarrow> irBackendRef \<Rightarrow> bool" where
  "cluster_resolves inp b \<longleftrightarrow>
     (\<exists>service port. findService (in_Services inp) (ib_Namespace b) (ib_Name b) = Some service \<and>
        findServicePort service (ib_Port b) = Some port)"

section \<open>Lemmas\<close>

lemma backend_decision_allowed:
  assumes "in_CloudflareAccount inp = Some account"
  shows "ad_Allowed (backend_decision ext inp route namespace) \<longleftrightarrow>
    (\<exists>source grant. namespaceByName (in_Namespaces inp) (hr_Namespace route) = Some source \<and>
       grant \<in> set (ca_Grants account) \<and>
       ext_selector ext (gr_NamespaceSelector grant) (ns_Labels source) = Inr True \<and>
       backend_permitted (ext_selector ext) (gr_Backends grant) source
         \<lparr>br_Namespace = namespaceByName (in_Namespaces inp) namespace, br_Kind = BackendKindService\<rparr>)"
proof -
  have "grant_permits sel grant source (empty_request\<lparr>rq_Backend := Some b\<rparr>) \<longleftrightarrow>
      sel (gr_NamespaceSelector grant) (ns_Labels source) = Inr True \<and>
      backend_permitted sel (gr_Backends grant) source b" for sel grant source b
    by (auto simp: grant_permits_def empty_request_def)
  then show ?thesis
    using assms by (auto simp: backend_decision_def authz_allowed_iff)
qed

lemma reasons_differ:
  "RouteReasonInvalidKind \<noteq> RouteReasonResolvedRefs" "RouteReasonRefNotPermitted \<noteq> RouteReasonResolvedRefs"
  "RouteReasonBackendNotFound \<noteq> RouteReasonResolvedRefs" "RouteReasonUnsupportedProtocol \<noteq> RouteReasonResolvedRefs"
  by (simp_all add: gw_consts)

lemmas reasons_differ_simps [simp] = reasons_differ reasons_differ [symmetric]

lemma backend_base_fields [simp]:
  "ib_Name (backend_base route ref w) = bo_Name ref"
  "ib_Namespace (backend_base route ref w) = backend_namespace route ref"
  "ib_Port (backend_base route ref w) = backend_port ref"
  "ib_Weight (backend_base route ref w) = (case w of None \<Rightarrow> 1 | Some v \<Rightarrow> v)"
  "ib_Invalid (backend_base route ref w) = None"
  by (simp_all add: backend_base_def)

lemma clusterName_parts:
  assumes "clusterName ns svc port = clusterName ns' svc' port'"
    and "CHR ''/'' \<notin> set ns" "CHR ''/'' \<notin> set ns'" "CHR '':'' \<notin> set svc" "CHR '':'' \<notin> set svc'"
  shows "ns = ns' \<and> svc = svc' \<and> port = port'"
proof -
  let ?rest = "\<lambda>svc port. svc @ CHR '':'' # show_int port"
  have eq: "ns @ CHR ''/'' # ?rest svc port = ns' @ CHR ''/'' # ?rest svc' port'"
    using assms(1) by (simp add: clusterName_def)
  from arg_cong [OF eq, of "\<lambda>s. cut s CHR ''/''"] have "ns = ns'" and rest: "?rest svc port = ?rest svc' port'"
    using assms by (simp_all add: cut_append)
  moreover from arg_cong [OF rest, of "\<lambda>s. cut s CHR '':''"] have "svc = svc'" "show_int port = show_int port'"
    using assms by (simp_all add: cut_append)
  ultimately show ?thesis by (simp add: show_int_inj)
qed

text \<open>
  What every stage guarantees of its result: it keeps the identity and weight of the base reference, and it
  is valid, with the reason \<open>ResolvedRefs\<close> and its cluster name, exactly when the stage's condition holds.
\<close>

definition backend_outcome :: "irBackendRef \<Rightarrow> bool \<Rightarrow> irBackendRef \<times> string \<times> string \<Rightarrow> bool" where
  "backend_outcome base ok out \<longleftrightarrow>
     (case out of (b, reason, _) \<Rightarrow>
        ib_Name b = ib_Name base \<and> ib_Namespace b = ib_Namespace base \<and> ib_Port b = ib_Port base \<and>
        ib_Weight b = ib_Weight base \<and> (ib_Invalid b = None \<longleftrightarrow> ok) \<and> (reason = RouteReasonResolvedRefs \<longleftrightarrow> ok) \<and>
        (ok \<longrightarrow> ib_ClusterName b = clusterName (ib_Namespace base) (ib_Name base) (ib_Port base)))"

lemma backend_outcome_invalid:
  "reason \<noteq> RouteReasonResolvedRefs \<Longrightarrow> \<not> ok \<Longrightarrow> backend_outcome base ok (invalidBackend base reason message)"
  by (simp add: backend_outcome_def invalidBackend_def)

definition port_ok :: "externals \<Rightarrow> inputs \<Rightarrow> service \<Rightarrow> servicePort \<Rightarrow> httpRouteFilter list \<Rightarrow> bool" where
  "port_ok ext inp service port fs \<longleftrightarrow>
     (\<forall>p. sp_AppProtocol port = Some p \<longrightarrow> supportedAppProtocol p) \<and>
     (\<forall>policy. winningBackendTLSPolicy (in_BackendTLSPolicies inp) service port = Some policy \<longrightarrow>
        backendTLSPolicyValidationError ext inp policy = []) \<and>
     (\<exists>compiled. compileBackendFilters fs = Inr compiled)"

lemma compile_backend_port_outcome:
  assumes "ib_Invalid result = None"
  shows "backend_outcome result (port_ok ext inp service port fs) (compile_backend_port ext inp result service port fs)"
proof (cases "(\<forall>p. sp_AppProtocol port = Some p \<longrightarrow> supportedAppProtocol p) \<and>
     (\<forall>policy. winningBackendTLSPolicy (in_BackendTLSPolicies inp) service port = Some policy \<longrightarrow>
        backendTLSPolicyValidationError ext inp policy = [])")
  case True
  then have "compile_backend_port ext inp result service port fs =
    (let named = result\<lparr>ib_ClusterName := clusterName (ib_Namespace result) (ib_Name result) (ib_Port result)\<rparr> in
        (case compileBackendFilters fs of
           Inl invalid \<Rightarrow> (named\<lparr>ib_Invalid := Some invalid\<rparr>, RouteReasonInvalidKind, re_Message invalid)
         | Inr compiled \<Rightarrow> (named\<lparr>ib_Filters := compiled\<rparr>, RouteReasonResolvedRefs, references_resolved)))"
    by (auto simp: compile_backend_port_def Let_def split: option.split)
  with True assms show ?thesis
    by (cases "compileBackendFilters fs") (auto simp: backend_outcome_def port_ok_def Let_def)
next
  case False
  then have "(case sp_AppProtocol port of None \<Rightarrow> False | Some p \<Rightarrow> \<not> supportedAppProtocol p) \<or>
    (case winningBackendTLSPolicy (in_BackendTLSPolicies inp) service port of
       None \<Rightarrow> [] | Some policy \<Rightarrow> backendTLSPolicyValidationError ext inp policy) \<noteq> []"
    by (auto split: option.split)
  then have "\<exists>message. compile_backend_port ext inp result service port fs =
      invalidBackend result RouteReasonUnsupportedProtocol message"
    unfolding compile_backend_port_def Let_def by (metis (no_types, lifting))
  then obtain message where
    "compile_backend_port ext inp result service port fs = invalidBackend result RouteReasonUnsupportedProtocol message" ..
  moreover have "\<not> port_ok ext inp service port fs" using False by (auto simp: port_ok_def)
  ultimately show ?thesis by (simp add: backend_outcome_invalid)
qed

definition account_permits :: "externals \<Rightarrow> inputs \<Rightarrow> httpRoute \<Rightarrow> string \<Rightarrow> bool" where
  "account_permits ext inp route namespace \<longleftrightarrow>
     (\<forall>account. in_CloudflareAccount inp = Some account \<longrightarrow>
       (\<exists>source grant. namespaceByName (in_Namespaces inp) (hr_Namespace route) = Some source \<and>
         grant \<in> set (ca_Grants account) \<and>
         ext_selector ext (gr_NamespaceSelector grant) (ns_Labels source) = Inr True \<and>
         backend_permitted (ext_selector ext) (gr_Backends grant) source
           \<lparr>br_Namespace = namespaceByName (in_Namespaces inp) namespace, br_Kind = BackendKindService\<rparr>))"

lemma account_denies:
  "in_CloudflareAccount inp \<noteq> None \<and> \<not> ad_Allowed (backend_decision ext inp route namespace) \<longleftrightarrow>
   \<not> account_permits ext inp route namespace"
  by (cases "in_CloudflareAccount inp") (simp_all add: backend_decision_allowed account_permits_def)

definition service_ok :: "externals \<Rightarrow> inputs \<Rightarrow> httpRoute \<Rightarrow> irBackendRef \<Rightarrow> service \<Rightarrow> httpRouteFilter list \<Rightarrow> bool" where
  "service_ok ext inp route result service fs \<longleftrightarrow>
     sv_Type service \<noteq> ''ExternalName'' \<and> account_permits ext inp route (ib_Namespace result) \<and>
     (\<exists>port. findServicePort service (ib_Port result) = Some port \<and> port_ok ext inp service port fs)"

lemma compile_backend_service_outcome:
  assumes "ib_Invalid result = None"
  shows "backend_outcome result (service_ok ext inp route result service fs)
    (compile_backend_service ext inp route result service fs)"
proof (cases "sv_Type service \<noteq> ''ExternalName'' \<and> account_permits ext inp route (ib_Namespace result)")
  case True
  show ?thesis
  proof (cases "findServicePort service (ib_Port result)")
    case None
    with True have "\<exists>message. compile_backend_service ext inp route result service fs =
        invalidBackend result RouteReasonBackendNotFound message"
      using account_denies [of inp ext route "ib_Namespace result"]
      by (auto simp: compile_backend_service_def Let_def)
    then show ?thesis using None by (auto simp: service_ok_def intro!: backend_outcome_invalid)
  next
    case (Some port)
    then have "compile_backend_service ext inp route result service fs =
        compile_backend_port ext inp result service port fs"
      using True account_denies [of inp ext route "ib_Namespace result"]
      by (auto simp: compile_backend_service_def Let_def)
    moreover have "service_ok ext inp route result service fs \<longleftrightarrow> port_ok ext inp service port fs"
      using Some True by (auto simp: service_ok_def)
    ultimately show ?thesis using compile_backend_port_outcome [OF assms] by simp
  qed
next
  case False
  then have "\<exists>reason message. compile_backend_service ext inp route result service fs =
      invalidBackend result reason message \<and> reason \<noteq> RouteReasonResolvedRefs"
    using account_denies [of inp ext route "ib_Namespace result"]
    by (auto simp: compile_backend_service_def Let_def)
  moreover have "\<not> service_ok ext inp route result service fs" using False by (auto simp: service_ok_def)
  ultimately show ?thesis by (auto intro: backend_outcome_invalid)
qed

lemma kind_service:
  "(case k of None \<Rightarrow> ''Service'' | Some k \<Rightarrow> if k = [] then ''Service'' else k) = ''Service'' \<longleftrightarrow>
   k \<in> {None, Some [], Some ''Service''}"
  by (cases k) auto

lemma group_core: "string_or_empty g = [] \<longleftrightarrow> g \<in> {None, Some []}"
  by (cases g) (auto simp: string_or_empty_def)

lemma backend_admissible_service:
  "backend_admissible ext inp route ref fs \<longleftrightarrow>
     bo_Group ref \<in> {None, Some []} \<and> bo_Kind ref \<in> {None, Some [], Some ''Service''} \<and>
     (backend_namespace route ref = hr_Namespace route \<or> backend_reference_permitted inp route ref) \<and>
     (\<exists>service. findService (in_Services inp) (backend_namespace route ref) (bo_Name ref) = Some service \<and>
        service_ok ext inp route (backend_base route ref w) service fs)"
  unfolding backend_admissible_def service_ok_def port_ok_def account_permits_def backend_base_fields by blast

lemma compileBackendObjectRef_outcome:
  "backend_outcome (backend_base route ref w) (backend_admissible ext inp route ref fs)
     (compileBackendObjectRef ext inp route ref w fs)"
proof (cases "bo_Group ref \<in> {None, Some []} \<and> bo_Kind ref \<in> {None, Some [], Some ''Service''} \<and>
     (backend_namespace route ref = hr_Namespace route \<or> backend_reference_permitted inp route ref) \<and>
     findService (in_Services inp) (backend_namespace route ref) (bo_Name ref) \<noteq> None")
  case True
  then obtain service where
    service: "findService (in_Services inp) (backend_namespace route ref) (bo_Name ref) = Some service" by blast
  then have "compileBackendObjectRef ext inp route ref w fs =
      compile_backend_service ext inp route (backend_base route ref w) service fs"
    using True kind_service [of "bo_Kind ref"] group_core [of "bo_Group ref"]
    by (auto simp: compileBackendObjectRef_def Let_def)
  moreover have "backend_admissible ext inp route ref fs \<longleftrightarrow>
      service_ok ext inp route (backend_base route ref w) service fs"
    using True service by (simp add: backend_admissible_service [of ext inp route ref fs w])
  ultimately show ?thesis using compile_backend_service_outcome by simp
next
  case False
  then have not_ok: "\<not> backend_admissible ext inp route ref fs"
    by (auto simp: backend_admissible_def)
  let ?kind = "case bo_Kind ref of None \<Rightarrow> ''Service'' | Some k \<Rightarrow> if k = [] then ''Service'' else k"
  consider (kind) "string_or_empty (bo_Group ref) \<noteq> [] \<or> ?kind \<noteq> ''Service''"
    | (permission) "\<not> (string_or_empty (bo_Group ref) \<noteq> [] \<or> ?kind \<noteq> ''Service'')"
        "backend_namespace route ref \<noteq> hr_Namespace route \<and> \<not> backend_reference_permitted inp route ref"
    | (absent) "\<not> (string_or_empty (bo_Group ref) \<noteq> [] \<or> ?kind \<noteq> ''Service'')"
        "\<not> (backend_namespace route ref \<noteq> hr_Namespace route \<and> \<not> backend_reference_permitted inp route ref)"
        "findService (in_Services inp) (backend_namespace route ref) (bo_Name ref) = None"
    using False kind_service [of "bo_Kind ref"] group_core [of "bo_Group ref"] by blast
  then show ?thesis
    unfolding compileBackendObjectRef_def Let_def
    by cases (simp_all only: if_True if_False option.case not_ok backend_outcome_invalid reasons_differ simp_thms)
qed

section \<open>Lemmas on clusters\<close>

text \<open>The collected map holds, per cluster name, the last valid backend of that name.\<close>

lemma collect_backends:
  "mget (foldl (\<lambda>m b. if ib_Invalid b = None then mput (ib_ClusterName b) b m else m) [] bs) n =
   List.find (\<lambda>b. ib_Invalid b = None \<and> ib_ClusterName b = n) (rev bs)"
  by (induction bs rule: rev_induct) auto

lemma backends_by_cluster_get:
  "mget (backends_by_cluster domains) n =
   List.find (\<lambda>b. ib_Invalid b = None \<and> ib_ClusterName b = n) (rev (domain_backends domains))"
  by (simp add: backends_by_cluster_def collect_backends)

lemma backends_by_cluster_ok: "keys_ok (backends_by_cluster domains)"
proof -
  have "keys_ok (foldl (\<lambda>m b. if ib_Invalid b = None then mput (ib_ClusterName b) b m else m) [] bs)" for bs
    by (induction bs rule: rev_induct) auto
  then show ?thesis by (simp add: backends_by_cluster_def)
qed

lemma backends_by_cluster_Some:
  "mget (backends_by_cluster domains) n = Some b \<Longrightarrow>
   ib_Invalid b = None \<and> ib_ClusterName b = n \<and> b \<in> set (domain_backends domains)"
  unfolding backends_by_cluster_get by (auto simp: find_Some_iff) (metis length_rev nth_mem set_rev)

lemma backends_by_cluster_covers:
  "b \<in> set (domain_backends domains) \<Longrightarrow> ib_Invalid b = None \<Longrightarrow>
   \<exists>b'. mget (backends_by_cluster domains) (ib_ClusterName b) = Some b'"
  unfolding backends_by_cluster_get by (metis (mono_tags, lifting) find_None_iff not_None_eq set_rev)

lemma build_cluster_name: "build_cluster ext inp name b = Some c \<Longrightarrow>
    cl_Name c = name \<and> cl_Namespace c = ib_Namespace b \<and> cl_Service c = ib_Name b \<and> cl_Port c = ib_Port b"
  by (auto simp: build_cluster_def split: option.splits)

lemma build_cluster_resolves: "cluster_resolves inp b \<longleftrightarrow> build_cluster ext inp name b \<noteq> None"
  by (auto simp: build_cluster_def cluster_resolves_def split: option.split)

lemma buildClusters_mem:
  "c \<in> set (buildClusters ext inp gateway) \<longleftrightarrow>
   (\<exists>n b. mget (backends_by_cluster (ig_Domains gateway)) n = Some b \<and> build_cluster ext inp n b = Some c)"
proof -
  have keys: "n \<in> set (map fst m) \<longleftrightarrow> (\<exists>b. mget m n = Some b)" for n and m :: "(string, irBackendRef) gomap"
    by (metis list.set_map map_of_eq_None_iff not_None_eq)
  show ?thesis
    unfolding buildClusters_def Let_def set_map_filter set_sort Bex_def keys
    by (auto split: option.splits)
qed

lemma map_filter_names:
  "(\<And>n c. f n = Some c \<Longrightarrow> cl_Name c = n) \<Longrightarrow> sorted ns \<Longrightarrow> distinct ns \<Longrightarrow>
   sorted (map cl_Name (List.map_filter f ns)) \<and> distinct (map cl_Name (List.map_filter f ns))"
proof (induction ns)
  case (Cons n ns)
  have names: "cl_Name ` set (List.map_filter f ns) \<subseteq> set ns"
    using Cons.prems(1) by (auto simp: set_map_filter)
  with Cons show ?case
    by (fastforce simp: map_filter_simps split: option.split)
qed (simp add: map_filter_simps)

lemma buildClusters_sorted:
  "sorted (map cl_Name (buildClusters ext inp gateway)) \<and> distinct (map cl_Name (buildClusters ext inp gateway))"
  unfolding buildClusters_def Let_def
proof (rule map_filter_names)
  show "cl_Name c = n" if "(case mget (backends_by_cluster (ig_Domains gateway)) n of
      None \<Rightarrow> None | Some b \<Rightarrow> build_cluster ext inp n b) = Some c" for n c
    using that build_cluster_name by (auto split: option.splits)
  show "distinct (sort (map fst (backends_by_cluster (ig_Domains gateway))))"
    using backends_by_cluster_ok [of "ig_Domains gateway"] by (simp add: keys_ok_def)
qed simp

section \<open>Properties\<close>

text \<open>
  A backend reference refines its specification. It compiles to a valid backend, with its
  cluster name and the reason ResolvedRefs, exactly when it is admissible: a core Service, same namespace or
  permitted by a ReferenceGrant, existing, granted by a single account grant, with a supported port,
  a valid TLS policy and supported filters. In every other case it keeps its name, namespace, port
  and weight, so that its share of the traffic still fails.
\<close>
theorem backend_reference_contract:
  "(case compileBackendObjectRef ext inp route ref w fs of (b, reason, message) \<Rightarrow>
     (ib_Invalid b = None) = backend_admissible ext inp route ref fs \<and>
     (reason = RouteReasonResolvedRefs) = backend_admissible ext inp route ref fs \<and>
     (ib_Invalid b = None \<and> ib_ClusterName b = clusterName (backend_namespace route ref) (bo_Name ref) (backend_port ref))
       = backend_admissible ext inp route ref fs \<and>
     ib_Name b = bo_Name ref \<and> ib_Namespace b = backend_namespace route ref \<and> ib_Port b = backend_port ref \<and>
     ib_Weight b = (case w of None \<Rightarrow> 1 | Some v \<Rightarrow> v))"
  using compileBackendObjectRef_outcome [of route ref w ext inp fs]
  by (auto simp: backend_outcome_def split: prod.splits)

text \<open>
  Cluster names keep their Services apart: for namespaces without a slash and Service names without a
  colon, two equal names come from the same namespace, Service and port.
\<close>
theorem cluster_name_injective:
  assumes "CHR ''/'' \<notin> set ns" "CHR ''/'' \<notin> set ns'" "CHR '':'' \<notin> set svc" "CHR '':'' \<notin> set svc'"
  shows "clusterName ns svc port = clusterName ns' svc' port' \<longleftrightarrow> ns = ns' \<and> svc = svc' \<and> port = port'"
  using clusterName_parts [of ns svc port ns' svc' port'] assms by auto

theorem cluster_name_injective_witness:
  "clusterName ''a'' ''b'' 80 = clusterName ''a'' ''b'' 81 \<longleftrightarrow> ''a'' = ''a'' \<and> ''b'' = ''b'' \<and> (80::int) = 81"
  by (rule cluster_name_injective) simp_all

text \<open>
  Every valid backend has exactly one cluster. When the valid backends of the domains carry their
  cluster names and resolve to a Service port (as compiled references do), each of them finds one
  cluster under its name, and that cluster was built from its own namespace, Service and port. The
  clusters are sorted by name without duplicates.
\<close>
theorem clusters_cover_backends:
  assumes "\<forall>b \<in> set (domain_backends (ig_Domains gateway)). ib_Invalid b = None \<longrightarrow> cluster_named b \<and> cluster_resolves inp b"
    and "b \<in> set (domain_backends (ig_Domains gateway))" and "ib_Invalid b = None"
  shows "(\<exists>!c. c \<in> set (buildClusters ext inp gateway) \<and> cl_Name c = ib_ClusterName b) \<and>
    (\<exists>c \<in> set (buildClusters ext inp gateway). cl_Name c = ib_ClusterName b \<and>
      cl_Namespace c = ib_Namespace b \<and> cl_Service c = ib_Name b \<and> cl_Port c = ib_Port b) \<and>
    sorted (map cl_Name (buildClusters ext inp gateway)) \<and> distinct (map cl_Name (buildClusters ext inp gateway))"
proof (intro conjI)
  obtain b' where get: "mget (backends_by_cluster (ig_Domains gateway)) (ib_ClusterName b) = Some b'"
    using backends_by_cluster_covers [OF assms(2,3)] by blast
  from backends_by_cluster_Some [OF get] assms(1)
  have b': "ib_ClusterName b' = ib_ClusterName b" "cluster_named b'" "cluster_resolves inp b'" by auto
  have "cluster_named b" using assms by simp
  with b' have same: "ib_Namespace b' = ib_Namespace b" "ib_Name b' = ib_Name b" "ib_Port b' = ib_Port b"
    using clusterName_parts [of "ib_Namespace b'" "ib_Name b'" "ib_Port b'" "ib_Namespace b" "ib_Name b" "ib_Port b"]
    by (auto simp: cluster_named_def)
  obtain c where c: "build_cluster ext inp (ib_ClusterName b) b' = Some c"
    using b'(3) by (auto simp: build_cluster_resolves [of inp b' ext "ib_ClusterName b"])
  then have mem: "c \<in> set (buildClusters ext inp gateway)" using get by (auto simp: buildClusters_mem)
  note name = build_cluster_name [OF c]
  show "\<exists>c \<in> set (buildClusters ext inp gateway). cl_Name c = ib_ClusterName b \<and>
      cl_Namespace c = ib_Namespace b \<and> cl_Service c = ib_Name b \<and> cl_Port c = ib_Port b"
    using mem name same by (intro bexI [of _ c]) simp_all
  show "\<exists>!c. c \<in> set (buildClusters ext inp gateway) \<and> cl_Name c = ib_ClusterName b"
    using mem name buildClusters_sorted [of ext inp gateway]
    by (intro ex1I [of _ c]) (auto simp: distinct_map inj_on_def)
qed (use buildClusters_sorted in blast)+

definition example_backend :: irBackendRef where
  "example_backend = \<lparr>ib_Name = ''svc'', ib_Namespace = ''ns'', ib_ClusterName = clusterName ''ns'' ''svc'' 80, ib_Port = 80,
     ib_Weight = 1, ib_Filters = empty_backendFilters, ib_Invalid = None\<rparr>"

definition example_cluster_gateway :: irGateway where
  "example_cluster_gateway = empty_gateway\<lparr>ig_Domains := [empty_domain\<lparr>pd_VirtualHosts :=
     [\<lparr>vh_Name = ''h'', vh_Hostname = ''h.io'', vh_Routes = [empty_route\<lparr>ro_Backends := [example_backend]\<rparr>]\<rparr>]\<rparr>]\<rparr>"

theorem clusters_cover_backends_witness:
  "\<exists>!c. c \<in> set (buildClusters example_externals (empty_inputs\<lparr>in_Services := [\<lparr>sv_Namespace = ''ns'', sv_Name = ''svc'', sv_Type = ''ClusterIP'',
       sv_Ports = [\<lparr>sp_Name = ''http'', sp_Port = 80, sp_AppProtocol = None\<rparr>]\<rparr>]\<rparr>) example_cluster_gateway) \<and>
     cl_Name c = clusterName ''ns'' ''svc'' 80"
proof -
  let ?in = "empty_inputs\<lparr>in_Services := [\<lparr>sv_Namespace = ''ns'', sv_Name = ''svc'', sv_Type = ''ClusterIP'',
       sv_Ports = [\<lparr>sp_Name = ''http'', sp_Port = 80, sp_AppProtocol = None\<rparr>]\<rparr>]\<rparr>"
  have backends: "domain_backends (ig_Domains example_cluster_gateway) = [example_backend]"
    by (simp add: example_cluster_gateway_def domain_backends_def route_backends_def ir_zero_defs)
  have "cluster_named example_backend" and "cluster_resolves ?in example_backend"
    by (simp_all add: example_backend_def cluster_named_def cluster_resolves_def findService_def findServicePort_def)
  then have "\<exists>!c. c \<in> set (buildClusters example_externals ?in example_cluster_gateway) \<and> cl_Name c = ib_ClusterName example_backend"
    by (intro clusters_cover_backends [THEN conjunct1]) (simp_all add: backends example_backend_def)
  then show ?thesis by (simp add: example_backend_def)
qed

end
