(* ===== verification/PrivateAccess.thy ===== *)
theory PrivateAccess
  imports AccessRegions Authz Status Backends
begin

text \<open>
  The compilation of one AccessApplication, first part: the result type and its helpers
  (\<^verbatim>\<open>src/internal/gatewayapi/access.go\<close>) and the private destinations (\<^verbatim>\<open>private_access.go\<close>), which must each
  resolve through a NetworkRoute or HostnameRoute the application's namespace may use. The text format of IP
  prefixes (\<^verbatim>\<open>netip.ParsePrefix\<close> and \<^verbatim>\<open>Prefix.String\<close>) is a parameter; the prefix arithmetic is written out.

  The Go code tracks appended destinations, claims and ancestors in \<^verbatim>\<open>seen\<close> maps that hold exactly the keys of
  the entries already in the result; the model looks the key up in the result itself.
\<close>

section \<open>The result of a compilation\<close>

record accessClaim =
  acl_listener :: string
  acl_hostname :: string
  acl_routeName :: string
  acl_region :: accessRegion
  acl_wholeHost :: bool
  acl_shadow :: bool
  acl_specificity :: int

record accessDataPlane =
  adp_Tunnel :: string
  adp_Listener :: string
  adp_ProtectionDomain :: string
  adp_EnvoyPort :: int

record accessBypass =
  aby_Hostname :: string
  aby_Path :: string

record accessAncestor =
  aan_Group :: string
  aan_Kind :: string
  aan_Namespace :: string
  aan_Name :: string

record accessApplicationCompilation =
  ac_Accepted :: bool
  ac_Reason :: string
  ac_Message :: string
  ac_Destinations :: "accessDestination list"
  ac_DataPlanes :: "accessDataPlane list"
  ac_Bypass :: "accessBypass list"
  ac_Ancestors :: "accessAncestor list"
  ac_OriginJWTEnforced :: bool
  ac_TargetLoss :: string
  ac_claims :: "accessClaim list"

definition empty_compilation :: accessApplicationCompilation where
  "empty_compilation = \<lparr>ac_Accepted = False, ac_Reason = [], ac_Message = [], ac_Destinations = [], ac_DataPlanes = [],
     ac_Bypass = [], ac_Ancestors = [], ac_OriginJWTEnforced = False, ac_TargetLoss = [], ac_claims = []\<rparr>"

definition AccessTargetLossGateway :: string where "AccessTargetLossGateway = ''Gateway''"
definition AccessTargetLossTunnel :: string where "AccessTargetLossTunnel = ''CloudflareTunnel''"
definition AccessTargetLossNetworkRoute :: string where "AccessTargetLossNetworkRoute = ''NetworkRoute''"
definition AccessTargetLossHostnameRoute :: string where "AccessTargetLossHostnameRoute = ''HostnameRoute''"

definition accessFailure :: "string \<Rightarrow> string \<Rightarrow> accessApplicationCompilation" where
  "accessFailure reason message = empty_compilation\<lparr>ac_Reason := reason, ac_Message := message\<rparr>"

definition accessLossFailure :: "string \<Rightarrow> string \<Rightarrow> accessApplicationCompilation" where
  "accessLossFailure message loss =
     empty_compilation\<lparr>ac_Reason := ''TargetNotFound'', ac_Message := message, ac_TargetLoss := loss\<rparr>"

definition rejectedAccessCompilation ::
  "accessApplicationCompilation \<Rightarrow> string \<Rightarrow> string \<Rightarrow> accessApplicationCompilation" where
  "rejectedAccessCompilation compilation reason message =
     compilation\<lparr>ac_Accepted := False, ac_Reason := reason, ac_Message := message, ac_claims := []\<rparr>"

definition appendCompiledDestination ::
  "accessDestination \<Rightarrow> accessApplicationCompilation \<Rightarrow> accessApplicationCompilation" where
  "appendCompiledDestination destination result =
     (if accessDestinationKey destination \<in> accessDestinationKey ` set (ac_Destinations result) then result
      else result\<lparr>ac_Destinations := ac_Destinations result @ [destination]\<rparr>)"

definition ancestor_key :: "accessAncestor \<Rightarrow> string" where
  "ancestor_key a = join [aan_Group a, aan_Kind a, aan_Namespace a, aan_Name a] [CHR 0x00]"

definition appendAccessAncestor ::
  "accessAncestor \<Rightarrow> accessApplicationCompilation \<Rightarrow> accessApplicationCompilation" where
  "appendAccessAncestor ancestor result =
     (if ancestor_key ancestor \<in> ancestor_key ` set (ac_Ancestors result) then result
      else result\<lparr>ac_Ancestors := ac_Ancestors result @ [ancestor]\<rparr>)"

definition show_bool :: "bool \<Rightarrow> string" where
  "show_bool b = (if b then ''true'' else ''false'')"

definition claim_key :: "accessClaim \<Rightarrow> string" where
  "claim_key c = join [acl_listener c, acl_hostname c, acl_routeName c, rn_kind (acl_region c), rn_path (acl_region c),
     show_bool (acl_wholeHost c), show_bool (acl_shadow c)] [CHR 0x00]"

definition appendAccessClaim :: "accessClaim \<Rightarrow> accessApplicationCompilation \<Rightarrow> accessApplicationCompilation" where
  "appendAccessClaim claim result =
     (let c = claim\<lparr>acl_hostname := to_lower (trim_suffix (acl_hostname claim) ''.'')\<rparr> in
      if claim_key c \<in> claim_key ` set (ac_claims result) then result
      else result\<lparr>ac_claims := ac_claims result @ [c]\<rparr>)"

definition appendUniqueBypass :: "accessBypass list \<Rightarrow> accessBypass \<Rightarrow> accessBypass list" where
  "appendUniqueBypass values candidate = (if candidate \<in> set values then values else values @ [candidate])"

definition data_plane_key :: "accessDataPlane \<Rightarrow> string" where
  "data_plane_key d = join [adp_Tunnel d, adp_Listener d, adp_ProtectionDomain d, show_int (adp_EnvoyPort d)] [CHR 0x00]"

definition bypass_key :: "accessBypass \<Rightarrow> string" where
  "bypass_key b = aby_Hostname b @ CHR 0x00 # aby_Path b"

definition sortAccessCompilation :: "accessApplicationCompilation \<Rightarrow> accessApplicationCompilation" where
  "sortAccessCompilation result =
     result\<lparr>ac_Destinations := compactAccessDestinations
              (sort_func (cmp_on accessDestinationKey compare) (minimizeAccessDestinations (ac_Destinations result))),
            ac_DataPlanes := sort_func (cmp_on data_plane_key compare) (ac_DataPlanes result),
            ac_Bypass := sort_func (cmp_on bypass_key compare) (ac_Bypass result),
            ac_Ancestors := sort_func (cmp_on ancestor_key compare) (ac_Ancestors result)\<rparr>"

section \<open>Prefixes\<close>

text \<open>\<^verbatim>\<open>Prefix.Masked\<close> and \<^verbatim>\<open>Prefix.Contains\<close> on valid prefixes.\<close>

definition prefix_masked :: "ipPrefix \<Rightarrow> ipPrefix" where
  "prefix_masked p =
     p\<lparr>ipp_Addr := (ipp_Addr p div 2 ^ (ipp_BitLen p - ipp_Bits p)) * 2 ^ (ipp_BitLen p - ipp_Bits p)\<rparr>"

definition prefix_contains :: "ipPrefix \<Rightarrow> nat \<Rightarrow> nat \<Rightarrow> bool" where
  "prefix_contains p bitlen address \<longleftrightarrow>
     ipp_BitLen p = bitlen \<and>
     address div 2 ^ (ipp_BitLen p - ipp_Bits p) = ipp_Addr p div 2 ^ (ipp_BitLen p - ipp_Bits p)"

definition resolvedPrivateCIDR :: "externals \<Rightarrow> string \<Rightarrow> string \<Rightarrow> string result" where
  "resolvedPrivateCIDR ext routeCIDR requestedCIDR =
     (case ext_ParsePrefix ext routeCIDR of
        None \<Rightarrow> Inl (''route network '' @ show_q routeCIDR @ '' is invalid'')
      | Some parsed \<Rightarrow>
          (let route = prefix_masked parsed in
           if requestedCIDR = [] then Inr (ext_showPrefix ext route)
           else case ext_ParsePrefix ext requestedCIDR of
             None \<Rightarrow> Inl (''requested CIDR '' @ show_q requestedCIDR @ '' is invalid'')
           | Some request \<Rightarrow>
               (let requested = prefix_masked request in
                if ipp_BitLen route \<noteq> ipp_BitLen requested \<or> ipp_Bits route > ipp_Bits requested \<or>
                   \<not> prefix_contains route (ipp_BitLen requested) (ipp_Addr requested)
                then Inl (''requested CIDR '' @ ext_showPrefix ext requested @ '' is not contained by route '' @ ext_showPrefix ext route)
                else Inr (ext_showPrefix ext requested))))"

section \<open>Private routes\<close>

definition AllowedNamespaceFromSame :: string where "AllowedNamespaceFromSame = ''Same''"
definition AllowedNamespaceFromAll :: string where "AllowedNamespaceFromAll = ''All''"
definition AllowedNamespaceFromSelector :: string where "AllowedNamespaceFromSelector = ''Selector''"
definition PrivateNetworkConditionAccepted :: string where "PrivateNetworkConditionAccepted = ''Accepted''"

definition allowedNamespace :: "selector_engine \<Rightarrow> string \<Rightarrow> namespace \<Rightarrow> allowedNamespaces \<Rightarrow> bool" where
  "allowedNamespace selector routeNamespace ns allowed =
     (let from = (if an_From allowed = [] then AllowedNamespaceFromSame else an_From allowed) in
      if from = AllowedNamespaceFromSame then routeNamespace = ns_Name ns
      else if from = AllowedNamespaceFromAll then True
      else if from = AllowedNamespaceFromSelector then
        (case an_Selector allowed of None \<Rightarrow> False | Some s \<Rightarrow> selector s (ns_Labels ns) = Inr True)
      else False)"

definition acceptedForGeneration :: "condition list \<Rightarrow> int \<Rightarrow> bool" where
  "acceptedForGeneration conditions generation =
     (case List.find (\<lambda>c. cd_Type c = PrivateNetworkConditionAccepted) conditions of
        None \<Rightarrow> False
      | Some c \<Rightarrow> cd_Status c = ConditionStatusTrue \<and> cd_ObservedGeneration c = generation)"

definition networkRouteAppliedCurrent :: "privateRoute \<Rightarrow> bool" where
  "networkRouteAppliedCurrent route \<longleftrightarrow>
     time_is_zero (pvr_DeletionTimestamp route) \<and> pvr_StatusRouteID route \<noteq> [] \<and>
     pvr_StatusObservedGeneration route = pvr_Generation route \<and>
     ap_ObservedGeneration (pvr_StatusApplied route) = pvr_Generation route \<and>
     ap_Network (pvr_StatusApplied route) \<noteq> [] \<and> ap_TunnelID (pvr_StatusApplied route) \<noteq> [] \<and>
     ap_VirtualNetworkID (pvr_StatusApplied route) \<noteq> [] \<and>
     acceptedForGeneration (pvr_StatusConditions route) (pvr_Generation route)"

definition hostnameRouteAppliedCurrent :: "privateRoute \<Rightarrow> bool" where
  "hostnameRouteAppliedCurrent route \<longleftrightarrow>
     time_is_zero (pvr_DeletionTimestamp route) \<and> pvr_StatusRouteID route \<noteq> [] \<and>
     pvr_StatusObservedGeneration route = pvr_Generation route \<and>
     ap_ObservedGeneration (pvr_StatusApplied route) = pvr_Generation route \<and>
     ap_Hostname (pvr_StatusApplied route) \<noteq> [] \<and> ap_TunnelID (pvr_StatusApplied route) \<noteq> [] \<and>
     acceptedForGeneration (pvr_StatusConditions route) (pvr_Generation route)"

definition networkRouteByName :: "privateRoute list \<Rightarrow> string \<Rightarrow> string \<Rightarrow> privateRoute option" where
  "networkRouteByName routes ns name = List.find (\<lambda>r. pvr_Namespace r = ns \<and> pvr_Name r = name) routes"

definition hostnameRouteByName :: "privateRoute list \<Rightarrow> string \<Rightarrow> string \<Rightarrow> privateRoute option" where
  "hostnameRouteByName routes ns name = List.find (\<lambda>r. pvr_Namespace r = ns \<and> pvr_Name r = name) routes"

definition normalizePrivateHostname :: "string \<Rightarrow> string" where
  "normalizePrivateHostname value = to_lower (trim_suffix (trim_space value) ''.'')"

text \<open>Called with the account present; \<^verbatim>\<open>None\<close> is success.\<close>

definition authorizePrivateRoute ::
  "externals \<Rightarrow> cloudflareAccount \<Rightarrow> accessApplication \<Rightarrow> namespace \<Rightarrow> string \<Rightarrow> string \<Rightarrow> allowedNamespaces \<Rightarrow> string \<Rightarrow> labels
    \<Rightarrow> accessApplicationCompilation option" where
  "authorizePrivateRoute ext account app ns routeNamespace routeAccount allowed kind routeLabels =
     (if routeAccount \<noteq> ca_Name account then
        Some (accessFailure ''RefNotPermitted'' (kind @ '' accountRef '' @ show_q routeAccount @
          '' does not match AccessApplication account '' @ show_q (ca_Name account)))
      else if aa_AccountRef app \<noteq> routeAccount then
        Some (accessFailure ''RefNotPermitted'' (''AccessApplication accountRef '' @ show_q (aa_AccountRef app) @
          '' does not match '' @ kind @ '' account '' @ show_q routeAccount))
      else if \<not> allowedNamespace (ext_selector ext) routeNamespace ns allowed then
        Some (accessFailure ''RefNotPermitted'' (kind @ '' allowedNamespaces does not permit namespace '' @ show_q (aa_Namespace app)))
      else
        (let decision = authz_Evaluate (ext_selector ext) (Some account) (Some ns)
               (empty_request\<lparr>rq_Exposure := ExposurePrivate,
                  rq_PrivateRoute := Some \<lparr>prr_Kind = kind, prr_Labels = routeLabels\<rparr>\<rparr>)
         in if ad_Allowed decision then None else Some (accessFailure (ad_Reason decision) (ad_Message decision))))"

definition route_label :: "string \<Rightarrow> privateRoute \<Rightarrow> string" where
  "route_label kind route = kind @ '' '' @ pvr_Namespace route @ ''/'' @ pvr_Name route"

text \<open>A private destination through a NetworkRoute: an early return, or the destination and its ancestor.\<close>

definition network_destination ::
  "externals \<Rightarrow> inputs \<Rightarrow> cloudflareAccount \<Rightarrow> accessApplication \<Rightarrow> namespace \<Rightarrow> privateDestination \<Rightarrow> string
    \<Rightarrow> accessApplicationCompilation + (accessDestination \<times> accessAncestor)" where
  "network_destination ext inp account app ns private name =
     (case networkRouteByName (in_NetworkRoutes inp) (aa_Namespace app) name of
        None \<Rightarrow> Inl (accessLossFailure (''NetworkRoute '' @ aa_Namespace app @ ''/'' @ name @ '' was not found'') AccessTargetLossNetworkRoute)
      | Some route \<Rightarrow>
          if \<not> time_is_zero (pvr_DeletionTimestamp route) then
            Inl (accessLossFailure (route_label ''NetworkRoute'' route @ '' is deleting'') AccessTargetLossNetworkRoute)
          else case authorizePrivateRoute ext account app ns (pvr_Namespace route) (pvr_AccountRef route)
              (pvr_AllowedNamespaces route) PrivateRouteNetwork (pvr_Labels route) of
            Some failure \<Rightarrow> Inl failure
          | None \<Rightarrow>
              if \<not> networkRouteAppliedCurrent route then
                Inl (accessLossFailure (route_label ''NetworkRoute'' route @ '' is not ready'') AccessTargetLossNetworkRoute)
              else case resolvedPrivateCIDR ext (ap_Network (pvr_StatusApplied route)) (pvd_CIDR private) of
                Inl err \<Rightarrow> Inl (accessFailure ''RefNotPermitted'' (route_label ''NetworkRoute'' route @ '': '' @ err))
              | Inr cidr \<Rightarrow>
                  Inr ((empty_destination DestinationPrivate)\<lparr>acd_CIDR := cidr, acd_PortRange := pvd_PortRange private,
                         acd_L4Protocol := pvd_L4Protocol private, acd_VNetID := ap_VirtualNetworkID (pvr_StatusApplied route)\<rparr>,
                       \<lparr>aan_Group = FlarewayGroup, aan_Kind = ''NetworkRoute'', aan_Namespace = pvr_Namespace route,
                        aan_Name = pvr_Name route\<rparr>))"

definition hostname_destination ::
  "externals \<Rightarrow> inputs \<Rightarrow> cloudflareAccount \<Rightarrow> accessApplication \<Rightarrow> namespace \<Rightarrow> privateDestination \<Rightarrow> string
    \<Rightarrow> accessApplicationCompilation + (accessDestination \<times> accessAncestor)" where
  "hostname_destination ext inp account app ns private name =
     (case hostnameRouteByName (in_HostnameRoutes inp) (aa_Namespace app) name of
        None \<Rightarrow> Inl (accessLossFailure (''HostnameRoute '' @ aa_Namespace app @ ''/'' @ name @ '' was not found'') AccessTargetLossHostnameRoute)
      | Some route \<Rightarrow>
          if \<not> time_is_zero (pvr_DeletionTimestamp route) then
            Inl (accessLossFailure (route_label ''HostnameRoute'' route @ '' is deleting'') AccessTargetLossHostnameRoute)
          else case authorizePrivateRoute ext account app ns (pvr_Namespace route) (pvr_AccountRef route)
              (pvr_AllowedNamespaces route) PrivateRouteHostname (pvr_Labels route) of
            Some failure \<Rightarrow> Inl failure
          | None \<Rightarrow>
              if \<not> hostnameRouteAppliedCurrent route then
                Inl (accessLossFailure (route_label ''HostnameRoute'' route @ '' is not ready'') AccessTargetLossHostnameRoute)
              else
                Inr ((empty_destination DestinationPrivate)\<lparr>
                       acd_Hostname := normalizePrivateHostname (ap_Hostname (pvr_StatusApplied route)),
                       acd_PortRange := pvd_PortRange private, acd_L4Protocol := pvd_L4Protocol private\<rparr>,
                     \<lparr>aan_Group = FlarewayGroup, aan_Kind = ''HostnameRoute'', aan_Namespace = pvr_Namespace route,
                      aan_Name = pvr_Name route\<rparr>))"

definition destination_error :: "nat \<Rightarrow> string \<Rightarrow> accessApplicationCompilation" where
  "destination_error index message = accessFailure ''Invalid'' (''destinations['' @ show_nat index @ '']'' @ message)"

definition private_destination ::
  "externals \<Rightarrow> inputs \<Rightarrow> cloudflareAccount \<Rightarrow> accessApplication \<Rightarrow> namespace \<Rightarrow> nat \<Rightarrow> applicationDestination
    \<Rightarrow> accessApplicationCompilation + (accessDestination \<times> accessAncestor)" where
  "private_destination ext inp account app ns index destination =
     (case apd_Private destination of
        None \<Rightarrow> Inl (destination_error index ''.private is required'')
      | Some private \<Rightarrow>
          if (pvd_NetworkRouteRef private = None) = (pvd_HostnameRouteRef private = None) then
            Inl (destination_error index ''.private must reference exactly one route'')
          else if pvd_PortRange private = [] then Inl (destination_error index ''.private.portRange is required'')
          else case pvd_NetworkRouteRef private of
            Some name \<Rightarrow> network_destination ext inp account app ns private name
          | None \<Rightarrow> hostname_destination ext inp account app ns private (the (pvd_HostnameRouteRef private)))"

text \<open>The loop over the destinations: \<^verbatim>\<open>Inl\<close> is an early return.\<close>

fun private_destinations ::
  "externals \<Rightarrow> inputs \<Rightarrow> cloudflareAccount \<Rightarrow> accessApplication \<Rightarrow> namespace \<Rightarrow> nat \<Rightarrow> applicationDestination list
    \<Rightarrow> accessApplicationCompilation \<Rightarrow> accessApplicationCompilation + accessApplicationCompilation" where
  "private_destinations ext inp account app ns index [] result = Inr result"
| "private_destinations ext inp account app ns index (d # ds) result =
     (if apd_Type d \<noteq> DestinationPrivate then private_destinations ext inp account app ns (Suc index) ds result
      else case private_destination ext inp account app ns index d of
        Inl failure \<Rightarrow> Inl failure
      | Inr (destination, ancestor) \<Rightarrow>
          private_destinations ext inp account app ns (Suc index) ds
            (appendAccessAncestor ancestor (appendCompiledDestination destination result)))"

definition private_start :: accessApplicationCompilation where
  "private_start = empty_compilation\<lparr>ac_Accepted := True, ac_Reason := ''Accepted'', ac_Message := ''Private destinations are valid''\<rparr>"

definition CompilePrivateDestinations :: "externals \<Rightarrow> inputs \<Rightarrow> accessApplication option \<Rightarrow> accessApplicationCompilation" where
  "CompilePrivateDestinations ext inp application =
     (case application of
        None \<Rightarrow> private_start
      | Some app \<Rightarrow>
          if \<not> list_ex (\<lambda>d. apd_Type d = DestinationPrivate) (aa_Destinations app) then private_start
          else if (case in_CloudflareTunnel inp of None \<Rightarrow> False | Some t \<Rightarrow> tu_StatusDeletedAt t \<noteq> None) then
            accessLossFailure ''CloudflareTunnel is remotely deleted and private destinations are unavailable while it drains'' AccessTargetLossTunnel
          else case in_CloudflareAccount inp of
            None \<Rightarrow> accessFailure ''TargetNotFound'' ''CloudflareAccount is required for private destinations''
          | Some account \<Rightarrow>
              (case namespaceByName (in_Namespaces inp) (aa_Namespace app) of
                 None \<Rightarrow> accessFailure ''TargetNotFound'' (''Namespace '' @ show_q (aa_Namespace app) @ '' was not found'')
               | Some ns \<Rightarrow>
                   (case private_destinations ext inp account app ns 0 (aa_Destinations app) private_start of
                      Inl failure \<Rightarrow> failure
                    | Inr result \<Rightarrow> sortAccessCompilation (result\<lparr>ac_OriginJWTEnforced := False\<rparr>))))"

definition vnet_usable :: "cloudflareTunnel \<Rightarrow> virtualNetwork \<Rightarrow> bool" where
  "vnet_usable tunnel vnet \<longleftrightarrow>
     vn_Namespace vnet = tu_Namespace tunnel \<and> vn_AccountRef vnet = tu_AccountRef tunnel \<and>
     vn_StatusVirtualNetworkID vnet \<noteq> [] \<and> vn_StatusObservedGeneration vnet = vn_Generation vnet \<and>
     acceptedForGeneration (vn_StatusConditions vnet) (vn_Generation vnet)"

definition privateListenerVNetID :: "inputs \<Rightarrow> string \<Rightarrow> string" where
  "privateListenerVNetID inp listenerName =
     (case in_CloudflareTunnel inp of
        None \<Rightarrow> []
      | Some tunnel \<Rightarrow>
          if tu_StatusDeletedAt tunnel \<noteq> None then []
          else
            (let vnetName = (case List.find (\<lambda>l. tl_Name l = listenerName \<and> tl_VirtualNetworkRef l \<noteq> None) (tu_Listeners tunnel) of
                               None \<Rightarrow> [] | Some l \<Rightarrow> the (tl_VirtualNetworkRef l))
             in case List.find (\<lambda>vnet. vnet_usable tunnel vnet \<and>
                    (vnetName \<noteq> [] \<and> vn_Name vnet = vnetName \<or> vnetName = [] \<and> vn_IsDefault vnet)) (in_VirtualNetworks inp) of
                  None \<Rightarrow> [] | Some vnet \<Rightarrow> vn_StatusVirtualNetworkID vnet))"

definition privateRoutesRequireWARP :: "inputs \<Rightarrow> bool" where
  "privateRoutesRequireWARP inp =
     (case in_CloudflareTunnel inp of
        None \<Rightarrow> False
      | Some tunnel \<Rightarrow>
          if tu_ManagementPolicy tunnel = ManagementPolicyObserveOnly \<or> tu_StatusDeletedAt tunnel \<noteq> None \<or>
             tu_StatusTunnelID tunnel = [] \<or> \<not> tu_StatusOwnershipVerified tunnel then False
          else
            list_ex (\<lambda>r. networkRouteAppliedCurrent r \<and> ap_TunnelID (pvr_StatusApplied r) = tu_StatusTunnelID tunnel) (in_NetworkRoutes inp) \<or>
            list_ex (\<lambda>r. hostnameRouteAppliedCurrent r \<and> ap_TunnelID (pvr_StatusApplied r) = tu_StatusTunnelID tunnel) (in_HostnameRoutes inp))"

section \<open>Lemmas\<close>

lemma minimize_subset: "set (minimizeAccessDestinations ds) \<subseteq> set ds"
proof -
  have "\<forall>x \<in> set (sort_func compare_uris (filter (\<lambda>d. acd_Type d = DestinationPublic) ds)). acd_Type x = DestinationPublic"
    by simp
  from minimize_fold [OF this, of "filter (\<lambda>d. acd_Type d \<noteq> DestinationPublic) ds"] show ?thesis
    unfolding minimizeAccessDestinations_def by auto
qed

lemma compact_subset: "set (compactAccessDestinations ds) \<subseteq> set ds"
proof -
  have rest: "set (compact_from k ds) \<subseteq> set ds" for k ds
    by (induction k ds rule: compact_from.induct) auto
  show ?thesis
    by (cases ds) (use rest in \<open>auto simp: compactAccessDestinations_def dest: subsetD\<close>)
qed

lemma sort_compilation_fields [simp]:
  "ac_Accepted (sortAccessCompilation c) = ac_Accepted c"
  "ac_claims (sortAccessCompilation c) = ac_claims c"
  "ac_OriginJWTEnforced (sortAccessCompilation c) = ac_OriginJWTEnforced c"
  "set (ac_DataPlanes (sortAccessCompilation c)) = set (ac_DataPlanes c)"
  by (simp_all add: sortAccessCompilation_def set_sort_any)

lemma sort_compilation_destinations: "set (ac_Destinations (sortAccessCompilation c)) \<subseteq> set (ac_Destinations c)"
  using compact_subset minimize_subset by (force simp: sortAccessCompilation_def set_sort_any)

lemma failure_not_accepted [simp]:
  "\<not> ac_Accepted (accessFailure r m)" "\<not> ac_Accepted (accessLossFailure m l)" "\<not> ac_Accepted (destination_error i m)"
  "\<not> ac_Accepted (rejectedAccessCompilation c r m)"
  by (simp_all add: accessFailure_def accessLossFailure_def destination_error_def rejectedAccessCompilation_def empty_compilation_def)

lemma append_compilation_fields [simp]:
  "ac_Accepted (appendCompiledDestination d c) = ac_Accepted c" "ac_claims (appendCompiledDestination d c) = ac_claims c"
  "ac_Accepted (appendAccessAncestor a c) = ac_Accepted c" "ac_claims (appendAccessAncestor a c) = ac_claims c"
  "ac_Destinations (appendAccessAncestor a c) = ac_Destinations c"
  "ac_Accepted (appendAccessClaim m c) = ac_Accepted c" "ac_Destinations (appendAccessClaim m c) = ac_Destinations c"
  by (simp_all add: appendCompiledDestination_def appendAccessAncestor_def appendAccessClaim_def Let_def)

lemma append_destination_subset: "set (ac_Destinations (appendCompiledDestination d c)) \<subseteq> insert d (set (ac_Destinations c))"
  by (auto simp: appendCompiledDestination_def)

text \<open>The addresses a prefix stands for.\<close>

definition prefix_addresses :: "ipPrefix \<Rightarrow> (nat \<times> nat) set" where
  "prefix_addresses p = {(n, a). n = ipp_BitLen p \<and> a < 2 ^ n \<and> prefix_contains p n a}"

lemma div_pow_mono:
  fixes a b :: nat
  assumes "a div 2 ^ e = b div 2 ^ e" and "e \<le> f"
  shows "a div 2 ^ f = b div 2 ^ f"
proof -
  have "x div 2 ^ f = (x div 2 ^ e) div 2 ^ (f - e)" for x :: nat
    by (metis assms(2) div_mult2_eq le_add_diff_inverse power_add)
  then show ?thesis using assms(1) by simp
qed

lemma masked_addresses: "prefix_addresses (prefix_masked p) = prefix_addresses p"
  by (simp add: prefix_addresses_def prefix_contains_def prefix_masked_def)

lemma narrowed_prefix:
  assumes "ipp_BitLen p = ipp_BitLen q" and "ipp_Bits p \<le> ipp_Bits q" and "prefix_contains p (ipp_BitLen q) (ipp_Addr q)"
  shows "prefix_addresses q \<subseteq> prefix_addresses p"
proof -
  have e: "ipp_BitLen q - ipp_Bits q \<le> ipp_BitLen p - ipp_Bits p" using assms(1,2) by simp
  have "prefix_contains p n a" if "n = ipp_BitLen q" and "prefix_contains q n a" for n a
    using that assms(1,3) div_pow_mono [of a "ipp_BitLen q - ipp_Bits q" "ipp_Addr q", OF _ e]
    by (simp add: prefix_contains_def)
  then show ?thesis using assms(1) by (auto simp: prefix_addresses_def)
qed

lemma resolved_cidr_narrows:
  assumes "resolvedPrivateCIDR ext network requested = Inr cidr"
  shows "\<exists>p q. ext_ParsePrefix ext network = Some p \<and> cidr = ext_showPrefix ext q \<and> q = prefix_masked q \<and>
    prefix_addresses q \<subseteq> prefix_addresses p"
proof -
  have idem: "prefix_masked (prefix_masked r) = prefix_masked r" for r by (simp add: prefix_masked_def)
  obtain p where p: "ext_ParsePrefix ext network = Some p"
    using assms by (auto simp: resolvedPrivateCIDR_def split: option.splits)
  show ?thesis
  proof (cases "requested = []")
    case True
    then show ?thesis using assms p idem masked_addresses by (auto simp: resolvedPrivateCIDR_def Let_def)
  next
    case False
    then obtain r where r: "cidr = ext_showPrefix ext (prefix_masked r)"
      and narrow: "ipp_BitLen (prefix_masked p) = ipp_BitLen (prefix_masked r)" "ipp_Bits (prefix_masked p) \<le> ipp_Bits (prefix_masked r)"
        "prefix_contains (prefix_masked p) (ipp_BitLen (prefix_masked r)) (ipp_Addr (prefix_masked r))"
      using assms p by (auto simp: resolvedPrivateCIDR_def Let_def split: option.splits if_splits)
    from narrowed_prefix [OF narrow] have "prefix_addresses (prefix_masked r) \<subseteq> prefix_addresses p"
      by (simp only: masked_addresses)
    with p r show ?thesis by (intro exI [of _ p] exI [of _ "prefix_masked r"]) (simp add: idem)
  qed
qed

text \<open>What an application must have to use a route, and when a destination is backed by one.\<close>

definition route_usable ::
  "externals \<Rightarrow> cloudflareAccount \<Rightarrow> accessApplication \<Rightarrow> namespace \<Rightarrow> string \<Rightarrow> privateRoute \<Rightarrow> bool" where
  "route_usable ext account app ns kind route \<longleftrightarrow>
     pvr_Namespace route = aa_Namespace app \<and> time_is_zero (pvr_DeletionTimestamp route) \<and>
     pvr_AccountRef route = ca_Name account \<and> aa_AccountRef app = ca_Name account \<and>
     allowedNamespace (ext_selector ext) (pvr_Namespace route) ns (pvr_AllowedNamespaces route) \<and>
     (\<exists>grant \<in> set (ca_Grants account). grant_permits (ext_selector ext) grant ns
        (empty_request\<lparr>rq_Exposure := ExposurePrivate, rq_PrivateRoute := Some \<lparr>prr_Kind = kind, prr_Labels = pvr_Labels route\<rparr>\<rparr>))"

definition network_backed :: "externals \<Rightarrow> inputs \<Rightarrow> cloudflareAccount \<Rightarrow> accessApplication \<Rightarrow> namespace \<Rightarrow> accessDestination \<Rightarrow> bool" where
  "network_backed ext inp account app ns d \<longleftrightarrow>
     (\<exists>route \<in> set (in_NetworkRoutes inp). route_usable ext account app ns PrivateRouteNetwork route \<and>
        networkRouteAppliedCurrent route \<and> acd_VNetID d = ap_VirtualNetworkID (pvr_StatusApplied route) \<and>
        (\<exists>p q. ext_ParsePrefix ext (ap_Network (pvr_StatusApplied route)) = Some p \<and> acd_CIDR d = ext_showPrefix ext q \<and>
           q = prefix_masked q \<and> prefix_addresses q \<subseteq> prefix_addresses p))"

definition hostname_backed :: "externals \<Rightarrow> inputs \<Rightarrow> cloudflareAccount \<Rightarrow> accessApplication \<Rightarrow> namespace \<Rightarrow> accessDestination \<Rightarrow> bool" where
  "hostname_backed ext inp account app ns d \<longleftrightarrow>
     acd_CIDR d = [] \<and>
     (\<exists>route \<in> set (in_HostnameRoutes inp). route_usable ext account app ns PrivateRouteHostname route \<and>
        hostnameRouteAppliedCurrent route \<and> acd_Hostname d = normalizePrivateHostname (ap_Hostname (pvr_StatusApplied route)))"

lemma authorize_usable:
  assumes "authorizePrivateRoute ext account app ns (pvr_Namespace r) (pvr_AccountRef r) (pvr_AllowedNamespaces r) kind (pvr_Labels r) = None"
    and "pvr_Namespace r = aa_Namespace app" and "time_is_zero (pvr_DeletionTimestamp r)"
  shows "route_usable ext account app ns kind r"
  using assms by (auto simp: authorizePrivateRoute_def route_usable_def Let_def authz_allowed_iff split: if_splits)

lemma find_some: "List.find P xs = Some x \<Longrightarrow> x \<in> set xs \<and> P x"
  by (induction xs) (auto split: if_splits)

lemma network_destination_backed:
  assumes "network_destination ext inp account app ns private name = Inr (d, a)"
  shows "network_backed ext inp account app ns d" and "acd_Type d = DestinationPrivate"
proof -
  obtain route where route: "networkRouteByName (in_NetworkRoutes inp) (aa_Namespace app) name = Some route"
    using assms by (cases "networkRouteByName (in_NetworkRoutes inp) (aa_Namespace app) name") (simp_all add: network_destination_def)
  have live: "time_is_zero (pvr_DeletionTimestamp route)"
    and auth: "authorizePrivateRoute ext account app ns (pvr_Namespace route) (pvr_AccountRef route) (pvr_AllowedNamespaces route)
      PrivateRouteNetwork (pvr_Labels route) = None"
    and current: "networkRouteAppliedCurrent route"
    using assms route by (simp_all add: network_destination_def split: if_splits option.splits)
  from assms route live auth current obtain cidr
    where cidr: "resolvedPrivateCIDR ext (ap_Network (pvr_StatusApplied route)) (pvd_CIDR private) = Inr cidr"
      and d: "acd_CIDR d = cidr" "acd_VNetID d = ap_VirtualNetworkID (pvr_StatusApplied route)" "acd_Type d = DestinationPrivate"
    by (auto simp: network_destination_def empty_destination_def split: sum.splits)
  show "acd_Type d = DestinationPrivate" by (fact d(3))
  have "route \<in> set (in_NetworkRoutes inp)" "pvr_Namespace route = aa_Namespace app"
    using find_some [OF route [unfolded networkRouteByName_def]] by simp_all
  with authorize_usable [OF auth _ live] current d resolved_cidr_narrows [OF cidr]
  show "network_backed ext inp account app ns d" by (auto simp: network_backed_def)
qed

lemma hostname_destination_backed:
  assumes "hostname_destination ext inp account app ns private name = Inr (d, a)"
  shows "hostname_backed ext inp account app ns d" and "acd_Type d = DestinationPrivate"
proof -
  obtain route where route: "hostnameRouteByName (in_HostnameRoutes inp) (aa_Namespace app) name = Some route"
    using assms by (cases "hostnameRouteByName (in_HostnameRoutes inp) (aa_Namespace app) name") (simp_all add: hostname_destination_def)
  have live: "time_is_zero (pvr_DeletionTimestamp route)"
    and auth: "authorizePrivateRoute ext account app ns (pvr_Namespace route) (pvr_AccountRef route) (pvr_AllowedNamespaces route)
      PrivateRouteHostname (pvr_Labels route) = None"
    and current: "hostnameRouteAppliedCurrent route"
    and d: "acd_Hostname d = normalizePrivateHostname (ap_Hostname (pvr_StatusApplied route))" "acd_CIDR d = []" "acd_Type d = DestinationPrivate"
    using assms route by (auto simp: hostname_destination_def empty_destination_def split: if_splits option.splits)
  show "acd_Type d = DestinationPrivate" by (fact d(3))
  have "route \<in> set (in_HostnameRoutes inp)" "pvr_Namespace route = aa_Namespace app"
    using find_some [OF route [unfolded hostnameRouteByName_def]] by simp_all
  with authorize_usable [OF auth _ live] current d show "hostname_backed ext inp account app ns d"
    by (auto simp: hostname_backed_def)
qed

definition private_backed :: "externals \<Rightarrow> inputs \<Rightarrow> cloudflareAccount \<Rightarrow> accessApplication \<Rightarrow> namespace \<Rightarrow> accessDestination \<Rightarrow> bool" where
  "private_backed ext inp account app ns d \<longleftrightarrow>
     acd_Type d = DestinationPrivate \<and> (network_backed ext inp account app ns d \<or> hostname_backed ext inp account app ns d)"

lemma private_destination_backed:
  assumes "private_destination ext inp account app ns index dest = Inr (d, a)"
  shows "private_backed ext inp account app ns d"
  using assms network_destination_backed hostname_destination_backed
  unfolding private_destination_def private_backed_def by (fastforce split: option.splits if_splits)

lemma private_destination_failure: "private_destination ext inp account app ns index dest = Inl f \<Longrightarrow> \<not> ac_Accepted f"
  by (auto simp: private_destination_def network_destination_def hostname_destination_def authorizePrivateRoute_def Let_def
      split: option.splits if_splits sum.splits)

lemma private_destinations_failure: "private_destinations ext inp account app ns index ds r = Inl f \<Longrightarrow> \<not> ac_Accepted f"
  by (induction ds arbitrary: index r) (auto simp: private_destination_failure split: if_splits sum.splits)

lemma private_destinations_backed:
  assumes "private_destinations ext inp account app ns index ds result = Inr out"
    and "\<forall>d \<in> set (ac_Destinations result). private_backed ext inp account app ns d"
  shows "\<forall>d \<in> set (ac_Destinations out). private_backed ext inp account app ns d"
  using assms
proof (induction ds arbitrary: index result)
  case (Cons x ds)
  show ?case
  proof (cases "apd_Type x = DestinationPrivate")
    case True
    then obtain d a where d: "private_destination ext inp account app ns index x = Inr (d, a)"
      and rest: "private_destinations ext inp account app ns (Suc index) ds
        (appendAccessAncestor a (appendCompiledDestination d result)) = Inr out"
      using Cons.prems(1) by (auto split: sum.splits)
    from rest show ?thesis
      using Cons.IH Cons.prems(2) private_destination_backed [OF d] append_destination_subset [of d result]
      by (fastforce)
  qed (use Cons in simp)
qed simp

section \<open>Properties\<close>

text \<open>
  C21: a private destination never reaches past the platform's routes. Every destination of an accepted compilation is backed by a
  live, applied NetworkRoute or HostnameRoute of the application's namespace whose account is the application's, whose
  allowed namespaces admit the application and which one grant of the account permits; a CIDR only narrows the
  network the route has applied: every address of it lies in that network.
\<close>
theorem private_destinations_authorised:
  assumes "ac_Accepted (CompilePrivateDestinations ext inp (Some app))"
    and "d \<in> set (ac_Destinations (CompilePrivateDestinations ext inp (Some app)))"
  shows "\<exists>account ns. in_CloudflareAccount inp = Some account \<and>
    namespaceByName (in_Namespaces inp) (aa_Namespace app) = Some ns \<and> private_backed ext inp account app ns d"
proof -
  have some: "list_ex (\<lambda>d. apd_Type d = DestinationPrivate) (aa_Destinations app)"
    using assms(2) by (rule contrapos_pp) (simp add: CompilePrivateDestinations_def private_start_def empty_compilation_def)
  obtain account ns result where a: "in_CloudflareAccount inp = Some account"
    and ns: "namespaceByName (in_Namespaces inp) (aa_Namespace app) = Some ns"
    and result: "private_destinations ext inp account app ns 0 (aa_Destinations app) private_start = Inr result"
    and out: "CompilePrivateDestinations ext inp (Some app) = sortAccessCompilation (result\<lparr>ac_OriginJWTEnforced := False\<rparr>)"
    using assms(1) some private_destinations_failure
    by (fastforce simp: CompilePrivateDestinations_def split: if_splits option.splits sum.splits)
  have "\<forall>d \<in> set (ac_Destinations result). private_backed ext inp account app ns d"
    by (rule private_destinations_backed [OF result]) (simp add: private_start_def empty_compilation_def)
  then have "private_backed ext inp account app ns d"
    using assms(2) sort_compilation_destinations [of "result\<lparr>ac_OriginJWTEnforced := False\<rparr>"] by (auto simp: out)
  with a ns show ?thesis by blast
qed

text \<open>A concrete instance: one account granting private exposure, one applied route, one application narrowing nothing.\<close>

definition example_prefix_externals :: externals where
  "example_prefix_externals = example_externals\<lparr>
     ext_ParsePrefix := (\<lambda>s. if s = ''10.0.0.0/8'' then Some \<lparr>ipp_BitLen = 32, ipp_Addr = 167772160, ipp_Bits = 8\<rparr> else None),
     ext_showPrefix := (\<lambda>p. ''10.0.0.0/8'')\<rparr>"

definition example_network_route :: privateRoute where
  "example_network_route = \<lparr>pvr_Namespace = ''ns'', pvr_Name = ''net'', pvr_Generation = 1, pvr_DeletionTimestamp = 0,
     pvr_Labels = Map.empty, pvr_AccountRef = ''acc'', pvr_AllowedNamespaces = \<lparr>an_From = [], an_Selector = None\<rparr>,
     pvr_StatusRouteID = ''r1'', pvr_StatusObservedGeneration = 1,
     pvr_StatusApplied = \<lparr>ap_ObservedGeneration = 1, ap_Network = ''10.0.0.0/8'', ap_Hostname = [], ap_TunnelID = ''t'',
       ap_VirtualNetworkID = ''v''\<rparr>,
     pvr_StatusConditions = [\<lparr>cd_Type = ''Accepted'', cd_Status = ''True'', cd_ObservedGeneration = 1, cd_LastTransitionTime = 0,
       cd_Reason = [], cd_Message = []\<rparr>]\<rparr>"

definition example_private_inputs :: inputs where
  "example_private_inputs = empty_inputs\<lparr>
     in_CloudflareAccount := Some \<lparr>ca_Name = ''acc'', ca_AccountID = ''id'',
       ca_Grants = [\<lparr>gr_NamespaceSelector = \<lparr>ls_matchLabels = [], ls_matchExpressions = []\<rparr>, gr_Hostnames = [''*''], gr_Zones = [''*''],
         gr_Exposures = [''Public'', ''Private''], gr_UnprotectedHostnames = [''open.io''], gr_AccessPolicyRefs = [],
         gr_AccessCustomPageRefs = [], gr_DevicePostureIntegrationRefs = [], gr_PlatformObjects = [],
         gr_PrivateRoutes = Some \<lparr>prg_NetworkRouteSelector = Some \<lparr>ls_matchLabels = [], ls_matchExpressions = []\<rparr>,
           prg_HostnameRouteSelector = None\<rparr>, gr_Backends = None\<rparr>],
       ca_TeamName = ''team'', ca_AuthDomain = ''team.example''\<rparr>,
     in_Namespaces := [\<lparr>ns_Name = ''ns'', ns_Labels = Map.empty\<rparr>],
     in_NetworkRoutes := [example_network_route]\<rparr>"

definition example_application :: "string \<Rightarrow> accessApplication" where
  "example_application name = \<lparr>aa_Namespace = ''ns'', aa_Name = name, aa_CreationTimestamp = 1, aa_DeletionTimestamp = 0,
     aa_Annotations = Map.empty, aa_AccountRef = ''acc'', aa_TargetRefs = [], aa_PathScope = None, aa_Destinations = [],
     aa_OriginJWTMode = [], aa_OriginJWTAudienceScope = [], aa_OptionsPreflightBypass = None, aa_StatusDataPlanes = [],
     aa_StatusDestinations = []\<rparr>"

definition example_private_application :: accessApplication where
  "example_private_application = (example_application ''app'')\<lparr>aa_Destinations :=
     [\<lparr>apd_Type = ''Private'', apd_Private = Some \<lparr>pvd_NetworkRouteRef = Some ''net'', pvd_HostnameRouteRef = None, pvd_CIDR = [],
         pvd_PortRange = ''443'', pvd_L4Protocol = None\<rparr>, apd_ViaMCPServerPortal = None, apd_Worker = None, apd_PreviewWorker = None\<rparr>]\<rparr>"

lemma sort_compilation_single:
  "acd_Type d \<noteq> DestinationPublic \<Longrightarrow> ac_Destinations c = [d] \<Longrightarrow> ac_Destinations (sortAccessCompilation c) = [d]"
  by (simp add: sortAccessCompilation_def minimizeAccessDestinations_def compactAccessDestinations_def)

lemma example_grant_private:
  "ad_Allowed (authz_Evaluate (ext_selector example_prefix_externals) (in_CloudflareAccount example_private_inputs)
     (Some \<lparr>ns_Name = ''ns'', ns_Labels = Map.empty\<rparr>)
     (empty_request\<lparr>rq_Exposure := ExposurePrivate, rq_PrivateRoute := Some \<lparr>prr_Kind = PrivateRouteNetwork, prr_Labels = Map.empty\<rparr>\<rparr>))"
  by (simp add: authz_allowed_iff grant_permits_def example_private_inputs_def empty_request_def ExposurePrivate_def
      route_permitted_def example_prefix_externals_def example_externals_def)

lemma example_private_destination:
  "private_destination example_prefix_externals example_private_inputs (the (in_CloudflareAccount example_private_inputs))
     example_private_application \<lparr>ns_Name = ''ns'', ns_Labels = Map.empty\<rparr> 0 (hd (aa_Destinations example_private_application)) =
   Inr ((empty_destination DestinationPrivate)\<lparr>acd_CIDR := ''10.0.0.0/8'', acd_PortRange := ''443'', acd_VNetID := ''v''\<rparr>,
     \<lparr>aan_Group = FlarewayGroup, aan_Kind = ''NetworkRoute'', aan_Namespace = ''ns'', aan_Name = ''net''\<rparr>)"
proof -
  have account: "in_CloudflareAccount example_private_inputs = Some (the (in_CloudflareAccount example_private_inputs))"
    and name: "ca_Name (the (in_CloudflareAccount example_private_inputs)) = ''acc''"
    by (simp_all add: example_private_inputs_def)
  have auth: "authorizePrivateRoute example_prefix_externals (the (in_CloudflareAccount example_private_inputs)) example_private_application
      \<lparr>ns_Name = ''ns'', ns_Labels = Map.empty\<rparr> (pvr_Namespace example_network_route) (pvr_AccountRef example_network_route)
      (pvr_AllowedNamespaces example_network_route) PrivateRouteNetwork (pvr_Labels example_network_route) = None"
    using example_grant_private account
    by (simp add: authorizePrivateRoute_def name example_network_route_def example_private_application_def example_application_def
        allowedNamespace_def Let_def)
  have current: "networkRouteAppliedCurrent example_network_route"
    by (simp add: networkRouteAppliedCurrent_def example_network_route_def time_is_zero_def acceptedForGeneration_def
        PrivateNetworkConditionAccepted_def ConditionStatusTrue_def)
  have found: "networkRouteByName (in_NetworkRoutes example_private_inputs) ''ns'' ''net'' = Some example_network_route"
    by (simp add: networkRouteByName_def example_private_inputs_def example_network_route_def)
  show ?thesis using auth current found
    by (simp add: private_destination_def network_destination_def example_private_application_def example_application_def
        example_network_route_def time_is_zero_def resolvedPrivateCIDR_def example_prefix_externals_def empty_destination_def Let_def)
qed

lemma example_private_compiles:
  "ac_Accepted (CompilePrivateDestinations example_prefix_externals example_private_inputs (Some example_private_application))"
  "map acd_CIDR (ac_Destinations (CompilePrivateDestinations example_prefix_externals example_private_inputs
     (Some example_private_application))) = [''10.0.0.0/8'']"
proof -
  have one: "aa_Destinations example_private_application = [hd (aa_Destinations example_private_application)]"
    "apd_Type (hd (aa_Destinations example_private_application)) = DestinationPrivate"
    by (simp_all add: example_private_application_def DestinationPrivate_def)
  have env: "in_CloudflareTunnel example_private_inputs = None"
    "in_CloudflareAccount example_private_inputs = Some (the (in_CloudflareAccount example_private_inputs))"
    "namespaceByName (in_Namespaces example_private_inputs) (aa_Namespace example_private_application) =
       Some \<lparr>ns_Name = ''ns'', ns_Labels = Map.empty\<rparr>"
    by (simp_all add: example_private_inputs_def namespaceByName_def example_private_application_def example_application_def)
  have loop: "private_destinations example_prefix_externals example_private_inputs (the (in_CloudflareAccount example_private_inputs))
      example_private_application \<lparr>ns_Name = ''ns'', ns_Labels = Map.empty\<rparr> 0 (aa_Destinations example_private_application) private_start =
    Inr (appendAccessAncestor \<lparr>aan_Group = FlarewayGroup, aan_Kind = ''NetworkRoute'', aan_Namespace = ''ns'', aan_Name = ''net''\<rparr>
      (appendCompiledDestination ((empty_destination DestinationPrivate)\<lparr>acd_CIDR := ''10.0.0.0/8'', acd_PortRange := ''443'',
         acd_VNetID := ''v''\<rparr>) private_start))"
    by (subst one(1)) (simp add: one(2) example_private_destination)
  have some: "list_ex (\<lambda>d. apd_Type d = DestinationPrivate) (aa_Destinations example_private_application)"
    by (subst one(1)) (simp add: one(2))
  have result: "CompilePrivateDestinations example_prefix_externals example_private_inputs (Some example_private_application) =
    sortAccessCompilation ((appendAccessAncestor \<lparr>aan_Group = FlarewayGroup, aan_Kind = ''NetworkRoute'', aan_Namespace = ''ns'', aan_Name = ''net''\<rparr>
      (appendCompiledDestination ((empty_destination DestinationPrivate)\<lparr>acd_CIDR := ''10.0.0.0/8'', acd_PortRange := ''443'',
         acd_VNetID := ''v''\<rparr>) private_start))\<lparr>ac_OriginJWTEnforced := False\<rparr>)"
    unfolding CompilePrivateDestinations_def by (subst env(2)) (simp add: env(1,3) some loop)
  have kinds: "DestinationPrivate \<noteq> DestinationPublic" by (simp add: DestinationPrivate_def DestinationPublic_def)
  show "ac_Accepted (CompilePrivateDestinations example_prefix_externals example_private_inputs (Some example_private_application))"
    unfolding result by (simp add: private_start_def)
  show "map acd_CIDR (ac_Destinations (CompilePrivateDestinations example_prefix_externals example_private_inputs
     (Some example_private_application))) = [''10.0.0.0/8'']"
    unfolding result
    by (subst sort_compilation_single [where d = "(empty_destination DestinationPrivate)\<lparr>acd_CIDR := ''10.0.0.0/8'',
          acd_PortRange := ''443'', acd_VNetID := ''v''\<rparr>"])
      (simp_all add: kinds appendCompiledDestination_def private_start_def empty_compilation_def empty_destination_def)
qed

theorem private_destinations_authorised_witness:
  "\<exists>d account ns. acd_CIDR d = ''10.0.0.0/8'' \<and> in_CloudflareAccount example_private_inputs = Some account \<and>
     private_backed example_prefix_externals example_private_inputs account example_private_application ns d"
proof -
  obtain d where d: "ac_Destinations (CompilePrivateDestinations example_prefix_externals example_private_inputs
      (Some example_private_application)) = [d]" "acd_CIDR d = ''10.0.0.0/8''"
    using example_private_compiles(2) by (auto simp: map_eq_Cons_conv)
  from private_destinations_authorised [OF example_private_compiles(1), of d] d show ?thesis by auto
qed

end
