(* ===== verification/Rules.thy ===== *)
theory Rules
  imports Backends
begin

text \<open>
  \<^verbatim>\<open>src/internal/gatewayapi/rules.go\<close>: the filters of a rule and the flattening of an HTTPRoute's rules
  into one compiled route per match. A filter error either drops the rule or, for an unsupported
  extension, keeps it as an invalid route.
\<close>

section \<open>Filters of a rule\<close>

record filter_state =
  fs_result :: filters
  fs_reason :: string
  fs_message :: string
  fs_hasRedirect :: bool
  fs_hasRewrite :: bool

definition filter_start :: filter_state where
  "filter_start = \<lparr>fs_result = empty_filters, fs_reason = RouteReasonResolvedRefs, fs_message = references_resolved,
     fs_hasRedirect = False, fs_hasRewrite = False\<rparr>"

text \<open>The body of the loop: the next state, or the state and reason of an early return.\<close>

definition compile_filter ::
  "externals \<Rightarrow> inputs \<Rightarrow> httpRoute \<Rightarrow> httpRouteFilter \<Rightarrow> filter_state \<Rightarrow> (filter_state \<times> reason) + filter_state" where
  "compile_filter ext inp route f st =
     (let res = fs_result st in
      if hf_Type f = FilterRequestHeaderModifier then
        (case hf_RequestHeaderModifier f of
           None \<Rightarrow> Inl (st, unsupportedFilter ''RequestHeaderModifier has no configuration'')
         | Some m \<Rightarrow> Inr (st\<lparr>fs_result := res\<lparr>fi_RequestHeaders := Some (compileHeaderModifier m)\<rparr>\<rparr>))
      else if hf_Type f = FilterResponseHeaderModifier then
        (case hf_ResponseHeaderModifier f of
           None \<Rightarrow> Inl (st, unsupportedFilter ''ResponseHeaderModifier has no configuration'')
         | Some m \<Rightarrow> Inr (st\<lparr>fs_result := res\<lparr>fi_ResponseHeaders := Some (compileHeaderModifier m)\<rparr>\<rparr>))
      else if hf_Type f = FilterRequestRedirect then
        (case hf_RequestRedirect f of
           None \<Rightarrow> Inl (st\<lparr>fs_hasRedirect := True\<rparr>, unsupportedFilter ''RequestRedirect has no configuration'')
         | Some r \<Rightarrow> Inr (st\<lparr>fs_hasRedirect := True, fs_result := res\<lparr>fi_Redirect := Some (compileRedirect r)\<rparr>\<rparr>))
      else if hf_Type f = FilterURLRewrite then
        (case hf_URLRewrite f of
           None \<Rightarrow> Inl (st\<lparr>fs_hasRewrite := True\<rparr>, unsupportedFilter ''URLRewrite has no configuration'')
         | Some u \<Rightarrow> Inr (st\<lparr>fs_hasRewrite := True, fs_result := res\<lparr>fi_URLRewrite := Some (compileURLRewrite u)\<rparr>\<rparr>))
      else if hf_Type f = FilterRequestMirror then
        (case hf_RequestMirror f of
           None \<Rightarrow> Inl (st, unsupportedFilter ''RequestMirror has no configuration'')
         | Some m \<Rightarrow>
             (case compileBackendObjectRef ext inp route (hrm_BackendRef m) None [] of
                (backend, reason, message) \<Rightarrow>
                  if ib_Invalid backend \<noteq> None then
                    Inr (if fs_reason st = RouteReasonResolvedRefs then st\<lparr>fs_reason := reason, fs_message := message\<rparr> else st)
                  else Inr (st\<lparr>fs_result := res\<lparr>fi_Mirrors := fi_Mirrors res @
                    [\<lparr>mi_Backend = backend, mi_Percent = mirrorPercent m\<rparr>]\<rparr>\<rparr>)))
      else if hf_Type f = FilterCORS then
        (case hf_CORS f of
           None \<Rightarrow> Inl (st, unsupportedFilter ''CORS has no configuration'')
         | Some c \<Rightarrow> Inr (st\<lparr>fs_result := res\<lparr>fi_CORS := Some (compileCORS c)\<rparr>\<rparr>))
      else if hf_Type f = FilterExtensionRef then
        Inl (st\<lparr>fs_reason := RouteReasonInvalidKind, fs_message := ''ExtensionRef filters are not supported''\<rparr>,
          \<lparr>re_Code = RouteReasonInvalidKind, re_Message = ''ExtensionRef filters are not supported''\<rparr>)
      else Inl (st, unsupportedFilter (''uses unsupported filter type '' @ show_q (hf_Type f))))"

fun compile_filter_loop ::
  "externals \<Rightarrow> inputs \<Rightarrow> httpRoute \<Rightarrow> httpRouteFilter list \<Rightarrow> filter_state \<Rightarrow> (filter_state \<times> reason) + filter_state" where
  "compile_filter_loop ext inp route [] st = Inr st"
| "compile_filter_loop ext inp route (f # fs) st =
     (case compile_filter ext inp route f st of
        Inl early \<Rightarrow> Inl early
      | Inr st' \<Rightarrow> compile_filter_loop ext inp route fs st')"

definition compileFilters ::
  "externals \<Rightarrow> inputs \<Rightarrow> httpRoute \<Rightarrow> httpRouteFilter list \<Rightarrow> filters \<times> reason option \<times> string \<times> string" where
  "compileFilters ext inp route fs =
     (case compile_filter_loop ext inp route fs filter_start of
        Inl (st, invalid) \<Rightarrow> (fs_result st, Some invalid, fs_reason st, fs_message st)
      | Inr st \<Rightarrow>
          if fs_hasRedirect st \<and> fs_hasRewrite st then
            (fs_result st, Some \<lparr>re_Code = RouteReasonIncompatibleFilters,
               re_Message = ''combines RequestRedirect and URLRewrite''\<rparr>, fs_reason st, fs_message st)
          else (fs_result st, None, fs_reason st, fs_message st))"

section \<open>Rules\<close>

record compiledRoute =
  cro_route :: route
  cro_creation :: time
  cro_objectKey :: string
  cro_ruleIndex :: int
  cro_matchIndex :: int

record rules_state =
  rl_compiled :: "compiledRoute list"
  rl_resolvedReason :: string
  rl_resolvedMessage :: string
  rl_dropped :: "string list"
  rl_dropReason :: string

definition rules_start :: rules_state where
  "rules_start = \<lparr>rl_compiled = [], rl_resolvedReason = RouteReasonResolvedRefs, rl_resolvedMessage = references_resolved,
     rl_dropped = [], rl_dropReason = RouteReasonUnsupportedValue\<rparr>"

definition rule_id :: "int \<Rightarrow> httpRouteRule \<Rightarrow> string" where
  "rule_id ruleIndex rule =
     (case ru_Name rule of None \<Rightarrow> ''rule '' @ show_int ruleIndex | Some n \<Rightarrow> ''rule '' @ show_q n)"

text \<open>The first unresolved reference of the route names the reason.\<close>

definition note_resolution :: "string \<Rightarrow> string \<Rightarrow> rules_state \<Rightarrow> rules_state" where
  "note_resolution reason message st =
     (if reason \<noteq> RouteReasonResolvedRefs \<and> rl_resolvedReason st = RouteReasonResolvedRefs
      then st\<lparr>rl_resolvedReason := reason, rl_resolvedMessage := message\<rparr> else st)"

definition rule_route ::
  "externals \<Rightarrow> httpRoute \<Rightarrow> int \<Rightarrow> httpRouteRule \<Rightarrow> filters \<Rightarrow> irBackendRef list \<Rightarrow> reason option \<Rightarrow> int \<Rightarrow> httpRouteMatch
    \<Rightarrow> compiledMatch \<Rightarrow> compiledRoute" where
  "rule_route ext route ruleIndex rule fs backends invalid matchIndex source match =
     (let objectKey = hr_Namespace route @ ''/'' @ hr_Name route;
          ruleName = (case ru_Name rule of None \<Rightarrow> show_int ruleIndex | Some n \<Rightarrow> n)
      in \<lparr>cro_route =
            \<lparr>ro_Name = objectKey @ ''/'' @ ruleName @ ''/'' @ show_int matchIndex,
             ro_Source = \<lparr>rs_Namespace = hr_Namespace route, rs_Name = hr_Name route,
               rs_RuleName = string_or_empty (ru_Name rule), rs_RuleIndex = ruleIndex, rs_MatchIndex = matchIndex,
               rs_PathExplicit = (ma_Path source \<noteq> None)\<rparr>,
             ro_Match = cma_path match, ro_Headers = cma_headers match, ro_Query = cma_query match,
             ro_Method = cma_method match, ro_Filters = fs, ro_Backends = backends,
             ro_Timeouts = compileTimeouts ext (ru_Timeouts rule), ro_Invalid = invalid\<rparr>,
          cro_creation = hr_CreationTimestamp route, cro_objectKey = objectKey,
          cro_ruleIndex = ruleIndex, cro_matchIndex = matchIndex\<rparr>)"

fun compile_matches ::
  "externals \<Rightarrow> httpRoute \<Rightarrow> int \<Rightarrow> httpRouteRule \<Rightarrow> filters \<Rightarrow> irBackendRef list \<Rightarrow> reason option \<Rightarrow> int
    \<Rightarrow> httpRouteMatch list \<Rightarrow> rules_state \<Rightarrow> rules_state" where
  "compile_matches ext route ruleIndex rule fs backends invalid matchIndex [] st = st"
| "compile_matches ext route ruleIndex rule fs backends invalid matchIndex (m # ms) st =
     compile_matches ext route ruleIndex rule fs backends invalid (matchIndex + 1) ms
       (case compileMatch m of
          Inl reason \<Rightarrow> st\<lparr>rl_dropped := rl_dropped st @ [rule_id ruleIndex rule @ '' '' @ re_Message reason]\<rparr>
        | Inr match \<Rightarrow> st\<lparr>rl_compiled := rl_compiled st @
            [rule_route ext route ruleIndex rule fs backends invalid matchIndex m match]\<rparr>)"

definition empty_match :: httpRouteMatch where
  "empty_match = \<lparr>ma_Path = None, ma_Headers = [], ma_QueryParams = [], ma_Method = None\<rparr>"

definition drop_rule :: "string \<Rightarrow> rules_state \<Rightarrow> rules_state" where
  "drop_rule message st = st\<lparr>rl_dropped := rl_dropped st @ [message]\<rparr>"

text \<open>The rest of the loop body, for a rule that is not dropped.\<close>

definition compile_kept_rule ::
  "externals \<Rightarrow> inputs \<Rightarrow> httpRoute \<Rightarrow> int \<Rightarrow> httpRouteRule \<Rightarrow> filters \<Rightarrow> reason option \<Rightarrow> string \<Rightarrow> string
    \<Rightarrow> rules_state \<Rightarrow> rules_state" where
  "compile_kept_rule ext inp route ruleIndex rule fs filterInvalid filterReason filterMessage st =
     (let st1 = note_resolution filterReason filterMessage st;
          results = map (compileHTTPBackendRef ext inp route) (ru_BackendRefs rule);
          backends = map fst results;
          st2 = foldl (\<lambda>s (b, reason, message). note_resolution reason message s) st1 results;
          invalid = (if backends = [] \<and> ru_Filters rule = [] \<and> filterInvalid = None
                     then Some \<lparr>re_Code = RouteReasonBackendNotFound,
                                 re_Message = ''rule has no backendRefs or terminal filter''\<rparr>
                     else filterInvalid);
          matches = (if ru_Matches rule = [] then [empty_match] else ru_Matches rule)
      in compile_matches ext route ruleIndex rule fs backends invalid 0 matches st2)"

definition compile_rule :: "externals \<Rightarrow> inputs \<Rightarrow> httpRoute \<Rightarrow> int \<Rightarrow> httpRouteRule \<Rightarrow> rules_state \<Rightarrow> rules_state" where
  "compile_rule ext inp route ruleIndex rule st =
     (let ruleID = rule_id ruleIndex rule in
      if ru_Retry rule then drop_rule (ruleID @ '' uses unsupported retry'') st
      else if ru_SessionPersistence rule then drop_rule (ruleID @ '' uses unsupported sessionPersistence'') st
      else
        (case compileFilters ext inp route (ru_Filters rule) of
           (fs, filterInvalid, filterReason, filterMessage) \<Rightarrow>
             (case filterInvalid of
                Some invalid \<Rightarrow>
                  if re_Code invalid \<noteq> RouteReasonInvalidKind then
                    (let st' = drop_rule (ruleID @ '' '' @ re_Message invalid) st in
                     if re_Code invalid = RouteReasonIncompatibleFilters
                     then st'\<lparr>rl_dropReason := RouteReasonIncompatibleFilters\<rparr> else st')
                  else compile_kept_rule ext inp route ruleIndex rule fs filterInvalid filterReason filterMessage st
              | None \<Rightarrow> compile_kept_rule ext inp route ruleIndex rule fs filterInvalid filterReason filterMessage st)))"

fun compile_rule_list ::
  "externals \<Rightarrow> inputs \<Rightarrow> httpRoute \<Rightarrow> int \<Rightarrow> httpRouteRule list \<Rightarrow> rules_state \<Rightarrow> rules_state" where
  "compile_rule_list ext inp route ruleIndex [] st = st"
| "compile_rule_list ext inp route ruleIndex (rule # rules) st =
     compile_rule_list ext inp route (ruleIndex + 1) rules (compile_rule ext inp route ruleIndex rule st)"

definition compileRules :: "externals \<Rightarrow> inputs \<Rightarrow> httpRoute \<Rightarrow> rules_state" where
  "compileRules ext inp route = compile_rule_list ext inp route 0 (hr_Rules route) rules_start"

section \<open>Lemmas\<close>

text \<open>What every valid backend of a compiled route satisfies, independently of the reference it came from.\<close>

definition backend_sound :: "externals \<Rightarrow> inputs \<Rightarrow> httpRoute \<Rightarrow> irBackendRef \<Rightarrow> bool" where
  "backend_sound ext inp route b \<longleftrightarrow>
     (ib_Invalid b = None \<longrightarrow>
        ib_ClusterName b = clusterName (ib_Namespace b) (ib_Name b) (ib_Port b) \<and> cluster_resolves inp b \<and>
        (ib_Namespace b = hr_Namespace route \<or>
         IsCrossNamespaceReferencePermitted
           \<lparr>rfs_Group = gatewayGroup, rfs_Kind = ''HTTPRoute'', rfs_Namespace = hr_Namespace route\<rparr>
           \<lparr>rft_Group = [], rft_Kind = ''Service'', rft_Namespace = ib_Namespace b, rft_Name = ib_Name b\<rparr>
           (in_ReferenceGrants inp)) \<and>
        account_permits ext inp route (ib_Namespace b))"

lemma compileBackendObjectRef_sound: "backend_sound ext inp route (fst (compileBackendObjectRef ext inp route ref w fs))"
proof -
  obtain b reason message where out: "compileBackendObjectRef ext inp route ref w fs = (b, reason, message)"
    by (cases "compileBackendObjectRef ext inp route ref w fs") auto
  note ok = compileBackendObjectRef_outcome [of route ref w ext inp fs, unfolded out backend_outcome_def, simplified]
  show ?thesis
  proof (cases "ib_Invalid b = None")
    case True
    then have adm: "backend_admissible ext inp route ref fs" using ok by simp
    then have "account_permits ext inp route (backend_namespace route ref)"
      unfolding backend_admissible_def account_permits_def by blast
    with adm ok show ?thesis
      by (auto simp: out backend_sound_def backend_admissible_def cluster_resolves_def backend_reference_permitted_def)
  qed (auto simp: out backend_sound_def)
qed

definition loop_state :: "(filter_state \<times> reason) + filter_state \<Rightarrow> filter_state" where
  "loop_state r = (case r of Inl (st, _) \<Rightarrow> st | Inr st \<Rightarrow> st)"

definition mirrors_sound :: "externals \<Rightarrow> inputs \<Rightarrow> httpRoute \<Rightarrow> filter_state \<Rightarrow> bool" where
  "mirrors_sound ext inp route st \<longleftrightarrow>
     (\<forall>m \<in> set (fi_Mirrors (fs_result st)). backend_sound ext inp route (mi_Backend m))"

lemma compile_filter_mirrors:
  assumes "mirrors_sound ext inp route st"
  shows "mirrors_sound ext inp route (loop_state (compile_filter ext inp route f st))"
proof -
  have sound: "backend_sound ext inp route b"
    if "compileBackendObjectRef ext inp route ref None [] = (b, reason, message)" for ref b reason message
    using compileBackendObjectRef_sound [of ext inp route ref None "[]"] that by simp
  show ?thesis
    using assms sound unfolding compile_filter_def Let_def loop_state_def mirrors_sound_def
    by (auto split: option.split prod.split)
qed

lemma compile_filter_loop_mirrors:
  "mirrors_sound ext inp route st \<Longrightarrow> mirrors_sound ext inp route (loop_state (compile_filter_loop ext inp route fs st))"
proof (induction fs arbitrary: st)
  case (Cons f fs)
  show ?case
  proof (cases "compile_filter ext inp route f st")
    case (Inl early)
    then show ?thesis using compile_filter_mirrors [OF Cons.prems, of f] by simp
  next
    case (Inr st')
    then have "mirrors_sound ext inp route st'"
      using compile_filter_mirrors [OF Cons.prems, of f] by (simp add: loop_state_def)
    then show ?thesis using Cons.IH Inr by simp
  qed
qed (simp add: loop_state_def)

lemma compileFilters_result:
  "fst (compileFilters ext inp route fs) = fs_result (loop_state (compile_filter_loop ext inp route fs filter_start))"
  by (simp add: compileFilters_def loop_state_def split: sum.split prod.split)

lemma compileFilters_mirrors:
  assumes "m \<in> set (fi_Mirrors (fst (compileFilters ext inp route fs)))"
  shows "backend_sound ext inp route (mi_Backend m)"
proof -
  have "mirrors_sound ext inp route filter_start"
    by (simp add: mirrors_sound_def filter_start_def empty_filters_def)
  from compile_filter_loop_mirrors [OF this, of fs] assms show ?thesis
    by (simp add: compileFilters_result mirrors_sound_def)
qed

text \<open>The loop flags say which of the two exclusive filters the state holds.\<close>

definition filter_flags :: "filter_state \<Rightarrow> bool" where
  "filter_flags st \<longleftrightarrow> (fi_Redirect (fs_result st) \<noteq> None \<longrightarrow> fs_hasRedirect st) \<and>
     (fi_URLRewrite (fs_result st) \<noteq> None \<longrightarrow> fs_hasRewrite st)"

lemma compile_filter_flags:
  "filter_flags st \<Longrightarrow> filter_flags (loop_state (compile_filter ext inp route f st))"
  unfolding compile_filter_def Let_def loop_state_def filter_flags_def
  by (simp split: option.split prod.split)

lemma compile_filter_loop_flags:
  "filter_flags st \<Longrightarrow> filter_flags (loop_state (compile_filter_loop ext inp route fs st))"
proof (induction fs arbitrary: st)
  case (Cons f fs)
  then show ?case
    using compile_filter_flags [OF Cons.prems, of ext inp route f]
    by (cases "compile_filter ext inp route f st") (auto simp: loop_state_def)
qed (simp add: loop_state_def)

lemma compileFilters_exclusive:
  assumes "compileFilters ext inp route fs = (res, None, reason, message)"
  shows "fi_Redirect res = None \<or> fi_URLRewrite res = None"
proof -
  have "filter_flags filter_start" by (simp add: filter_flags_def filter_start_def empty_filters_def)
  from compile_filter_loop_flags [OF this, of ext inp route fs] assms show ?thesis
    by (auto simp: compileFilters_def filter_flags_def loop_state_def split: sum.splits prod.splits if_splits)
qed

text \<open>Every compiled route is the image of a rule and one of its matches.\<close>

lemma compiled_note_resolution [simp]:
  "rl_compiled (note_resolution reason message st) = rl_compiled st"
  "rl_dropped (note_resolution reason message st) = rl_dropped st"
  by (simp_all add: note_resolution_def)

lemma compiled_note_resolutions [simp]:
  "rl_compiled (foldl (\<lambda>s (b, reason, message). note_resolution reason message s) st results) = rl_compiled st"
  "rl_dropped (foldl (\<lambda>s (b, reason, message). note_resolution reason message s) st results) = rl_dropped st"
  by (induction results arbitrary: st) auto

lemma compiled_drop_rule [simp]:
  "rl_compiled (drop_rule message st) = rl_compiled st" "rl_dropped (drop_rule message st) = rl_dropped st @ [message]"
  by (simp_all add: drop_rule_def)

lemma compile_matches_compiled:
  "c \<in> set (rl_compiled (compile_matches ext route i rule fs bs invalid j ms st)) \<Longrightarrow>
   c \<in> set (rl_compiled st) \<or>
   (\<exists>k m match. compileMatch m = Inr match \<and> c = rule_route ext route i rule fs bs invalid k m match)"
  by (induction ms arbitrary: j st) (auto split: sum.splits, fastforce+)

definition compiled_ok :: "externals \<Rightarrow> inputs \<Rightarrow> httpRoute \<Rightarrow> compiledRoute \<Rightarrow> bool" where
  "compiled_ok ext inp route c \<longleftrightarrow>
     (\<forall>b \<in> set (route_backends (cro_route c)). backend_sound ext inp route b) \<and>
     (ro_Invalid (cro_route c) = None \<longrightarrow>
        fi_Redirect (ro_Filters (cro_route c)) = None \<or> fi_URLRewrite (ro_Filters (cro_route c)) = None) \<and>
     known_path (ro_Match (cro_route c)) \<and> cro_creation c = hr_CreationTimestamp route \<and> cro_objectKey c = hr_Namespace route @ ''/'' @ hr_Name route \<and>
     rs_Namespace (ro_Source (cro_route c)) = hr_Namespace route \<and> rs_Name (ro_Source (cro_route c)) = hr_Name route \<and>
     cro_ruleIndex c = rs_RuleIndex (ro_Source (cro_route c)) \<and> cro_matchIndex c = rs_MatchIndex (ro_Source (cro_route c))"

lemma compile_kept_rule_ok:
  assumes filters: "compileFilters ext inp route (ru_Filters rule) = (fs, invalid, reason, message)"
    and st: "\<forall>c \<in> set (rl_compiled st). compiled_ok ext inp route c"
    and c: "c \<in> set (rl_compiled (compile_kept_rule ext inp route i rule fs invalid reason message st))"
  shows "compiled_ok ext inp route c"
proof -
  let ?backends = "map fst (map (compileHTTPBackendRef ext inp route) (ru_BackendRefs rule))"
  have mirrors: "backend_sound ext inp route (mi_Backend m)" if "m \<in> set (fi_Mirrors fs)" for m
    using compileFilters_mirrors [of m ext inp route "ru_Filters rule"] filters that by simp
  have backends: "backend_sound ext inp route b" if "b \<in> set ?backends" for b
    using that by (auto simp: compileHTTPBackendRef_def compileBackendObjectRef_sound)
  have built: "compiled_ok ext inp route (rule_route ext route i rule fs ?backends inv k m match)"
    if "inv = None \<Longrightarrow> invalid = None" and "compileMatch m = Inr match" for inv k m match
    using mirrors backends that compileMatch_known [of m match]
      compileFilters_exclusive [of ext inp route "ru_Filters rule" fs] filters
    by (auto simp: compiled_ok_def rule_route_def route_backends_def Let_def)
  from compile_matches_compiled [OF c [unfolded compile_kept_rule_def Let_def]]
  show ?thesis
  proof
    assume "c \<in> set (rl_compiled (foldl (\<lambda>s (b, reason, message). note_resolution reason message s)
        (note_resolution reason message st) (map (compileHTTPBackendRef ext inp route) (ru_BackendRefs rule))))"
    then show ?thesis using st by simp
  next
    let ?inv = "if ?backends = [] \<and> ru_Filters rule = [] \<and> invalid = None
        then Some \<lparr>re_Code = RouteReasonBackendNotFound, re_Message = ''rule has no backendRefs or terminal filter''\<rparr>
        else invalid"
    assume "\<exists>k m match. compileMatch m = Inr match \<and> c = rule_route ext route i rule fs ?backends ?inv k m match"
    then obtain k m match where m: "compileMatch m = Inr match"
      and c_eq: "c = rule_route ext route i rule fs ?backends ?inv k m match" by blast
    have "?inv = None \<Longrightarrow> invalid = None" by (auto split: if_splits)
    from built [of ?inv m match k, OF this m] show ?thesis unfolding c_eq .
  qed
qed

lemma compile_rule_ok:
  "\<forall>c \<in> set (rl_compiled st). compiled_ok ext inp route c \<Longrightarrow>
   \<forall>c \<in> set (rl_compiled (compile_rule ext inp route i rule st)). compiled_ok ext inp route c"
proof -
  assume st: "\<forall>c \<in> set (rl_compiled st). compiled_ok ext inp route c"
  obtain fs invalid reason message where
    filters: "compileFilters ext inp route (ru_Filters rule) = (fs, invalid, reason, message)"
    by (metis prod_cases4)
  have "rl_compiled (compile_rule ext inp route i rule st) = rl_compiled st \<or>
      compile_rule ext inp route i rule st = compile_kept_rule ext inp route i rule fs invalid reason message st"
    by (simp add: compile_rule_def filters Let_def split: option.split)
  then show ?thesis using st compile_kept_rule_ok [OF filters st] by auto
qed

lemma compileRules_ok: "\<forall>c \<in> set (rl_compiled (compileRules ext inp route)). compiled_ok ext inp route c"
proof -
  have "\<forall>c \<in> set (rl_compiled (compile_rule_list ext inp route i rules st)). compiled_ok ext inp route c"
    if "\<forall>c \<in> set (rl_compiled st). compiled_ok ext inp route c" for i rules st
    using that
  proof (induction rules arbitrary: i st)
    case (Cons rule rules)
    show ?case unfolding compile_rule_list.simps by (rule Cons.IH [OF compile_rule_ok [OF Cons.prems]])
  qed simp
  from this [of rules_start 0 "hr_Rules route"] show ?thesis
    unfolding compileRules_def by (simp add: rules_start_def)
qed

text \<open>Indices of the compiled routes when nothing is dropped.\<close>

abbreviation route_index :: "compiledRoute \<Rightarrow> int \<times> int" where
  "route_index c \<equiv> (cro_ruleIndex c, cro_matchIndex c)"

definition rule_positions :: "int \<Rightarrow> httpRouteRule \<Rightarrow> (int \<times> int) list" where
  "rule_positions i rule = map (\<lambda>j. (i, int j)) [0..<max 1 (length (ru_Matches rule))]"

fun all_positions :: "int \<Rightarrow> httpRouteRule list \<Rightarrow> (int \<times> int) list" where
  "all_positions i [] = []"
| "all_positions i (rule # rules) = rule_positions i rule @ all_positions (i + 1) rules"

lemma compile_matches_index:
  "rl_dropped (compile_matches ext route i rule fs bs invalid j ms st) = [] \<Longrightarrow>
   rl_dropped st = [] \<and>
   map route_index (rl_compiled (compile_matches ext route i rule fs bs invalid j ms st)) =
     map route_index (rl_compiled st) @ map (\<lambda>k. (i, j + int k)) [0..<length ms]"
proof (induction ms arbitrary: j st)
  case (Cons m ms)
  have shift: "map (\<lambda>k. (i, j + 1 + int k)) [0..<length ms] = map (\<lambda>k. (i, j + int k)) [1..<Suc (length ms)]"
    by (rule nth_equalityI) (simp_all del: upt_Suc)
  show ?case
  proof (cases "compileMatch m")
    case (Inl reason)
    let ?st = "st\<lparr>rl_dropped := rl_dropped st @ [rule_id i rule @ '' '' @ re_Message reason]\<rparr>"
    have "rl_dropped (compile_matches ext route i rule fs bs invalid (j + 1) ms ?st) = []"
      using Cons.prems Inl by (simp only: compile_matches.simps sum.case)
    from Cons.IH [OF this] show ?thesis by simp
  next
    case (Inr match)
    let ?st = "st\<lparr>rl_compiled := rl_compiled st @ [rule_route ext route i rule fs bs invalid j m match]\<rparr>"
    have "rl_dropped (compile_matches ext route i rule fs bs invalid (j + 1) ms ?st) = []"
      using Cons.prems Inr by simp
    note rest = Cons.IH [OF this]
    have head: "map (\<lambda>k. (i, j + int k)) [0..<Suc (length ms)] = (i, j) # map (\<lambda>k. (i, j + int k)) [1..<Suc (length ms)]"
      by (simp add: upt_conv_Cons del: upt_Suc)
    have "route_index (rule_route ext route i rule fs bs invalid j m match) = (i, j)"
      by (simp add: rule_route_def Let_def)
    then show ?thesis using rest Inr head shift by (simp del: upt_Suc)
  qed
qed simp

lemma compile_rule_index:
  assumes "rl_dropped (compile_rule ext inp route i rule st) = []"
  shows "rl_dropped st = [] \<and> map route_index (rl_compiled (compile_rule ext inp route i rule st)) =
    map route_index (rl_compiled st) @ rule_positions i rule"
proof -
  obtain fs invalid reason message where
    filters: "compileFilters ext inp route (ru_Filters rule) = (fs, invalid, reason, message)"
    by (metis prod_cases4)
  with assms have kept: "compile_rule ext inp route i rule st =
      compile_kept_rule ext inp route i rule fs invalid reason message st"
    by (auto simp: compile_rule_def Let_def split: option.splits if_splits)
  show ?thesis
    using assms [unfolded kept compile_kept_rule_def Let_def, THEN compile_matches_index]
    by (auto simp: kept compile_kept_rule_def Let_def rule_positions_def max_def Suc_le_eq)
qed

lemma compile_rule_list_index:
  "rl_dropped (compile_rule_list ext inp route i rules st) = [] \<Longrightarrow>
   rl_dropped st = [] \<and> map route_index (rl_compiled (compile_rule_list ext inp route i rules st)) =
     map route_index (rl_compiled st) @ all_positions i rules"
proof (induction rules arbitrary: i st)
  case (Cons rule rules)
  have "rl_dropped (compile_rule_list ext inp route (i + 1) rules (compile_rule ext inp route i rule st)) = []"
    using Cons.prems by simp
  note rest = Cons.IH [OF this]
  from rest have "rl_dropped (compile_rule ext inp route i rule st) = []" ..
  from compile_rule_index [OF this] rest show ?case by simp
qed simp

section \<open>Properties\<close>

text \<open>
  C8: no route compiled from an HTTPRoute can reach an unauthorised Service. Every valid backend, mirrors
  included, has the cluster name of an existing Service port, is in the route's namespace or
  permitted by a ReferenceGrant, and is permitted by a single grant of the account when there is one; and a
  route that is served never combines a redirect with a rewrite.
\<close>
theorem compiled_rules_authorised:
  assumes "c \<in> set (rl_compiled (compileRules ext inp route))"
  shows "(\<forall>b \<in> set (route_backends (cro_route c)). ib_Invalid b = None \<longrightarrow>
      ib_ClusterName b = clusterName (ib_Namespace b) (ib_Name b) (ib_Port b) \<and> cluster_resolves inp b \<and>
      (ib_Namespace b = hr_Namespace route \<or>
       IsCrossNamespaceReferencePermitted
         \<lparr>rfs_Group = gatewayGroup, rfs_Kind = ''HTTPRoute'', rfs_Namespace = hr_Namespace route\<rparr>
         \<lparr>rft_Group = [], rft_Kind = ''Service'', rft_Namespace = ib_Namespace b, rft_Name = ib_Name b\<rparr>
         (in_ReferenceGrants inp)) \<and>
      account_permits ext inp route (ib_Namespace b)) \<and>
    (ro_Invalid (cro_route c) = None \<longrightarrow>
      fi_Redirect (ro_Filters (cro_route c)) = None \<or> fi_URLRewrite (ro_Filters (cro_route c)) = None)"
proof -
  have "compiled_ok ext inp route c" using compileRules_ok assms by (rule bspec)
  then show ?thesis unfolding compiled_ok_def backend_sound_def by (elim conjE) (intro conjI)
qed

definition example_route :: httpRoute where
  "example_route = \<lparr>hr_Namespace = ''n'', hr_Name = ''r'', hr_Generation = 1, hr_CreationTimestamp = 7,
     hr_ParentRefs = [\<lparr>pr_Group = None, pr_Kind = None, pr_Namespace = None, pr_Name = ''g'', pr_SectionName = None, pr_Port = None\<rparr>],
     hr_Hostnames = [], hr_Rules = [\<lparr>ru_Name = None, ru_Matches = [],
       ru_Filters = [], ru_BackendRefs = [\<lparr>hb_Ref = \<lparr>bo_Group = None, bo_Kind = None, bo_Name = ''s'', bo_Namespace = None,
         bo_Port = Some 80\<rparr>, hb_Weight = None, hb_Filters = []\<rparr>], ru_Timeouts = None, ru_Retry = False,
       ru_SessionPersistence = False\<rparr>], hr_StatusParents = []\<rparr>"

definition example_services :: inputs where
  "example_services = empty_inputs\<lparr>in_HTTPRoutes := [example_route], in_Services := [\<lparr>sv_Namespace = ''n'', sv_Name = ''s'', sv_Type = ''ClusterIP'',
     sv_Ports = [\<lparr>sp_Name = ''http'', sp_Port = 80, sp_AppProtocol = None\<rparr>]\<rparr>]\<rparr>"

lemma example_backend_compiles:
  "compileBackendObjectRef example_externals example_services example_route
     \<lparr>bo_Group = None, bo_Kind = None, bo_Name = ''s'', bo_Namespace = None, bo_Port = Some 80\<rparr> None [] =
   (\<lparr>ib_Name = ''s'', ib_Namespace = ''n'', ib_ClusterName = clusterName ''n'' ''s'' 80, ib_Port = 80, ib_Weight = 1,
      ib_Filters = empty_backendFilters, ib_Invalid = None\<rparr>, RouteReasonResolvedRefs, references_resolved)"
  by (simp add: compileBackendObjectRef_def compile_backend_service_def compile_backend_port_def compileBackendFilters_def
      backend_base_def backend_namespace_def backend_port_def string_or_empty_def example_route_def example_services_def
      findService_def findServicePort_def winningBackendTLSPolicy_def matchingBackendTLSPolicies_def Let_def)

lemma example_route_compiles:
  "rl_compiled (compileRules example_externals example_services example_route) =
     [rule_route example_externals example_route 0 (hd (hr_Rules example_route)) empty_filters
        [\<lparr>ib_Name = ''s'', ib_Namespace = ''n'', ib_ClusterName = clusterName ''n'' ''s'' 80, ib_Port = 80, ib_Weight = 1,
          ib_Filters = empty_backendFilters, ib_Invalid = None\<rparr>] None 0 empty_match
        \<lparr>cma_path = \<lparr>pm_Type = PathMatchPathPrefix, pm_Value = ''/''\<rparr>, cma_headers = [], cma_query = [], cma_method = None\<rparr>] \<and>
   rl_dropped (compileRules example_externals example_services example_route) = []"
proof -
  have rules: "hr_Rules example_route = [hd (hr_Rules example_route)]" by (simp add: example_route_def)
  have rule: "ru_Retry (hd (hr_Rules example_route)) = False" "ru_SessionPersistence (hd (hr_Rules example_route)) = False"
    "ru_Filters (hd (hr_Rules example_route)) = []" "ru_Matches (hd (hr_Rules example_route)) = []"
    "ru_BackendRefs (hd (hr_Rules example_route)) = [\<lparr>hb_Ref = \<lparr>bo_Group = None, bo_Kind = None, bo_Name = ''s'',
       bo_Namespace = None, bo_Port = Some 80\<rparr>, hb_Weight = None, hb_Filters = []\<rparr>]"
    by (simp_all add: example_route_def)
  have filters: "compileFilters example_externals example_services example_route [] =
      (empty_filters, None, RouteReasonResolvedRefs, references_resolved)"
    by (simp add: compileFilters_def filter_start_def)
  have match: "compileMatch empty_match = Inr \<lparr>cma_path = \<lparr>pm_Type = PathMatchPathPrefix, pm_Value = ''/''\<rparr>,
      cma_headers = [], cma_query = [], cma_method = None\<rparr>"
    by (simp add: compileMatch_def empty_match_def compile_path_def)
  have step: "compile_rule example_externals example_services example_route 0 (hd (hr_Rules example_route)) rules_start =
      rules_start\<lparr>rl_compiled := [rule_route example_externals example_route 0 (hd (hr_Rules example_route)) empty_filters
        [\<lparr>ib_Name = ''s'', ib_Namespace = ''n'', ib_ClusterName = clusterName ''n'' ''s'' 80, ib_Port = 80, ib_Weight = 1,
          ib_Filters = empty_backendFilters, ib_Invalid = None\<rparr>] None 0 empty_match
        \<lparr>cma_path = \<lparr>pm_Type = PathMatchPathPrefix, pm_Value = ''/''\<rparr>, cma_headers = [], cma_query = [], cma_method = None\<rparr>]\<rparr>"
    by (simp add: compile_rule_def compile_kept_rule_def rule filters match compileHTTPBackendRef_def
        example_backend_compiles note_resolution_def rules_start_def Let_def)
  show ?thesis unfolding compileRules_def
    by (subst (1 3) rules) (simp add: step, simp add: rules_start_def)
qed

theorem compiled_rules_authorised_witness:
  "let r = cro_route (hd (rl_compiled (compileRules example_externals example_services example_route))) in
   \<exists>b \<in> set (route_backends r). ib_Invalid b = None \<and> ib_ClusterName b = clusterName ''n'' ''s'' 80 \<and>
     cluster_resolves example_services b"
proof -
  let ?c = "hd (rl_compiled (compileRules example_externals example_services example_route))"
  let ?b = "\<lparr>ib_Name = ''s'', ib_Namespace = ''n'', ib_ClusterName = clusterName ''n'' ''s'' 80, ib_Port = 80, ib_Weight = 1,
      ib_Filters = empty_backendFilters, ib_Invalid = None\<rparr>"
  have "?c \<in> set (rl_compiled (compileRules example_externals example_services example_route))"
    by (simp add: example_route_compiles)
  note facts = compiled_rules_authorised [OF this, THEN conjunct1]
  have mem: "?b \<in> set (route_backends (cro_route ?c))"
    by (simp add: example_route_compiles rule_route_def route_backends_def Let_def)
  with facts have "cluster_resolves example_services ?b" by fastforce
  with mem show ?thesis unfolding Let_def by (intro bexI [OF _ mem]) simp
qed

text \<open>
  Nothing is lost silently. When no drop is reported, the compiled routes are, in order, one per
  match of every rule (one for a rule without matches).
\<close>
theorem compiled_rules_complete:
  assumes "rl_dropped (compileRules ext inp route) = []"
  shows "map (\<lambda>c. (cro_ruleIndex c, cro_matchIndex c)) (rl_compiled (compileRules ext inp route)) =
    all_positions 0 (hr_Rules route)"
  using compile_rule_list_index [of ext inp route 0 "hr_Rules route" rules_start] assms
  by (simp add: compileRules_def rules_start_def)

theorem compiled_rules_complete_witness:
  "map (\<lambda>c. (cro_ruleIndex c, cro_matchIndex c))
     (rl_compiled (compileRules example_externals example_services example_route)) = [(0, 0)]"
proof -
  have "map (\<lambda>c. (cro_ruleIndex c, cro_matchIndex c))
      (rl_compiled (compileRules example_externals example_services example_route)) =
    all_positions 0 (hr_Rules example_route)"
    by (rule compiled_rules_complete) (simp add: example_route_compiles)
  then show ?thesis by (simp add: example_route_def rule_positions_def)
qed

end
