(* ===== verification/Listeners.thy ===== *)
theory Listeners
  imports Backends
begin

text \<open>
  \<^verbatim>\<open>src/internal/gatewayapi/translate.go\<close>, the Listeners: validation against the account's grants,
  certificates, conflicts, the positional Envoy ports (\<^verbatim>\<open>publicEnvoyPorts\<close> of \<^verbatim>\<open>access_revocation.go\<close>) and
  the listener status. Translations are values in a list; the code's pointers are positions in it. Ports are
  integers: the bound on \<open>take_port\<close> shows that the \<^verbatim>\<open>int32\<close> counter does not overflow.
\<close>

named_theorems listener_consts "reasons of listener conditions"

definition ListenerReasonAccepted :: string where [listener_consts]: "ListenerReasonAccepted = ''Accepted''"
definition ListenerReasonResolvedRefs :: string where [listener_consts]: "ListenerReasonResolvedRefs = ''ResolvedRefs''"
definition ListenerReasonNoConflicts :: string where [listener_consts]: "ListenerReasonNoConflicts = ''NoConflicts''"
definition ListenerReasonProtocolConflict :: string where [listener_consts]: "ListenerReasonProtocolConflict = ''ProtocolConflict''"
definition ListenerReasonHostnameConflict :: string where [listener_consts]: "ListenerReasonHostnameConflict = ''HostnameConflict''"
definition ListenerReasonUnsupportedProtocol :: string where [listener_consts]: "ListenerReasonUnsupportedProtocol = ''UnsupportedProtocol''"
definition ListenerReasonUnsupportedValue :: string where [listener_consts]: "ListenerReasonUnsupportedValue = ''UnsupportedValue''"
definition ListenerReasonPortUnavailable :: string where [listener_consts]: "ListenerReasonPortUnavailable = ''PortUnavailable''"
definition ListenerReasonInvalidRouteKinds :: string where [listener_consts]: "ListenerReasonInvalidRouteKinds = ''InvalidRouteKinds''"
definition ListenerReasonInvalidCertificateRef :: string where [listener_consts]: "ListenerReasonInvalidCertificateRef = ''InvalidCertificateRef''"
definition ListenerReasonRefNotPermitted :: string where [listener_consts]: "ListenerReasonRefNotPermitted = ''RefNotPermitted''"

definition HTTPProtocolType :: string where "HTTPProtocolType = ''HTTP''"
definition HTTPSProtocolType :: string where "HTTPSProtocolType = ''HTTPS''"

section \<open>Envoy ports\<close>

record publicEnvoyPorts =
  pep_next :: int
  pep_reserved :: "int list"

text \<open>
  The loop of \<^verbatim>\<open>take\<close>: the first port at or after \<open>next\<close> that is not reserved. The counter is an \<^verbatim>\<open>int32\<close>
  that starts at 18080, or after the largest domain port; it moves by one per listener, Access host or reserved port,
  so it is kept as an unbounded integer.
\<close>

function take_port :: "int \<Rightarrow> int list \<Rightarrow> int" where
  "take_port port reserved = (if port \<in> set reserved then take_port (port + 1) reserved else port)"
  by pat_completeness auto

termination
proof (relation "measure (\<lambda>(port, reserved). card {p \<in> set reserved. port \<le> p})")
  fix port :: int and reserved :: "int list"
  assume "port \<in> set reserved"
  then have "port \<in> {p \<in> set reserved. port \<le> p}" and "port \<notin> {p \<in> set reserved. port + 1 \<le> p}" by simp_all
  then have "{p \<in> set reserved. port + 1 \<le> p} \<noteq> {p \<in> set reserved. port \<le> p}" by blast
  moreover have "{p \<in> set reserved. port + 1 \<le> p} \<subseteq> {p \<in> set reserved. port \<le> p}" by auto
  ultimately have "{p \<in> set reserved. port + 1 \<le> p} \<subset> {p \<in> set reserved. port \<le> p}" by blast
  then show "((port + 1, reserved), port, reserved) \<in> measure (\<lambda>(port, reserved). card {p \<in> set reserved. port \<le> p})"
    by (simp add: psubset_card_mono)
qed simp

declare take_port.simps [simp del]

definition ports_take :: "publicEnvoyPorts \<Rightarrow> int \<times> publicEnvoyPorts" where
  "ports_take ports = (let port = take_port (pep_next ports) (pep_reserved ports) in (port, ports\<lparr>pep_next := port + 1\<rparr>))"

section \<open>Listener translation\<close>

record listenerTranslation =
  lx_spec :: gwListener
  lx_ir :: "irListener option"
  lx_accepted :: bool
  lx_resolved :: bool
  lx_conflicted :: bool
  lx_conflictReason :: string
  lx_acceptedReason :: string
  lx_acceptedMessage :: string
  lx_resolvedReason :: string
  lx_resolvedMessage :: string
  lx_attachedRoutes :: "nsname list"
  lx_exposure :: string
  lx_guard :: string
  lx_protected :: bool

definition listenerExposure :: "cloudflareTunnel option \<Rightarrow> string \<Rightarrow> string" where
  "listenerExposure tunnel listenerName =
     (case tunnel of
        None \<Rightarrow> ExposurePublic
      | Some t \<Rightarrow>
          (case List.find (\<lambda>l. tl_Name l = listenerName \<and> tl_Exposure l \<noteq> []) (tu_Listeners t) of
             None \<Rightarrow> ExposurePublic | Some l \<Rightarrow> tl_Exposure l))"

definition listenerBinding :: "cloudflareTunnel option \<Rightarrow> string \<Rightarrow> string" where
  "listenerBinding tunnel listenerName =
     (case tunnel of
        None \<Rightarrow> ListenerBindingLoopback
      | Some t \<Rightarrow>
          if tu_StatusDeletedAt t = None \<and>
             list_ex (\<lambda>l. tls_Name l = listenerName \<and> tls_Binding l = ''PodIP'') (tu_StatusListeners t)
          then ListenerBindingPodIP else ListenerBindingLoopback)"

definition invalidateListener :: "listenerTranslation \<Rightarrow> string \<Rightarrow> string \<Rightarrow> listenerTranslation" where
  "invalidateListener t reason message =
     t\<lparr>lx_accepted := False, lx_acceptedReason := reason, lx_acceptedMessage := message, lx_ir := None\<rparr>"

definition listener_http_kind :: "routeGroupKind \<Rightarrow> bool" where
  "listener_http_kind kind \<longleftrightarrow>
     (case rgk_Group kind of None \<Rightarrow> True | Some g \<Rightarrow> g = gatewayGroup) \<and> rgk_Kind kind = ''HTTPRoute''"

definition validHTTPRouteKinds :: "allowedRoutes option \<Rightarrow> bool" where
  "validHTTPRouteKinds allowed =
     (case allowed of None \<Rightarrow> True | Some a \<Rightarrow> list_all listener_http_kind (ar_Kinds a))"

definition listenerAllowsHTTPRoute :: "gwListener \<Rightarrow> bool" where
  "listenerAllowsHTTPRoute listener =
     (case ln_AllowedRoutes listener of
        None \<Rightarrow> True | Some a \<Rightarrow> ar_Kinds a = [] \<or> list_ex listener_http_kind (ar_Kinds a))"

definition supportedKinds :: "listenerTranslation \<Rightarrow> routeGroupKind list" where
  "supportedKinds t =
     (if ln_Protocol (lx_spec t) \<noteq> HTTPProtocolType \<and> ln_Protocol (lx_spec t) \<noteq> HTTPSProtocolType then []
      else if listenerAllowsHTTPRoute (lx_spec t) then [\<lparr>rgk_Group = Some gatewayGroup, rgk_Kind = ''HTTPRoute''\<rparr>]
      else [])"

definition resolveListenerSecret ::
  "externals \<Rightarrow> inputs \<Rightarrow> gateway \<Rightarrow> certificateRef \<Rightarrow> (string \<times> string) + secret" where
  "resolveListenerSecret ext inp gw ref =
     (let group = string_or_empty (cr_Group ref);
          kind = (case cr_Kind ref of None \<Rightarrow> ''Secret'' | Some k \<Rightarrow> if k = [] then ''Secret'' else k);
          namespace = (case cr_Namespace ref of None \<Rightarrow> gw_Namespace gw | Some n \<Rightarrow> n);
          target = ''certificate Secret '' @ namespace @ ''/'' @ cr_Name ref
      in
      if group \<noteq> [] \<or> kind \<noteq> ''Secret'' then
        Inl (ListenerReasonInvalidCertificateRef, ''certificateRef must reference a core Secret'')
      else if namespace \<noteq> gw_Namespace gw \<and> \<not> IsCrossNamespaceReferencePermitted
          \<lparr>rfs_Group = gatewayGroup, rfs_Kind = ''Gateway'', rfs_Namespace = gw_Namespace gw\<rparr>
          \<lparr>rft_Group = [], rft_Kind = ''Secret'', rft_Namespace = namespace, rft_Name = cr_Name ref\<rparr> (in_ReferenceGrants inp) then
        Inl (ListenerReasonRefNotPermitted, target @ '' is not permitted by a ReferenceGrant'')
      else
        (case List.find (\<lambda>s. st_Namespace s = namespace \<and> st_Name s = cr_Name ref) (in_Secrets inp) of
           None \<Rightarrow> Inl (ListenerReasonInvalidCertificateRef, target @ '' was not found'')
         | Some secret \<Rightarrow>
             if st_Type secret \<noteq> ''kubernetes.io/tls'' \<or> str_get (st_Data secret) ''tls.crt'' = [] \<or>
                str_get (st_Data secret) ''tls.key'' = [] then
               Inl (ListenerReasonInvalidCertificateRef, target @ '' is not a valid TLS Secret'')
             else if \<not> ext_X509KeyPair ext (str_get (st_Data secret) ''tls.crt'') (str_get (st_Data secret) ''tls.key'') then
               Inl (ListenerReasonInvalidCertificateRef, target @ '' contains malformed or mismatched TLS data'')
             else Inr secret))"

text \<open>
  The steps of \<^verbatim>\<open>validateListener\<close>. The first returns \<open>Inl\<close> on an early return: protocol, hostname, the
  account's grants with the resulting guard, and the public port.
\<close>

definition listener_decision :: "externals \<Rightarrow> inputs \<Rightarrow> gateway \<Rightarrow> string \<Rightarrow> string \<Rightarrow> bool \<Rightarrow> authz_decision" where
  "listener_decision ext inp gw hostname exposure unprotected =
     authz_Evaluate (ext_selector ext) (in_CloudflareAccount inp) (namespaceByName (in_Namespaces inp) (gw_Namespace gw))
       (empty_request\<lparr>rq_Hostname := hostname, rq_Exposure := exposure, rq_Unprotected := unprotected\<rparr>)"

definition public_port_unavailable :: "listenerTranslation \<Rightarrow> bool" where
  "public_port_unavailable t \<longleftrightarrow>
     lx_exposure t = ExposurePublic \<and>
     ((ln_Protocol (lx_spec t) = HTTPProtocolType \<and> ln_Port (lx_spec t) \<noteq> 80) \<or>
      (ln_Protocol (lx_spec t) = HTTPSProtocolType \<and> ln_Port (lx_spec t) \<noteq> 443))"

definition validate_identity ::
  "externals \<Rightarrow> inputs \<Rightarrow> gateway \<Rightarrow> bool \<Rightarrow> listenerTranslation \<Rightarrow> listenerTranslation + listenerTranslation" where
  "validate_identity ext inp gw conformance t =
     (let listener = lx_spec t; hostname = hostname_value (ln_Hostname listener) in
      if ln_Protocol listener \<noteq> HTTPProtocolType \<and> ln_Protocol listener \<noteq> HTTPSProtocolType then
        Inl (invalidateListener t ListenerReasonUnsupportedProtocol ''only HTTP and HTTPS listeners are supported'')
      else if conformance then Inr t
      else if hostname = [] then
        Inl (invalidateListener t ListenerReasonUnsupportedValue ''listener hostname is required'')
      else if in_CloudflareTunnel inp \<noteq> None \<and> in_CloudflareAccount inp \<noteq> None \<and>
          \<not> ad_Allowed (listener_decision ext inp gw hostname (lx_exposure t) False) then
        Inl (invalidateListener t ListenerReasonUnsupportedValue
          (ad_Message (listener_decision ext inp gw hostname (lx_exposure t) False)))
      else
        (let guarded =
           (if in_CloudflareTunnel inp \<noteq> None \<and> in_CloudflareAccount inp \<noteq> None then
              (if ad_Allowed (listener_decision ext inp gw hostname (lx_exposure t) True)
               then t\<lparr>lx_guard := GuardUnprotected\<rparr>
               else t\<lparr>lx_protected := True, lx_guard := GuardBlocked\<rparr>)
            else t)
         in if public_port_unavailable guarded then
              Inl (invalidateListener guarded ListenerReasonPortUnavailable
                ''public HTTP and HTTPS listeners require ports 80 and 443'')
            else Inr guarded))"

definition listener_route_kinds :: "listenerTranslation \<Rightarrow> listenerTranslation" where
  "listener_route_kinds t =
     (if validHTTPRouteKinds (ln_AllowedRoutes (lx_spec t)) then t
      else t\<lparr>lx_resolved := False, lx_resolvedReason := ListenerReasonInvalidRouteKinds,
              lx_resolvedMessage := ''allowedRoutes.kinds contains a kind other than HTTPRoute''\<rparr>)"

definition listener_ir :: "inputs \<Rightarrow> bool \<Rightarrow> int \<Rightarrow> listenerTranslation \<Rightarrow> irListener" where
  "listener_ir inp conformance cloudflarePort t =
     (let listener = lx_spec t in
      \<lparr>il_Name = ln_Name listener, il_Hostname = hostname_value (ln_Hostname listener), il_Port = ln_Port listener,
       il_EnvoyPort = (if conformance then wrap32 (ln_Port listener + 10000) else cloudflarePort),
       il_Protocol = ln_Protocol listener, il_Exposure = lx_exposure t,
       il_Binding = (if lx_exposure t = ExposurePrivate then listenerBinding (in_CloudflareTunnel inp) (ln_Name listener) else []),
       il_TLS = None\<rparr>)"

text \<open>A resolved certificate sets the listener's TLS reference and appends a secret; a failure unsets the listener.\<close>

definition listener_certificate ::
  "externals \<Rightarrow> inputs \<Rightarrow> gateway \<Rightarrow> certificateRef \<Rightarrow> listenerTranslation \<Rightarrow> listenerTranslation \<times> tlsSecret list" where
  "listener_certificate ext inp gw ref t =
     (case resolveListenerSecret ext inp gw ref of
        Inl (reason, message) \<Rightarrow>
          (t\<lparr>lx_resolved := False, lx_resolvedReason := reason, lx_resolvedMessage := message, lx_ir := None\<rparr>, [])
      | Inr secret \<Rightarrow>
          (let secretName = ''listener-'' @ ln_Name (lx_spec t) in
           (t\<lparr>lx_ir := map_option (\<lambda>l. l\<lparr>il_TLS := Some secretName\<rparr>) (lx_ir t)\<rparr>,
            [\<lparr>sec_Name = secretName, sec_Certificate = str_get (st_Data secret) ''tls.crt'',
              sec_PrivateKey = str_get (st_Data secret) ''tls.key'', sec_CA = []\<rparr>])))"

definition edge_option_supported :: "string \<times> string \<Rightarrow> bool" where
  "edge_option_supported kv \<longleftrightarrow> fst kv = ''flareway.bhyoo.com/edge-tls-mode'' \<and> (snd kv = ''Full'' \<or> snd kv = ''Strict'')"

definition tls_refs :: "listenerTLS option \<Rightarrow> certificateRef list" where
  "tls_refs tls = (case tls of None \<Rightarrow> [] | Some t \<Rightarrow> lt_CertificateRefs t)"

definition validate_private_tls ::
  "externals \<Rightarrow> inputs \<Rightarrow> gateway \<Rightarrow> listenerTranslation \<Rightarrow> listenerTranslation \<times> tlsSecret list" where
  "validate_private_tls ext inp gw t =
     (let tls = ln_TLS (lx_spec t) in
      case tls_refs tls of
        [] \<Rightarrow> (invalidateListener t ListenerReasonUnsupportedValue ''Private HTTPS listener requires certificateRefs'', [])
      | ref # others \<Rightarrow>
          if others \<noteq> [] then
            (invalidateListener t ListenerReasonUnsupportedValue ''Private HTTPS listener requires exactly one certificateRef'', [])
          else if lt_Options (the tls) \<noteq> [] then
            (invalidateListener t ListenerReasonUnsupportedValue ''Private HTTPS listener does not support TLS options'', [])
          else listener_certificate ext inp gw ref t)"

definition validate_edge_tls :: "listenerTranslation \<Rightarrow> listenerTranslation" where
  "validate_edge_tls t =
     (case ln_TLS (lx_spec t) of
        None \<Rightarrow> t
      | Some tls \<Rightarrow>
          if lt_CertificateRefs tls \<noteq> [] then
            invalidateListener t ListenerReasonUnsupportedValue ''edge-terminated listener must not reference certificates''
          else
            (case List.find (\<lambda>kv. \<not> edge_option_supported kv) (lt_Options tls) of
               None \<Rightarrow> t
             | Some (key, val) \<Rightarrow> invalidateListener t ListenerReasonUnsupportedValue
                 (''unsupported TLS option '' @ key @ ''='' @ val)))"

definition validate_tls ::
  "externals \<Rightarrow> inputs \<Rightarrow> gateway \<Rightarrow> bool \<Rightarrow> listenerTranslation \<Rightarrow> listenerTranslation \<times> tlsSecret list" where
  "validate_tls ext inp gw conformance t =
     (let listener = lx_spec t in
      if lx_exposure t = ExposurePrivate \<and> ln_Protocol listener \<noteq> HTTPSProtocolType then
        (invalidateListener t ListenerReasonUnsupportedProtocol ''Private listener requires HTTPS so Envoy can terminate TLS'', [])
      else if ln_Protocol listener = HTTPProtocolType then
        (if ln_TLS listener \<noteq> None
         then (invalidateListener t ListenerReasonUnsupportedValue ''HTTP listener must not configure TLS'', [])
         else (t, []))
      else if (case ln_TLS listener of None \<Rightarrow> False | Some tls \<Rightarrow>
                 (case lt_Mode tls of None \<Rightarrow> False | Some m \<Rightarrow> m \<noteq> ''Terminate'')) then
        (invalidateListener t ListenerReasonUnsupportedValue ''HTTPS listener requires TLS mode Terminate'', [])
      else if \<not> conformance then
        (if lx_exposure t = ExposurePrivate then validate_private_tls ext inp gw t
         else (validate_edge_tls t, []))
      else
        (case tls_refs (ln_TLS listener) of
           [] \<Rightarrow> (invalidateListener t ListenerReasonUnsupportedValue
             ''HTTPS listener requires certificateRefs in conformance mode'', [])
         | ref # _ \<Rightarrow> listener_certificate ext inp gw ref t))"

definition validateListener ::
  "externals \<Rightarrow> inputs \<Rightarrow> gateway \<Rightarrow> bool \<Rightarrow> int \<Rightarrow> listenerTranslation \<Rightarrow> listenerTranslation \<times> tlsSecret list" where
  "validateListener ext inp gw conformance cloudflarePort t =
     (case validate_identity ext inp gw conformance t of
        Inl rejected \<Rightarrow> (rejected, [])
      | Inr accepted \<Rightarrow>
          (let kinds = listener_route_kinds accepted in
           validate_tls ext inp gw conformance (kinds\<lparr>lx_ir := Some (listener_ir inp conformance cloudflarePort kinds)\<rparr>)))"

section \<open>Conflicts and assembly\<close>

definition listenerConflictReason :: "gwListener \<Rightarrow> gwListener \<Rightarrow> string" where
  "listenerConflictReason a b =
     (if ln_Port a \<noteq> ln_Port b then ListenerReasonNoConflicts
      else if ln_Protocol a \<noteq> ln_Protocol b then ListenerReasonProtocolConflict
      else
        (case (ln_Hostname a, ln_Hostname b) of
           (None, None) \<Rightarrow> ListenerReasonHostnameConflict
         | (Some x, Some y) \<Rightarrow> if x = y then ListenerReasonHostnameConflict else ListenerReasonNoConflicts
         | _ \<Rightarrow> ListenerReasonNoConflicts))"

definition mark_conflict :: "string \<Rightarrow> listenerTranslation \<Rightarrow> listenerTranslation" where
  "mark_conflict reason t =
     t\<lparr>lx_conflicted := True,
       lx_conflictReason := (if lx_conflictReason t = ListenerReasonNoConflicts \<or> reason = ListenerReasonProtocolConflict
                             then reason else lx_conflictReason t),
       lx_accepted := False, lx_acceptedReason := ListenerReasonUnsupportedValue,
       lx_acceptedMessage := ''listener conflicts with another listener on the same port'', lx_ir := None\<rparr>"

definition conflict_pair :: "listenerTranslation list \<Rightarrow> nat \<times> nat \<Rightarrow> listenerTranslation list" where
  "conflict_pair listeners ij =
     (let i = fst ij; j = snd ij; reason = listenerConflictReason (lx_spec (listeners ! i)) (lx_spec (listeners ! j)) in
      if reason = ListenerReasonNoConflicts then listeners
      else listeners[i := mark_conflict reason (listeners ! i), j := mark_conflict reason (listeners ! j)])"

definition listener_pairs :: "nat \<Rightarrow> (nat \<times> nat) list" where
  "listener_pairs n = concat (map (\<lambda>i. map (\<lambda>j. (i, j)) [Suc i..<n]) [0..<n])"

definition mark_conflicts :: "listenerTranslation list \<Rightarrow> listenerTranslation list" where
  "mark_conflicts listeners = foldl conflict_pair listeners (listener_pairs (length listeners))"

definition start_translation :: "inputs \<Rightarrow> gwListener \<Rightarrow> listenerTranslation" where
  "start_translation inp spec =
     \<lparr>lx_spec = spec, lx_ir = None, lx_accepted = True, lx_resolved = True, lx_conflicted = False,
      lx_conflictReason = ListenerReasonNoConflicts, lx_acceptedReason = ListenerReasonAccepted,
      lx_acceptedMessage = ''listener accepted'', lx_resolvedReason = ListenerReasonResolvedRefs,
      lx_resolvedMessage = references_resolved, lx_attachedRoutes = [],
      lx_exposure = listenerExposure (in_CloudflareTunnel inp) (ln_Name spec), lx_guard = [], lx_protected = False\<rparr>"

fun validate_listeners ::
  "externals \<Rightarrow> inputs \<Rightarrow> gateway \<Rightarrow> bool \<Rightarrow> publicEnvoyPorts \<Rightarrow> gwListener list \<Rightarrow> listenerTranslation list \<times> tlsSecret list" where
  "validate_listeners ext inp gw conformance ports [] = ([], [])"
| "validate_listeners ext inp gw conformance ports (spec # specs) =
     (let start = start_translation inp spec;
          (envoyPort, ports') = (if lx_exposure start = ExposurePrivate then (ln_Port spec, ports) else ports_take ports);
          (t, secrets) = validateListener ext inp gw conformance envoyPort start;
          (ts, more_secrets) = validate_listeners ext inp gw conformance ports' specs
      in (t # ts, secrets @ more_secrets))"

definition listener_live :: "listenerTranslation \<Rightarrow> bool" where
  "listener_live t \<longleftrightarrow> lx_ir t \<noteq> None \<and> lx_accepted t \<and> \<not> lx_conflicted t"

definition listener_domain :: "listenerTranslation \<Rightarrow> protectionDomain" where
  "listener_domain t =
     (let l = the (lx_ir t) in
      \<lparr>pd_Name = il_Name l, pd_ListenerName = il_Name l, pd_EnvoyPort = il_EnvoyPort l, pd_Protected = lx_protected t,
       pd_OriginJWTDisabled = False, pd_Access = None, pd_AccessApplication = [], pd_Guard = lx_guard t,
       pd_StripAccessHeaders = False, pd_IngressPaths = [], pd_VirtualHosts = []\<rparr>)"

definition translateListeners ::
  "externals \<Rightarrow> inputs \<Rightarrow> gateway \<Rightarrow> int list \<Rightarrow> irGateway \<Rightarrow> irGateway \<times> listenerTranslation list \<times> string \<times> string" where
  "translateListeners ext inp gw reserved out =
     (let (validated, secrets) = validate_listeners ext inp gw (ig_ConformanceMode out)
            \<lparr>pep_next = 18080, pep_reserved = reserved\<rparr> (gw_Listeners gw);
          listeners = mark_conflicts validated;
          live = filter listener_live listeners;
          out' = out\<lparr>ig_Secrets := ig_Secrets out @ secrets, ig_Listeners := map (\<lambda>t. the (lx_ir t)) live,
                      ig_Domains := map listener_domain live\<rparr>
      in if listeners = [] then (out', listeners, ''ListenersNotValid'', ''Gateway has no listeners'')
         else (out', listeners, ''Accepted'', ''Gateway accepted''))"

section \<open>Listener status\<close>

definition conflictMessage :: "bool \<Rightarrow> string" where
  "conflictMessage conflicted = (if conflicted then ''listener conflicts with another listener'' else ''no listener conflicts'')"

definition listener_status :: "gateway \<Rightarrow> listenerTranslation \<Rightarrow> time \<Rightarrow> listenerStatus" where
  "listener_status gw t now =
     (let previous = (case List.find (\<lambda>s. lst_Name s = ln_Name (lx_spec t)) (gw_StatusListeners gw) of
                        None \<Rightarrow> [] | Some s \<Rightarrow> lst_Conditions s)
      in \<lparr>lst_Name = ln_Name (lx_spec t), lst_SupportedKinds = supportedKinds t,
          lst_AttachedRoutes = int (length (lx_attachedRoutes t)),
          lst_Conditions = MergeConditions previous now
            [NewCondition ''Accepted'' (conditionStatus (lx_accepted t)) (lx_acceptedReason t) (lx_acceptedMessage t) (gw_Generation gw) now,
             NewCondition ''ResolvedRefs'' (conditionStatus (lx_resolved t)) (lx_resolvedReason t) (lx_resolvedMessage t) (gw_Generation gw) now,
             NewCondition ''Conflicted'' (conditionStatus (lx_conflicted t)) (lx_conflictReason t) (conflictMessage (lx_conflicted t)) (gw_Generation gw) now]\<rparr>)"

section \<open>Lemmas on ports\<close>

lemma take_port_skips:
  "port \<le> take_port port reserved \<and> take_port port reserved \<notin> set reserved \<and>
   {port..<take_port port reserved} \<subseteq> set reserved"
proof (induction port reserved rule: take_port.induct)
  case (1 port reserved)
  show ?case
  proof (cases "port \<in> set reserved")
    case True
    then have "take_port port reserved = take_port (port + 1) reserved" by (simp add: take_port.simps [of port])
    moreover have "{port..<take_port (port + 1) reserved} \<subseteq> insert port {port + 1..<take_port (port + 1) reserved}" by auto
    ultimately show ?thesis using 1 True by auto
  qed (simp add: take_port.simps [of port])
qed

lemma take_port_bound: "take_port port reserved \<le> port + int (card (set reserved))"
proof -
  have "card {port..<take_port port reserved} \<le> card (set reserved)"
    using take_port_skips [of port reserved] by (intro card_mono) auto
  then show ?thesis by simp
qed

section \<open>Lemmas on conflicts\<close>

lemma conflict_reason_sym: "listenerConflictReason a b = listenerConflictReason b a"
  by (auto simp: listenerConflictReason_def split: option.splits)

lemma mark_conflict_fields [simp]:
  "lx_spec (mark_conflict r t) = lx_spec t" "lx_conflicted (mark_conflict r t)" "lx_ir (mark_conflict r t) = None"
  by (simp_all add: mark_conflict_def)

lemma length_conflict_pair [simp]: "length (conflict_pair L ij) = length L"
  by (simp add: conflict_pair_def Let_def)

lemma nth_update_in: "k < length xs \<Longrightarrow> xs[i := x] ! k = (if i = k then x else xs ! k)"
  by (cases "i < length xs") simp_all

lemma conflict_pair_keeps:
  assumes "k < length L"
  shows "lx_spec (conflict_pair L ij ! k) = lx_spec (L ! k)"
    and "conflict_pair L ij ! k = L ! k \<or> lx_conflicted (conflict_pair L ij ! k)"
  using assms by (simp_all add: conflict_pair_def Let_def nth_update_in)

lemma conflict_pair_marks:
  "i < length L \<Longrightarrow> j < length L \<Longrightarrow> i \<noteq> j \<Longrightarrow>
   listenerConflictReason (lx_spec (L ! i)) (lx_spec (L ! j)) \<noteq> ListenerReasonNoConflicts \<Longrightarrow>
   lx_conflicted (conflict_pair L (i, j) ! i) \<and> lx_conflicted (conflict_pair L (i, j) ! j)"
  by (simp add: conflict_pair_def Let_def nth_update_in)

lemma mark_conflicts_fold:
  "length (foldl conflict_pair L ps) = length L \<and>
   (\<forall>k < length L. lx_spec (foldl conflict_pair L ps ! k) = lx_spec (L ! k) \<and>
      (foldl conflict_pair L ps ! k = L ! k \<or> lx_conflicted (foldl conflict_pair L ps ! k))) \<and>
   (\<forall>(i, j) \<in> set ps. i < length L \<longrightarrow> j < length L \<longrightarrow> i \<noteq> j \<longrightarrow>
      listenerConflictReason (lx_spec (L ! i)) (lx_spec (L ! j)) \<noteq> ListenerReasonNoConflicts \<longrightarrow>
      lx_conflicted (foldl conflict_pair L ps ! i) \<and> lx_conflicted (foldl conflict_pair L ps ! j))"
proof (induction ps rule: rev_induct)
  case (snoc p ps)
  define M where "M = foldl conflict_pair L ps"
  have len: "length M = length L" and spec: "\<And>k. k < length L \<Longrightarrow> lx_spec (M ! k) = lx_spec (L ! k)"
    and same: "\<And>k. k < length L \<Longrightarrow> M ! k = L ! k \<or> lx_conflicted (M ! k)"
    and marked: "\<And>i j. (i, j) \<in> set ps \<Longrightarrow> i < length L \<Longrightarrow> j < length L \<Longrightarrow> i \<noteq> j \<Longrightarrow>
      listenerConflictReason (lx_spec (L ! i)) (lx_spec (L ! j)) \<noteq> ListenerReasonNoConflicts \<Longrightarrow>
      lx_conflicted (M ! i) \<and> lx_conflicted (M ! j)"
    using snoc by (auto simp: M_def)
  have kept: "lx_conflicted (M ! k) \<Longrightarrow> lx_conflicted (conflict_pair M p ! k)" if "k < length L" for k
    using conflict_pair_keeps(2) [of k M p] that len by auto
  have "lx_conflicted (conflict_pair M p ! i) \<and> lx_conflicted (conflict_pair M p ! j)"
    if "(i, j) \<in> set (ps @ [p])" "i < length L" "j < length L" "i \<noteq> j"
      "listenerConflictReason (lx_spec (L ! i)) (lx_spec (L ! j)) \<noteq> ListenerReasonNoConflicts" for i j
  proof (cases "(i, j) = p")
    case True
    then show ?thesis using conflict_pair_marks [of i M j] that len spec by auto
  next
    case False
    then show ?thesis using marked that kept by auto
  qed
  moreover have "lx_spec (conflict_pair M p ! k) = lx_spec (L ! k) \<and>
      (conflict_pair M p ! k = L ! k \<or> lx_conflicted (conflict_pair M p ! k))" if "k < length L" for k
    using conflict_pair_keeps [of k M p] that len spec [OF that] same [OF that] by auto
  ultimately show ?case using len by (auto simp: M_def [symmetric])
qed simp

lemma listener_pairs_mem: "i < j \<Longrightarrow> j < n \<Longrightarrow> (i, j) \<in> set (listener_pairs n)"
  by (force simp: listener_pairs_def)

lemma length_mark_conflicts [simp]: "length (mark_conflicts L) = length L"
  using mark_conflicts_fold [of L "listener_pairs (length L)"] by (simp add: mark_conflicts_def)

lemma mark_conflicts_kept:
  "k < length L \<Longrightarrow> \<not> lx_conflicted (mark_conflicts L ! k) \<Longrightarrow> mark_conflicts L ! k = L ! k"
  using mark_conflicts_fold [of L "listener_pairs (length L)"] by (auto simp: mark_conflicts_def)

lemma mark_conflicts_apart:
  assumes "i < length L" "j < length L" "i \<noteq> j"
    "\<not> lx_conflicted (mark_conflicts L ! i)" "\<not> lx_conflicted (mark_conflicts L ! j)"
  shows "listenerConflictReason (lx_spec (mark_conflicts L ! i)) (lx_spec (mark_conflicts L ! j)) = ListenerReasonNoConflicts"
proof (rule ccontr)
  assume contra: "\<not> ?thesis"
  have spec: "lx_spec (mark_conflicts L ! k) = lx_spec (L ! k)" if "k < length L" for k
    using mark_conflicts_fold [of L "listener_pairs (length L)"] that by (auto simp: mark_conflicts_def)
  have marked: "lx_conflicted (mark_conflicts L ! a)" if "a < b" "b < length L"
    "listenerConflictReason (lx_spec (L ! a)) (lx_spec (L ! b)) \<noteq> ListenerReasonNoConflicts" for a b
    using mark_conflicts_fold [of L "listener_pairs (length L)"] listener_pairs_mem [of a b "length L"] that
    by (fastforce simp: mark_conflicts_def)
  show False
  proof (cases "i < j")
    case True
    then show ?thesis using marked [of i j] contra assms spec by auto
  next
    case False
    then have "j < i" using assms(3) by simp
    then show ?thesis using marked [of j i] contra assms spec conflict_reason_sym by auto
  qed
qed

section \<open>Lemmas on validation\<close>

lemma invalidateListener_fields [simp]:
  "lx_ir (invalidateListener t r m) = None" "lx_spec (invalidateListener t r m) = lx_spec t"
  "lx_exposure (invalidateListener t r m) = lx_exposure t" "lx_guard (invalidateListener t r m) = lx_guard t"
  "lx_protected (invalidateListener t r m) = lx_protected t" "lx_conflicted (invalidateListener t r m) = lx_conflicted t"
  by (simp_all add: invalidateListener_def)

text \<open>What validation never changes, and where the accepted listener comes from.\<close>

definition same_identity :: "listenerTranslation \<Rightarrow> listenerTranslation \<Rightarrow> bool" where
  "same_identity t u \<longleftrightarrow> lx_spec u = lx_spec t \<and> lx_exposure u = lx_exposure t \<and> lx_guard u = lx_guard t \<and>
     lx_protected u = lx_protected t \<and> lx_conflicted u = lx_conflicted t \<and>
     (\<forall>l. lx_ir u = Some l \<longrightarrow> (\<exists>l0. lx_ir t = Some l0 \<and> l0\<lparr>il_TLS := il_TLS l\<rparr> = l))"

lemma same_identity_refl [simp]: "same_identity t t"
  by (simp add: same_identity_def)

lemma same_identity_invalidate [simp]: "same_identity t (invalidateListener t r m)"
  by (simp add: same_identity_def)

lemma listener_certificate_identity: "same_identity t (fst (listener_certificate ext inp gw ref t))"
  by (auto simp: listener_certificate_def same_identity_def Let_def split: sum.split prod.split)

lemma validate_tls_identity: "same_identity t (fst (validate_tls ext inp gw conformance t))"
  by (simp add: validate_tls_def validate_private_tls_def validate_edge_tls_def listener_certificate_identity Let_def
      split: option.split list.split prod.split)

text \<open>What the account has to say about a live listener.\<close>

definition listener_guarded :: "externals \<Rightarrow> inputs \<Rightarrow> gateway \<Rightarrow> listenerTranslation \<Rightarrow> bool" where
  "listener_guarded ext inp gw t \<longleftrightarrow>
     (in_CloudflareTunnel inp \<noteq> None \<and> in_CloudflareAccount inp \<noteq> None \<longrightarrow>
        (let hostname = hostname_value (ln_Hostname (lx_spec t)) in
         hostname \<noteq> [] \<and> ad_Allowed (listener_decision ext inp gw hostname (lx_exposure t) False) \<and>
         (if ad_Allowed (listener_decision ext inp gw hostname (lx_exposure t) True)
          then lx_guard t = GuardUnprotected \<and> \<not> lx_protected t
          else lx_guard t = GuardBlocked \<and> lx_protected t)))"

lemma listener_guarded_cong:
  "lx_spec u = lx_spec v \<Longrightarrow> lx_exposure u = lx_exposure v \<Longrightarrow> lx_guard u = lx_guard v \<Longrightarrow> lx_protected u = lx_protected v \<Longrightarrow>
   listener_guarded ext inp gw u = listener_guarded ext inp gw v"
  by (simp add: listener_guarded_def)

lemma validate_identity_guarded:
  "\<not> lx_protected t \<Longrightarrow> validate_identity ext inp gw False t = Inr u \<Longrightarrow>
   listener_guarded ext inp gw u \<and> lx_spec u = lx_spec t \<and> lx_exposure u = lx_exposure t"
  by (auto simp: validate_identity_def listener_guarded_def Let_def split: if_splits)

lemma validate_identity_rejects: "validate_identity ext inp gw conformance t = Inl u \<Longrightarrow> lx_ir u = None"
  by (auto simp: validate_identity_def Let_def split: if_splits)

lemma route_kinds_fields [simp]:
  "lx_spec (listener_route_kinds t) = lx_spec t" "lx_exposure (listener_route_kinds t) = lx_exposure t"
  "lx_guard (listener_route_kinds t) = lx_guard t" "lx_protected (listener_route_kinds t) = lx_protected t"
  by (simp_all add: listener_route_kinds_def)

lemma validateListener_guarded:
  assumes "\<not> lx_protected t" and "validateListener ext inp gw False port t = (u, secrets)" and "lx_ir u = Some l"
  shows "listener_guarded ext inp gw u" and "lx_spec u = lx_spec t" and "il_Name l = ln_Name (lx_spec t)"
    and "il_EnvoyPort l = port" and "il_Exposure l = lx_exposure t" and "lx_exposure u = lx_exposure t"
proof -
  obtain v where v: "validate_identity ext inp gw False t = Inr v"
    using assms validate_identity_rejects [of ext inp gw False t]
    by (cases "validate_identity ext inp gw False t") (auto simp: validateListener_def)
  define w where "w = (listener_route_kinds v)\<lparr>lx_ir := Some (listener_ir inp False port (listener_route_kinds v))\<rparr>"
  have u: "u = fst (validate_tls ext inp gw False w)"
    using assms(2) v by (simp add: validateListener_def w_def Let_def)
  have same: "same_identity w u" unfolding u by (rule validate_tls_identity)
  note vt = validate_identity_guarded [OF assms(1) v]
  have w_fields: "lx_spec w = lx_spec v" "lx_exposure w = lx_exposure v" "lx_guard w = lx_guard v"
    "lx_protected w = lx_protected v"
    by (simp_all add: w_def)
  show "listener_guarded ext inp gw u" and "lx_spec u = lx_spec t" and "lx_exposure u = lx_exposure t"
    using vt listener_guarded_cong [of u v ext inp gw] same w_fields by (simp_all add: same_identity_def)
  have "lx_ir w = Some (listener_ir inp False port (listener_route_kinds v))" by (simp add: w_def)
  then have "l = (listener_ir inp False port (listener_route_kinds v))\<lparr>il_TLS := il_TLS l\<rparr>"
    using same assms(3) by (auto simp: same_identity_def)
  then have "il_Name l = il_Name (listener_ir inp False port (listener_route_kinds v))"
    "il_EnvoyPort l = il_EnvoyPort (listener_ir inp False port (listener_route_kinds v))"
    "il_Exposure l = il_Exposure (listener_ir inp False port (listener_route_kinds v))"
    by (metis irListener.ext_inject irListener.surjective irListener.update_convs(8))+
  then show "il_Name l = ln_Name (lx_spec t)" and "il_EnvoyPort l = port" and "il_Exposure l = lx_exposure t"
    using vt by (simp_all add: listener_ir_def Let_def)
qed

lemma start_translation_fields [simp]:
  "\<not> lx_protected (start_translation inp spec)" "lx_spec (start_translation inp spec) = spec"
  "lx_exposure (start_translation inp spec) = listenerExposure (in_CloudflareTunnel inp) (ln_Name spec)"
  by (simp_all add: start_translation_def)

text \<open>The listeners that carry an IR listener, and those emitted after conflict marking.\<close>

definition built_listeners :: "listenerTranslation list \<Rightarrow> irListener list" where
  "built_listeners ts = List.map_filter lx_ir ts"

definition live_listeners :: "listenerTranslation list \<Rightarrow> irListener list" where
  "live_listeners ts = map (\<lambda>t. the (lx_ir t)) (filter listener_live ts)"

definition public_ports :: "irListener list \<Rightarrow> int list" where
  "public_ports ls = map il_EnvoyPort (filter (\<lambda>l. il_Exposure l \<noteq> ExposurePrivate) ls)"

lemma built_listeners_Cons [simp]:
  "built_listeners (t # ts) = (case lx_ir t of None \<Rightarrow> built_listeners ts | Some l \<Rightarrow> l # built_listeners ts)"
  by (simp add: built_listeners_def map_filter_simps split: option.split)

lemma live_listeners_Cons [simp]:
  "live_listeners (t # ts) = (if listener_live t then the (lx_ir t) # live_listeners ts else live_listeners ts)"
  by (simp add: live_listeners_def)

lemma public_ports_Cons [simp]:
  "public_ports (l # ls) = (if il_Exposure l \<noteq> ExposurePrivate then il_EnvoyPort l # public_ports ls else public_ports ls)"
  by (simp add: public_ports_def)

lemma listeners_Nil [simp]: "built_listeners [] = []" "live_listeners [] = []" "public_ports [] = []"
  by (simp_all add: built_listeners_def live_listeners_def public_ports_def map_filter_simps)

lemma public_ports_mono: "set ls \<subseteq> set ms \<Longrightarrow> set (public_ports ls) \<subseteq> set (public_ports ms)"
  by (auto simp: public_ports_def)

lemma validate_listeners_ports:
  "validate_listeners ext inp gw False ports specs = (ts, secrets) \<Longrightarrow>
   sorted_wrt (<) (public_ports (built_listeners ts)) \<and>
   (\<forall>p \<in> set (public_ports (built_listeners ts)). pep_next ports \<le> p \<and> p \<notin> set (pep_reserved ports))"
proof (induction specs arbitrary: ports ts secrets)
  case Nil
  then show ?case by simp
next
  case (Cons spec specs)
  let ?start = "start_translation inp spec"
  define priv where "priv = (lx_exposure ?start = ExposurePrivate)"
  obtain port ports' where taken: "(if priv then (ln_Port spec, ports) else ports_take ports) = (port, ports')"
    by (metis surj_pair)
  obtain t tsec where t: "validateListener ext inp gw False port ?start = (t, tsec)" by (metis surj_pair)
  obtain us usec where us: "validate_listeners ext inp gw False ports' specs = (us, usec)" by (metis surj_pair)
  have ts: "ts = t # us"
    using Cons.prems taken t us by (simp add: priv_def [symmetric] Let_def del: start_translation_fields)
  have kept: "pep_reserved ports' = pep_reserved ports" "pep_next ports \<le> pep_next ports'"
    using taken take_port_skips [of "pep_next ports" "pep_reserved ports"]
    by (auto simp: ports_take_def Let_def split: if_splits)
  have fresh: "pep_next ports \<le> port \<and> port < pep_next ports' \<and> port \<notin> set (pep_reserved ports)" if "\<not> priv"
    using that taken take_port_skips [of "pep_next ports" "pep_reserved ports"]
    by (auto simp: ports_take_def Let_def)
  note IH = Cons.IH [OF us]
  show ?case
  proof (cases "lx_ir t")
    case None
    then show ?thesis using IH kept by (auto simp: ts)
  next
    case (Some l)
    have l: "il_EnvoyPort l = port" "il_Exposure l = lx_exposure ?start"
      using validateListener_guarded [OF _ t Some] by simp_all
    have "public_ports (built_listeners ts) =
        (if priv then [] else [port]) @ public_ports (built_listeners us)"
      using Some l by (simp add: ts priv_def)
    then show ?thesis using IH kept fresh by force
  qed
qed

lemma validate_listeners_guarded:
  "validate_listeners ext inp gw False ports specs = (ts, secrets) \<Longrightarrow> t \<in> set ts \<Longrightarrow> lx_ir t = Some l \<Longrightarrow>
   listener_guarded ext inp gw t \<and> lx_spec t \<in> set specs \<and> il_Name l = ln_Name (lx_spec t) \<and>
   lx_exposure t = listenerExposure (in_CloudflareTunnel inp) (ln_Name (lx_spec t))"
proof (induction specs arbitrary: ports ts secrets)
  case (Cons spec specs)
  obtain port ports' where taken:
    "(if lx_exposure (start_translation inp spec) = ExposurePrivate then (ln_Port spec, ports) else ports_take ports) = (port, ports')"
    by (metis surj_pair)
  obtain u usec where u: "validateListener ext inp gw False port (start_translation inp spec) = (u, usec)" by (metis surj_pair)
  obtain us ussec where us: "validate_listeners ext inp gw False ports' specs = (us, ussec)" by (metis surj_pair)
  have ts: "ts = u # us"
    using Cons.prems(1) taken u us by (simp add: Let_def del: start_translation_fields)
  show ?case
  proof (cases "t = u")
    case True
    then show ?thesis using validateListener_guarded [OF _ u, of l] Cons.prems(3) by simp
  next
    case False
    then show ?thesis using Cons.IH [OF us] Cons.prems ts by auto
  qed
qed simp

text \<open>Conflict marking only removes listeners.\<close>

lemma live_listeners_mark:
  assumes "sorted_wrt P (public_ports (built_listeners ts))"
  shows "sorted_wrt P (public_ports (live_listeners (mark_conflicts ts)))"
    and "set (live_listeners (mark_conflicts ts)) \<subseteq> set (built_listeners ts)"
proof -
  have rel: "list_all2 (\<lambda>t u. lx_conflicted u \<or> u = t) ts (mark_conflicts ts)"
    using mark_conflicts_kept [of _ ts] by (auto simp: list_all2_conv_all_nth)
  have "set (live_listeners us) \<subseteq> set (built_listeners ts) \<and>
      (sorted_wrt P (public_ports (built_listeners ts)) \<longrightarrow> sorted_wrt P (public_ports (live_listeners us)))"
    if "list_all2 (\<lambda>t u. lx_conflicted u \<or> u = t) ts us" for us
    using that
  proof (induction ts us rule: list_all2_induct)
    case (Cons t ts u us)
    show ?case
    proof (cases "listener_live u")
      case True
      then obtain l where "u = t" and "lx_ir t = Some l" using Cons.hyps by (auto simp: listener_live_def)
      then show ?thesis
        using True Cons.IH public_ports_mono [of "live_listeners us" "built_listeners ts"] by auto
    next
      case False
      then show ?thesis using Cons.IH by (cases "lx_ir t") auto
    qed
  qed simp
  from this [OF rel] assms show "sorted_wrt P (public_ports (live_listeners (mark_conflicts ts)))"
    and "set (live_listeners (mark_conflicts ts)) \<subseteq> set (built_listeners ts)" by auto
qed

lemma translateListeners_parts:
  assumes "validate_listeners ext inp gw (ig_ConformanceMode out) \<lparr>pep_next = 18080, pep_reserved = reserved\<rparr> (gw_Listeners gw)
      = (ts, secrets)" and "translateListeners ext inp gw reserved out = (out', listeners, reason, message)"
  shows "listeners = mark_conflicts ts" and "ig_Listeners out' = live_listeners (mark_conflicts ts)"
    and "ig_Domains out' = map listener_domain (filter listener_live (mark_conflicts ts))"
  using assms by (auto simp: translateListeners_def live_listeners_def Let_def split: if_splits)

lemma live_translation:
  assumes "t \<in> set (filter listener_live (mark_conflicts ts))"
  shows "t \<in> set ts" and "\<exists>l. lx_ir t = Some l"
proof -
  from assms obtain k where "k < length ts" "t = mark_conflicts ts ! k" "\<not> lx_conflicted t" "lx_ir t \<noteq> None"
    by (auto simp: in_set_conv_nth listener_live_def)
  then show "t \<in> set ts" and "\<exists>l. lx_ir t = Some l"
    using mark_conflicts_kept [of k ts] by auto
qed

text \<open>Where the domain of a live Listener comes from, and the guards it can have.\<close>

lemma domain_translation:
  assumes "d \<in> set (ig_Domains (fst (translateListeners ext inp gw reserved out)))"
  obtains t ts secrets where "t \<in> set ts" "d = listener_domain t" "\<exists>l. lx_ir t = Some l"
    "validate_listeners ext inp gw (ig_ConformanceMode out) \<lparr>pep_next = 18080, pep_reserved = reserved\<rparr> (gw_Listeners gw)
       = (ts, secrets)"
proof -
  obtain ts secrets where ts: "validate_listeners ext inp gw (ig_ConformanceMode out)
      \<lparr>pep_next = 18080, pep_reserved = reserved\<rparr> (gw_Listeners gw) = (ts, secrets)" by (metis surj_pair)
  obtain out' listeners reason message where
    out: "translateListeners ext inp gw reserved out = (out', listeners, reason, message)" by (metis prod_cases4)
  from assms obtain t where t: "t \<in> set (filter listener_live (mark_conflicts ts))" and d: "d = listener_domain t"
    using translateListeners_parts [OF ts out] by (auto simp: out)
  show ?thesis by (rule that [OF live_translation(1) [OF t] d live_translation(2) [OF t] ts])
qed

lemma validateListener_guard:
  "lx_guard (fst (validateListener ext inp gw conformance port t)) = lx_guard t \<or>
   \<not> conformance \<and> in_CloudflareTunnel inp \<noteq> None \<and> in_CloudflareAccount inp \<noteq> None \<and>
   lx_guard (fst (validateListener ext inp gw conformance port t)) \<in> {GuardUnprotected, GuardBlocked}"
proof -
  have identity: "\<And>u. validate_identity ext inp gw conformance t = Inl u \<or> validate_identity ext inp gw conformance t = Inr u \<Longrightarrow>
      lx_guard u = lx_guard t \<or> \<not> conformance \<and> in_CloudflareTunnel inp \<noteq> None \<and> in_CloudflareAccount inp \<noteq> None \<and>
        lx_guard u \<in> {GuardUnprotected, GuardBlocked}"
    by (auto simp: validate_identity_def Let_def split: if_splits)
  have tls: "lx_guard (fst (validate_tls ext inp gw conformance w)) = lx_guard w" for w
    using validate_tls_identity [of w ext inp gw conformance] by (simp add: same_identity_def)
  show ?thesis
    by (cases "validate_identity ext inp gw conformance t")
      (use identity in \<open>simp_all add: validateListener_def tls Let_def\<close>)
qed

lemma domain_guard:
  assumes "d \<in> set (ig_Domains (fst (translateListeners ext inp gw reserved out)))"
  shows "pd_Guard d = [] \<or> \<not> ig_ConformanceMode out \<and> in_CloudflareTunnel inp \<noteq> None \<and> in_CloudflareAccount inp \<noteq> None \<and>
    pd_Guard d \<in> {GuardUnprotected, GuardBlocked}"
proof -
  have validated: "\<exists>spec port. t = fst (validateListener ext inp gw conformance port (start_translation inp spec))"
    if "t \<in> set (fst (validate_listeners ext inp gw conformance ports specs))" for t conformance ports specs
    using that
  proof (induction specs arbitrary: ports)
    case (Cons spec specs)
    then show ?case by (simp add: Let_def split: prod.splits if_splits) (metis fst_conv)+
  qed simp
  obtain t ts secrets where t: "t \<in> set ts" "d = listener_domain t"
    "validate_listeners ext inp gw (ig_ConformanceMode out) \<lparr>pep_next = 18080, pep_reserved = reserved\<rparr> (gw_Listeners gw)
       = (ts, secrets)"
    using assms by (rule domain_translation)
  then obtain spec port where
    "t = fst (validateListener ext inp gw (ig_ConformanceMode out) port (start_translation inp spec))"
    using validated [of t "ig_ConformanceMode out" "\<lparr>pep_next = 18080, pep_reserved = reserved\<rparr>" "gw_Listeners gw"] by auto
  moreover have "lx_guard (start_translation inp spec) = []" by (simp add: start_translation_def)
  moreover have "pd_Guard d = lx_guard t" by (simp add: t(2) listener_domain_def Let_def)
  ultimately show ?thesis
    using validateListener_guard [of ext inp gw "ig_ConformanceMode out" port "start_translation inp spec"] by simp
qed

lemma domain_listener:
  assumes "d \<in> set (ig_Domains (fst (translateListeners ext inp gw reserved out)))" and "\<not> ig_ConformanceMode out"
  obtains t l where "d = listener_domain t" "lx_ir t = Some l" "il_Name l = ln_Name (lx_spec t)" "listener_guarded ext inp gw t"
    "lx_spec t \<in> set (gw_Listeners gw)" "listenerExposure (in_CloudflareTunnel inp) (ln_Name (lx_spec t)) = lx_exposure t"
proof -
  obtain t ts secrets l where t: "t \<in> set ts" "d = listener_domain t" "lx_ir t = Some l"
    "validate_listeners ext inp gw False \<lparr>pep_next = 18080, pep_reserved = reserved\<rparr> (gw_Listeners gw) = (ts, secrets)"
    using assms(1) assms(2) by (elim domain_translation) auto
  show ?thesis using validate_listeners_guarded [OF t(4,1,3)] that [OF t(2,3)] by simp
qed

section \<open>Properties\<close>

text \<open>
  C40: the Envoy port loop terminates at the first free port: it never goes below its start, never
  returns a reserved port, skips reserved ports only, and moves by at most the number of reserved ports.
\<close>
theorem take_port_first_free:
  "port \<le> take_port port reserved \<and> take_port port reserved \<notin> set reserved \<and>
   {port..<take_port port reserved} \<subseteq> set reserved \<and> take_port port reserved \<le> port + int (card (set reserved))"
  using take_port_skips [of port reserved] take_port_bound [of port reserved] by simp

text \<open>
  C7: listeners fail closed. Outside conformance mode, with a tunnel and an account, every domain emitted for a Listener belongs to a
  Listener whose hostname and exposure the account grants to the Gateway's namespace; it is unprotected exactly when
  the account also grants that hostname as unprotected, and is otherwise protected and blocked.
\<close>
theorem listeners_fail_closed:
  assumes "in_CloudflareTunnel inp \<noteq> None" and "in_CloudflareAccount inp \<noteq> None" and "\<not> ig_ConformanceMode out"
    and "d \<in> set (ig_Domains (fst (translateListeners ext inp gw reserved out)))"
  shows "\<exists>spec \<in> set (gw_Listeners gw).
    let hostname = hostname_value (ln_Hostname spec); exposure = listenerExposure (in_CloudflareTunnel inp) (ln_Name spec) in
    pd_ListenerName d = ln_Name spec \<and> hostname \<noteq> [] \<and>
    ad_Allowed (listener_decision ext inp gw hostname exposure False) \<and>
    (if ad_Allowed (listener_decision ext inp gw hostname exposure True)
     then pd_Guard d = GuardUnprotected \<and> \<not> pd_Protected d
     else pd_Guard d = GuardBlocked \<and> pd_Protected d)"
proof -
  obtain t l where t: "d = listener_domain t" "lx_ir t = Some l" "il_Name l = ln_Name (lx_spec t)" "listener_guarded ext inp gw t"
    "lx_spec t \<in> set (gw_Listeners gw)"
    and exposure: "listenerExposure (in_CloudflareTunnel inp) (ln_Name (lx_spec t)) = lx_exposure t"
    by (rule domain_listener [OF assms(4,3)])
  show ?thesis
    using t(4) assms(1,2) by (intro bexI [OF _ t(5)]) (simp add: t(1,2,3) listener_domain_def listener_guarded_def exposure Let_def)
qed

text \<open>
  One Gateway with two public HTTPS listeners on port 443; the account grants the hostnames, and the first
  one also as unprotected.
\<close>

definition example_listener :: "string \<Rightarrow> string \<Rightarrow> gwListener" where
  "example_listener name hostname = \<lparr>ln_Name = name, ln_Hostname = Some hostname, ln_Port = 443, ln_Protocol = ''HTTPS'',
     ln_TLS = None, ln_AllowedRoutes = None\<rparr>"

definition example_gw :: gateway where
  "example_gw = \<lparr>gw_Namespace = ''n'', gw_Name = ''g'', gw_UID = ''u'', gw_Generation = 1,
     gw_Listeners = [example_listener ''l1'' ''x.io'', example_listener ''l2'' ''y.io''], gw_Addresses = [],
     gw_AllowedListeners = False, gw_Infrastructure = None, gw_StatusConditions = [], gw_StatusListeners = []\<rparr>"

definition example_tunnel :: cloudflareTunnel where
  "example_tunnel = \<lparr>tu_Namespace = ''n'', tu_Name = ''t'', tu_Annotations = Map.empty, tu_ManagementPolicy = [],
     tu_AccountRef = ''acct'', tu_TunnelName = [], tu_Listeners = [], tu_StatusTunnelID = ''id'', tu_StatusDeletedAt = None,
     tu_StatusOwnershipVerified = True, tu_StatusConnectorTokenSecretRef = Some ''token'', tu_StatusGatewayRef = Some ''g'',
     tu_StatusGatewayUID = ''u'', tu_StatusHostnames = [], tu_StatusListeners = []\<rparr>"

definition example_listener_inputs :: inputs where
  "example_listener_inputs = empty_inputs\<lparr>in_CloudflareTunnel := Some example_tunnel,
     in_CloudflareAccount := Some \<lparr>ca_Name = ''acct'', ca_AccountID = ''a1'',
       ca_Grants = [(example_grant [''*'']) \<lparr>gr_Exposures := [ExposurePublic], gr_UnprotectedHostnames := [''x.io'']\<rparr>],
       ca_TeamName = ''team'', ca_AuthDomain = ''team.example''\<rparr>,
     in_Namespaces := [\<lparr>ns_Name = ''n'', ns_Labels = Map.empty\<rparr>]\<rparr>"

lemmas example_listener_defs = example_listener_def example_gw_def example_tunnel_def example_listener_inputs_def

lemma example_host_eval:
  "HostnameMatches ''*'' ''x.io''" "HostnameMatches ''*'' ''y.io''" "HostnameMatches ''x.io'' ''x.io''"
  "\<not> HostnameMatches ''x.io'' ''y.io''"
  by (simp_all add: HostnameMatches_def normalizeDNSName_def trim_space_def trim_right_func_def is_space_def to_lower_def
      lower_char_def trim_suffix_def has_suffix_def has_prefix_def Let_def)

lemma example_decisions:
  assumes "h = ''x.io'' \<or> h = ''y.io''"
  shows "ad_Allowed (listener_decision example_externals example_listener_inputs example_gw h ExposurePublic False)"
    and "ad_Allowed (listener_decision example_externals example_listener_inputs example_gw h ExposurePublic True) \<longleftrightarrow> h = ''x.io''"
  using assms example_host_eval
  by (auto simp: listener_decision_def authz_allowed_iff example_listener_defs namespaceByName_def grant_permits_def
      example_grant_def empty_request_def example_externals_def matchesHostnameSet_def)

lemma example_exposure: "listenerExposure (in_CloudflareTunnel example_listener_inputs) name = ExposurePublic"
  by (simp add: listenerExposure_def example_listener_inputs_def example_tunnel_def)

lemma example_validate:
  assumes "h = ''x.io'' \<or> h = ''y.io''"
  shows "\<exists>t. validateListener example_externals example_listener_inputs example_gw False port
      (start_translation example_listener_inputs (example_listener name h)) = (t, []) \<and>
    lx_spec t = example_listener name h \<and> lx_ir t \<noteq> None \<and> lx_accepted t \<and> \<not> lx_conflicted t"
proof -
  let ?t = "start_translation example_listener_inputs (example_listener name h)"
  have exp: "lx_exposure ?t = ExposurePublic" and spec: "lx_spec ?t = example_listener name h"
    and fresh: "lx_accepted ?t" "\<not> lx_conflicted ?t"
    by (simp_all add: example_exposure start_translation_def)
  have hostname: "hostname_value (ln_Hostname (example_listener name h)) = h"
    by (simp add: example_listener_def hostname_value_def)
  have parts: "ln_Protocol (example_listener name h) = HTTPSProtocolType" "ln_Port (example_listener name h) = 443"
    "ln_TLS (example_listener name h) = None" "ln_AllowedRoutes (example_listener name h) = None" "HTTPSProtocolType \<noteq> HTTPProtocolType"
    by (simp_all add: example_listener_def HTTPSProtocolType_def HTTPProtocolType_def)
  have not_private: "ExposurePublic \<noteq> ExposurePrivate" by (simp add: ExposurePublic_def ExposurePrivate_def)
  have env: "in_CloudflareTunnel example_listener_inputs \<noteq> None" "in_CloudflareAccount example_listener_inputs \<noteq> None"
    by (simp_all add: example_listener_inputs_def)
  have port_ok: "\<not> public_port_unavailable v" if "lx_spec v = example_listener name h" for v
    using that parts by (simp add: public_port_unavailable_def)
  define u where "u = (if ad_Allowed (listener_decision example_externals example_listener_inputs example_gw h ExposurePublic True)
    then ?t\<lparr>lx_guard := GuardUnprotected\<rparr> else ?t\<lparr>lx_protected := True, lx_guard := GuardBlocked\<rparr>)"
  have same: "lx_spec u = example_listener name h" "lx_exposure u = ExposurePublic" "lx_accepted u" "\<not> lx_conflicted u"
    using exp spec fresh by (simp_all add: u_def del: start_translation_fields)
  have "h \<noteq> []" using assms by auto
  then have "validate_identity example_externals example_listener_inputs example_gw False ?t =
      (if public_port_unavailable u then Inl (invalidateListener u ListenerReasonPortUnavailable
                ''public HTTP and HTTPS listeners require ports 80 and 443'') else Inr u)"
    using example_decisions(1) [OF assms] parts env
    unfolding validate_identity_def spec hostname exp Let_def u_def by simp
  then have u: "validate_identity example_externals example_listener_inputs example_gw False ?t = Inr u"
    using port_ok [OF same(1)] by simp
  show ?thesis
    using parts not_private same
    by (simp add: validateListener_def u validate_tls_def validate_edge_tls_def listener_route_kinds_def
        validHTTPRouteKinds_def Let_def)
qed

lemma example_translation:
  obtains t1 t2 where
    "validate_listeners example_externals example_listener_inputs example_gw False \<lparr>pep_next = 18080, pep_reserved = reserved\<rparr>
       (gw_Listeners example_gw) = ([t1, t2], [])"
    "lx_spec t1 = example_listener ''l1'' ''x.io''" "listener_live t1"
    "lx_spec t2 = example_listener ''l2'' ''y.io''" "listener_live t2" "mark_conflicts [t1, t2] = [t1, t2]"
proof -
  let ?p1 = "take_port 18080 reserved" and ?p2 = "take_port (take_port 18080 reserved + 1) reserved"
  obtain t1 where t1: "validateListener example_externals example_listener_inputs example_gw False ?p1
      (start_translation example_listener_inputs (example_listener ''l1'' ''x.io'')) = (t1, [])"
    "lx_spec t1 = example_listener ''l1'' ''x.io''" "listener_live t1"
    using example_validate [of "''x.io''" ?p1 "''l1''"] by (auto simp: listener_live_def)
  obtain t2 where t2: "validateListener example_externals example_listener_inputs example_gw False ?p2
      (start_translation example_listener_inputs (example_listener ''l2'' ''y.io'')) = (t2, [])"
    "lx_spec t2 = example_listener ''l2'' ''y.io''" "listener_live t2"
    using example_validate [of "''y.io''" ?p2 "''l2''"] by (auto simp: listener_live_def)
  have "gw_Listeners example_gw = [example_listener ''l1'' ''x.io'', example_listener ''l2'' ''y.io'']"
    by (simp add: example_gw_def)
  moreover have "ExposurePublic \<noteq> ExposurePrivate" by (simp add: ExposurePublic_def ExposurePrivate_def)
  ultimately have "validate_listeners example_externals example_listener_inputs example_gw False
      \<lparr>pep_next = 18080, pep_reserved = reserved\<rparr> (gw_Listeners example_gw) = ([t1, t2], [])"
    using t1(1) t2(1) by (simp add: example_exposure ports_take_def Let_def)
  moreover have "listenerConflictReason (lx_spec t1) (lx_spec t2) = ListenerReasonNoConflicts"
    unfolding t1 t2 by (simp add: listenerConflictReason_def example_listener_def)
  then have "mark_conflicts [t1, t2] = [t1, t2]"
    by (simp add: mark_conflicts_def listener_pairs_def conflict_pair_def upt_conv_Cons)
  ultimately show thesis using t1 t2 that by blast
qed

lemma example_env:
  "in_CloudflareTunnel example_listener_inputs \<noteq> None" "in_CloudflareAccount example_listener_inputs \<noteq> None"
  "\<not> ig_ConformanceMode empty_gateway"
  by (simp_all add: example_listener_inputs_def empty_gateway_def)

text \<open>
  C14: outside conformance mode the emitted public listeners bind distinct Envoy ports: in
  listener order the ports are strictly increasing from 18080 and avoid every reserved port.
\<close>
theorem public_listener_ports:
  assumes "\<not> ig_ConformanceMode out"
  shows "let ports = map il_EnvoyPort (filter (\<lambda>l. il_Exposure l \<noteq> ExposurePrivate)
      (ig_Listeners (fst (translateListeners ext inp gw reserved out)))) in
    sorted_wrt (<) ports \<and> set ports \<inter> set reserved = {} \<and> set ports \<subseteq> {18080..}"
proof -
  obtain ts secrets where ts: "validate_listeners ext inp gw (ig_ConformanceMode out)
      \<lparr>pep_next = 18080, pep_reserved = reserved\<rparr> (gw_Listeners gw) = (ts, secrets)" by (metis surj_pair)
  obtain out' listeners reason message where
    out: "translateListeners ext inp gw reserved out = (out', listeners, reason, message)" by (metis prod_cases4)
  have ports: "sorted_wrt (<) (public_ports (built_listeners ts))"
    "\<forall>p \<in> set (public_ports (built_listeners ts)). 18080 \<le> p \<and> p \<notin> set reserved"
    using validate_listeners_ports [of ext inp gw "\<lparr>pep_next = 18080, pep_reserved = reserved\<rparr>"] ts assms by simp_all
  show ?thesis
    using live_listeners_mark [OF ports(1)] public_ports_mono ports(2) translateListeners_parts(2) [OF ts out]
    by (fastforce simp: out public_ports_def Let_def)
qed

text \<open>
  C15: no two live Listeners conflict. Two different translations that are both still live after
  conflict detection have different ports, or the same protocol and different hostnames.
\<close>
theorem live_listeners_conflict_free:
  assumes "translateListeners ext inp gw reserved out = (out', listeners, reason, message)"
    and "i < length listeners" and "j < length listeners" and "i \<noteq> j"
    and "listener_live (listeners ! i)" and "listener_live (listeners ! j)"
  shows "let a = lx_spec (listeners ! i); b = lx_spec (listeners ! j) in
    ln_Port a \<noteq> ln_Port b \<or> (ln_Protocol a = ln_Protocol b \<and> ln_Hostname a \<noteq> ln_Hostname b)"
proof -
  obtain ts secrets where ts: "validate_listeners ext inp gw (ig_ConformanceMode out)
      \<lparr>pep_next = 18080, pep_reserved = reserved\<rparr> (gw_Listeners gw) = (ts, secrets)" by (metis surj_pair)
  note listeners = translateListeners_parts(1) [OF ts assms(1)]
  have "listenerConflictReason (lx_spec (listeners ! i)) (lx_spec (listeners ! j)) = ListenerReasonNoConflicts"
    unfolding listeners using assms by (intro mark_conflicts_apart) (auto simp: listeners listener_live_def)
  moreover have "ListenerReasonProtocolConflict \<noteq> ListenerReasonNoConflicts" "ListenerReasonHostnameConflict \<noteq> ListenerReasonNoConflicts"
    by (simp_all add: listener_consts)
  ultimately show ?thesis
    unfolding listenerConflictReason_def Let_def by (auto split: if_splits option.splits)
qed

theorem live_listeners_conflict_free_witness:
  "let a = example_listener ''l1'' ''x.io''; b = example_listener ''l2'' ''y.io'' in
   ln_Port a \<noteq> ln_Port b \<or> (ln_Protocol a = ln_Protocol b \<and> ln_Hostname a \<noteq> ln_Hostname b)"
proof -
  obtain t1 t2 where ts: "validate_listeners example_externals example_listener_inputs example_gw False
      \<lparr>pep_next = 18080, pep_reserved = []\<rparr> (gw_Listeners example_gw) = ([t1, t2], [])"
    and t1: "lx_spec t1 = example_listener ''l1'' ''x.io''" "listener_live t1"
    and t2: "lx_spec t2 = example_listener ''l2'' ''y.io''" "listener_live t2"
    and marked: "mark_conflicts [t1, t2] = [t1, t2]"
    using example_translation [of "[]"] by blast
  obtain out' listeners reason message where
    out: "translateListeners example_externals example_listener_inputs example_gw [] empty_gateway =
      (out', listeners, reason, message)" by (metis prod_cases4)
  have ts': "validate_listeners example_externals example_listener_inputs example_gw (ig_ConformanceMode empty_gateway)
      \<lparr>pep_next = 18080, pep_reserved = []\<rparr> (gw_Listeners example_gw) = ([t1, t2], [])"
    using ts by (simp add: empty_gateway_def)
  have listeners: "listeners = [t1, t2]"
    using translateListeners_parts(1) [OF ts' out] marked by simp
  from live_listeners_conflict_free [OF out, of 0 1] t1 t2 show ?thesis
    by (simp add: listeners)
qed

theorem public_listener_ports_witness:
  "let ports = map il_EnvoyPort (filter (\<lambda>l. il_Exposure l \<noteq> ExposurePrivate)
      (ig_Listeners (fst (translateListeners example_externals example_listener_inputs example_gw [18081] empty_gateway)))) in
    sorted_wrt (<) ports \<and> set ports \<inter> {18081} = {} \<and> set ports \<subseteq> {18080..}"
  using public_listener_ports [of empty_gateway example_externals example_listener_inputs example_gw "[18081]"]
  by (simp add: empty_gateway_def Let_def)

theorem listeners_fail_closed_witness:
  "\<exists>d \<in> set (ig_Domains (fst (translateListeners example_externals example_listener_inputs example_gw [] empty_gateway))).
     \<exists>spec \<in> set (gw_Listeners example_gw). pd_ListenerName d = ln_Name spec \<and>
       ad_Allowed (listener_decision example_externals example_listener_inputs example_gw (hostname_value (ln_Hostname spec))
         (listenerExposure (in_CloudflareTunnel example_listener_inputs) (ln_Name spec)) False)"
proof -
  obtain t1 t2 where ts: "validate_listeners example_externals example_listener_inputs example_gw False
      \<lparr>pep_next = 18080, pep_reserved = []\<rparr> (gw_Listeners example_gw) = ([t1, t2], [])"
    and t1: "lx_spec t1 = example_listener ''l1'' ''x.io''" "listener_live t1"
    and t2: "lx_spec t2 = example_listener ''l2'' ''y.io''" "listener_live t2"
    and marked: "mark_conflicts [t1, t2] = [t1, t2]"
    using example_translation [of "[]"] by blast
  have domains: "ig_Domains (fst (translateListeners example_externals example_listener_inputs example_gw [] empty_gateway)) =
      [listener_domain t1, listener_domain t2]"
    using ts t1 t2 by (simp add: translateListeners_def marked empty_gateway_def Let_def)
  have "\<exists>spec \<in> set (gw_Listeners example_gw).
      let hostname = hostname_value (ln_Hostname spec);
        exposure = listenerExposure (in_CloudflareTunnel example_listener_inputs) (ln_Name spec) in
      pd_ListenerName (listener_domain t1) = ln_Name spec \<and> hostname \<noteq> [] \<and>
      ad_Allowed (listener_decision example_externals example_listener_inputs example_gw hostname exposure False) \<and>
      (if ad_Allowed (listener_decision example_externals example_listener_inputs example_gw hostname exposure True)
       then pd_Guard (listener_domain t1) = GuardUnprotected \<and> \<not> pd_Protected (listener_domain t1)
       else pd_Guard (listener_domain t1) = GuardBlocked \<and> pd_Protected (listener_domain t1))"
    by (rule listeners_fail_closed [where out = empty_gateway and reserved = "[]"])
      (simp_all only: domains example_env list.set_intros not_False_eq_True)
  then show ?thesis unfolding domains Let_def by auto
qed

end
