(* ===== verification/Routes.thy ===== *)
theory Routes
  imports Rules Listeners
begin

text \<open>
  \<^verbatim>\<open>src/internal/gatewayapi/translate.go\<close>, the Routes: which Listeners a parent reference selects, the
  hosts a Listener claims, the order of the compiled routes and the virtual hosts of every protection
  domain (\<^verbatim>\<open>compileHTTPRoutes\<close>). A Listener pointer is a position in the list of translations.
\<close>

section \<open>Parents and Listeners\<close>

record routeOutcome =
  oc_accepted :: bool
  oc_acceptedReason :: string
  oc_message :: string
  oc_resolved :: bool
  oc_resolvedReason :: string
  oc_resolvedMsg :: string
  oc_dropped :: "string list"

definition parentTargetsGateway :: "parentReference \<Rightarrow> string \<Rightarrow> gateway \<Rightarrow> bool" where
  "parentTargetsGateway parent routeNamespace gw \<longleftrightarrow>
     (case pr_Group parent of None \<Rightarrow> True | Some g \<Rightarrow> g = gatewayGroup) \<and>
     (case pr_Kind parent of None \<Rightarrow> True | Some k \<Rightarrow> k = ''Gateway'') \<and>
     (case pr_Namespace parent of None \<Rightarrow> routeNamespace | Some n \<Rightarrow> n) = gw_Namespace gw \<and>
     pr_Name parent = gw_Name gw"

definition hasOwnedRouteParent :: "routeParentStatus list \<Rightarrow> bool" where
  "hasOwnedRouteParent parents = list_ex (\<lambda>p. rps_ControllerName p = ControllerName) parents"

definition routeNamespaceAllowed :: "externals \<Rightarrow> inputs \<Rightarrow> gateway \<Rightarrow> gwListener \<Rightarrow> string \<Rightarrow> bool" where
  "routeNamespaceAllowed ext inp gw listener routeNamespace =
     (let namespaces = (case ln_AllowedRoutes listener of None \<Rightarrow> None | Some a \<Rightarrow> ar_Namespaces a);
          from = (case namespaces of None \<Rightarrow> ''Same'' | Some n \<Rightarrow>
                    (case rn_From n of None \<Rightarrow> ''Same'' | Some f \<Rightarrow> f));
          selector = (case namespaces of None \<Rightarrow> None | Some n \<Rightarrow> rn_Selector n)
      in if from = ''All'' then True
         else if from = ''Same'' then routeNamespace = gw_Namespace gw
         else if from = ''Selector'' then
           (case selector of
              None \<Rightarrow> False
            | Some s \<Rightarrow>
                (case List.find (\<lambda>n. ns_Name n = routeNamespace) (in_Namespaces inp) of
                   None \<Rightarrow> False
                 | Some n \<Rightarrow> (case ext_selector ext s (ns_Labels n) of Inl _ \<Rightarrow> False | Inr matches \<Rightarrow> matches)))
         else False)"

text \<open>The successive tests of the loop of \<^verbatim>\<open>matchingListeners\<close>.\<close>

definition parent_selects :: "parentReference \<Rightarrow> gwListener \<Rightarrow> bool" where
  "parent_selects parent listener \<longleftrightarrow>
     (case pr_SectionName parent of None \<Rightarrow> True | Some s \<Rightarrow> s = ln_Name listener) \<and>
     (case pr_Port parent of None \<Rightarrow> True | Some p \<Rightarrow> p = ln_Port listener)"

definition listener_admits :: "externals \<Rightarrow> inputs \<Rightarrow> gateway \<Rightarrow> httpRoute \<Rightarrow> gwListener \<Rightarrow> bool" where
  "listener_admits ext inp gw route listener \<longleftrightarrow>
     routeNamespaceAllowed ext inp gw listener (hr_Namespace route) \<and> listenerAllowsHTTPRoute listener"

definition route_hosts :: "httpRoute \<Rightarrow> gwListener \<Rightarrow> string list" where
  "route_hosts route listener = ComputeHosts (hr_Hostnames route) (ln_Hostname listener) []"

definition accepted_outcome :: routeOutcome where
  "accepted_outcome = \<lparr>oc_accepted = True, oc_acceptedReason = ''Accepted'', oc_message = ''Route accepted'',
     oc_resolved = True, oc_resolvedReason = RouteReasonResolvedRefs, oc_resolvedMsg = references_resolved, oc_dropped = []\<rparr>"

definition rejected_outcome :: "string \<Rightarrow> string \<Rightarrow> routeOutcome" where
  "rejected_outcome reason message =
     accepted_outcome\<lparr>oc_accepted := False, oc_acceptedReason := reason, oc_message := message\<rparr>"

definition match_outcome :: "bool \<Rightarrow> bool \<Rightarrow> bool \<Rightarrow> bool \<Rightarrow> routeOutcome" where
  "match_outcome candidate matchedParent allowedNamespace matchedHostname =
     (if candidate then accepted_outcome
      else if \<not> matchedParent then
        rejected_outcome ''NoMatchingParent'' ''parentRef sectionName or port does not match a listener''
      else if \<not> allowedNamespace then
        rejected_outcome ''NotAllowedByListeners'' ''Route namespace or kind is not allowed by the selected listeners''
      else if \<not> matchedHostname then
        rejected_outcome ''NoMatchingListenerHostname'' ''Route hostnames do not intersect with the selected listeners''
      else rejected_outcome ''NoMatchingParent'' ''all selected listeners are invalid'')"

definition matchingListeners ::
  "externals \<Rightarrow> inputs \<Rightarrow> gateway \<Rightarrow> httpRoute \<Rightarrow> parentReference \<Rightarrow> listenerTranslation list \<Rightarrow> nat list \<times> routeOutcome" where
  "matchingListeners ext inp gw route parent listeners =
     (let matchedParent = filter (\<lambda>i. parent_selects parent (lx_spec (listeners ! i))) [0..<length listeners];
          allowedNamespace = filter (\<lambda>i. listener_admits ext inp gw route (lx_spec (listeners ! i))) matchedParent;
          matchedHostname = filter (\<lambda>i. route_hosts route (lx_spec (listeners ! i)) \<noteq> []) allowedNamespace;
          candidates = filter (\<lambda>i. lx_accepted (listeners ! i) \<and> \<not> lx_conflicted (listeners ! i)) matchedHostname
      in (candidates,
          match_outcome (candidates \<noteq> []) (matchedParent \<noteq> []) (allowedNamespace \<noteq> []) (matchedHostname \<noteq> [])))"

definition hostnameMatches :: "string option \<Rightarrow> string \<Rightarrow> bool" where
  "hostnameMatches listenerHostname host =
     (case listenerHostname of
        None \<Rightarrow> True
      | Some v \<Rightarrow> v = [] \<or> v = host \<or> (has_prefix v ''*.'' \<and> WildcardHostnameMatchesHostname v host))"

definition listenerHostnameSpecificity :: "string option \<Rightarrow> int" where
  "listenerHostnameSpecificity hostname =
     (case hostname of
        None \<Rightarrow> 0
      | Some v \<Rightarrow> if v = [] then 0 else if has_prefix v ''*.'' then int (length v) else 10000 + int (length v))"

definition listenerClaimsHost :: "nat \<Rightarrow> string \<Rightarrow> listenerTranslation list \<Rightarrow> bool" where
  "listenerClaimsHost candidate host listeners =
     (let spec = lx_spec (listeners ! candidate) in
      list_all (\<lambda>j. let other = listeners ! j in
        j = candidate \<or> \<not> listener_live other \<or>
        ln_Port (lx_spec other) \<noteq> ln_Port spec \<or> ln_Protocol (lx_spec other) \<noteq> ln_Protocol spec \<or>
        \<not> hostnameMatches (ln_Hostname (lx_spec other)) host \<or>
        \<not> listenerHostnameSpecificity (ln_Hostname (lx_spec other)) > listenerHostnameSpecificity (ln_Hostname spec))
        [0..<length listeners])"

definition route_parent_status :: "httpRoute \<Rightarrow> parentReference \<Rightarrow> routeOutcome \<Rightarrow> time \<Rightarrow> routeParentStatus" where
  "route_parent_status route parent outcome now =
     \<lparr>rps_ParentRef = parent, rps_ControllerName = ControllerName, rps_Conditions =
       [NewCondition ''Accepted'' (conditionStatus (oc_accepted outcome)) (oc_acceptedReason outcome) (oc_message outcome)
          (hr_Generation route) now,
        NewCondition ''ResolvedRefs'' (conditionStatus (oc_resolved outcome)) (oc_resolvedReason outcome) (oc_resolvedMsg outcome)
          (hr_Generation route) now] @
       (if oc_accepted outcome \<and> oc_dropped outcome \<noteq> [] then
          [NewCondition ''PartiallyInvalid'' ConditionStatusTrue RouteReasonUnsupportedValue
             (''Dropped Rule: '' @ join (oc_dropped outcome) ''; '') (hr_Generation route) now]
        else [])\<rparr>"

section \<open>Orders and names\<close>

definition pathTypeRank :: "string \<Rightarrow> int" where
  "pathTypeRank matchType =
     (if matchType = PathMatchExact then 0 else if matchType = PathMatchRegularExpression then 1 else 2)"

definition compareCompiledRoutes :: "compiledRoute \<Rightarrow> compiledRoute \<Rightarrow> int" where
  "compareCompiledRoutes a b =
     (let x = cro_route a; y = cro_route b in
      if pm_Type (ro_Match x) \<noteq> pm_Type (ro_Match y) then pathTypeRank (pm_Type (ro_Match x)) - pathTypeRank (pm_Type (ro_Match y))
      else if pm_Type (ro_Match x) = PathMatchPathPrefix \<and> length (pm_Value (ro_Match x)) \<noteq> length (pm_Value (ro_Match y)) then
        int (length (pm_Value (ro_Match y))) - int (length (pm_Value (ro_Match x)))
      else if (ro_Method x \<noteq> None) \<noteq> (ro_Method y \<noteq> None) then (if ro_Method x \<noteq> None then - 1 else 1)
      else if length (ro_Headers x) \<noteq> length (ro_Headers y) then int (length (ro_Headers y)) - int (length (ro_Headers x))
      else if length (ro_Query x) \<noteq> length (ro_Query y) then int (length (ro_Query y)) - int (length (ro_Query x))
      else if compare (cro_creation a) (cro_creation b) \<noteq> 0 then compare (cro_creation a) (cro_creation b)
      else if compare (cro_objectKey a) (cro_objectKey b) \<noteq> 0 then compare (cro_objectKey a) (cro_objectKey b)
      else if cro_ruleIndex a \<noteq> cro_ruleIndex b then cro_ruleIndex a - cro_ruleIndex b
      else cro_matchIndex a - cro_matchIndex b)"

definition compareHostnames :: "string \<Rightarrow> string \<Rightarrow> int" where
  "compareHostnames a b =
     (let aWildcard = has_prefix a ''*.''; bWildcard = has_prefix b ''*.'' in
      if aWildcard \<noteq> bWildcard then (if aWildcard then 1 else - 1)
      else if length a \<noteq> length b then int (length b) - int (length a)
      else compare a b)"

definition virtualHostName :: "string \<Rightarrow> string \<Rightarrow> string" where
  "virtualHostName listener hostname =
     (let encoded = hex_encode hostname in listener @ ''-'' @ (if encoded = [] then ''empty'' else encoded))"

definition compare_http_routes :: "httpRoute \<Rightarrow> httpRoute \<Rightarrow> int" where
  "compare_http_routes =
     cmp_then (cmp_on hr_CreationTimestamp compare) (cmp_on (\<lambda>r. hr_Namespace r @ ''/'' @ hr_Name r) compare)"

section \<open>Compilation of the Routes\<close>

type_synonym host_routes = "(string, (string, compiledRoute list) gomap) gomap"

record routes_state =
  rx_listeners :: "listenerTranslation list"
  rx_hosts :: host_routes
  rx_statuses :: "(nsname, routeParentStatus list) gomap"

definition add_host :: "string \<Rightarrow> compiledRoute list \<Rightarrow> string \<Rightarrow> host_routes \<Rightarrow> host_routes" where
  "add_host listener compiled host hosts =
     (let byHost = mget_default hosts listener [] in
      mput listener (mput host (mget_default byHost host [] @ compiled) byHost) hosts)"

text \<open>One accepted target Listener; \<^verbatim>\<open>attachedRoutes\<close> is a set.\<close>

definition attach_listener :: "httpRoute \<Rightarrow> compiledRoute list \<Rightarrow> nat \<Rightarrow> routes_state \<Rightarrow> routes_state" where
  "attach_listener route compiled i st =
     (let t = rx_listeners st ! i;
          attached = t\<lparr>lx_attachedRoutes := List.insert (hr_Namespace route, hr_Name route) (lx_attachedRoutes t)\<rparr>;
          st' = st\<lparr>rx_listeners := (rx_listeners st)[i := attached]\<rparr>
      in case lx_ir t of
           None \<Rightarrow> st'
         | Some l \<Rightarrow>
             st'\<lparr>rx_hosts := fold (add_host (il_Name l) compiled)
               (filter (\<lambda>h. listenerClaimsHost i h (rx_listeners st')) (route_hosts route (lx_spec t))) (rx_hosts st)\<rparr>)"

definition parent_outcome :: "rules_state \<Rightarrow> routeOutcome \<Rightarrow> routeOutcome" where
  "parent_outcome rules outcome =
     (let o1 = (if oc_accepted outcome \<and> rl_compiled rules = [] \<and> rl_dropped rules \<noteq> [] then
                  outcome\<lparr>oc_accepted := False, oc_acceptedReason := rl_dropReason rules,
                    oc_message := ''all Route rules were dropped''\<rparr>
                else outcome)
      in o1\<lparr>oc_resolved := rl_resolvedReason rules = RouteReasonResolvedRefs, oc_resolvedReason := rl_resolvedReason rules,
            oc_resolvedMsg := rl_resolvedMessage rules, oc_dropped := rl_dropped rules\<rparr>)"

definition attach_parent ::
  "externals \<Rightarrow> inputs \<Rightarrow> gateway \<Rightarrow> time \<Rightarrow> httpRoute \<Rightarrow> rules_state \<Rightarrow> parentReference
    \<Rightarrow> routes_state \<times> routeParentStatus list \<Rightarrow> routes_state \<times> routeParentStatus list" where
  "attach_parent ext inp gw now route rules parent sr =
     (let (st, replacements) = sr in
      if \<not> parentTargetsGateway parent (hr_Namespace route) gw then sr
      else let (targets, matched) = matchingListeners ext inp gw route parent (rx_listeners st);
               outcome = parent_outcome rules matched;
               st' = (if oc_accepted outcome then fold (attach_listener route (rl_compiled rules)) targets st else st)
           in (st', replacements @ [route_parent_status route parent outcome now]))"

definition strip_partially_invalid :: "routeParentStatus \<Rightarrow> routeParentStatus" where
  "strip_partially_invalid p =
     (if rps_ControllerName p = ControllerName
      then p\<lparr>rps_Conditions := RemoveCondition (rps_Conditions p) ''PartiallyInvalid''\<rparr> else p)"

definition compile_http_route ::
  "externals \<Rightarrow> inputs \<Rightarrow> gateway \<Rightarrow> time \<Rightarrow> httpRoute \<Rightarrow> routes_state \<Rightarrow> routes_state" where
  "compile_http_route ext inp gw now route st =
     (let rules = compileRules ext inp route;
          (st', replacements) = fold (attach_parent ext inp gw now route rules) (hr_ParentRefs route) (st, [])
      in if replacements \<noteq> [] \<or> hasOwnedRouteParent (hr_StatusParents route) then
           st'\<lparr>rx_statuses := mput (hr_Namespace route, hr_Name route)
             (ReplaceRouteParentStatuses (map strip_partially_invalid (hr_StatusParents route)) ControllerName now replacements)
             (rx_statuses st')\<rparr>
         else st')"

definition virtual_host :: "string \<Rightarrow> string \<Rightarrow> compiledRoute list \<Rightarrow> virtualHost" where
  "virtual_host listenerName hostname compiled =
     \<lparr>vh_Name = virtualHostName listenerName hostname, vh_Hostname = hostname,
      vh_Routes = map cro_route (sort_func compareCompiledRoutes compiled)\<rparr>"

definition listener_virtual_hosts :: "string \<Rightarrow> (string, compiledRoute list) gomap \<Rightarrow> virtualHost list" where
  "listener_virtual_hosts listenerName hosts =
     map (\<lambda>h. virtual_host listenerName h (mget_default hosts h [])) (sort_func compareHostnames (map fst hosts))"

definition add_virtual_hosts :: "host_routes \<Rightarrow> protectionDomain \<Rightarrow> protectionDomain" where
  "add_virtual_hosts hosts d =
     (case mget hosts (pd_ListenerName d) of
        None \<Rightarrow> d
      | Some byHost \<Rightarrow> d\<lparr>pd_VirtualHosts := pd_VirtualHosts d @ listener_virtual_hosts (pd_ListenerName d) byHost\<rparr>)"

text \<open>\<^verbatim>\<open>domainByListener\<close> holds, for every listener name, the last domain of that name.\<close>

fun attach_virtual_hosts :: "host_routes \<Rightarrow> protectionDomain list \<Rightarrow> protectionDomain list" where
  "attach_virtual_hosts hosts [] = []"
| "attach_virtual_hosts hosts (d # ds) =
     (if list_ex (\<lambda>e. pd_ListenerName e = pd_ListenerName d) ds then d else add_virtual_hosts hosts d)
     # attach_virtual_hosts hosts ds"

definition listenerByName :: "irListener list \<Rightarrow> string \<Rightarrow> irListener option" where
  "listenerByName listeners name = List.find (\<lambda>l. il_Name l = name) listeners"

definition hasVirtualHost :: "virtualHost list \<Rightarrow> string \<Rightarrow> bool" where
  "hasVirtualHost hosts hostname = list_ex (\<lambda>h. vh_Hostname h = hostname) hosts"

definition ensure_listener_host :: "irListener list \<Rightarrow> protectionDomain \<Rightarrow> protectionDomain" where
  "ensure_listener_host listeners d =
     (case listenerByName listeners (pd_ListenerName d) of
        None \<Rightarrow> d
      | Some l \<Rightarrow>
          if il_Hostname l = [] \<or> hasVirtualHost (pd_VirtualHosts d) (il_Hostname l) then d
          else d\<lparr>pd_VirtualHosts := pd_VirtualHosts d @
                  [\<lparr>vh_Name = virtualHostName (pd_ListenerName d) (il_Hostname l), vh_Hostname = il_Hostname l, vh_Routes = []\<rparr>]\<rparr>)"

definition compileHTTPRoutes ::
  "externals \<Rightarrow> inputs \<Rightarrow> gateway \<Rightarrow> irGateway \<Rightarrow> listenerTranslation list \<Rightarrow> time
    \<Rightarrow> irGateway \<times> listenerTranslation list \<times> (nsname, routeParentStatus list) gomap" where
  "compileHTTPRoutes ext inp gw out listeners now =
     (let st = fold (compile_http_route ext inp gw now) (sort_func compare_http_routes (in_HTTPRoutes inp))
                 \<lparr>rx_listeners = listeners, rx_hosts = [], rx_statuses = []\<rparr>;
          attached = attach_virtual_hosts (rx_hosts st) (ig_Domains out);
          domains = (if ig_ConformanceMode out then attached else map (ensure_listener_host (ig_Listeners out)) attached)
      in (out\<lparr>ig_Domains := domains\<rparr>, rx_listeners st, rx_statuses st))"

text \<open>The final sorting of the translator's output.\<close>

definition finalizeIR :: "irGateway \<Rightarrow> irGateway" where
  "finalizeIR out =
     out\<lparr>ig_Clusters := map (\<lambda>c. c\<lparr>cl_Endpoints := sort_func compare_endpoints (cl_Endpoints c)\<rparr>)
           (sort_func (cmp_on cl_Name compare) (ig_Clusters out)),
         ig_Secrets := sort_func (cmp_on sec_Name compare) (ig_Secrets out)\<rparr>"

section \<open>Lemmas on orders and names\<close>

interpretation http_routes: comparator compare_http_routes
  unfolding compare_http_routes_def by (intro comparator_locales)

text \<open>The precedence of compiled routes as a lexicographic chain, and its agreement with the comparison function.\<close>

definition prefix_weight :: "compiledRoute \<Rightarrow> int" where
  "prefix_weight c = (let m = ro_Match (cro_route c) in if pm_Type m = PathMatchPathPrefix then int (length (pm_Value m)) else 0)"

definition path_class :: "compiledRoute \<Rightarrow> int" where
  "path_class c = (let t = pm_Type (ro_Match (cro_route c)) in
     if t = PathMatchPathPrefix then 3 else if t = PathMatchRegularExpression then 2 else 1)"

definition route_precedence :: "compiledRoute \<Rightarrow> compiledRoute \<Rightarrow> int" where
  "route_precedence =
     cmp_then (cmp_asc path_class)
     (cmp_then (cmp_desc prefix_weight)
     (cmp_then (cmp_desc (\<lambda>c. if ro_Method (cro_route c) \<noteq> None then 1 else 0))
     (cmp_then (cmp_desc (\<lambda>c. int (length (ro_Headers (cro_route c)))))
     (cmp_then (cmp_desc (\<lambda>c. int (length (ro_Query (cro_route c)))))
     (cmp_then (cmp_on cro_creation compare)
     (cmp_then (cmp_on cro_objectKey compare)
     (cmp_then (cmp_asc cro_ruleIndex) (cmp_asc cro_matchIndex))))))))"

interpretation precedence: comparator route_precedence
  unfolding route_precedence_def by (intro comparator_intros)

lemma compareCompiledRoutes_precedence:
  assumes "known_path (ro_Match (cro_route a))" and "known_path (ro_Match (cro_route b))"
  shows "compareCompiledRoutes a b = route_precedence a b"
proof -
  let ?x = "cro_route a" and ?y = "cro_route b"
  have distinct_types: "PathMatchExact \<noteq> PathMatchRegularExpression" "PathMatchExact \<noteq> PathMatchPathPrefix"
    "PathMatchRegularExpression \<noteq> PathMatchPathPrefix" by (simp_all add: ir_consts)
  have rank: "pathTypeRank (pm_Type (ro_Match ?x)) = pathTypeRank (pm_Type (ro_Match ?y)) \<longleftrightarrow>
      pm_Type (ro_Match ?x) = pm_Type (ro_Match ?y)"
    using assms distinct_types by (auto simp: known_path_def pathTypeRank_def)
  have ranks: "path_class a = pathTypeRank (pm_Type (ro_Match ?x)) + 1" "path_class b = pathTypeRank (pm_Type (ro_Match ?y)) + 1"
    using assms distinct_types by (auto simp: known_path_def pathTypeRank_def path_class_def)
  show ?thesis
  proof (cases "pm_Type (ro_Match ?x) = pm_Type (ro_Match ?y)")
    case True
    then show ?thesis
      by (auto simp: compareCompiledRoutes_def route_precedence_def prefix_weight_def ranks cmp_defs Let_def)
  next
    case False
    with rank show ?thesis by (simp add: compareCompiledRoutes_def route_precedence_def ranks cmp_defs Let_def)
  qed
qed

interpretation hostnames: exact_comparator compareHostnames
proof (rule exact_comparator.intro)
  have chain: "compareHostnames = cmp_then (cmp_asc (\<lambda>h. if has_prefix h ''*.'' then 1 else 0))
      (cmp_then (cmp_desc (\<lambda>h. int (length h))) compare)"
    by (intro ext) (simp add: compareHostnames_def cmp_defs Let_def)
  show "comparator compareHostnames" unfolding chain by (intro comparator_intros)
  show "exact_comparator_axioms compareHostnames"
    by unfold_locales (simp add: chain cmp_then_zero)
qed

lemma dash_not_hex: "CHR ''-'' \<notin> set (hex_encode s)"
  using hex_encode_digits [of "CHR ''-''" s] by auto

lemma empty_not_hex: "hex_encode s \<noteq> ''empty''"
  using hex_encode_digits [of "CHR ''m''" s] by auto

definition encoded_host :: "string \<Rightarrow> string" where
  "encoded_host h = (if h = [] then ''empty'' else hex_encode h)"

lemma virtualHostName_encoded: "virtualHostName l h = l @ CHR ''-'' # encoded_host h"
  by (simp add: virtualHostName_def encoded_host_def Let_def)

lemma encoded_host_inj: "encoded_host h = encoded_host h' \<longleftrightarrow> h = h'"
  using empty_not_hex [of h] empty_not_hex [of h'] by (auto simp: encoded_host_def hex_encode_inj)

lemma dash_not_encoded: "CHR ''-'' \<notin> set (encoded_host h)"
  using dash_not_hex [of h] by (simp add: encoded_host_def)

lemma last_separator:
  assumes "a @ c # b = a' @ c # b'" and "c \<notin> set b" and "c \<notin> set b'"
  shows "a = a' \<and> b = b'"
  using assms by (auto simp: append_eq_append_conv2 Cons_eq_append_conv append_eq_Cons_conv)

text \<open>
  Virtual host names identify the Listener and the hostname: equal names come from equal
  pairs, so Envoy never merges two virtual hosts.
\<close>
theorem virtual_host_name_injective:
  "virtualHostName l h = virtualHostName l' h' \<longleftrightarrow> l = l' \<and> h = h'"
proof
  assume "virtualHostName l h = virtualHostName l' h'"
  then have "l = l' \<and> encoded_host h = encoded_host h'"
    unfolding virtualHostName_encoded using dash_not_encoded by (intro last_separator) auto
  then show "l = l' \<and> h = h'" by (simp add: encoded_host_inj)
qed simp

section \<open>Lemmas on attachment\<close>

definition host_entry :: "host_routes \<Rightarrow> string \<Rightarrow> string \<Rightarrow> compiledRoute \<Rightarrow> bool" where
  "host_entry hosts l h c \<longleftrightarrow> c \<in> set (mget_default (mget_default hosts l []) h [])"

lemma mget_default_mput: "mget_default (mput k v m) k' d = (if k' = k then v else mget_default m k' d)"
  by (simp add: mget_default_def)

lemma mget_default_Nil [simp]: "mget_default [] k d = d"
  by (simp add: mget_default_def)

lemma host_entry_Nil [simp]: "\<not> host_entry [] l h c"
  by (simp add: host_entry_def)

lemma host_entry_add:
  "host_entry (add_host l cs h hosts) l' h' c \<longleftrightarrow> host_entry hosts l' h' c \<or> (l' = l \<and> h' = h \<and> c \<in> set cs)"
  by (auto simp: host_entry_def add_host_def mget_default_mput Let_def)

lemma host_entry_fold:
  "host_entry (fold (add_host l cs) hs hosts) l' h' c \<longleftrightarrow> host_entry hosts l' h' c \<or> (l' = l \<and> h' \<in> set hs \<and> c \<in> set cs)"
  by (induction hs arbitrary: hosts) (auto simp: host_entry_add)

text \<open>Attaching routes changes nothing of a translation but its set of attached routes.\<close>

definition bare :: "listenerTranslation \<Rightarrow> listenerTranslation" where
  "bare t = t\<lparr>lx_attachedRoutes := []\<rparr>"

lemma bare_fields:
  assumes "bare t = bare u"
  shows "lx_spec t = lx_spec u" "lx_ir t = lx_ir u" "lx_accepted t = lx_accepted u" "lx_conflicted t = lx_conflicted u"
    "listener_live t = listener_live u"
proof -
  have "lx_spec (bare t) = lx_spec (bare u)" "lx_ir (bare t) = lx_ir (bare u)" "lx_accepted (bare t) = lx_accepted (bare u)"
    "lx_conflicted (bare t) = lx_conflicted (bare u)" using assms by simp_all
  then show "lx_spec t = lx_spec u" "lx_ir t = lx_ir u" "lx_accepted t = lx_accepted u" "lx_conflicted t = lx_conflicted u"
    "listener_live t = listener_live u" by (simp_all add: bare_def listener_live_def)
qed

lemma bare_nth:
  assumes "map bare L = map bare M"
  shows "length L = length M" and "i < length M \<Longrightarrow> bare (L ! i) = bare (M ! i)"
proof -
  show len: "length L = length M" using assms by (rule map_eq_imp_length_eq)
  show "i < length M \<Longrightarrow> bare (L ! i) = bare (M ! i)" using assms len by (metis nth_map)
qed

lemma matchingListeners_bare:
  assumes "map bare L = map bare M"
  shows "matchingListeners ext inp gw route parent L = matchingListeners ext inp gw route parent M"
proof -
  have eq: "filter (\<lambda>i. P (L ! i)) [0..<length M] = filter (\<lambda>i. P (M ! i)) [0..<length M]"
    if "\<And>t u. bare t = bare u \<Longrightarrow> P t = P u" for P
  proof (rule filter_cong [OF refl])
    fix i assume "i \<in> set [0..<length M]"
    then have "i < length M" by simp
    from bare_nth(2) [OF assms this] show "P (L ! i) = P (M ! i)" by (rule that)
  qed
  let ?selected = "\<lambda>t. parent_selects parent (lx_spec t)"
  let ?admitted = "\<lambda>t. ?selected t \<and> listener_admits ext inp gw route (lx_spec t)"
  let ?intersecting = "\<lambda>t. ?admitted t \<and> route_hosts route (lx_spec t) \<noteq> []"
  let ?candidate = "\<lambda>t. ?intersecting t \<and> lx_accepted t \<and> \<not> lx_conflicted t"
  have "matchingListeners ext inp gw route parent N =
      (filter (\<lambda>i. ?candidate (N ! i)) [0..<length N],
       match_outcome (filter (\<lambda>i. ?candidate (N ! i)) [0..<length N] \<noteq> [])
         (filter (\<lambda>i. ?selected (N ! i)) [0..<length N] \<noteq> [])
         (filter (\<lambda>i. ?admitted (N ! i)) [0..<length N] \<noteq> [])
         (filter (\<lambda>i. ?intersecting (N ! i)) [0..<length N] \<noteq> []))" for N
    unfolding matchingListeners_def Let_def filter_filter conj_assoc ..
  moreover have "filter (\<lambda>i. ?selected (L ! i)) [0..<length M] = filter (\<lambda>i. ?selected (M ! i)) [0..<length M]"
    by (rule eq, drule bare_fields(1), simp)
  moreover have "filter (\<lambda>i. ?admitted (L ! i)) [0..<length M] = filter (\<lambda>i. ?admitted (M ! i)) [0..<length M]"
    by (rule eq, frule bare_fields(1), frule bare_fields(3), drule bare_fields(4), simp)
  moreover have "filter (\<lambda>i. ?intersecting (L ! i)) [0..<length M] = filter (\<lambda>i. ?intersecting (M ! i)) [0..<length M]"
    by (rule eq, frule bare_fields(1), frule bare_fields(3), drule bare_fields(4), simp)
  moreover have "filter (\<lambda>i. ?candidate (L ! i)) [0..<length M] = filter (\<lambda>i. ?candidate (M ! i)) [0..<length M]"
    by (rule eq, frule bare_fields(1), frule bare_fields(3), drule bare_fields(4), simp)
  ultimately show ?thesis by (simp only: bare_nth(1) [OF assms])
qed

lemma listenerClaimsHost_bare:
  assumes "map bare L = map bare M" and "i < length M"
  shows "listenerClaimsHost i h L = listenerClaimsHost i h M"
proof -
  have fields: "lx_spec (L ! j) = lx_spec (M ! j)" "listener_live (L ! j) = listener_live (M ! j)" if "j < length M" for j
    using bare_fields [OF bare_nth(2) [OF assms(1) that]] by simp_all
  show ?thesis
    using fields assms(2) by (auto simp: listenerClaimsHost_def list_all_iff Let_def bare_nth(1) [OF assms(1)])
qed

definition offers_host :: "listenerTranslation list \<Rightarrow> httpRoute \<Rightarrow> nat \<Rightarrow> string \<Rightarrow> string \<Rightarrow> bool" where
  "offers_host L route i l h \<longleftrightarrow>
     (\<exists>ir. lx_ir (L ! i) = Some ir \<and> il_Name ir = l) \<and> h \<in> set (route_hosts route (lx_spec (L ! i))) \<and> listenerClaimsHost i h L"

lemma attach_listener_entries:
  assumes bare: "map bare (rx_listeners st) = map bare L" and i: "i < length L"
  shows "map bare (rx_listeners (attach_listener route cs i st)) = map bare L"
    and "host_entry (rx_hosts (attach_listener route cs i st)) l h c \<longleftrightarrow>
      host_entry (rx_hosts st) l h c \<or> (offers_host L route i l h \<and> c \<in> set cs)"
proof -
  let ?t = "rx_listeners st ! i"
  define u where "u = ?t\<lparr>lx_attachedRoutes := List.insert (hr_Namespace route, hr_Name route) (lx_attachedRoutes ?t)\<rparr>"
  have listeners: "rx_listeners (attach_listener route cs i st) = (rx_listeners st)[i := u]"
    by (simp add: attach_listener_def u_def Let_def split: option.split)
  have "bare u = bare (L ! i)"
    using bare_nth(2) [OF bare i] by (simp add: u_def bare_def)
  then show kept: "map bare (rx_listeners (attach_listener route cs i st)) = map bare L"
    unfolding listeners using i by (simp add: map_update bare list_update_same_conv)
  have claims: "listenerClaimsHost i x ((rx_listeners st)[i := u]) = listenerClaimsHost i x L" for x
    using listenerClaimsHost_bare [OF kept [unfolded listeners] i] .
  have fields: "lx_spec ?t = lx_spec (L ! i)" "lx_ir ?t = lx_ir (L ! i)"
    using bare_fields [OF bare_nth(2) [OF bare i]] by simp_all
  show "host_entry (rx_hosts (attach_listener route cs i st)) l h c \<longleftrightarrow>
      host_entry (rx_hosts st) l h c \<or> (offers_host L route i l h \<and> c \<in> set cs)"
  proof (cases "lx_ir (L ! i)")
    case None
    then show ?thesis by (simp add: attach_listener_def fields offers_host_def Let_def)
  next
    case (Some ir)
    then have "rx_hosts (attach_listener route cs i st) = fold (add_host (il_Name ir) cs)
        (filter (\<lambda>h. listenerClaimsHost i h L) (route_hosts route (lx_spec (L ! i)))) (rx_hosts st)"
      using claims by (simp add: attach_listener_def fields u_def Let_def)
    then show ?thesis using Some by (auto simp: host_entry_fold offers_host_def)
  qed
qed

lemma attach_listeners_entries:
  assumes "map bare (rx_listeners st) = map bare L" and "\<forall>i \<in> set is. i < length L"
  shows "map bare (rx_listeners (fold (attach_listener route cs) is st)) = map bare L \<and>
    (host_entry (rx_hosts (fold (attach_listener route cs) is st)) l h c \<longleftrightarrow>
      host_entry (rx_hosts st) l h c \<or> ((\<exists>i \<in> set is. offers_host L route i l h) \<and> c \<in> set cs))"
  using assms
proof (induction "is" arbitrary: st)
  case (Cons i "is")
  then have i: "i < length L" by simp
  note step = attach_listener_entries [OF Cons.prems(1) i, of route cs]
  from Cons.IH [OF step(1)] Cons.prems(2) step(2) show ?case by auto
qed simp

text \<open>What \<^verbatim>\<open>matchingListeners\<close> selects, and the parents through which a Route reaches a host.\<close>

lemma matchingListeners_targets:
  "set (fst (matchingListeners ext inp gw route parent L)) =
     {i. i < length L \<and> parent_selects parent (lx_spec (L ! i)) \<and> listener_admits ext inp gw route (lx_spec (L ! i)) \<and>
       route_hosts route (lx_spec (L ! i)) \<noteq> [] \<and> lx_accepted (L ! i) \<and> \<not> lx_conflicted (L ! i)}"
  by (auto simp: matchingListeners_def Let_def)

lemma matchingListeners_accepted:
  "oc_accepted (snd (matchingListeners ext inp gw route parent L)) \<longleftrightarrow> fst (matchingListeners ext inp gw route parent L) \<noteq> []"
  by (simp add: matchingListeners_def match_outcome_def accepted_outcome_def rejected_outcome_def Let_def)

lemma parent_outcome_accepted:
  "oc_accepted (parent_outcome rules o1) \<longleftrightarrow> oc_accepted o1 \<and> \<not> (rl_compiled rules = [] \<and> rl_dropped rules \<noteq> [])"
  by (auto simp: parent_outcome_def Let_def)

definition parent_reaches ::
  "externals \<Rightarrow> inputs \<Rightarrow> gateway \<Rightarrow> listenerTranslation list \<Rightarrow> httpRoute \<Rightarrow> parentReference \<Rightarrow> string \<Rightarrow> string \<Rightarrow> bool" where
  "parent_reaches ext inp gw L route parent l h \<longleftrightarrow>
     parentTargetsGateway parent (hr_Namespace route) gw \<and>
     (\<exists>i \<in> set (fst (matchingListeners ext inp gw route parent L)). offers_host L route i l h)"

lemma attach_parent_entries:
  assumes bare: "map bare (rx_listeners (fst sr)) = map bare L"
  shows "map bare (rx_listeners (fst (attach_parent ext inp gw now route rules parent sr))) = map bare L \<and>
    (host_entry (rx_hosts (fst (attach_parent ext inp gw now route rules parent sr))) l h c \<longleftrightarrow>
      host_entry (rx_hosts (fst sr)) l h c \<or> (parent_reaches ext inp gw L route parent l h \<and> c \<in> set (rl_compiled rules)))"
proof -
  obtain st reps where sr: "sr = (st, reps)" by (cases sr)
  obtain targets outcome where m: "matchingListeners ext inp gw route parent L = (targets, outcome)"
    by (cases "matchingListeners ext inp gw route parent L")
  have bounded: "\<forall>i \<in> set targets. i < length L"
    using matchingListeners_targets [of ext inp gw route parent L] m by auto
  have same: "matchingListeners ext inp gw route parent (rx_listeners st) = (targets, outcome)"
    using matchingListeners_bare [of "rx_listeners st" L] bare m by (simp add: sr)
  have accepted: "oc_accepted (parent_outcome rules outcome) \<longleftrightarrow> targets \<noteq> [] \<and> \<not> (rl_compiled rules = [] \<and> rl_dropped rules \<noteq> [])"
    using matchingListeners_accepted [of ext inp gw route parent L] m by (simp add: parent_outcome_accepted)
  have bare': "map bare (rx_listeners st) = map bare L" using bare by (simp add: sr)
  note fold = attach_listeners_entries [OF bare' bounded, of route "rl_compiled rules"]
  show ?thesis
  proof (cases "parentTargetsGateway parent (hr_Namespace route) gw")
    case True
    then have "fst (attach_parent ext inp gw now route rules parent sr) =
        (if oc_accepted (parent_outcome rules outcome) then fold (attach_listener route (rl_compiled rules)) targets st else st)"
      by (simp add: attach_parent_def sr same Let_def)
    then show ?thesis
      using fold True accepted bare' by (auto simp: sr parent_reaches_def m)
  qed (simp add: attach_parent_def sr parent_reaches_def bare')
qed

lemma attach_parents_entries:
  assumes "map bare (rx_listeners (fst sr)) = map bare L"
  shows "map bare (rx_listeners (fst (fold (attach_parent ext inp gw now route rules) parents sr))) = map bare L \<and>
    (host_entry (rx_hosts (fst (fold (attach_parent ext inp gw now route rules) parents sr))) l h c \<longleftrightarrow>
      host_entry (rx_hosts (fst sr)) l h c \<or>
      ((\<exists>parent \<in> set parents. parent_reaches ext inp gw L route parent l h) \<and> c \<in> set (rl_compiled rules)))"
  using assms
proof (induction parents arbitrary: sr)
  case (Cons parent parents)
  note step = attach_parent_entries [OF Cons.prems, of ext inp gw now route rules parent]
  from Cons.IH [OF conjunct1 [OF step]] step show ?case by auto
qed simp

lemma compile_http_route_entries:
  assumes "map bare (rx_listeners st) = map bare L"
  shows "map bare (rx_listeners (compile_http_route ext inp gw now route st)) = map bare L \<and>
    (host_entry (rx_hosts (compile_http_route ext inp gw now route st)) l h c \<longleftrightarrow>
      host_entry (rx_hosts st) l h c \<or>
      ((\<exists>parent \<in> set (hr_ParentRefs route). parent_reaches ext inp gw L route parent l h) \<and>
       c \<in> set (rl_compiled (compileRules ext inp route))))"
proof -
  let ?out = "fold (attach_parent ext inp gw now route (compileRules ext inp route)) (hr_ParentRefs route) (st, [])"
  have "rx_listeners (compile_http_route ext inp gw now route st) = rx_listeners (fst ?out)"
    and "rx_hosts (compile_http_route ext inp gw now route st) = rx_hosts (fst ?out)"
    by (simp_all add: compile_http_route_def Let_def split: prod.split)
  then show ?thesis using attach_parents_entries [of "(st, [])" L] assms by simp
qed

definition route_reaches ::
  "externals \<Rightarrow> inputs \<Rightarrow> gateway \<Rightarrow> listenerTranslation list \<Rightarrow> string \<Rightarrow> string \<Rightarrow> compiledRoute \<Rightarrow> httpRoute \<Rightarrow> bool" where
  "route_reaches ext inp gw L l h c route \<longleftrightarrow>
     (\<exists>parent \<in> set (hr_ParentRefs route). parent_reaches ext inp gw L route parent l h) \<and>
     c \<in> set (rl_compiled (compileRules ext inp route))"

lemma compile_http_routes_entries:
  assumes "map bare (rx_listeners st) = map bare L"
  shows "map bare (rx_listeners (fold (compile_http_route ext inp gw now) routes st)) = map bare L \<and>
    (host_entry (rx_hosts (fold (compile_http_route ext inp gw now) routes st)) l h c \<longleftrightarrow>
      host_entry (rx_hosts st) l h c \<or> (\<exists>route \<in> set routes. route_reaches ext inp gw L l h c route))"
  using assms
proof (induction routes arbitrary: st)
  case (Cons route routes)
  note step = compile_http_route_entries [OF Cons.prems, of ext inp gw now route]
  from Cons.IH [OF conjunct1 [OF step]] step show ?case by (auto simp: route_reaches_def)
qed simp

section \<open>Lemmas on virtual hosts\<close>

abbreviation attached_hosts ::
  "externals \<Rightarrow> inputs \<Rightarrow> gateway \<Rightarrow> listenerTranslation list \<Rightarrow> time \<Rightarrow> host_routes" where
  "attached_hosts ext inp gw L now \<equiv>
     rx_hosts (fold (compile_http_route ext inp gw now) (sort_func compare_http_routes (in_HTTPRoutes inp))
       \<lparr>rx_listeners = L, rx_hosts = [], rx_statuses = []\<rparr>)"

lemma attached_hosts_entry:
  "host_entry (attached_hosts ext inp gw L now) l h c \<longleftrightarrow>
     (\<exists>route \<in> set (in_HTTPRoutes inp). route_reaches ext inp gw L l h c route)"
  using compile_http_routes_entries [of "\<lparr>rx_listeners = L, rx_hosts = [], rx_statuses = []\<rparr>" L ext inp gw now
      "sort_func compare_http_routes (in_HTTPRoutes inp)" l h c] by simp

text \<open>Every domain of the result extends one of the given domains.\<close>

definition last_named :: "protectionDomain list \<Rightarrow> nat \<Rightarrow> bool" where
  "last_named ds i \<longleftrightarrow> pd_ListenerName (ds ! i) \<notin> pd_ListenerName ` set (drop (Suc i) ds)"

lemma last_named_Cons:
  "last_named (d # ds) 0 \<longleftrightarrow> \<not> list_ex (\<lambda>e. pd_ListenerName e = pd_ListenerName d) ds"
  "last_named (d # ds) (Suc i) \<longleftrightarrow> last_named ds i"
  by (auto simp: last_named_def list_ex_iff image_iff)

lemma attach_virtual_hosts_nth:
  "length (attach_virtual_hosts hosts ds) = length ds \<and>
   (\<forall>i < length ds. attach_virtual_hosts hosts ds ! i =
      (if last_named ds i then add_virtual_hosts hosts (ds ! i) else ds ! i))"
proof (induction ds)
  case (Cons d ds)
  show ?case
  proof (intro conjI allI impI)
    show "length (attach_virtual_hosts hosts (d # ds)) = length (d # ds)" using Cons by simp
    fix i assume "i < length (d # ds)"
    then show "attach_virtual_hosts hosts (d # ds) ! i =
      (if last_named (d # ds) i then add_virtual_hosts hosts ((d # ds) ! i) else (d # ds) ! i)"
      using Cons by (cases i) (simp_all add: last_named_Cons)
  qed
qed simp

lemma virtual_hosts_of_domain:
  assumes d: "d \<in> set (ig_Domains (fst (compileHTTPRoutes ext inp gw out L now)))"
    and empty: "\<forall>e \<in> set (ig_Domains out). pd_VirtualHosts e = []"
    and vh: "vh \<in> set (pd_VirtualHosts d)" and r: "r \<in> set (vh_Routes vh)"
  shows "\<exists>c. host_entry (attached_hosts ext inp gw L now) (pd_ListenerName d) (vh_Hostname vh) c \<and> r = cro_route c"
proof -
  let ?hosts = "attached_hosts ext inp gw L now" and ?ds = "attach_virtual_hosts (attached_hosts ext inp gw L now) (ig_Domains out)"
  obtain e where e: "e \<in> set ?ds" and name: "pd_ListenerName d = pd_ListenerName e"
    and "vh \<in> set (pd_VirtualHosts e) \<or> vh_Routes vh = []"
    using d vh by (auto simp: compileHTTPRoutes_def ensure_listener_host_def Let_def split: if_splits option.splits)
  then have vh': "vh \<in> set (pd_VirtualHosts e)" using r by auto
  obtain i where i: "i < length (ig_Domains out)" "e = ?ds ! i"
    using e attach_virtual_hosts_nth [of ?hosts "ig_Domains out"] by (auto simp: in_set_conv_nth)
  have given: "pd_VirtualHosts (ig_Domains out ! i) = []" using empty i by simp
  have "e = (if last_named (ig_Domains out) i then add_virtual_hosts ?hosts (ig_Domains out ! i) else ig_Domains out ! i)"
    using i attach_virtual_hosts_nth [of ?hosts "ig_Domains out"] by simp
  then obtain byHost where by_host: "mget ?hosts (pd_ListenerName e) = Some byHost"
    and "vh \<in> set (listener_virtual_hosts (pd_ListenerName e) byHost)"
    using vh' given by (auto simp: add_virtual_hosts_def split: if_splits option.splits)
  then obtain h where "vh = virtual_host (pd_ListenerName e) h (mget_default byHost h [])"
    by (auto simp: listener_virtual_hosts_def)
  then have "vh_Hostname vh = h" and "r \<in> cro_route ` set (mget_default byHost h [])"
    using r by (auto simp: virtual_host_def set_sort_any)
  then show ?thesis using by_host by (auto simp: host_entry_def mget_default_def name)
qed

lemma compileHTTPRoutes_domains:
  assumes "d \<in> set (ig_Domains (fst (compileHTTPRoutes ext inp gw out L now)))"
  obtains e where "e \<in> set (attach_virtual_hosts (attached_hosts ext inp gw L now) (ig_Domains out))"
    and "d = e \<or> d = ensure_listener_host (ig_Listeners out) e"
  using assms by (auto simp: compileHTTPRoutes_def Let_def split: if_splits)

lemma ensure_listener_host_keeps:
  "pd_ListenerName (ensure_listener_host ls e) = pd_ListenerName e"
  "set (pd_VirtualHosts e) \<subseteq> set (pd_VirtualHosts (ensure_listener_host ls e))"
  by (auto simp: ensure_listener_host_def split: option.splits)

lemma entry_virtual_host:
  assumes entry: "host_entry hosts (pd_ListenerName d) h c"
  shows "\<exists>vh \<in> set (pd_VirtualHosts (add_virtual_hosts hosts d)). vh_Hostname vh = h \<and> cro_route c \<in> set (vh_Routes vh)"
proof -
  obtain byHost where by_host: "mget hosts (pd_ListenerName d) = Some byHost"
    using entry by (cases "mget hosts (pd_ListenerName d)") (auto simp: host_entry_def mget_default_def)
  obtain cs where cs: "mget byHost h = Some cs" "c \<in> set cs"
    using entry by_host by (cases "mget byHost h") (auto simp: host_entry_def mget_default_def)
  then have "h \<in> set (map fst byHost)" by (metis domI dom_map_of_conv_image_fst list.set_map)
  then have "virtual_host (pd_ListenerName d) h (mget_default byHost h []) \<in> set (listener_virtual_hosts (pd_ListenerName d) byHost)"
    by (auto simp: listener_virtual_hosts_def)
  then show ?thesis using cs by_host
    by (intro bexI [of _ "virtual_host (pd_ListenerName d) h (mget_default byHost h [])"])
      (auto simp: virtual_host_def add_virtual_hosts_def mget_default_def set_sort_any)
qed

lemma last_named_distinct:
  assumes "distinct (map pd_ListenerName ds)" and "i < length ds"
  shows "last_named ds i"
  unfolding last_named_def
proof
  assume "pd_ListenerName (ds ! i) \<in> pd_ListenerName ` set (drop (Suc i) ds)"
  then obtain k where k: "k < length ds - Suc i" and "pd_ListenerName (ds ! i) = pd_ListenerName (ds ! (Suc i + k))"
    by (auto simp: in_set_conv_nth)
  moreover from k have "Suc i + k < length ds" by linarith
  ultimately show False using nth_eq_iff_index_eq [OF assms(1), of i "Suc i + k"] assms(2) by simp
qed

lemma attached_hosts_served:
  assumes "distinct (map pd_ListenerName (ig_Domains out))"
    and "d \<in> set (ig_Domains (fst (compileHTTPRoutes ext inp gw out L now)))"
    and "host_entry (attached_hosts ext inp gw L now) (pd_ListenerName d) h c"
  shows "\<exists>vh \<in> set (pd_VirtualHosts d). vh_Hostname vh = h \<and> cro_route c \<in> set (vh_Routes vh)"
proof -
  let ?hosts = "attached_hosts ext inp gw L now"
  obtain e where e: "e \<in> set (attach_virtual_hosts ?hosts (ig_Domains out))"
    and d: "d = e \<or> d = ensure_listener_host (ig_Listeners out) e"
    using compileHTTPRoutes_domains [OF assms(2)] .
  obtain i where "i < length (ig_Domains out)" and e_eq: "e = add_virtual_hosts ?hosts (ig_Domains out ! i)"
    using e attach_virtual_hosts_nth [of ?hosts "ig_Domains out"] last_named_distinct [OF assms(1)]
    by (auto simp: in_set_conv_nth)
  have "pd_ListenerName d = pd_ListenerName (ig_Domains out ! i)"
    using d by (auto simp: ensure_listener_host_keeps e_eq add_virtual_hosts_def split: option.splits)
  then have "\<exists>vh \<in> set (pd_VirtualHosts e). vh_Hostname vh = h \<and> cro_route c \<in> set (vh_Routes vh)"
    using assms(3) entry_virtual_host unfolding e_eq by simp
  then show ?thesis using d ensure_listener_host_keeps(2) by blast
qed

section \<open>Properties\<close>

text \<open>
  C11: a route is served under a hostname of a Listener exactly when it was attached there. A virtual host of
  a domain holds a route iff that route was compiled from an HTTPRoute with a parent reference that
  targets the Gateway and selects a live Listener of that name, the Listener admits the route's namespace and
  kind, the hostname is in the intersection of Route and Listener hostnames, and no live Listener of the
  same port and protocol with a more specific hostname claims it.
\<close>
theorem route_attachment_exact:
  assumes "\<forall>e \<in> set (ig_Domains out). pd_VirtualHosts e = []" and "distinct (map pd_ListenerName (ig_Domains out))"
    and "d \<in> set (ig_Domains (fst (compileHTTPRoutes ext inp gw out listeners now)))"
  shows "(\<exists>vh \<in> set (pd_VirtualHosts d). vh_Hostname vh = h \<and> r \<in> set (vh_Routes vh)) \<longleftrightarrow>
    (\<exists>route \<in> set (in_HTTPRoutes inp). \<exists>parent \<in> set (hr_ParentRefs route). \<exists>i < length listeners.
       parentTargetsGateway parent (hr_Namespace route) gw \<and> parent_selects parent (lx_spec (listeners ! i)) \<and>
       routeNamespaceAllowed ext inp gw (lx_spec (listeners ! i)) (hr_Namespace route) \<and>
       listenerAllowsHTTPRoute (lx_spec (listeners ! i)) \<and> listener_live (listeners ! i) \<and>
       il_Name (the (lx_ir (listeners ! i))) = pd_ListenerName d \<and>
       h \<in> set (ComputeHosts (hr_Hostnames route) (ln_Hostname (lx_spec (listeners ! i))) []) \<and>
       listenerClaimsHost i h listeners \<and>
       r \<in> cro_route ` set (rl_compiled (compileRules ext inp route)))"
proof -
  let ?served = "\<exists>vh \<in> set (pd_VirtualHosts d). vh_Hostname vh = h \<and> r \<in> set (vh_Routes vh)"
  have "?served \<longleftrightarrow> (\<exists>c. host_entry (attached_hosts ext inp gw listeners now) (pd_ListenerName d) h c \<and> r = cro_route c)"
    using virtual_hosts_of_domain [OF assms(3,1)] attached_hosts_served [OF assms(2,3)] by blast
  also have "\<dots> \<longleftrightarrow> (\<exists>route \<in> set (in_HTTPRoutes inp). \<exists>parent \<in> set (hr_ParentRefs route). \<exists>i < length listeners.
       parentTargetsGateway parent (hr_Namespace route) gw \<and> parent_selects parent (lx_spec (listeners ! i)) \<and>
       listener_admits ext inp gw route (lx_spec (listeners ! i)) \<and> lx_accepted (listeners ! i) \<and>
       \<not> lx_conflicted (listeners ! i) \<and> offers_host listeners route i (pd_ListenerName d) h \<and>
       r \<in> cro_route ` set (rl_compiled (compileRules ext inp route)))"
    unfolding attached_hosts_entry route_reaches_def parent_reaches_def matchingListeners_targets offers_host_def
    by (auto simp: image_iff) (metis empty_iff list.set(1))+
  finally have attached: "?served \<longleftrightarrow> (\<exists>route \<in> set (in_HTTPRoutes inp). \<exists>parent \<in> set (hr_ParentRefs route). \<exists>i < length listeners.
       parentTargetsGateway parent (hr_Namespace route) gw \<and> parent_selects parent (lx_spec (listeners ! i)) \<and>
       listener_admits ext inp gw route (lx_spec (listeners ! i)) \<and> lx_accepted (listeners ! i) \<and>
       \<not> lx_conflicted (listeners ! i) \<and> offers_host listeners route i (pd_ListenerName d) h \<and>
       r \<in> cro_route ` set (rl_compiled (compileRules ext inp route)))" .
  have "(parentTargetsGateway parent (hr_Namespace route) gw \<and> parent_selects parent (lx_spec (listeners ! i)) \<and>
       listener_admits ext inp gw route (lx_spec (listeners ! i)) \<and> lx_accepted (listeners ! i) \<and>
       \<not> lx_conflicted (listeners ! i) \<and> offers_host listeners route i (pd_ListenerName d) h \<and>
       r \<in> cro_route ` set (rl_compiled (compileRules ext inp route))) \<longleftrightarrow>
      (parentTargetsGateway parent (hr_Namespace route) gw \<and> parent_selects parent (lx_spec (listeners ! i)) \<and>
       routeNamespaceAllowed ext inp gw (lx_spec (listeners ! i)) (hr_Namespace route) \<and>
       listenerAllowsHTTPRoute (lx_spec (listeners ! i)) \<and> listener_live (listeners ! i) \<and>
       il_Name (the (lx_ir (listeners ! i))) = pd_ListenerName d \<and>
       h \<in> set (ComputeHosts (hr_Hostnames route) (ln_Hostname (lx_spec (listeners ! i))) []) \<and>
       listenerClaimsHost i h listeners \<and>
       r \<in> cro_route ` set (rl_compiled (compileRules ext inp route)))" for route parent i
    by (cases "lx_ir (listeners ! i)") (simp_all add: offers_host_def listener_admits_def listener_live_def route_hosts_def conj_ac)
  then show ?thesis unfolding attached by (simp only:)
qed

definition example_attached :: listenerTranslation where
  "example_attached = (start_translation example_services (example_listener ''l1'' ''x.io''))\<lparr>lx_ir :=
     Some \<lparr>il_Name = ''l1'', il_Hostname = ''x.io'', il_Port = 443, il_EnvoyPort = 18080, il_Protocol = HTTPSProtocolType,
       il_Exposure = ExposurePublic, il_Binding = [], il_TLS = None\<rparr>\<rparr>"

definition example_route_gateway :: irGateway where
  "example_route_gateway = empty_gateway\<lparr>ig_Domains := [listener_domain example_attached]\<rparr>"

lemma example_attached_fields [simp]:
  "lx_spec example_attached = example_listener ''l1'' ''x.io''" "listener_live example_attached"
  "il_Name (the (lx_ir example_attached)) = ''l1''"
  "pd_ListenerName (listener_domain example_attached) = ''l1''" "pd_VirtualHosts (listener_domain example_attached) = []"
  by (simp_all add: example_attached_def start_translation_def listener_live_def listener_domain_def Let_def)

lemma example_domain_names:
  assumes "d \<in> set (ig_Domains (fst (compileHTTPRoutes ext inp gw example_route_gateway L now)))"
  shows "pd_ListenerName d = ''l1''"
proof -
  obtain e where e: "e \<in> set (attach_virtual_hosts (attached_hosts ext inp gw L now) (ig_Domains example_route_gateway))"
    and d: "d = e \<or> d = ensure_listener_host (ig_Listeners example_route_gateway) e"
    using compileHTTPRoutes_domains [OF assms] .
  have "pd_ListenerName e = ''l1''"
    using e by (auto simp: example_route_gateway_def add_virtual_hosts_def split: option.splits)
  then show ?thesis using d by (auto simp: ensure_listener_host_keeps)
qed

lemma example_domains_served:
  "set (ig_Domains (fst (compileHTTPRoutes ext inp gw example_route_gateway L now))) \<noteq> {}"
  by (simp add: compileHTTPRoutes_def example_route_gateway_def Let_def)

theorem route_attachment_exact_witness:
  "\<exists>d \<in> set (ig_Domains (fst (compileHTTPRoutes example_externals example_services example_gw example_route_gateway
       [example_attached] 5))).
     \<exists>vh \<in> set (pd_VirtualHosts d). vh_Hostname vh = ''x.io'' \<and>
       cro_route (hd (rl_compiled (compileRules example_externals example_services example_route))) \<in> set (vh_Routes vh)"
proof -
  obtain d where d: "d \<in> set (ig_Domains (fst (compileHTTPRoutes example_externals example_services example_gw example_route_gateway
       [example_attached] 5)))"
    using example_domains_served [of example_externals example_services example_gw "[example_attached]" 5] by (meson ex_in_conv)
  let ?r = "cro_route (hd (rl_compiled (compileRules example_externals example_services example_route)))"
  have hosts: "''x.io'' \<in> set (ComputeHosts (hr_Hostnames example_route) (ln_Hostname (lx_spec ([example_attached] ! 0))) [])"
    by (simp add: ComputeHosts_def example_route_def example_listener_def hostname_value_def)
  have allowed: "routeNamespaceAllowed example_externals example_services example_gw (lx_spec ([example_attached] ! 0)) (hr_Namespace example_route)"
    by (simp add: routeNamespaceAllowed_def example_listener_def example_gw_def example_route_def)
  have kinds: "listenerAllowsHTTPRoute (lx_spec ([example_attached] ! 0))"
    by (simp add: listenerAllowsHTTPRoute_def example_listener_def)
  have parent: "parentTargetsGateway (hd (hr_ParentRefs example_route)) (hr_Namespace example_route) example_gw"
    "parent_selects (hd (hr_ParentRefs example_route)) (lx_spec ([example_attached] ! 0))"
    "hd (hr_ParentRefs example_route) \<in> set (hr_ParentRefs example_route)"
    by (simp_all add: parentTargetsGateway_def parent_selects_def example_route_def example_gw_def)
  have route: "example_route \<in> set (in_HTTPRoutes example_services)" by (simp add: example_services_def)
  have claims: "listenerClaimsHost 0 ''x.io'' [example_attached]" by (simp add: listenerClaimsHost_def)
  have compiled: "?r \<in> cro_route ` set (rl_compiled (compileRules example_externals example_services example_route))"
    by (simp add: example_route_compiles)
  have iff: "(\<exists>vh \<in> set (pd_VirtualHosts d). vh_Hostname vh = ''x.io'' \<and> ?r \<in> set (vh_Routes vh)) \<longleftrightarrow>
    (\<exists>route \<in> set (in_HTTPRoutes example_services). \<exists>parent \<in> set (hr_ParentRefs route). \<exists>i < length [example_attached].
       parentTargetsGateway parent (hr_Namespace route) example_gw \<and> parent_selects parent (lx_spec ([example_attached] ! i)) \<and>
       routeNamespaceAllowed example_externals example_services example_gw (lx_spec ([example_attached] ! i)) (hr_Namespace route) \<and>
       listenerAllowsHTTPRoute (lx_spec ([example_attached] ! i)) \<and> listener_live ([example_attached] ! i) \<and>
       il_Name (the (lx_ir ([example_attached] ! i))) = pd_ListenerName d \<and>
       ''x.io'' \<in> set (ComputeHosts (hr_Hostnames route) (ln_Hostname (lx_spec ([example_attached] ! i))) []) \<and>
       listenerClaimsHost i ''x.io'' [example_attached] \<and>
       ?r \<in> cro_route ` set (rl_compiled (compileRules example_externals example_services route)))"
    by (rule route_attachment_exact [OF _ _ d]) (simp_all add: example_route_gateway_def)
  have "\<exists>vh \<in> set (pd_VirtualHosts d). vh_Hostname vh = ''x.io'' \<and> ?r \<in> set (vh_Routes vh)"
    unfolding iff
    by (intro bexI [OF _ route] bexI [OF _ parent(3)] exI [of _ "0::nat"] conjI parent(1,2) allowed kinds hosts claims compiled)
      (simp_all add: example_domain_names [OF d])
  with d show ?thesis by blast
qed

text \<open>The inner maps have distinct keys.\<close>

definition hosts_ok :: "host_routes \<Rightarrow> bool" where
  "hosts_ok hosts \<longleftrightarrow> (\<forall>l byHost. mget hosts l = Some byHost \<longrightarrow> keys_ok byHost)"

lemma hosts_ok_add: "hosts_ok hosts \<Longrightarrow> hosts_ok (add_host l cs h hosts)"
  by (auto simp: hosts_ok_def add_host_def mget_default_def Let_def split: option.splits)

lemma hosts_ok_attach: "hosts_ok (rx_hosts st) \<Longrightarrow> hosts_ok (rx_hosts (attach_listener route cs i st))"
proof (cases "lx_ir (rx_listeners st ! i)")
  case (Some l)
  assume ok: "hosts_ok (rx_hosts st)"
  have "hosts_ok (fold (add_host (il_Name l) cs) hs (rx_hosts st))" for hs
    by (rule fold_invariant [where Q = "\<lambda>_. True" and P = hosts_ok]) (simp_all add: ok hosts_ok_add)
  then show ?thesis by (simp add: attach_listener_def Some Let_def)
qed (simp add: attach_listener_def Let_def)

lemma hosts_ok_route:
  assumes "hosts_ok (rx_hosts st)"
  shows "hosts_ok (rx_hosts (compile_http_route ext inp gw now route st))"
proof -
  have parent: "hosts_ok (rx_hosts (fst (attach_parent ext inp gw now route rules p sr)))"
    if "hosts_ok (rx_hosts (fst sr))" for rules p sr
  proof (cases "parentTargetsGateway p (hr_Namespace route) gw")
    case True
    obtain s reps where sr: "sr = (s, reps)" by (cases sr)
    have "hosts_ok (rx_hosts (fold (attach_listener route (rl_compiled rules)) targets s))" for targets
      by (rule fold_invariant [where Q = "\<lambda>_. True" and P = "\<lambda>st. hosts_ok (rx_hosts st)"])
        (use that in \<open>simp_all add: hosts_ok_attach sr\<close>)
    then show ?thesis using that True by (simp add: attach_parent_def sr Let_def split: prod.split)
  qed (use that in \<open>simp add: attach_parent_def split: prod.split\<close>)
  have "hosts_ok (rx_hosts (fst (fold (attach_parent ext inp gw now route (compileRules ext inp route)) (hr_ParentRefs route) (st, []))))"
    by (rule fold_invariant [where Q = "\<lambda>_. True" and P = "\<lambda>sr. hosts_ok (rx_hosts (fst sr))"])
      (simp_all add: assms parent)
  moreover have "rx_hosts (compile_http_route ext inp gw now route st) =
      rx_hosts (fst (fold (attach_parent ext inp gw now route (compileRules ext inp route)) (hr_ParentRefs route) (st, [])))"
    by (simp add: compile_http_route_def Let_def split: prod.split)
  ultimately show ?thesis by simp
qed

lemma attached_hosts_ok: "hosts_ok (attached_hosts ext inp gw L now)"
  by (rule fold_invariant [where Q = "\<lambda>_. True" and P = "\<lambda>st. hosts_ok (rx_hosts st)"])
    (simp_all add: hosts_ok_route hosts_ok_def [of "[]"])

text \<open>The virtual hosts of a domain: the sorted attached hosts, then possibly the Listener's own.\<close>

lemma domain_virtual_hosts:
  assumes "\<forall>e \<in> set (ig_Domains out). pd_VirtualHosts e = []"
    and "d \<in> set (ig_Domains (fst (compileHTTPRoutes ext inp gw out L now)))"
  obtains byHost extra where
    "pd_VirtualHosts d = listener_virtual_hosts (pd_ListenerName d) byHost @ extra"
    "byHost = [] \<or> mget (attached_hosts ext inp gw L now) (pd_ListenerName d) = Some byHost"
    "extra = [] \<or> (\<exists>v. extra = [v] \<and> vh_Routes v = [] \<and> vh_Hostname v \<notin> set (map fst byHost))"
proof -
  let ?hosts = "attached_hosts ext inp gw L now"
  obtain e where e: "e \<in> set (attach_virtual_hosts ?hosts (ig_Domains out))"
    and d: "d = e \<or> d = ensure_listener_host (ig_Listeners out) e"
    using compileHTTPRoutes_domains [OF assms(2)] .
  obtain i where i: "i < length (ig_Domains out)"
    and "e = add_virtual_hosts ?hosts (ig_Domains out ! i) \<or> e = ig_Domains out ! i"
    using e attach_virtual_hosts_nth [of ?hosts "ig_Domains out"] by (auto simp: in_set_conv_nth)
  moreover have "pd_VirtualHosts (ig_Domains out ! i) = []" using assms(1) i by simp
  ultimately obtain byHost where hosts: "pd_VirtualHosts e = listener_virtual_hosts (pd_ListenerName e) byHost"
    and by_host: "byHost = [] \<or> mget ?hosts (pd_ListenerName e) = Some byHost"
    by (force simp: add_virtual_hosts_def listener_virtual_hosts_def split: option.splits)
  have names: "vh_Hostname ` set (pd_VirtualHosts e) = set (map fst byHost)"
    by (simp add: hosts listener_virtual_hosts_def virtual_host_def image_image)
  have "hasVirtualHost (pd_VirtualHosts e) h \<longleftrightarrow> h \<in> set (map fst byHost)" for h
    unfolding names [symmetric] by (auto simp: hasVirtualHost_def list_ex_iff)
  then have "pd_VirtualHosts d = pd_VirtualHosts e \<or>
      (\<exists>v. pd_VirtualHosts d = pd_VirtualHosts e @ [v] \<and> vh_Routes v = [] \<and> vh_Hostname v \<notin> set (map fst byHost))"
    using d by (auto simp: ensure_listener_host_def split: option.splits if_splits)
  moreover have "pd_ListenerName d = pd_ListenerName e" using d by (auto simp: ensure_listener_host_keeps)
  ultimately show thesis using hosts by_host that [of byHost "[]"] that by fastforce
qed

text \<open>A compiled route of an HTTPRoute carries that route's age and name and its own position.\<close>

definition compiled_from :: "externals \<Rightarrow> inputs \<Rightarrow> httpRoute \<Rightarrow> compiledRoute \<Rightarrow> bool" where
  "compiled_from ext inp route c \<longleftrightarrow> c \<in> set (rl_compiled (compileRules ext inp route)) \<and>
     cro_creation c = hr_CreationTimestamp route \<and> cro_objectKey c = hr_Namespace route @ ''/'' @ hr_Name route \<and>
     cro_ruleIndex c = rs_RuleIndex (ro_Source (cro_route c)) \<and> cro_matchIndex c = rs_MatchIndex (ro_Source (cro_route c))"

lemma compiled_fromI: "c \<in> set (rl_compiled (compileRules ext inp route)) \<Longrightarrow> compiled_from ext inp route c"
  using compileRules_ok [of ext inp route] by (auto simp: compiled_ok_def compiled_from_def)

text \<open>
  C12: within a domain hostnames are unique and every virtual host lists its routes by precedence. Its routes
  are compiled from HTTPRoutes of the inputs, and a route listed earlier never comes after a later one by, in this order: exact
  path before regular expression before prefix, the longer prefix, a method match, more header matches, more query
  matches, the older HTTPRoute, the smaller namespace and name, and the position of the rule and of the match in it.
\<close>
theorem virtual_hosts_ordered:
  assumes "\<forall>e \<in> set (ig_Domains out). pd_VirtualHosts e = []"
    and "d \<in> set (ig_Domains (fst (compileHTTPRoutes ext inp gw out listeners now)))"
  shows "distinct (map vh_Hostname (pd_VirtualHosts d)) \<and>
    (\<forall>vh \<in> set (pd_VirtualHosts d). \<exists>cs. vh_Routes vh = map cro_route cs \<and>
       (\<forall>c \<in> set cs. \<exists>route \<in> set (in_HTTPRoutes inp). compiled_from ext inp route c) \<and>
       (\<forall>i j. i < j \<longrightarrow> j < length cs \<longrightarrow> route_precedence (cs ! i) (cs ! j) \<le> 0))"
proof -
  obtain byHost extra where
    hosts: "pd_VirtualHosts d = listener_virtual_hosts (pd_ListenerName d) byHost @ extra"
    and by_host: "byHost = [] \<or> mget (attached_hosts ext inp gw listeners now) (pd_ListenerName d) = Some byHost"
    and extra: "extra = [] \<or> (\<exists>v. extra = [v] \<and> vh_Routes v = [] \<and> vh_Hostname v \<notin> set (map fst byHost))"
    using domain_virtual_hosts [OF assms] .
  have "keys_ok byHost" using by_host attached_hosts_ok by (auto simp: hosts_ok_def)
  then have "distinct (sort_func compareHostnames (map fst byHost))"
    by (metis keys_ok_def mset_sort_any mset_eq_imp_distinct_iff)
  then have "distinct (map vh_Hostname (listener_virtual_hosts (pd_ListenerName d) byHost))"
    by (simp add: listener_virtual_hosts_def virtual_host_def comp_def)
  moreover have "set (map vh_Hostname (listener_virtual_hosts (pd_ListenerName d) byHost)) = set (map fst byHost)"
    by (simp add: listener_virtual_hosts_def virtual_host_def image_image)
  ultimately have "distinct (map vh_Hostname (pd_VirtualHosts d))"
    using extra unfolding hosts map_append distinct_append by (force simp del: set_map)
  moreover have "\<exists>cs. vh_Routes vh = map cro_route cs \<and>
      (\<forall>c \<in> set cs. \<exists>route \<in> set (in_HTTPRoutes inp). compiled_from ext inp route c) \<and> sorted_func route_precedence cs"
    if vh: "vh \<in> set (pd_VirtualHosts d)" for vh
  proof (cases "vh_Routes vh = []")
    case False
    then obtain h where h: "vh = virtual_host (pd_ListenerName d) h (mget_default byHost h [])"
      using vh extra by (auto simp: hosts listener_virtual_hosts_def)
    let ?cs = "mget_default byHost h []"
    have source: "\<exists>route \<in> set (in_HTTPRoutes inp). compiled_from ext inp route c" if "c \<in> set ?cs" for c
    proof -
      have "host_entry (attached_hosts ext inp gw listeners now) (pd_ListenerName d) h c"
        using that by_host by (auto simp: host_entry_def mget_default_def)
      then show ?thesis unfolding attached_hosts_entry route_reaches_def using compiled_fromI by blast
    qed
    have "known_path (ro_Match (cro_route c))" if "c \<in> set ?cs" for c
      using source [OF that] compileRules_ok unfolding compiled_from_def compiled_ok_def by blast
    then have "sort_func compareCompiledRoutes ?cs = sort_func route_precedence ?cs"
      by (intro sort_func_cong compareCompiledRoutes_precedence) auto
    then have "sorted_func route_precedence (sort_func compareCompiledRoutes ?cs)"
      by (simp add: precedence.sorted_sort_func)
    moreover have "\<forall>c \<in> set (sort_func compareCompiledRoutes ?cs). \<exists>route \<in> set (in_HTTPRoutes inp). compiled_from ext inp route c"
      using source by (simp add: set_sort_any)
    ultimately show ?thesis unfolding h virtual_host_def by (intro exI [of _ "sort_func compareCompiledRoutes ?cs"]) simp
  qed (auto intro: exI [of _ "[]"])
  ultimately show ?thesis by (fastforce simp: sorted_func_def sorted_wrt_iff_nth_less)
qed

theorem virtual_hosts_ordered_witness:
  "\<exists>d \<in> set (ig_Domains (fst (compileHTTPRoutes example_externals example_services example_gw example_route_gateway
       [example_attached] 5))). distinct (map vh_Hostname (pd_VirtualHosts d))"
proof -
  obtain d where d: "d \<in> set (ig_Domains (fst (compileHTTPRoutes example_externals example_services example_gw example_route_gateway
       [example_attached] 5)))"
    using example_domains_served [of example_externals example_services example_gw "[example_attached]" 5] by (meson ex_in_conv)
  from virtual_hosts_ordered [OF _ d] have "distinct (map vh_Hostname (pd_VirtualHosts d))"
    by (simp add: example_route_gateway_def)
  with d show ?thesis by blast
qed

section \<open>Unique claims\<close>

text \<open>A wildcard Listener hostname matches hosts that end with what follows its star.\<close>

lemma wildcard_match_suffix:
  assumes "has_prefix v ''*.''" and "v = h \<or> WildcardHostnameMatchesHostname v h"
  shows "\<exists>x. h = x @ tl v"
proof -
  have wild: "is_wild v" using assms(1) by (auto simp: is_wild_def has_prefix_iff)
  show ?thesis
  proof (cases "v = h")
    case True
    then show ?thesis using wild by (cases v) (auto simp: is_wild_Cons)
  next
    case False
    then have m: "WildcardHostnameMatchesHostname v h" using assms(2) by simp
    show ?thesis
    proof (cases "is_wild h")
      case True
      then obtain r where "tl h = CHR ''.'' # r @ tl v" using wildcard_matches_wildcard [OF wild True] m by blast
      moreover have "h = CHR ''*'' # tl h" using True by (auto simp: is_wild_Cons)
      ultimately show ?thesis by (metis append_Cons)
    next
      case False
      then show ?thesis using wildcard_matches_concrete [OF wild False] m wild by (auto simp: host_covers_def)
    qed
  qed
qed

lemma specificity_tie:
  assumes "hostnameMatches a h" and "hostnameMatches b h"
    and "listenerHostnameSpecificity a = listenerHostnameSpecificity b"
    and "a \<noteq> Some []" "b \<noteq> Some []" and "length (hostname_value a) < 10000" "length (hostname_value b) < 10000"
  shows "a = b"
proof (cases a; cases b)
  fix v w assume a: "a = Some v" and b: "b = Some w"
  have vw: "v \<noteq> []" "w \<noteq> []" and lens: "length v < 10000" "length w < 10000"
    using assms a b by (simp_all add: hostname_value_def)
  consider (wild) "has_prefix v ''*.''" "has_prefix w ''*.''" | (exact) "\<not> has_prefix v ''*.''" "\<not> has_prefix w ''*.''"
    using assms(3) vw lens by (auto simp: listenerHostnameSpecificity_def a b split: if_splits)
  then show "a = b"
  proof cases
    case wild
    then have len: "length v = length w" using assms(3) vw by (simp add: listenerHostnameSpecificity_def a b)
    have m: "v = h \<or> WildcardHostnameMatchesHostname v h" "w = h \<or> WildcardHostnameMatchesHostname w h"
      using assms(1,2) vw by (auto simp: hostnameMatches_def a b)
    obtain x where x: "h = x @ tl v" by (rule exE [OF wildcard_match_suffix [OF wild(1) m(1)]])
    obtain y where y: "h = y @ tl w" by (rule exE [OF wildcard_match_suffix [OF wild(2) m(2)]])
    from x y have "x @ tl v = y @ tl w" by simp
    then have "tl v = tl w" using len append_eq_append_conv [of x y "tl v" "tl w"] by simp
    then show ?thesis using wild by (auto simp: a b has_prefix_iff)
  next
    case exact
    then show ?thesis using assms(1,2) vw by (auto simp: hostnameMatches_def a b)
  qed
qed (use assms in \<open>auto simp: listenerHostnameSpecificity_def split: if_splits\<close>)

text \<open>
  A host on a port is claimed by one Listener. Two live Listeners of the same port whose hostnames both match a host
  and that both claim it are the same Listener, when hostnames are either absent or non-empty and shorter than
  10000 bytes (DNS names have at most 253).
\<close>
theorem host_claim_unique:
  assumes "translateListeners ext inp gw reserved out = (out', listeners, reason, message)"
    and "i < length listeners" and "j < length listeners"
    and "listener_live (listeners ! i)" and "listener_live (listeners ! j)"
    and "ln_Port (lx_spec (listeners ! i)) = ln_Port (lx_spec (listeners ! j))"
    and "hostnameMatches (ln_Hostname (lx_spec (listeners ! i))) h"
    and "hostnameMatches (ln_Hostname (lx_spec (listeners ! j))) h"
    and "listenerClaimsHost i h listeners" and "listenerClaimsHost j h listeners"
    and "\<forall>t \<in> set listeners. ln_Hostname (lx_spec t) \<noteq> Some [] \<and> length (hostname_value (ln_Hostname (lx_spec t))) < 10000"
  shows "i = j"
proof (rule ccontr)
  assume "i \<noteq> j"
  obtain ts secrets where ts: "validate_listeners ext inp gw (ig_ConformanceMode out)
      \<lparr>pep_next = 18080, pep_reserved = reserved\<rparr> (gw_Listeners gw) = (ts, secrets)" by (metis surj_pair)
  note listeners = translateListeners_parts(1) [OF ts assms(1)]
  let ?a = "lx_spec (listeners ! i)" and ?b = "lx_spec (listeners ! j)"
  have none: "listenerConflictReason ?a ?b = ListenerReasonNoConflicts"
    unfolding listeners using assms(2-5) \<open>i \<noteq> j\<close> by (intro mark_conflicts_apart) (auto simp: listeners listener_live_def)
  moreover have "ListenerReasonProtocolConflict \<noteq> ListenerReasonNoConflicts" "ListenerReasonHostnameConflict \<noteq> ListenerReasonNoConflicts"
    by (simp_all add: listener_consts)
  ultimately have proto: "ln_Protocol ?a = ln_Protocol ?b" and host: "ln_Hostname ?a \<noteq> ln_Hostname ?b"
    using assms(6) by (auto simp: listenerConflictReason_def split: if_splits option.splits)
  have "listenerHostnameSpecificity (ln_Hostname ?a) = listenerHostnameSpecificity (ln_Hostname ?b)"
    using assms(9) [unfolded listenerClaimsHost_def Let_def list_all_iff, THEN bspec, of j]
      assms(10) [unfolded listenerClaimsHost_def Let_def list_all_iff, THEN bspec, of i]
      assms(2-8) proto \<open>i \<noteq> j\<close> by simp
  then have "ln_Hostname ?a = ln_Hostname ?b"
    using specificity_tie [OF assms(7,8)] assms(2,3,11) by simp
  with host show False ..
qed

theorem host_claim_unique_witness:
  "\<exists>listeners. fst (snd (translateListeners example_externals example_listener_inputs example_gw [] empty_gateway)) = listeners \<and>
     (\<forall>j < length listeners. listener_live (listeners ! j) \<longrightarrow> hostnameMatches (ln_Hostname (lx_spec (listeners ! j))) ''x.io'' \<longrightarrow>
        ln_Port (lx_spec (listeners ! j)) = 443 \<longrightarrow> listenerClaimsHost j ''x.io'' listeners \<longrightarrow> 0 = j)"
proof -
  obtain t1 t2 where ts: "validate_listeners example_externals example_listener_inputs example_gw False
      \<lparr>pep_next = 18080, pep_reserved = []\<rparr> (gw_Listeners example_gw) = ([t1, t2], [])"
    and t1: "lx_spec t1 = example_listener ''l1'' ''x.io''" "listener_live t1"
    and t2: "lx_spec t2 = example_listener ''l2'' ''y.io''" "listener_live t2"
    and marked: "mark_conflicts [t1, t2] = [t1, t2]"
    using example_translation [of "[]"] by blast
  obtain out' listeners reason message where
    out: "translateListeners example_externals example_listener_inputs example_gw [] empty_gateway =
      (out', listeners, reason, message)" by (metis prod_cases4)
  have "validate_listeners example_externals example_listener_inputs example_gw (ig_ConformanceMode empty_gateway)
      \<lparr>pep_next = 18080, pep_reserved = []\<rparr> (gw_Listeners example_gw) = ([t1, t2], [])"
    using ts by (simp add: empty_gateway_def)
  from translateListeners_parts(1) [OF this out] marked have listeners: "listeners = [t1, t2]" by simp
  have names: "ln_Hostname (example_listener n h) = Some h" "ln_Port (example_listener n h) = 443" for n h
    by (simp_all add: example_listener_def)
  have other: "\<not> hostnameMatches (Some ''y.io'') ''x.io''" and own: "hostnameMatches (Some ''x.io'') ''x.io''"
    by (simp_all add: hostnameMatches_def has_prefix_def)
  have "listenerClaimsHost 0 ''x.io'' listeners"
    using other by (simp add: listenerClaimsHost_def listeners t1 t2 names upt_conv_Cons)
  note claims = this
  have "0 = j" if "j < length listeners" "listener_live (listeners ! j)" "hostnameMatches (ln_Hostname (lx_spec (listeners ! j))) ''x.io''"
    "ln_Port (lx_spec (listeners ! j)) = 443" "listenerClaimsHost j ''x.io'' listeners" for j
  proof (rule host_claim_unique [OF out _ that(1) _ that(2) _ _ that(3) claims that(5)])
    show "ln_Port (lx_spec (listeners ! 0)) = ln_Port (lx_spec (listeners ! j))"
      unfolding that(4) by (simp add: listeners t1 names)
    show "hostnameMatches (ln_Hostname (lx_spec (listeners ! 0))) ''x.io''"
      using own by (simp add: listeners t1 names)
  qed (simp_all add: listeners t1 t2 names hostname_value_def)
  then show ?thesis unfolding out by simp
qed

end
