(* ===== verification/AccessCompile.thy ===== *)
theory AccessCompile
  imports PrivateAccess Routes
begin

text \<open>
  The compilation of one AccessApplication against a translated Gateway, \<^verbatim>\<open>compileAccessApplicationAgainstIR\<close> and
  \<^verbatim>\<open>compileDeclaredAccessDestinations\<close> of \<^verbatim>\<open>src/internal/gatewayapi/access.go\<close>. A loop that may return early is
  \<open>fold_result\<close>: \<^const>\<open>Inl\<close> is the early return.
\<close>

fun fold_result :: "('a \<Rightarrow> 's \<Rightarrow> 'e + 's) \<Rightarrow> 'a list \<Rightarrow> 's \<Rightarrow> 'e + 's" where
  "fold_result f [] s = Inr s"
| "fold_result f (x # xs) s = (case f x s of Inl e \<Rightarrow> Inl e | Inr s' \<Rightarrow> fold_result f xs s')"

section \<open>Helpers\<close>

definition allowOriginJWTDisableLabel :: string where
  "allowOriginJWTDisableLabel = ''flareway.bhyoo.com/allow-origin-jwt-disable''"

definition AccessL4ProtocolTCP :: string where "AccessL4ProtocolTCP = ''TCP''"

definition isWildcardHostname :: "string \<Rightarrow> bool" where
  "isWildcardHostname hostname \<longleftrightarrow> hostname = ''*'' \<or> has_prefix hostname ''*.''"

definition effectiveOriginJWTMode :: "accessApplication \<Rightarrow> string" where
  "effectiveOriginJWTMode app = (if aa_OriginJWTMode app = [] then AccessOriginJWTModeRequired else aa_OriginJWTMode app)"

definition effectiveOriginJWTAudienceScope :: "accessApplication \<Rightarrow> string" where
  "effectiveOriginJWTAudienceScope app =
     (if aa_OriginJWTAudienceScope app = [] then AccessOriginJWTAudienceScopeApplication else aa_OriginJWTAudienceScope app)"

text \<open>\<^term>\<open>Inr None\<close>: the application has no path scope.\<close>

definition accessApplicationPathScope :: "accessApplication \<Rightarrow> string + accessRegion option" where
  "accessApplicationPathScope app =
     (case aa_PathScope app of
        None \<Rightarrow> Inr None
      | Some scope \<Rightarrow>
          (case normalizeAccessPath (pts_Value scope) of
             Inl e \<Rightarrow> Inl (''normalize pathScope: '' @ e)
           | Inr path \<Rightarrow>
               (let matchType = (if pts_Type scope = [] then PathMatchPathPrefix else pts_Type scope) in
                if matchType = PathMatchExact then Inr (Some \<lparr>rn_kind = accessRegionExact, rn_path = path\<rparr>)
                else if matchType = PathMatchPathPrefix then Inr (Some \<lparr>rn_kind = accessRegionPrefix, rn_path = path\<rparr>)
                else Inl (''pathScope uses unsupported match type '' @ show_q matchType))))"

definition appendAccessDestination ::
  "inputs \<Rightarrow> irGateway \<Rightarrow> string \<Rightarrow> string \<Rightarrow> accessRegion \<Rightarrow> accessApplicationCompilation \<Rightarrow> string + accessApplicationCompilation" where
  "appendAccessDestination inp out listenerName hostname region result =
     (let host = to_lower (trim_suffix hostname ''.'');
          public = (empty_destination DestinationPublic)\<lparr>acd_URI :=
            host @ (if rn_path region \<noteq> [] \<and> rn_path region \<noteq> ''/'' then rn_path region else [])\<rparr>
      in case listenerByName (ig_Listeners out) listenerName of
           None \<Rightarrow> Inr (appendCompiledDestination public result)
         | Some l \<Rightarrow>
             if il_Exposure l \<noteq> ExposurePrivate then Inr (appendCompiledDestination public result)
             else
               (let vnetID = privateListenerVNetID inp listenerName in
                if vnetID = [] then Inl (''private listener '' @ show_q listenerName @ '' has no ready VirtualNetwork'')
                else Inr (appendCompiledDestination
                  ((empty_destination DestinationPrivate)\<lparr>acd_Hostname := host, acd_PortRange := show_int (il_Port l),
                     acd_L4Protocol := Some AccessL4ProtocolTCP, acd_VNetID := vnetID\<rparr>) result)))"

section \<open>Targets\<close>

type_synonym target_state = "bool \<times> accessApplicationCompilation"

definition gateway_claim :: "protectionDomain \<Rightarrow> virtualHost \<Rightarrow> string \<Rightarrow> accessRegion \<Rightarrow> bool \<Rightarrow> int \<Rightarrow> accessClaim" where
  "gateway_claim domain vh routeName region scoped specificity =
     \<lparr>acl_listener = pd_ListenerName domain, acl_hostname = vh_Hostname vh, acl_routeName = routeName, acl_region = region,
      acl_wholeHost = \<not> scoped, acl_shadow = scoped, acl_specificity = specificity\<rparr>"

definition gateway_host ::
  "inputs \<Rightarrow> irGateway \<Rightarrow> accessRegion \<Rightarrow> bool \<Rightarrow> int \<Rightarrow> protectionDomain \<Rightarrow> virtualHost \<Rightarrow> target_state
    \<Rightarrow> accessApplicationCompilation + target_state" where
  "gateway_host inp out region scoped specificity domain vh st =
     (if vh_Hostname vh = [] \<or> isWildcardHostname (vh_Hostname vh) then Inr st
      else case appendAccessDestination inp out (pd_ListenerName domain) (vh_Hostname vh) region (snd st) of
        Inl err \<Rightarrow> Inl (accessFailure ''TargetNotFound'' err)
      | Inr result \<Rightarrow>
          Inr (True,
            if vh_Routes vh = [] then appendAccessClaim (gateway_claim domain vh [] region scoped specificity) result
            else fold (\<lambda>route. appendAccessClaim (gateway_claim domain vh (ro_Name route) region scoped specificity)) (vh_Routes vh) result))"

definition gateway_target ::
  "inputs \<Rightarrow> irGateway \<Rightarrow> accessRegion option \<Rightarrow> applicationTargetRef \<Rightarrow> accessApplicationCompilation
    \<Rightarrow> accessApplicationCompilation + accessApplicationCompilation" where
  "gateway_target inp out scope target result =
     (if atr_Name target \<noteq> snd (ig_Key out) then Inr result
      else
        (let specificity = (if atr_SectionName target \<noteq> None then 15 else 10) + (if scope \<noteq> None then 5 else 0);
             region = (case scope of None \<Rightarrow> \<lparr>rn_kind = accessRegionPrefix, rn_path = ''/''\<rparr> | Some r \<Rightarrow> r);
             selected = filter (\<lambda>d. case atr_SectionName target of None \<Rightarrow> True | Some s \<Rightarrow> s = pd_ListenerName d) (ig_Domains out)
         in case fold_result (\<lambda>d. fold_result (gateway_host inp out region (scope \<noteq> None) specificity d) (pd_VirtualHosts d))
                   selected (False, result) of
              Inl failure \<Rightarrow> Inl failure
            | Inr (matched, r) \<Rightarrow>
                Inr (if matched then appendAccessAncestor \<lparr>aan_Group = gatewayGroup, aan_Kind = ''Gateway'',
                       aan_Namespace = fst (ig_Key out), aan_Name = snd (ig_Key out)\<rparr> r else r)))"

definition route_step ::
  "inputs \<Rightarrow> irGateway \<Rightarrow> accessApplication \<Rightarrow> accessRegion option \<Rightarrow> applicationTargetRef \<Rightarrow> protectionDomain \<Rightarrow> virtualHost \<Rightarrow> route
    \<Rightarrow> target_state \<Rightarrow> accessApplicationCompilation + target_state" where
  "route_step inp out app scope target domain vh route st =
     (if rs_Namespace (ro_Source route) \<noteq> aa_Namespace app \<or> rs_Name (ro_Source route) \<noteq> atr_Name target then Inr st
      else if (case atr_SectionName target of None \<Rightarrow> False | Some s \<Rightarrow> rs_RuleName (ro_Source route) \<noteq> s) then Inr st
      else case accessRegionForRoute route of
        Inl err \<Rightarrow> Inl (accessFailure ''Invalid'' err)
      | Inr routeRegion \<Rightarrow>
          (let specificity = (if atr_SectionName target \<noteq> None then 25 else 20) + (if scope \<noteq> None then 5 else 0);
               region = (case scope of None \<Rightarrow> routeRegion | Some r \<Rightarrow> r)
           in case appendAccessDestination inp out (pd_ListenerName domain) (vh_Hostname vh) region (snd st) of
                Inl err \<Rightarrow> Inl (accessFailure ''TargetNotFound'' err)
              | Inr result \<Rightarrow>
                  Inr (True, appendAccessClaim
                    \<lparr>acl_listener = pd_ListenerName domain, acl_hostname = vh_Hostname vh, acl_routeName = ro_Name route,
                     acl_region = region, acl_wholeHost = False, acl_shadow = scope \<noteq> None, acl_specificity = specificity\<rparr> result)))"

definition route_target ::
  "inputs \<Rightarrow> irGateway \<Rightarrow> accessApplication \<Rightarrow> accessRegion option \<Rightarrow> applicationTargetRef \<Rightarrow> accessApplicationCompilation
    \<Rightarrow> accessApplicationCompilation + accessApplicationCompilation" where
  "route_target inp out app scope target result =
     (case fold_result (\<lambda>d. fold_result (\<lambda>vh. fold_result (route_step inp out app scope target d vh) (vh_Routes vh)) (pd_VirtualHosts d))
             (ig_Domains out) (False, result) of
        Inl failure \<Rightarrow> Inl failure
      | Inr (matched, r) \<Rightarrow>
          Inr (if matched then appendAccessAncestor \<lparr>aan_Group = gatewayGroup, aan_Kind = ''HTTPRoute'',
                 aan_Namespace = aa_Namespace app, aan_Name = atr_Name target\<rparr> r else r))"

definition compile_target ::
  "inputs \<Rightarrow> irGateway \<Rightarrow> accessApplication \<Rightarrow> accessRegion option \<Rightarrow> applicationTargetRef \<Rightarrow> accessApplicationCompilation
    \<Rightarrow> accessApplicationCompilation + accessApplicationCompilation" where
  "compile_target inp out app scope target result =
     (let group = (if atr_Group target = [] then gatewayGroup else atr_Group target);
          kind = (if atr_Kind target = [] then ''Gateway'' else atr_Kind target)
      in if group = gatewayGroup \<and> kind = ''Gateway'' then gateway_target inp out scope target result
         else if group = gatewayGroup \<and> kind = ''HTTPRoute'' then route_target inp out app scope target result
         else Inl (accessFailure ''Invalid'' (''unsupported targetRef '' @ group @ ''/'' @ kind)))"

section \<open>Declared destinations\<close>

definition declared_destination ::
  "nat \<Rightarrow> applicationDestination \<Rightarrow> accessApplicationCompilation \<Rightarrow> accessApplicationCompilation + accessApplicationCompilation" where
  "declared_destination index destination result =
     (if apd_Type destination = DestinationPrivate then Inr result
      else if apd_Type destination = DestinationPublic then Inl (destination_error index '' cannot declare a public destination'')
      else if apd_Type destination = DestinationViaMCPServerPortal then
        (case apd_ViaMCPServerPortal destination of
           None \<Rightarrow> Inl (destination_error index ''.viaMcpServerPortal is required'')
         | Some server \<Rightarrow> Inr (appendCompiledDestination
             ((empty_destination DestinationViaMCPServerPortal)\<lparr>acd_MCPServerID := server\<rparr>) result))
      else if apd_Type destination = DestinationWorker then
        (case apd_Worker destination of
           None \<Rightarrow> Inl (destination_error index ''.worker is required'')
         | Some worker \<Rightarrow> Inr (appendCompiledDestination ((empty_destination DestinationWorker)\<lparr>acd_WorkerID := worker\<rparr>) result))
      else if apd_Type destination = DestinationPreviewWorker then
        (case apd_PreviewWorker destination of
           None \<Rightarrow> Inl (destination_error index ''.previewWorker is required'')
         | Some worker \<Rightarrow> Inr (appendCompiledDestination ((empty_destination DestinationPreviewWorker)\<lparr>acd_WorkerID := worker\<rparr>) result))
      else if apd_Type destination = DestinationAllWorkers then
        Inr (appendCompiledDestination (empty_destination DestinationAllWorkers) result)
      else if apd_Type destination = DestinationAllPreviewWorkers then
        Inr (appendCompiledDestination (empty_destination DestinationAllPreviewWorkers) result)
      else Inl (destination_error index ('' uses unsupported type '' @ show_q (apd_Type destination))))"

definition compileDeclaredAccessDestinations :: "externals \<Rightarrow> inputs \<Rightarrow> accessApplication \<Rightarrow> accessApplicationCompilation" where
  "compileDeclaredAccessDestinations ext inp app =
     (let private = CompilePrivateDestinations ext inp (Some app) in
      if \<not> ac_Accepted private then private
      else case fold_result (\<lambda>(index, d). declared_destination index d) (enumerate 0 (aa_Destinations app)) private of
        Inl failure \<Rightarrow> failure
      | Inr result \<Rightarrow> sortAccessCompilation result)"

section \<open>The compiler\<close>

definition access_start :: accessApplicationCompilation where
  "access_start = empty_compilation\<lparr>ac_Accepted := True, ac_Reason := ''Accepted'', ac_Message := ''Access application targets are valid''\<rparr>"

definition jwt_disable_permitted :: "inputs \<Rightarrow> accessApplication \<Rightarrow> bool" where
  "jwt_disable_permitted inp app =
     (case namespaceByName (in_Namespaces inp) (aa_Namespace app) of
        None \<Rightarrow> False | Some ns \<Rightarrow> str_get (ns_Labels ns) allowOriginJWTDisableLabel = ''true'')"

definition finish_compilation ::
  "accessApplication \<Rightarrow> accessApplicationCompilation \<Rightarrow> accessApplicationCompilation \<Rightarrow> accessApplicationCompilation" where
  "finish_compilation app declared targeted =
     (let merged = fold appendCompiledDestination (ac_Destinations declared) targeted;
          result = merged\<lparr>ac_Ancestors := ac_Ancestors merged @ ac_Ancestors declared\<rparr>
      in if ac_claims result = [] \<and> ac_Destinations result = [] then
           accessFailure ''TargetNotFound'' ''no targetRef or destination resolves to this Gateway''
         else sortAccessCompilation (result\<lparr>ac_OriginJWTEnforced :=
           ac_claims result \<noteq> [] \<and> effectiveOriginJWTMode app = AccessOriginJWTModeRequired\<rparr>))"

definition compileAccessApplicationAgainstIR ::
  "externals \<Rightarrow> inputs \<Rightarrow> irGateway \<Rightarrow> accessApplication \<Rightarrow> accessApplicationCompilation" where
  "compileAccessApplicationAgainstIR ext inp out app =
     (if aa_Namespace app \<noteq> fst (ig_Key out) then
        accessFailure ''RefNotPermitted'' ''AccessApplication targets must be in the Gateway namespace''
      else if (case in_CloudflareAccount inp of None \<Rightarrow> False | Some a \<Rightarrow> aa_AccountRef app \<noteq> ca_Name a) then
        accessFailure ''RefNotPermitted'' (''AccessApplication accountRef '' @ show_q (aa_AccountRef app) @
          '' does not match Gateway account '' @ show_q (ca_Name (the (in_CloudflareAccount inp))))
      else if effectiveOriginJWTMode app = AccessOriginJWTModeDisabled \<and> \<not> jwt_disable_permitted inp app then
        accessFailure ''RefNotPermitted'' ''originJWT Disabled requires namespace label flareway.bhyoo.com/allow-origin-jwt-disable=true''
      else case accessApplicationPathScope app of
        Inl err \<Rightarrow> accessFailure ''Invalid'' err
      | Inr scope \<Rightarrow>
          (case fold_result (compile_target inp out app scope) (aa_TargetRefs app) access_start of
             Inl failure \<Rightarrow> failure
           | Inr targeted \<Rightarrow>
               (let declared = compileDeclaredAccessDestinations ext inp app in
                if \<not> ac_Accepted declared then declared else finish_compilation app declared targeted)))"

section \<open>Lemmas\<close>

lemma fold_result_invariant:
  assumes "fold_result f xs s = Inr t" and "P s"
    and "\<And>x s s'. x \<in> set xs \<Longrightarrow> P s \<Longrightarrow> f x s = Inr s' \<Longrightarrow> P s'"
  shows "P t"
  using assms
proof (induction xs arbitrary: s)
  case (Cons x xs)
  then obtain s' where s': "f x s = Inr s'" "fold_result f xs s' = Inr t" by (auto split: sum.splits)
  have "P s'" by (rule Cons.prems(3) [OF _ Cons.prems(2) s'(1)]) simp
  then show ?case
  proof (rule Cons.IH [OF s'(2)])
    fix y s s'
    assume "y \<in> set xs" "P s" "f y s = Inr s'"
    then show "P s'" by (intro Cons.prems(3) [of y s s']) simp_all
  qed
qed simp

lemma fold_result_failure:
  assumes "fold_result f xs s = Inl e" and "\<And>x s e. f x s = Inl e \<Longrightarrow> Q e"
  shows "Q e"
  using assms by (induction xs arbitrary: s) (auto split: sum.splits)

text \<open>A sound claim is on a host of the Gateway, with a well-formed region; a claim on the whole host is never on a pattern.\<close>

definition claim_sound :: "irGateway \<Rightarrow> accessClaim \<Rightarrow> bool" where
  "claim_sound out m \<longleftrightarrow>
     0 \<le> acl_specificity m \<and> region_normal (acl_region m) \<and>
     (\<exists>d \<in> set (ig_Domains out). \<exists>vh \<in> set (pd_VirtualHosts d).
        acl_listener m = pd_ListenerName d \<and> acl_hostname m = to_lower (trim_suffix (vh_Hostname vh) ''.'') \<and>
        (acl_wholeHost m \<longrightarrow> \<not> isWildcardHostname (vh_Hostname vh)) \<and>
        (acl_routeName m = [] \<or> acl_routeName m \<in> ro_Name ` set (vh_Routes vh)))"

definition claims_sound :: "irGateway \<Rightarrow> accessApplicationCompilation \<Rightarrow> bool" where
  "claims_sound out c \<longleftrightarrow> ac_Accepted c \<and> (\<forall>m \<in> set (ac_claims c). claim_sound out m)"

lemma append_destination_claims:
  "appendAccessDestination inp out l h r c = Inr c' \<Longrightarrow> ac_claims c' = ac_claims c \<and> ac_Accepted c' = ac_Accepted c"
  by (auto simp: appendAccessDestination_def Let_def split: option.splits if_splits)

lemma append_claim_sound:
  "claims_sound out c \<Longrightarrow> claim_sound out (m\<lparr>acl_hostname := to_lower (trim_suffix (acl_hostname m) ''.'')\<rparr>)
    \<Longrightarrow> claims_sound out (appendAccessClaim m c)"
  by (auto simp: claims_sound_def appendAccessClaim_def Let_def)

lemma fold_append_claims_sound:
  assumes "claims_sound out c"
    and "\<And>r. r \<in> set rs \<Longrightarrow> claim_sound out ((f r)\<lparr>acl_hostname := to_lower (trim_suffix (acl_hostname (f r)) ''.'')\<rparr>)"
  shows "claims_sound out (fold (\<lambda>r. appendAccessClaim (f r)) rs c)"
  using assms by (induction rs arbitrary: c) (simp_all add: append_claim_sound)

lemma gateway_host_sound:
  assumes "gateway_host inp out region scoped specificity d vh st = Inr st'" and "claims_sound out (snd st)"
    and "d \<in> set (ig_Domains out)" and "vh \<in> set (pd_VirtualHosts d)" and "region_normal region" and "0 \<le> specificity"
  shows "claims_sound out (snd st')"
proof (cases "vh_Hostname vh = [] \<or> isWildcardHostname (vh_Hostname vh)")
  case False
  then obtain c where c: "appendAccessDestination inp out (pd_ListenerName d) (vh_Hostname vh) region (snd st) = Inr c"
    and st': "st' = (True, if vh_Routes vh = [] then appendAccessClaim (gateway_claim d vh [] region scoped specificity) c
            else fold (\<lambda>route. appendAccessClaim (gateway_claim d vh (ro_Name route) region scoped specificity)) (vh_Routes vh) c)"
    using assms(1) by (auto simp: gateway_host_def split: sum.splits)
  have start: "claims_sound out c" using append_destination_claims [OF c] assms(2) by (simp add: claims_sound_def)
  have sound: "claim_sound out ((gateway_claim d vh n region scoped specificity)\<lparr>acl_hostname :=
      to_lower (trim_suffix (acl_hostname (gateway_claim d vh n region scoped specificity)) ''.'')\<rparr>)"
    if "n = [] \<or> n \<in> ro_Name ` set (vh_Routes vh)" for n
    using that assms(3-6) False unfolding claim_sound_def gateway_claim_def by (simp; blast)
  have "claims_sound out (fold (\<lambda>route. appendAccessClaim (gateway_claim d vh (ro_Name route) region scoped specificity)) (vh_Routes vh) c)"
    by (rule fold_append_claims_sound [OF start sound]) simp
  then show ?thesis unfolding st' using append_claim_sound [OF start sound] by simp
qed (use assms(1,2) in \<open>simp add: gateway_host_def\<close>)

lemma gateway_target_sound:
  assumes "gateway_target inp out scope target c = Inr c'" and "claims_sound out c" and "\<forall>r. scope = Some r \<longrightarrow> region_normal r"
  shows "claims_sound out c'"
proof (cases "atr_Name target = snd (ig_Key out)")
  case True
  let ?region = "case scope of None \<Rightarrow> \<lparr>rn_kind = accessRegionPrefix, rn_path = ''/''\<rparr> | Some r \<Rightarrow> r"
  let ?specificity = "(if atr_SectionName target \<noteq> None then 15 else 10) + (if scope \<noteq> None then 5 else 0) :: int"
  let ?selected = "filter (\<lambda>d. case atr_SectionName target of None \<Rightarrow> True | Some s \<Rightarrow> s = pd_ListenerName d) (ig_Domains out)"
  have region: "region_normal ?region" using assms(3) by (auto split: option.splits)
  obtain matched r where loop: "fold_result (\<lambda>d. fold_result (gateway_host inp out ?region (scope \<noteq> None) ?specificity d) (pd_VirtualHosts d))
      ?selected (False, c) = Inr (matched, r)"
    and c': "ac_claims c' = ac_claims r" "ac_Accepted c' = ac_Accepted r"
    using assms(1) True by (auto simp: gateway_target_def Let_def split: sum.splits if_splits)
  have inner: "claims_sound out (snd s')"
    if "d \<in> set ?selected" and "claims_sound out (snd s)"
      and "fold_result (gateway_host inp out ?region (scope \<noteq> None) ?specificity d) (pd_VirtualHosts d) s = Inr s'" for d s s'
    using that(3,2)
  proof (rule fold_result_invariant [where P = "\<lambda>s. claims_sound out (snd s)"])
    fix vh t t'
    assume vh: "vh \<in> set (pd_VirtualHosts d)" and t: "claims_sound out (snd t)"
      and step: "gateway_host inp out ?region (scope \<noteq> None) ?specificity d vh t = Inr t'"
    have d: "d \<in> set (ig_Domains out)" using that(1) by simp
    show "claims_sound out (snd t')" by (rule gateway_host_sound [OF step t d vh region]) simp
  qed
  have "claims_sound out (snd (matched, r))"
    by (rule fold_result_invariant [OF loop, where P = "\<lambda>s. claims_sound out (snd s)"]) (simp add: assms(2), rule inner)
  then show ?thesis by (simp add: claims_sound_def c')
qed (use assms(1,2) in \<open>simp add: gateway_target_def\<close>)

lemma route_step_sound:
  assumes "route_step inp out app scope target d vh r st = Inr st'" and "claims_sound out (snd st)"
    and "d \<in> set (ig_Domains out)" and "vh \<in> set (pd_VirtualHosts d)" and "r \<in> set (vh_Routes vh)"
    and "\<forall>q. scope = Some q \<longrightarrow> region_normal q"
  shows "claims_sound out (snd st')"
proof (cases "st' = st")
  case False
  then obtain q c where q: "accessRegionForRoute r = Inr q"
    and c: "appendAccessDestination inp out (pd_ListenerName d) (vh_Hostname vh) (case scope of None \<Rightarrow> q | Some s \<Rightarrow> s) (snd st) = Inr c"
    and st': "snd st' = appendAccessClaim
       \<lparr>acl_listener = pd_ListenerName d, acl_hostname = vh_Hostname vh, acl_routeName = ro_Name r,
        acl_region = (case scope of None \<Rightarrow> q | Some s \<Rightarrow> s), acl_wholeHost = False, acl_shadow = scope \<noteq> None,
        acl_specificity = (if atr_SectionName target \<noteq> None then 25 else 20) + (if scope \<noteq> None then 5 else 0)\<rparr> c"
    using assms(1) by (auto simp: route_step_def Let_def split: sum.splits if_splits)
  have "region_normal (case scope of None \<Rightarrow> q | Some s \<Rightarrow> s)"
    using assms(6) accessRegionForRoute_normal [OF q] by (auto split: option.splits)
  moreover have "claims_sound out c" using append_destination_claims [OF c] assms(2) by (simp add: claims_sound_def)
  ultimately show ?thesis unfolding st' using assms(3-5)
    by (intro append_claim_sound) (auto simp: claim_sound_def)
qed (use assms(2) in simp)

lemma route_target_sound:
  assumes "route_target inp out app scope target c = Inr c'" and "claims_sound out c" and "\<forall>q. scope = Some q \<longrightarrow> region_normal q"
  shows "claims_sound out c'"
proof -
  let ?P = "\<lambda>s. claims_sound out (snd s)"
  obtain matched r where loop: "fold_result (\<lambda>d. fold_result (\<lambda>vh. fold_result (route_step inp out app scope target d vh) (vh_Routes vh))
      (pd_VirtualHosts d)) (ig_Domains out) (False, c) = Inr (matched, r)"
    and c': "ac_claims c' = ac_claims r" "ac_Accepted c' = ac_Accepted r"
    using assms(1) by (auto simp: route_target_def split: sum.splits if_splits)
  have routes: "?P s'" if "d \<in> set (ig_Domains out)" and "vh \<in> set (pd_VirtualHosts d)" and "?P s"
      and "fold_result (route_step inp out app scope target d vh) (vh_Routes vh) s = Inr s'" for d vh s s'
    by (rule fold_result_invariant [OF that(4), where P = ?P, OF that(3)])
      (rule route_step_sound [OF _ _ that(1,2) _ assms(3)])
  have hosts: "?P s'" if "d \<in> set (ig_Domains out)" and "?P s"
      and "fold_result (\<lambda>vh. fold_result (route_step inp out app scope target d vh) (vh_Routes vh)) (pd_VirtualHosts d) s = Inr s'" for d s s'
    by (rule fold_result_invariant [OF that(3), where P = ?P, OF that(2)]) (rule routes [OF that(1)])
  have "?P (matched, r)"
    by (rule fold_result_invariant [OF loop, where P = ?P]) (simp add: assms(2), rule hosts)
  then show ?thesis by (simp add: claims_sound_def c')
qed

lemma compile_target_sound:
  assumes "compile_target inp out app scope target c = Inr c'" and "claims_sound out c" and "\<forall>q. scope = Some q \<longrightarrow> region_normal q"
  shows "claims_sound out c'"
  using assms(1) gateway_target_sound [OF _ assms(2,3)] route_target_sound [OF _ assms(2,3)]
  unfolding compile_target_def Let_def by (metis sum.distinct(1))

lemma target_failures:
  "gateway_host inp out region scoped n d vh st = Inl f \<Longrightarrow> \<not> ac_Accepted f"
  "route_step inp out app scope target d vh r st = Inl f \<Longrightarrow> \<not> ac_Accepted f"
  by (auto simp: gateway_host_def route_step_def Let_def split: if_splits sum.splits option.splits)

lemma compile_target_failure: "compile_target inp out app scope target c = Inl f \<Longrightarrow> \<not> ac_Accepted f"
proof -
  assume failed: "compile_target inp out app scope target c = Inl f"
  have gateway: "\<not> ac_Accepted f" if "gateway_target inp out scope target c = Inl f"
  proof -
    obtain region n selected where "fold_result (\<lambda>d. fold_result (gateway_host inp out region (scope \<noteq> None) n d) (pd_VirtualHosts d))
        selected (False, c) = Inl f"
      using \<open>gateway_target inp out scope target c = Inl f\<close> by (auto simp: gateway_target_def Let_def split: if_splits sum.splits)
    then show ?thesis by (rule fold_result_failure) (erule fold_result_failure, erule target_failures)
  qed
  have route: "\<not> ac_Accepted f" if "route_target inp out app scope target c = Inl f"
  proof -
    have "fold_result (\<lambda>d. fold_result (\<lambda>vh. fold_result (route_step inp out app scope target d vh) (vh_Routes vh)) (pd_VirtualHosts d))
        (ig_Domains out) (False, c) = Inl f"
      using that by (auto simp: route_target_def split: sum.splits)
    then show ?thesis by (rule fold_result_failure) (erule fold_result_failure, erule fold_result_failure, erule target_failures)
  qed
  show ?thesis using failed gateway route failure_not_accepted(1)
    unfolding compile_target_def Let_def by (metis sum.inject(1))
qed

lemma path_scope_ok: "accessApplicationPathScope app = Inr (Some r) \<Longrightarrow> region_normal r"
  by (auto simp: accessApplicationPathScope_def Let_def split: option.splits sum.splits if_splits)

lemma finish_claims:
  assumes "ac_Accepted (finish_compilation app declared targeted)"
  shows "ac_claims (finish_compilation app declared targeted) = ac_claims targeted" and "ac_Accepted targeted"
proof -
  have fold: "ac_claims (fold appendCompiledDestination ds c) = ac_claims c"
    "ac_Accepted (fold appendCompiledDestination ds c) = ac_Accepted c" for ds c
    by (induction ds arbitrary: c) simp_all
  show "ac_claims (finish_compilation app declared targeted) = ac_claims targeted" "ac_Accepted targeted"
    using assms by (auto simp: finish_compilation_def Let_def fold split: if_splits)
qed

lemma compiled_application_sound:
  assumes "ac_Accepted (compileAccessApplicationAgainstIR ext inp out app)"
  shows "claims_sound out (compileAccessApplicationAgainstIR ext inp out app)"
    and "aa_Namespace app = fst (ig_Key out)"
    and "\<And>account. in_CloudflareAccount inp = Some account \<Longrightarrow> aa_AccountRef app = ca_Name account"
    and "effectiveOriginJWTMode app = AccessOriginJWTModeDisabled \<Longrightarrow> jwt_disable_permitted inp app"
proof -
  let ?c = "compileAccessApplicationAgainstIR ext inp out app"
  have ns: "aa_Namespace app = fst (ig_Key out)"
    by (rule ccontr) (use assms in \<open>simp add: compileAccessApplicationAgainstIR_def\<close>)
  have account: "\<not> (case in_CloudflareAccount inp of None \<Rightarrow> False | Some a \<Rightarrow> aa_AccountRef app \<noteq> ca_Name a)"
    by (rule notI) (use assms ns in \<open>simp add: compileAccessApplicationAgainstIR_def\<close>)
  have mode: "\<not> (effectiveOriginJWTMode app = AccessOriginJWTModeDisabled \<and> \<not> jwt_disable_permitted inp app)"
    by (rule notI) (use assms ns account in \<open>simp add: compileAccessApplicationAgainstIR_def\<close>)
  note guards = ns account mode
  show "aa_Namespace app = fst (ig_Key out)" by (fact guards(1))
  show "in_CloudflareAccount inp = Some account \<Longrightarrow> aa_AccountRef app = ca_Name account" for account using guards(2) by simp
  show "effectiveOriginJWTMode app = AccessOriginJWTModeDisabled \<Longrightarrow> jwt_disable_permitted inp app" using guards(3) by simp
  obtain scope where scope: "accessApplicationPathScope app = Inr scope"
    using assms guards by (cases "accessApplicationPathScope app") (simp_all add: compileAccessApplicationAgainstIR_def)
  have failed: "\<not> ac_Accepted f" if "fold_result (compile_target inp out app scope) (aa_TargetRefs app) access_start = Inl f" for f
    using that by (rule fold_result_failure) (erule compile_target_failure)
  obtain targeted where loop: "fold_result (compile_target inp out app scope) (aa_TargetRefs app) access_start = Inr targeted"
    using assms guards scope failed
    by (cases "fold_result (compile_target inp out app scope) (aa_TargetRefs app) access_start")
      (auto simp: compileAccessApplicationAgainstIR_def)
  have declared: "ac_Accepted (compileDeclaredAccessDestinations ext inp app)"
    by (rule ccontr) (use assms guards scope loop in \<open>auto simp: compileAccessApplicationAgainstIR_def Let_def\<close>)
  have result: "?c = finish_compilation app (compileDeclaredAccessDestinations ext inp app) targeted"
    using guards scope loop declared by (auto simp: compileAccessApplicationAgainstIR_def Let_def)
  have ok: "\<forall>q. scope = Some q \<longrightarrow> region_normal q" using path_scope_ok scope by auto
  have start: "claims_sound out access_start" by (simp add: claims_sound_def access_start_def empty_compilation_def)
  have "claims_sound out targeted"
    by (rule fold_result_invariant [OF loop, where P = "claims_sound out", OF start]) (rule compile_target_sound [OF _ _ ok])
  then show "claims_sound out ?c"
    using finish_claims [of app "compileDeclaredAccessDestinations ext inp app" targeted] assms
    by (simp add: result claims_sound_def)
qed

section \<open>Properties\<close>

text \<open>
  C22: an accepted AccessApplication only claims what it may. It lives in the Gateway's namespace, names the Gateway's account, and
  disables the origin token only in a namespace labelled for it; each of its claims is on a host that the Gateway
  really serves on that listener, with a path region in normal form (rooted, no empty, dot or dot-dot element, fixed by cleaning), and no claim on a
  whole host is on a wildcard.
\<close>
theorem application_claims_sound:
  assumes "ac_Accepted (compileAccessApplicationAgainstIR ext inp out app)"
  shows "aa_Namespace app = fst (ig_Key out) \<and>
    (\<forall>account. in_CloudflareAccount inp = Some account \<longrightarrow> aa_AccountRef app = ca_Name account) \<and>
    (effectiveOriginJWTMode app = AccessOriginJWTModeDisabled \<longrightarrow> jwt_disable_permitted inp app) \<and>
    (\<forall>m \<in> set (ac_claims (compileAccessApplicationAgainstIR ext inp out app)). claim_sound out m)"
  using compiled_application_sound [OF assms] by (simp add: claims_sound_def)

text \<open>A Gateway with one public listener serving one host with one route, and an application for the whole Gateway.\<close>

definition example_app_route :: route where
  "example_app_route = empty_route\<lparr>ro_Name := ''r'', ro_Match := \<lparr>pm_Type = PathMatchPathPrefix, pm_Value = ''/''\<rparr>,
     ro_Source := empty_routeSource\<lparr>rs_Namespace := ''ns'', rs_Name := ''web''\<rparr>\<rparr>"

definition example_app_gateway :: irGateway where
  "example_app_gateway = empty_gateway\<lparr>ig_Key := (''ns'', ''gw''),
     ig_Listeners := [\<lparr>il_Name = ''l'', il_Hostname = ''a.io'', il_Port = 443, il_EnvoyPort = 18080, il_Protocol = ''HTTPS'',
       il_Exposure = ''Public'', il_Binding = [], il_TLS = None\<rparr>],
     ig_Domains := [empty_domain\<lparr>pd_Name := ''l'', pd_ListenerName := ''l'', pd_EnvoyPort := 18080, pd_Protected := True,
       pd_Guard := GuardBlocked, pd_VirtualHosts := [\<lparr>vh_Name = ''l-a'', vh_Hostname = ''a.io'', vh_Routes = [example_app_route]\<rparr>]\<rparr>]\<rparr>"

definition example_gateway_application :: accessApplication where
  "example_gateway_application = (example_application ''app'')\<lparr>aa_TargetRefs :=
     [\<lparr>atr_Group = [], atr_Kind = [], atr_Name = ''gw'', atr_SectionName = None\<rparr>]\<rparr>"

definition example_app_claim :: accessClaim where
  "example_app_claim = \<lparr>acl_listener = ''l'', acl_hostname = ''a.io'', acl_routeName = ''r'',
     acl_region = \<lparr>rn_kind = accessRegionPrefix, rn_path = ''/''\<rparr>, acl_wholeHost = True, acl_shadow = False, acl_specificity = 10\<rparr>"

lemma example_app_normal: "to_lower (trim_suffix ''a.io'' ''.'') = ''a.io''" "\<not> isWildcardHostname ''a.io''"
  by code_simp+

lemma example_app_compiles:
  "ac_Accepted (compileAccessApplicationAgainstIR ext example_private_inputs example_app_gateway example_gateway_application)"
  "ac_claims (compileAccessApplicationAgainstIR ext example_private_inputs example_app_gateway example_gateway_application) = [example_app_claim]"
proof -
  let ?app = example_gateway_application and ?out = example_app_gateway and ?inp = example_private_inputs
  have app: "aa_Namespace ?app = ''ns''" "aa_AccountRef ?app = ''acc''" "effectiveOriginJWTMode ?app = AccessOriginJWTModeRequired"
    "accessApplicationPathScope ?app = Inr None" "aa_Destinations ?app = []"
    "aa_TargetRefs ?app = [\<lparr>atr_Group = [], atr_Kind = [], atr_Name = ''gw'', atr_SectionName = None\<rparr>]"
    by (simp_all add: example_gateway_application_def example_application_def effectiveOriginJWTMode_def accessApplicationPathScope_def)
  have modes: "AccessOriginJWTModeRequired \<noteq> AccessOriginJWTModeDisabled"
    by (simp add: AccessOriginJWTModeRequired_def AccessOriginJWTModeDisabled_def)
  have account: "\<exists>a. in_CloudflareAccount ?inp = Some a \<and> ca_Name a = ''acc''" by (simp add: example_private_inputs_def)
  have declared: "compileDeclaredAccessDestinations ext ?inp ?app = sortAccessCompilation private_start"
    by (simp add: compileDeclaredAccessDestinations_def CompilePrivateDestinations_def app private_start_def Let_def)
  have plain: "ac_Destinations (sortAccessCompilation private_start) = []" "ac_Accepted (sortAccessCompilation private_start)"
    by (simp_all add: sortAccessCompilation_def private_start_def empty_compilation_def minimizeAccessDestinations_def compactAccessDestinations_def)
  have exposure: "''Public'' \<noteq> ExposurePrivate" by (simp add: ExposurePrivate_def)
  obtain targeted where targeted: "compile_target ?inp ?out ?app None (hd (aa_TargetRefs ?app)) access_start = Inr targeted"
    and claims: "ac_claims targeted = [example_app_claim]" "ac_Accepted targeted"
    using exposure
    by (simp add: compile_target_def gateway_target_def gateway_host_def app example_app_gateway_def example_app_route_def empty_gateway_def
        empty_domain_def empty_route_def example_app_normal appendAccessDestination_def listenerByName_def gateway_claim_def
        appendAccessClaim_def access_start_def empty_compilation_def example_app_claim_def Let_def
        appendCompiledDestination_def appendAccessAncestor_def)
  have loop: "fold_result (compile_target ?inp ?out ?app None) (aa_TargetRefs ?app) access_start = Inr targeted"
    using targeted by (simp add: app)
  have key: "fst (ig_Key ?out) = ''ns''" by (simp add: example_app_gateway_def)
  have result: "compileAccessApplicationAgainstIR ext ?inp ?out ?app = finish_compilation ?app (sortAccessCompilation private_start) targeted"
    using account modes plain(2) loop by (auto simp: compileAccessApplicationAgainstIR_def app(1-4) key declared Let_def)
  then show "ac_Accepted (compileAccessApplicationAgainstIR ext ?inp ?out ?app)"
    "ac_claims (compileAccessApplicationAgainstIR ext ?inp ?out ?app) = [example_app_claim]"
    using claims by (simp_all add: finish_compilation_def plain Let_def)
qed

theorem application_claims_sound_witness:
  "aa_Namespace example_gateway_application = fst (ig_Key example_app_gateway) \<and> claim_sound example_app_gateway example_app_claim"
  using application_claims_sound [OF example_app_compiles(1) [of example_externals]] by (simp add: example_app_compiles)

end
