(* ===== verification/Revocation.thy ===== *)
theory Revocation
  imports PrivateAccess Listeners
begin

text \<open>
  \<^verbatim>\<open>src/internal/gatewayapi/access_revocation.go\<close>: the tombstones of revoked AccessApplications, what they hold (Envoy ports and
  hostnames) and how a translation keeps a held host blocked. A nil \<^verbatim>\<open>*accessRevocationHolds\<close> is \<^term>\<open>None\<close>; the maps of
  holders are only looked up and the set of ports is a list.
\<close>

definition AccessRevocationAnnotation :: string where
  "AccessRevocationAnnotation = ''flareway.bhyoo.com/access-revocation''"

definition normal_host :: "string \<Rightarrow> string" where
  "normal_host hostname = to_lower (trim_suffix hostname ''.'')"

section \<open>Tombstones\<close>

record accessRevocationTombstone =
  art_Key :: string
  art_Application :: string
  art_DataPlane :: dataPlaneStatus
  art_Hostnames :: "string list"

definition reported_hostnames :: "cloudflareTunnel \<Rightarrow> string \<Rightarrow> string \<Rightarrow> string list" where
  "reported_hostnames tunnel protectionDomain applicationKey =
     map (\<lambda>s. normal_host (ths_Hostname s))
       (filter (\<lambda>s. ths_ProtectionDomain s = protectionDomain \<and> ths_AccessApplication s = applicationKey \<and> ths_Hostname s \<noteq> [])
          (tu_StatusHostnames tunnel))"

definition destination_hostname :: "destinationStatus \<Rightarrow> string" where
  "destination_hostname destination =
     normal_host (if dst_Hostname destination = [] \<and> dst_URI destination \<noteq> [] then fst (cut (dst_URI destination) CHR ''/'')
                  else dst_Hostname destination)"

definition retainedAccessHostnames :: "cloudflareTunnel \<Rightarrow> accessApplication \<Rightarrow> string \<Rightarrow> string \<Rightarrow> string list" where
  "retainedAccessHostnames tunnel application protectionDomain applicationKey =
     (let reported = reported_hostnames tunnel protectionDomain applicationKey in
      sort_compact (if reported = [] then filter (\<lambda>h. h \<noteq> []) (map destination_hostname (aa_StatusDestinations application))
                    else reported))"

definition application_key :: "accessApplication \<Rightarrow> string" where
  "application_key application = aa_Namespace application @ ''/'' @ aa_Name application"

definition tombstone_key :: "string \<Rightarrow> string \<Rightarrow> string" where
  "tombstone_key domain application = domain @ CHR 0x00 # application"

definition revoking :: "accessApplication \<Rightarrow> bool" where
  "revoking application \<longleftrightarrow>
     \<not> (time_is_zero (aa_DeletionTimestamp application) \<and> str_get (aa_Annotations application) AccessRevocationAnnotation = [])"

text \<open>One data plane of a revoked application; the state is the set of existing keys and the tombstones.\<close>

definition add_tombstone ::
  "cloudflareTunnel \<Rightarrow> accessApplication \<Rightarrow> dataPlaneStatus \<Rightarrow> string list \<times> accessRevocationTombstone list
    \<Rightarrow> string list \<times> accessRevocationTombstone list" where
  "add_tombstone tunnel application dataPlane st =
     (let (existing, tombstones) = st;
          applicationKey = application_key application;
          key = tombstone_key (dps_ProtectionDomain dataPlane) applicationKey;
          hostnames = retainedAccessHostnames tunnel application (dps_ProtectionDomain dataPlane) applicationKey
      in if dps_Tunnel dataPlane \<noteq> tu_Name tunnel \<or> dps_ProtectionDomain dataPlane = [] then st
         else if key \<in> set existing then st
         else if hostnames = [] then st
         else (key # existing, tombstones @ [\<lparr>art_Key = key, art_Application = applicationKey, art_DataPlane = dataPlane,
                 art_Hostnames = hostnames\<rparr>]))"

definition add_tombstones ::
  "cloudflareTunnel \<Rightarrow> accessApplication \<Rightarrow> string list \<times> accessRevocationTombstone list
    \<Rightarrow> string list \<times> accessRevocationTombstone list" where
  "add_tombstones tunnel application st =
     (if revoking application then fold (add_tombstone tunnel application) (aa_StatusDataPlanes application) st else st)"

definition AccessRevocationTombstones ::
  "cloudflareTunnel option \<Rightarrow> accessApplication list \<Rightarrow> protectionDomain list \<Rightarrow> accessRevocationTombstone list" where
  "AccessRevocationTombstones tunnel applications live =
     (case tunnel of
        None \<Rightarrow> []
      | Some t \<Rightarrow>
          sort_func (cmp_on art_Key compare)
            (snd (fold (add_tombstones t) applications
                    (map (\<lambda>d. tombstone_key (pd_Name d) (pd_AccessApplication d)) live, []))))"

section \<open>Holds\<close>

record accessRevocationHolds =
  arh_ports :: "int list"
  arh_private :: "(string \<times> string, string list) gomap"
  arh_public :: "(string, string list) gomap"

definition addHost :: "'k \<Rightarrow> string \<Rightarrow> ('k, string list) gomap \<Rightarrow> ('k, string list) gomap" where
  "addHost key application m =
     (let applications = mget_default m key [] in
      if application \<in> set applications then m else mput key (sort (applications @ [application])) m)"

definition hold_host :: "bool \<Rightarrow> string \<Rightarrow> string \<Rightarrow> string \<Rightarrow> accessRevocationHolds \<Rightarrow> accessRevocationHolds" where
  "hold_host private listener application hostname holds =
     (if private then holds\<lparr>arh_private := addHost (listener, hostname) application (arh_private holds)\<rparr>
      else holds\<lparr>arh_public := addHost hostname application (arh_public holds)\<rparr>)"

definition hold_tombstone ::
  "cloudflareTunnel option \<Rightarrow> accessRevocationTombstone \<Rightarrow> accessRevocationHolds \<Rightarrow> accessRevocationHolds" where
  "hold_tombstone tunnel tombstone holds =
     (let dp = art_DataPlane tombstone;
          ported = (if dps_EnvoyPort dp > 0 then holds\<lparr>arh_ports := List.insert (dps_EnvoyPort dp) (arh_ports holds)\<rparr> else holds)
      in fold (hold_host (listenerExposure tunnel (dps_Listener dp) = ExposurePrivate) (dps_Listener dp) (art_Application tombstone))
           (art_Hostnames tombstone) ported)"

definition newAccessRevocationHolds :: "inputs \<Rightarrow> gateway \<Rightarrow> protectionDomain list \<Rightarrow> accessRevocationHolds option" where
  "newAccessRevocationHolds inp gw live =
     (case AccessRevocationTombstones (in_CloudflareTunnel inp) (in_AccessApplications inp) live of
        [] \<Rightarrow> None
      | tombstones \<Rightarrow>
          (let holds = fold (hold_tombstone (in_CloudflareTunnel inp)) tombstones \<lparr>arh_ports = [], arh_private = [], arh_public = []\<rparr>
           in Some (if arh_ports holds \<noteq> [] then
                      holds\<lparr>arh_ports := fold List.insert
                        (map ln_Port (filter (\<lambda>l. listenerExposure (in_CloudflareTunnel inp) (ln_Name l) = ExposurePrivate) (gw_Listeners gw)))
                        (arh_ports holds)\<rparr>
                    else holds)))"

definition reservedPorts :: "accessRevocationHolds option \<Rightarrow> int list" where
  "reservedPorts holds = (case holds of None \<Rightarrow> [] | Some h \<Rightarrow> arh_ports h)"

text \<open>The hostnames a holder of which holds \<open>hostname\<close>: itself and the wildcards above it.\<close>

definition host_candidates :: "string \<Rightarrow> string list" where
  "host_candidates hostname =
     (let labels = split (trim_prefix hostname ''*.'') CHR ''.'' in
      hostname # map (\<lambda>index. ''*.'' @ join (drop index labels) ''.'') [1..<length labels - 1])"

definition holders :: "accessRevocationHolds option \<Rightarrow> string \<Rightarrow> string \<Rightarrow> string \<Rightarrow> string list" where
  "holders holds exposure listener hostname =
     (case holds of
        None \<Rightarrow> []
      | Some h \<Rightarrow>
          if hostname = [] \<or> hostname = ''*'' then []
          else sort_compact (concat (map (\<lambda>candidate.
                 if exposure = ExposurePrivate then mget_default (arh_private h) (listener, candidate) []
                 else mget_default (arh_public h) candidate []) (host_candidates (normal_host hostname)))))"

definition held :: "accessRevocationHolds option \<Rightarrow> string \<Rightarrow> string \<Rightarrow> string \<Rightarrow> bool" where
  "held holds exposure listener hostname \<longleftrightarrow> holders holds exposure listener hostname \<noteq> []"

definition describe :: "accessRevocationHolds option \<Rightarrow> inputs \<Rightarrow> accessClaim list \<Rightarrow> string \<Rightarrow> string" where
  "describe holds inp claims application =
     join (sort_compact (concat (map (\<lambda>claim.
       map (\<lambda>holder. acl_hostname claim @ '' on listener '' @ acl_listener claim @
             '' stays blocked until the revocation of AccessApplication '' @ holder @ '' is acknowledged'')
         (filter (\<lambda>holder. holder \<noteq> application)
            (holders holds (listenerExposure (in_CloudflareTunnel inp) (acl_listener claim)) (acl_listener claim) (acl_hostname claim))))
       claims))) ''; ''"

text \<open>\<^verbatim>\<open>apply\<close>: the exposure of a domain is that of the last listener of its name.\<close>

definition domain_exposure :: "irListener list \<Rightarrow> protectionDomain \<Rightarrow> string" where
  "domain_exposure listeners d =
     foldl (\<lambda>exposure l. if il_Name l = pd_ListenerName d then il_Exposure l else exposure) [] listeners"

definition domain_held :: "accessRevocationHolds option \<Rightarrow> irListener list \<Rightarrow> protectionDomain \<Rightarrow> bool" where
  "domain_held holds listeners d =
     list_ex (\<lambda>vh. held holds (domain_exposure listeners d) (pd_ListenerName d) (vh_Hostname vh)) (pd_VirtualHosts d)"

definition hold_domain :: "accessRevocationHolds option \<Rightarrow> irListener list \<Rightarrow> protectionDomain \<Rightarrow> protectionDomain list" where
  "hold_domain holds listeners d =
     (if \<not> domain_held holds listeners d then [d]
      else if pd_AccessApplication d = [] then []
      else [d\<lparr>pd_Protected := True, pd_Guard := GuardBlocked, pd_Access := None, pd_StripAccessHeaders := False\<rparr>])"

definition apply_holds :: "accessRevocationHolds option \<Rightarrow> irGateway \<Rightarrow> irGateway" where
  "apply_holds holds out =
     (if holds = None then out
      else out\<lparr>ig_Domains := concat (map (hold_domain holds (ig_Listeners out)) (ig_Domains out))\<rparr>)"

section \<open>Lemmas on tombstones\<close>

text \<open>Who holds a host: on one private listener, or on every public one.\<close>

definition held_by :: "bool \<Rightarrow> string \<Rightarrow> string \<Rightarrow> accessRevocationHolds \<Rightarrow> string set" where
  "held_by private listener hostname holds =
     set (if private then mget_default (arh_private holds) (listener, hostname) [] else mget_default (arh_public holds) hostname [])"

lemma addHost_lookup:
  "set (mget_default (addHost k a m) k' []) = (if k' = k then insert a (set (mget_default m k [])) else set (mget_default m k' []))"
  by (auto simp: addHost_def mget_default_def Let_def)

lemma held_by_host:
  "held_by p l h (hold_host p' l' a' h' holds) =
     held_by p l h holds \<union> (if p = p' \<and> h = h' \<and> (p \<longrightarrow> l = l') then {a'} else {})"
  by (auto simp: held_by_def hold_host_def addHost_lookup)

lemma held_by_hosts:
  "held_by p l h (fold (hold_host p' l' a') hs holds) =
     held_by p l h holds \<union> (if p = p' \<and> h \<in> set hs \<and> (p \<longrightarrow> l = l') then {a'} else {})"
  by (induction hs arbitrary: holds) (auto simp: held_by_host)

definition tombstone_private :: "cloudflareTunnel option \<Rightarrow> accessRevocationTombstone \<Rightarrow> bool" where
  "tombstone_private tunnel t \<longleftrightarrow> listenerExposure tunnel (dps_Listener (art_DataPlane t)) = ExposurePrivate"

lemma held_by_tombstone:
  "held_by p l h (hold_tombstone tunnel t holds) = held_by p l h holds \<union>
     (if p = tombstone_private tunnel t \<and> h \<in> set (art_Hostnames t) \<and> (p \<longrightarrow> l = dps_Listener (art_DataPlane t))
      then {art_Application t} else {})"
proof -
  have "held_by p l h (holds\<lparr>arh_ports := x\<rparr>) = held_by p l h holds" for x by (simp add: held_by_def)
  then show ?thesis by (auto simp: hold_tombstone_def Let_def held_by_hosts tombstone_private_def)
qed

lemma held_by_tombstones:
  "held_by p l h (fold (hold_tombstone tunnel) ts holds) = held_by p l h holds \<union>
     {a. \<exists>t \<in> set ts. a = art_Application t \<and> p = tombstone_private tunnel t \<and> h \<in> set (art_Hostnames t) \<and>
        (p \<longrightarrow> l = dps_Listener (art_DataPlane t))}"
  by (induction ts arbitrary: holds) (auto simp: held_by_tombstone split: if_splits)

lemma hold_hosts_ports: "arh_ports (fold (hold_host p l a) hs holds) = arh_ports holds"
  by (induction hs arbitrary: holds) (simp_all add: hold_host_def)

lemma hold_tombstones_ports:
  "set (arh_ports (fold (hold_tombstone tunnel) ts holds)) = set (arh_ports holds) \<union>
     {p. 0 < p \<and> (\<exists>t \<in> set ts. p = dps_EnvoyPort (art_DataPlane t))}"
  by (induction ts arbitrary: holds) (auto simp: hold_tombstone_def Let_def hold_hosts_ports)

lemma set_fold_insert: "set (fold List.insert xs ys) = set xs \<union> set ys"
  by (induction xs arbitrary: ys) auto

lemma new_holds_parts:
  assumes "newAccessRevocationHolds inp gw live = Some holds"
  defines "ts \<equiv> AccessRevocationTombstones (in_CloudflareTunnel inp) (in_AccessApplications inp) live"
  shows "held_by p l h holds = {a. \<exists>t \<in> set ts. a = art_Application t \<and> p = tombstone_private (in_CloudflareTunnel inp) t \<and>
      h \<in> set (art_Hostnames t) \<and> (p \<longrightarrow> l = dps_Listener (art_DataPlane t))}"
    and "t \<in> set ts \<Longrightarrow> 0 < dps_EnvoyPort (art_DataPlane t) \<Longrightarrow> dps_EnvoyPort (art_DataPlane t) \<in> set (arh_ports holds)"
proof -
  let ?fold = "fold (hold_tombstone (in_CloudflareTunnel inp)) ts \<lparr>arh_ports = [], arh_private = [], arh_public = []\<rparr>"
  obtain ports where holds: "holds = ?fold\<lparr>arh_ports := ports\<rparr>" and sub: "set (arh_ports ?fold) \<subseteq> set ports"
  proof (cases "arh_ports ?fold = []")
    case True
    then show ?thesis using assms(1) that [of "arh_ports ?fold"]
      by (auto simp: newAccessRevocationHolds_def ts_def Let_def split: list.splits)
  next
    case False
    then show ?thesis using assms(1) that [of "arh_ports holds"]
      by (auto simp: newAccessRevocationHolds_def ts_def Let_def set_fold_insert split: list.splits)
  qed
  have "held_by p l h holds = held_by p l h ?fold" by (simp add: holds held_by_def)
  also have "\<dots> = held_by p l h \<lparr>arh_ports = [], arh_private = [], arh_public = []\<rparr> \<union> {a. \<exists>t \<in> set ts. a = art_Application t \<and>
      p = tombstone_private (in_CloudflareTunnel inp) t \<and> h \<in> set (art_Hostnames t) \<and> (p \<longrightarrow> l = dps_Listener (art_DataPlane t))}"
    by (rule held_by_tombstones)
  finally show "held_by p l h holds = {a. \<exists>t \<in> set ts. a = art_Application t \<and> p = tombstone_private (in_CloudflareTunnel inp) t \<and>
      h \<in> set (art_Hostnames t) \<and> (p \<longrightarrow> l = dps_Listener (art_DataPlane t))}"
    by (simp add: held_by_def mget_default_def)
  show "t \<in> set ts \<Longrightarrow> 0 < dps_EnvoyPort (art_DataPlane t) \<Longrightarrow> dps_EnvoyPort (art_DataPlane t) \<in> set (arh_ports holds)"
    using sub by (auto simp: holds hold_tombstones_ports)
qed

lemma held_iff:
  "held (Some holds) exposure listener hostname \<longleftrightarrow> hostname \<noteq> [] \<and> hostname \<noteq> ''*'' \<and>
     (\<exists>c \<in> set (host_candidates (normal_host hostname)). held_by (exposure = ExposurePrivate) listener c holds \<noteq> {})"
proof -
  have empty: "sort_compact xs = [] \<longleftrightarrow> xs = []" for xs :: "string list"
    using set_sort_compact [of xs] by (metis set_empty)
  show ?thesis by (auto simp: held_def holders_def held_by_def empty)
qed

text \<open>A host below a wildcard whose suffix has at least two labels is one of the candidates.\<close>

definition below_wildcard :: "string \<Rightarrow> string \<Rightarrow> bool" where
  "below_wildcard host wildcard \<longleftrightarrow>
     (\<exists>x rest. wildcard = ''*.'' @ rest \<and> host = x @ ''.'' @ rest \<and> CHR ''.'' \<in> set rest) \<and> \<not> has_prefix host ''*.''"

definition host_covered :: "string \<Rightarrow> string \<Rightarrow> bool" where
  "host_covered host held_host \<longleftrightarrow> held_host = host \<or> below_wildcard host held_host"

lemma split_append: "split (a @ c # b) c = split a c @ split b c"
  by (induction a) (auto split: list.splits)

lemma split_length_pos: "1 \<le> length (split s c)"
  using split_nonempty [of s c] by (simp add: Suc_leI del: split_nonempty)

lemma length_split: "c \<in> set s \<Longrightarrow> 2 \<le> length (split s c)"
proof -
  assume "c \<in> set s"
  then obtain a b where s: "s = a @ c # b" by (meson split_list)
  show ?thesis using split_length_pos [of a c] split_length_pos [of b c] unfolding s split_append by simp
qed

lemma covered_candidate: "host_covered host h \<Longrightarrow> h \<in> set (host_candidates host)"
proof -
  assume "host_covered host h"
  then consider "h = host" | x rest where "h = ''*.'' @ rest" "host = x @ ''.'' @ rest" "CHR ''.'' \<in> set rest" "\<not> has_prefix host ''*.''"
    unfolding host_covered_def below_wildcard_def by blast
  then show ?thesis
  proof cases
    case 1
    then show ?thesis by (simp add: host_candidates_def Let_def)
  next
    case 2
    let ?n = "length (split x CHR ''.'')"
    have labels: "split (trim_prefix host ''*.'') CHR ''.'' = split x CHR ''.'' @ split rest CHR ''.''"
      using 2 by (simp add: trim_prefix_def split_append)
    have "1 \<le> ?n" by (rule split_length_pos)
    moreover have "?n < length (split x CHR ''.'' @ split rest CHR ''.'') - 1"
      using length_split [OF 2(3)] by simp
    ultimately have "?n \<in> set [1..<length (split x CHR ''.'' @ split rest CHR ''.'') - 1]" by simp
    moreover have "h = ''*.'' @ join (drop ?n (split x CHR ''.'' @ split rest CHR ''.'')) ''.''"
      using 2(1) by simp
    ultimately show ?thesis unfolding host_candidates_def Let_def labels list.set set_map by (intro insertI2 image_eqI)
  qed
qed

section \<open>Lemmas on holds\<close>

lemma domain_exposure_cong: "pd_ListenerName d = pd_ListenerName e \<Longrightarrow> domain_exposure ls d = domain_exposure ls e"
  by (simp add: domain_exposure_def)

lemma held_domain_blocked:
  assumes "d \<in> set (ig_Domains (apply_holds (Some holds) out))" and "vh \<in> set (pd_VirtualHosts d)"
    and "held (Some holds) (domain_exposure (ig_Listeners out) d) (pd_ListenerName d) (vh_Hostname vh)"
  shows "pd_Guard d = GuardBlocked \<and> pd_Access d = None \<and> pd_Protected d \<and> pd_AccessApplication d \<noteq> []"
proof -
  obtain e where e: "d \<in> set (hold_domain (Some holds) (ig_Listeners out) e)"
    using assms(1) by (auto simp: apply_holds_def)
  have same: "pd_ListenerName d = pd_ListenerName e" "pd_VirtualHosts d = pd_VirtualHosts e"
    using e by (auto simp: hold_domain_def split: if_splits)
  have "domain_held (Some holds) (ig_Listeners out) e"
    using assms(2,3) domain_exposure_cong [OF same(1)] by (auto simp: domain_held_def list_ex_iff same)
  then show ?thesis using e by (auto simp: hold_domain_def split: if_splits)
qed

lemma apply_holds_fields [simp]: "ig_Listeners (apply_holds holds out) = ig_Listeners out"
  "ig_ConformanceMode (apply_holds holds out) = ig_ConformanceMode out"
  by (simp_all add: apply_holds_def)

text \<open>A domain after the holds are applied is an original one, or an original Access domain turned into a block.\<close>

lemma applied_domain_origin:
  assumes "d \<in> set (ig_Domains (apply_holds holds out))"
  shows "d \<in> set (ig_Domains out) \<or> (\<exists>e \<in> set (ig_Domains out). pd_AccessApplication e \<noteq> [] \<and>
    d = e\<lparr>pd_Protected := True, pd_Guard := GuardBlocked, pd_Access := None, pd_StripAccessHeaders := False\<rparr>)"
  using assms by (auto simp: apply_holds_def hold_domain_def split: if_splits)

end
