(* ===== verification/AccessDomains.thy ===== *)
theory AccessDomains
  imports AccessCompile Revocation
begin

text \<open>
  The application of all AccessApplications to a translated Gateway, \<^verbatim>\<open>applyAccessApplications\<close> of
  \<^verbatim>\<open>src/internal/gatewayapi/access.go\<close>: conflicts between applications, the partition of every virtual host
  into protected, public and blocked protection domains, unique domain names and dropped routes. The Go maps that are
  iterated (compilations, selected claims, regions) are association lists whose order stands for one iteration order.
\<close>

section \<open>Lookups\<close>

definition accessApplicationByKey :: "accessApplication list \<Rightarrow> nsname \<Rightarrow> accessApplication option" where
  "accessApplicationByKey applications key =
     List.find (\<lambda>a. aa_Namespace a = fst key \<and> aa_Name a = snd key) applications"

definition key_string :: "nsname \<Rightarrow> string" where
  "key_string key = fst key @ ''/'' @ snd key"

definition parseNamespacedName :: "string \<Rightarrow> nsname" where
  "parseNamespacedName value = (let (namespace, name, _) = cut value CHR ''/'' in (namespace, name))"

definition routeRuleLabel :: "route \<Rightarrow> string" where
  "routeRuleLabel route =
     (if rs_RuleName (ro_Source route) \<noteq> [] then ''rule '' @ show_q (rs_RuleName (ro_Source route))
      else ''rule '' @ show_int (rs_RuleIndex (ro_Source route)))"

definition uniqueStrings :: "string list \<Rightarrow> string list" where
  "uniqueStrings values = unique_by (\<lambda>v. v) values"

definition nextAccessEnvoyPort :: "protectionDomain list \<Rightarrow> int" where
  "nextAccessEnvoyPort domains =
     foldl (\<lambda>nextPublic d. if pd_EnvoyPort d \<ge> nextPublic then wrap32 (pd_EnvoyPort d + 1) else nextPublic) 18080 domains"

definition aud_secret :: "inputs \<Rightarrow> nsname \<Rightarrow> audSecret" where
  "aud_secret inp key = (case in_AUDSecrets inp key of None \<Rightarrow> \<lparr>aud_AUD = [], aud_ApplicationID = [], aud_Ready = False\<rparr> | Some s \<Rightarrow> s)"

definition accessApplicationReady :: "inputs \<Rightarrow> nsname \<Rightarrow> bool" where
  "accessApplicationReady inp key \<longleftrightarrow> aud_Ready (aud_secret inp key) \<and> aud_ApplicationID (aud_secret inp key) \<noteq> []"

definition accessHostSuffix :: "externals \<Rightarrow> string \<Rightarrow> string \<Rightarrow> string" where
  "accessHostSuffix ext owner hostname = hex_encode (take 4 (ext_sha256 ext (owner @ CHR 0x00 # to_lower hostname)))"

type_synonym compilations = "(nsname, accessApplicationCompilation) gomap"

definition compilationClaimsHostname :: "accessApplicationCompilation \<Rightarrow> string \<Rightarrow> string \<Rightarrow> bool" where
  "compilationClaimsHostname compilation listener hostname =
     list_ex (\<lambda>c. acl_listener c = listener \<and> acl_hostname c = hostname) (ac_claims compilation)"

text \<open>The audiences of a domain; \<^term>\<open>None\<close> when they are not ready.\<close>

definition audience_step ::
  "inputs \<Rightarrow> string \<Rightarrow> string \<Rightarrow> nsname \<times> accessApplicationCompilation \<Rightarrow> string list \<Rightarrow> unit + string list" where
  "audience_step inp listener hostname entry audiences =
     (if \<not> ac_Accepted (snd entry) \<or> \<not> compilationClaimsHostname (snd entry) listener hostname then Inr audiences
      else if \<not> accessApplicationReady inp (fst entry) \<or> aud_AUD (aud_secret inp (fst entry)) = [] then Inl ()
      else Inr (audiences @ [aud_AUD (aud_secret inp (fst entry))]))"

definition accessAudiencesForDomain :: "inputs \<Rightarrow> compilations \<Rightarrow> nsname \<Rightarrow> string \<Rightarrow> string \<Rightarrow> string list option" where
  "accessAudiencesForDomain inp comps key listener hostname =
     (if (case accessApplicationByKey (in_AccessApplications inp) key of
            None \<Rightarrow> True | Some app \<Rightarrow> effectiveOriginJWTAudienceScope app = AccessOriginJWTAudienceScopeApplication)
      then (if \<not> accessApplicationReady inp key \<or> aud_AUD (aud_secret inp key) = [] then None
            else Some [aud_AUD (aud_secret inp key)])
      else case fold_result (audience_step inp listener hostname) comps [] of
        Inl _ \<Rightarrow> None
      | Inr audiences \<Rightarrow> if sort_compact audiences = [] then None else Some (sort_compact audiences))"

definition accessClaimSpecificity :: "accessApplicationCompilation \<Rightarrow> string \<Rightarrow> string \<Rightarrow> accessRegion \<Rightarrow> int" where
  "accessClaimSpecificity compilation listener hostname region =
     foldl (\<lambda>best c. if acl_listener c = listener \<and> acl_hostname c = hostname \<and> acl_region c = region \<and> acl_specificity c > best
                     then acl_specificity c else best) (- 1) (ac_claims compilation)"

section \<open>Claims on one virtual host\<close>

record host_partition =
  hp_claimed :: "(string, route list) gomap"
  hp_public :: "route list"
  hp_wholeHost :: "(string, bool) gomap"
  hp_regions :: "(string, accessRegion list) gomap"

definition empty_partition :: host_partition where
  "empty_partition = \<lparr>hp_claimed = [], hp_public = [], hp_wholeHost = [], hp_regions = []\<rparr>"

definition claim_applies :: "string \<Rightarrow> string \<Rightarrow> route \<Rightarrow> accessClaim \<Rightarrow> bool" where
  "claim_applies listener hostname route claim \<longleftrightarrow>
     \<not> (acl_listener claim \<noteq> listener \<or> acl_hostname claim \<noteq> hostname \<or>
        acl_routeName claim \<noteq> ro_Name route \<and> \<not> acl_wholeHost claim)"

definition select_claim :: "string \<Rightarrow> accessClaim \<Rightarrow> (string, accessClaim) gomap \<Rightarrow> (string, accessClaim) gomap" where
  "select_claim owner claim selected =
     (case mget selected owner of
        None \<Rightarrow> mput owner claim selected
      | Some s \<Rightarrow> if acl_specificity claim > acl_specificity s then mput owner claim selected else selected)"

definition selected_claims :: "compilations \<Rightarrow> string \<Rightarrow> string \<Rightarrow> route \<Rightarrow> (string, accessClaim) gomap" where
  "selected_claims comps listener hostname route =
     fold (\<lambda>(key, c) selected.
             if ac_Accepted c then fold (select_claim (key_string key)) (filter (claim_applies listener hostname route) (ac_claims c)) selected
             else selected) comps []"

definition consuming_specificity :: "(string, accessClaim) gomap \<Rightarrow> int" where
  "consuming_specificity selected =
     foldl (\<lambda>best (_, c). if \<not> acl_shadow c \<and> acl_specificity c > best then acl_specificity c else best) (- 1) selected"

definition take_claim :: "int \<Rightarrow> route \<Rightarrow> string \<times> accessClaim \<Rightarrow> host_partition \<Rightarrow> host_partition" where
  "take_claim consuming route entry p =
     (let (owner, c) = entry in
      if \<not> acl_shadow c \<and> acl_specificity c < consuming then p
      else p\<lparr>hp_wholeHost := mput owner (mget_default (hp_wholeHost p) owner False \<or> acl_wholeHost c) (hp_wholeHost p),
             hp_regions := mput owner (appendUniqueAccessRegion (mget_default (hp_regions p) owner []) (acl_region c)) (hp_regions p),
             hp_claimed := mput owner (mget_default (hp_claimed p) owner [] @ [route]) (hp_claimed p)\<rparr>)"

definition partition_route :: "compilations \<Rightarrow> string \<Rightarrow> string \<Rightarrow> route \<Rightarrow> host_partition \<Rightarrow> host_partition" where
  "partition_route comps listener hostname route p =
     (let selected = selected_claims comps listener hostname route in
      if selected = [] then p\<lparr>hp_public := hp_public p @ [route]\<rparr>
      else fold (take_claim (consuming_specificity selected) route) selected p)"

definition claim_empty_host :: "string \<Rightarrow> string \<Rightarrow> nsname \<times> accessApplicationCompilation \<Rightarrow> host_partition \<Rightarrow> host_partition" where
  "claim_empty_host listener hostname entry p =
     (let (key, c) = entry; owner = key_string key in
      if \<not> ac_Accepted c then p
      else fold (\<lambda>claim q. if acl_listener claim = listener \<and> acl_hostname claim = hostname \<and> acl_wholeHost claim then
             q\<lparr>hp_wholeHost := mput owner True (hp_wholeHost q),
               hp_regions := mput owner (appendUniqueAccessRegion (mget_default (hp_regions q) owner []) (acl_region claim)) (hp_regions q)\<rparr>
           else q) (ac_claims c) p)"

definition partition_host :: "compilations \<Rightarrow> string \<Rightarrow> virtualHost \<Rightarrow> host_partition" where
  "partition_host comps listener host =
     (let p = fold (partition_route comps listener (vh_Hostname host)) (vh_Routes host) empty_partition in
      if vh_Routes host = [] then fold (claim_empty_host listener (vh_Hostname host)) comps p else p)"

section \<open>Public carve-outs\<close>

text \<open>The owners whose region contains a public path, of the highest specificity.\<close>

definition container_step ::
  "compilations \<Rightarrow> string \<Rightarrow> string \<Rightarrow> accessRegion \<Rightarrow> string \<Rightarrow> accessRegion \<Rightarrow> bool \<times> int \<times> string list \<Rightarrow> bool \<times> int \<times> string list" where
  "container_step comps listener hostname q owner p st =
     (let (overlaps, best, containers) = st in
      if \<not> accessRegionsOverlap p q then st
      else if \<not> accessRegionContains p q then (True, best, containers)
      else
        (let specificity = accessClaimSpecificity (mget_default comps (parseNamespacedName owner) empty_compilation) listener hostname p in
         if specificity > best then (True, specificity, [owner])
         else if specificity = best then (True, best, containers @ [owner])
         else (True, best, containers)))"

definition public_containers ::
  "compilations \<Rightarrow> string \<Rightarrow> string \<Rightarrow> (string, accessRegion list) gomap \<Rightarrow> accessRegion \<Rightarrow> bool \<times> string list" where
  "public_containers comps listener hostname regions q =
     (let (overlaps, _, containers) =
            fold (\<lambda>(owner, ps). fold (container_step comps listener hostname q owner) ps) regions (False, - 1, [])
      in (overlaps, uniqueStrings containers))"

record public_state =
  pu_kept :: "route list"
  pu_ingress :: "pathMatch list"
  pu_comps :: compilations
  pu_dropped :: "(nsname, string list) gomap"
  pu_remaining :: "(nsname, int) gomap"

definition drop_route :: "route \<Rightarrow> string \<Rightarrow> public_state \<Rightarrow> public_state" where
  "drop_route route message st =
     (let key = (rs_Namespace (ro_Source route), rs_Name (ro_Source route)) in
      st\<lparr>pu_dropped := mput key (mget_default (pu_dropped st) key [] @ [routeRuleLabel route @ '' '' @ message]) (pu_dropped st),
         pu_remaining := mput key (mget_default (pu_remaining st) key 0 - 1) (pu_remaining st)\<rparr>)"

definition keep_route :: "route \<Rightarrow> accessRegion \<Rightarrow> public_state \<Rightarrow> public_state" where
  "keep_route route q st =
     st\<lparr>pu_kept := pu_kept st @ [sanitizeUnprotectedRoute route], pu_ingress := pu_ingress st @ accessRegionsToMatches [q]\<rparr>"

definition add_bypass :: "string \<Rightarrow> accessBypass \<Rightarrow> compilations \<Rightarrow> compilations" where
  "add_bypass owner bypass comps =
     (let key = parseNamespacedName owner; c = mget_default comps key empty_compilation in
      mput key (c\<lparr>ac_Bypass := appendUniqueBypass (ac_Bypass c) bypass\<rparr>) comps)"

definition public_route ::
  "string \<Rightarrow> string \<Rightarrow> bool \<Rightarrow> (string, accessRegion list) gomap \<Rightarrow> route \<Rightarrow> public_state \<Rightarrow> public_state" where
  "public_route listener hostname publicAllowed regions route st =
     (let carve = ''split hostname: public carve-outs must use Exact or PathPrefix matches'' in
      if pm_Type (ro_Match route) = PathMatchRegularExpression then drop_route route carve st
      else case accessRegionForRoute route of
        Inl _ \<Rightarrow> drop_route route carve st
      | Inr q \<Rightarrow>
          if rn_kind q \<noteq> accessRegionExact \<and> rn_kind q \<noteq> accessRegionPrefix then drop_route route carve st
          else if \<not> publicAllowed then drop_route route (''public carve-out requires unprotected grant for '' @ hostname) st
          else
            (let (overlaps, containers) = public_containers (pu_comps st) listener hostname regions q in
             if overlaps \<and> length containers \<noteq> 1 then drop_route route ''split hostname: use separate hostnames'' st
             else keep_route route q
               (if length containers = 1
                then st\<lparr>pu_comps := add_bypass (hd containers) \<lparr>aby_Hostname = hostname, aby_Path = rn_path q\<rparr> (pu_comps st)\<rparr> else st)))"

section \<open>Protection domains\<close>

record partition_state =
  px_domains :: "protectionDomain list"
  px_comps :: compilations
  px_ports :: publicEnvoyPorts
  px_dropped :: "(nsname, string list) gomap"
  px_remaining :: "(nsname, int) gomap"

definition public_domain :: "protectionDomain \<Rightarrow> virtualHost \<Rightarrow> public_state \<Rightarrow> protectionDomain" where
  "public_domain base host pu =
     base\<lparr>pd_Name := pd_Name base @ ''-public'', pd_Protected := False, pd_Access := None, pd_AccessApplication := [],
          pd_Guard := GuardUnprotected, pd_StripAccessHeaders := True, pd_IngressPaths := pu_ingress pu,
          pd_VirtualHosts := [\<lparr>vh_Name = vh_Name host @ ''-public'', vh_Hostname = vh_Hostname host, vh_Routes = pu_kept pu\<rparr>]\<rparr>"

definition blocked_domain :: "protectionDomain \<Rightarrow> virtualHost \<Rightarrow> protectionDomain" where
  "blocked_domain base host =
     base\<lparr>pd_Name := pd_Name base @ ''-blocked'', pd_Protected := False, pd_Access := None, pd_Guard := GuardBlocked,
          pd_StripAccessHeaders := True,
          pd_VirtualHosts := [\<lparr>vh_Name = vh_Name host @ ''-blocked'', vh_Hostname = vh_Hostname host, vh_Routes = []\<rparr>]\<rparr>"

definition public_domains ::
  "protectionDomain \<Rightarrow> virtualHost \<Rightarrow> bool \<Rightarrow> (string, accessRegion list) gomap \<Rightarrow> public_state \<Rightarrow> protectionDomain list" where
  "public_domains base host publicAllowed regions pu =
     (if pu_kept pu \<noteq> [] then [public_domain base host pu]
      else if \<not> publicAllowed \<and> \<not> accessRegionsCoverWholeHost regions then [blocked_domain base host]
      else [])"

text \<open>The guard of a protected domain: disabled origin JWT, or the audiences of the ready applications.\<close>

definition guard_domain ::
  "inputs \<Rightarrow> compilations \<Rightarrow> nsname \<Rightarrow> string \<Rightarrow> string \<Rightarrow> protectionDomain \<Rightarrow> protectionDomain" where
  "guard_domain inp comps key listener hostname d =
     (let application = accessApplicationByKey (in_AccessApplications inp) key;
          mode = (case application of None \<Rightarrow> AccessOriginJWTModeRequired | Some a \<Rightarrow> effectiveOriginJWTMode a)
      in if mode = AccessOriginJWTModeDisabled then
           d\<lparr>pd_OriginJWTDisabled := True, pd_Access := None,
             pd_Guard := (if accessApplicationReady inp key then GuardForwarding else GuardBlocked)\<rparr>
         else
           (let blocked = d\<lparr>pd_Access := None, pd_Guard := GuardBlocked\<rparr> in
            case (accessAudiencesForDomain inp comps key listener hostname, in_CloudflareAccount inp) of
              (Some audiences, Some account) \<Rightarrow>
                if ca_TeamName account \<noteq> [] \<and> ca_AuthDomain account \<noteq> [] then
                  d\<lparr>pd_Access := Some \<lparr>ag_AUDs = audiences, ag_TeamName = ca_TeamName account, ag_AuthDomain = ca_AuthDomain account,
                      ag_OptionsPreflightBypass = (case application of None \<Rightarrow> False
                        | Some a \<Rightarrow> (case aa_OptionsPreflightBypass a of None \<Rightarrow> False | Some b \<Rightarrow> b))\<rparr>,
                    pd_Guard := GuardForwarding\<rparr>
                else blocked
            | _ \<Rightarrow> blocked))"

definition domain_listener_private :: "irGateway \<Rightarrow> string \<Rightarrow> irListener option" where
  "domain_listener_private out name =
     (case listenerByName (ig_Listeners out) name of
        Some l \<Rightarrow> (if il_Exposure l = ExposurePrivate then Some l else None) | None \<Rightarrow> None)"

text \<open>The name and the port of a protected domain: a private host shares its listener's port, a public host takes the next one.\<close>

definition owner_port ::
  "externals \<Rightarrow> irGateway \<Rightarrow> protectionDomain \<Rightarrow> virtualHost \<Rightarrow> string \<Rightarrow> publicEnvoyPorts \<Rightarrow> string \<times> int \<times> publicEnvoyPorts" where
  "owner_port ext out base host owner ports =
     (let name = pd_Name base @ ''-access-'' @ replace_char owner CHR ''/'' CHR ''-'' in
      case domain_listener_private out (pd_ListenerName base) of
        Some l \<Rightarrow> (name, il_Port l, ports)
      | None \<Rightarrow> (let (port, ports') = ports_take ports
                in (name @ ''-'' @ accessHostSuffix ext owner (vh_Hostname host), port, ports')))"

definition owner_base ::
  "protectionDomain \<Rightarrow> virtualHost \<Rightarrow> host_partition \<Rightarrow> string \<Rightarrow> string \<Rightarrow> int \<Rightarrow> protectionDomain" where
  "owner_base base host p owner name port =
     base\<lparr>pd_Name := name, pd_EnvoyPort := port, pd_Protected := True, pd_AccessApplication := owner,
          pd_StripAccessHeaders := False, pd_IngressPaths := accessRegionsToMatches (mget_default (hp_regions p) owner []),
          pd_VirtualHosts := [\<lparr>vh_Name = vh_Name host @ ''-access-'' @ replace_char owner CHR ''/'' CHR ''-'',
            vh_Hostname = vh_Hostname host, vh_Routes = mget_default (hp_claimed p) owner []\<rparr>]\<rparr>"

definition owner_domain ::
  "externals \<Rightarrow> inputs \<Rightarrow> irGateway \<Rightarrow> protectionDomain \<Rightarrow> virtualHost \<Rightarrow> host_partition \<Rightarrow> string \<Rightarrow> partition_state \<Rightarrow> partition_state" where
  "owner_domain ext inp out base host p owner st =
     (let key = parseNamespacedName owner;
          c = mget_default (px_comps st) key empty_compilation
      in if \<not> ac_Accepted c then st
         else
           (let (name', port, ports) = owner_port ext out base host owner (px_ports st);
                d = guard_domain inp (px_comps st) key (pd_ListenerName base) (vh_Hostname host)
                      (owner_base base host p owner name' port);
                plane = \<lparr>adp_Tunnel = (case in_CloudflareTunnel inp of None \<Rightarrow> [] | Some t \<Rightarrow> tu_Name t),
                  adp_Listener = pd_ListenerName base, adp_ProtectionDomain = name', adp_EnvoyPort = port\<rparr>
            in st\<lparr>px_domains := px_domains st @ [d], px_ports := ports,
                  px_comps := mput key (c\<lparr>ac_DataPlanes := ac_DataPlanes c @ [plane]\<rparr>) (px_comps st)\<rparr>))"

definition unprotected_allowed :: "externals \<Rightarrow> inputs \<Rightarrow> irGateway \<Rightarrow> string \<Rightarrow> bool" where
  "unprotected_allowed ext inp out hostname =
     ad_Allowed (authz_Evaluate (ext_selector ext) (in_CloudflareAccount inp) (namespaceByName (in_Namespaces inp) (fst (ig_Key out)))
       (empty_request\<lparr>rq_Hostname := hostname, rq_Exposure := ExposurePublic, rq_Unprotected := True\<rparr>))"

definition partitionAccessVirtualHost ::
  "externals \<Rightarrow> inputs \<Rightarrow> irGateway \<Rightarrow> protectionDomain \<Rightarrow> virtualHost \<Rightarrow> partition_state \<Rightarrow> partition_state" where
  "partitionAccessVirtualHost ext inp out base host st =
     (let p = partition_host (px_comps st) (pd_ListenerName base) host in
      if hp_claimed p = [] \<and> hp_wholeHost p = [] then
        st\<lparr>px_domains := px_domains st @
          [base\<lparr>pd_StripAccessHeaders := pd_Guard base = GuardUnprotected, pd_VirtualHosts := [host]\<rparr>]\<rparr>
      else
        (let protectedRegions = map (\<lambda>(owner, rs). (owner, foldl appendUniqueAccessRegion [] rs)) (hp_regions p);
             publicAllowed = unprotected_allowed ext inp out (vh_Hostname host);
             pu = fold (public_route (pd_ListenerName base) (vh_Hostname host) publicAllowed protectedRegions) (hp_public p)
                    \<lparr>pu_kept = [], pu_ingress = [], pu_comps = px_comps st, pu_dropped = px_dropped st, pu_remaining = px_remaining st\<rparr>;
             st' = st\<lparr>px_domains := px_domains st @ public_domains base host publicAllowed protectedRegions pu, px_comps := pu_comps pu,
                      px_dropped := pu_dropped pu, px_remaining := pu_remaining pu\<rparr>
         in fold (owner_domain ext inp out base host p) (sort (map fst (hp_regions p))) st'))"

section \<open>Domain names\<close>

definition name_listeners :: "protectionDomain list \<Rightarrow> string \<Rightarrow> string list" where
  "name_listeners domains name = remdups (map pd_ListenerName (filter (\<lambda>d. pd_Name d = name) domains))"

definition ambiguous :: "protectionDomain list \<Rightarrow> protectionDomain \<Rightarrow> bool" where
  "ambiguous domains d \<longleftrightarrow> \<not> (pd_Name d = pd_ListenerName d \<or> length (name_listeners domains (pd_Name d)) < 2)"

definition derived_name :: "externals \<Rightarrow> string \<Rightarrow> string \<Rightarrow> string" where
  "derived_name ext listener name = name @ ''-'' @ hex_encode (take 4 (ext_sha256 ext listener))"

definition disambiguateDerivedDomainNames ::
  "externals \<Rightarrow> protectionDomain list \<Rightarrow> compilations \<Rightarrow> protectionDomain list \<times> compilations" where
  "disambiguateDerivedDomainNames ext domains comps =
     (let renamed = map (\<lambda>d. ((pd_ListenerName d, pd_Name d), derived_name ext (pd_ListenerName d) (pd_Name d)))
                      (filter (ambiguous domains) domains);
          named = map (\<lambda>d. if ambiguous domains d then d\<lparr>pd_Name := derived_name ext (pd_ListenerName d) (pd_Name d)\<rparr> else d) domains
      in if renamed = [] then (named, comps)
         else (named, map (\<lambda>(key, c). (key, c\<lparr>ac_DataPlanes := map (\<lambda>p.
                 case mget renamed (adp_Listener p, adp_ProtectionDomain p) of
                   None \<Rightarrow> p | Some name \<Rightarrow> p\<lparr>adp_ProtectionDomain := name\<rparr>) (ac_DataPlanes c)\<rparr>)) comps))"

section \<open>Dropped routes\<close>

definition drop_parent :: "bool \<Rightarrow> string list \<Rightarrow> int \<Rightarrow> time \<Rightarrow> routeParentStatus \<Rightarrow> routeParentStatus" where
  "drop_parent exhausted messages generation now parent =
     (if rps_ControllerName parent \<noteq> ControllerName then parent
      else
        (let rejected = (if exhausted then SetCondition (rps_Conditions parent) now
               (NewCondition ''Accepted'' ConditionStatusFalse RouteReasonUnsupportedValue ''all Route rules were dropped'' generation now)
             else rps_Conditions parent)
         in parent\<lparr>rps_Conditions := SetCondition rejected now
              (NewCondition ''PartiallyInvalid'' ConditionStatusTrue RouteReasonUnsupportedValue
                 (''Dropped Rule: '' @ join (uniqueStrings messages) ''; '') generation now)\<rparr>))"

type_synonym http_statuses = "(nsname, routeParentStatus list) gomap"

definition applyAccessRouteDrops ::
  "inputs \<Rightarrow> (nsname, string list) gomap \<Rightarrow> (nsname, int) gomap \<Rightarrow> time \<Rightarrow> http_statuses \<Rightarrow> http_statuses" where
  "applyAccessRouteDrops inp dropped remaining now statuses =
     fold (\<lambda>(key, messages) s.
             case mget s key of
               None \<Rightarrow> s
             | Some parents \<Rightarrow>
                 (let generation = (case List.find (\<lambda>r. hr_Namespace r = fst key \<and> hr_Name r = snd key) (in_HTTPRoutes inp) of
                        None \<Rightarrow> 0 | Some r \<Rightarrow> hr_Generation r)
                  in mput key (map (drop_parent (mget_default remaining key 0 \<le> 0) messages generation now) parents) s))
       dropped statuses"

section \<open>All applications\<close>

definition compare_applications :: "accessApplication \<Rightarrow> accessApplication \<Rightarrow> int" where
  "compare_applications =
     cmp_then (cmp_on aa_CreationTimestamp compare) (cmp_on (\<lambda>a. aa_Namespace a @ ''/'' @ aa_Name a) compare)"

type_synonym accepted_claims = "(string, accessClaim list) gomap"

definition claim_conflicts :: "accepted_claims \<Rightarrow> accessClaim \<Rightarrow> bool" where
  "claim_conflicts accepted claim =
     list_ex (\<lambda>existing. acl_specificity existing = acl_specificity claim \<and> accessRegionsOverlap (acl_region existing) (acl_region claim))
       (mget_default accepted (acl_hostname claim) [])"

definition reject_conflicts :: "accepted_claims \<Rightarrow> accessApplicationCompilation \<Rightarrow> accessApplicationCompilation" where
  "reject_conflicts accepted c =
     (if \<not> ac_Accepted c then c
      else case List.find (claim_conflicts accepted) (ac_claims c) of
        None \<Rightarrow> c
      | Some claim \<Rightarrow> rejectedAccessCompilation c ''Conflicted''
          (''another equally specific AccessApplication already protects an overlapping path on '' @ acl_hostname claim))"

definition accept_claims :: "accessClaim list \<Rightarrow> accepted_claims \<Rightarrow> accepted_claims" where
  "accept_claims claims accepted =
     fold (\<lambda>claim m. mput (acl_hostname claim) (mget_default m (acl_hostname claim) [] @ [claim]) m) claims accepted"

definition compile_application ::
  "externals \<Rightarrow> inputs \<Rightarrow> irGateway \<Rightarrow> accessRevocationHolds option \<Rightarrow> accessApplication
    \<Rightarrow> accepted_claims \<times> compilations \<Rightarrow> accepted_claims \<times> compilations" where
  "compile_application ext inp out holds app st =
     (let (accepted, comps) = st;
          key = (aa_Namespace app, aa_Name app);
          compiled = reject_conflicts accepted (compileAccessApplicationAgainstIR ext inp out app);
          note = describe holds inp (ac_claims compiled) (key_string key)
      in if ac_Accepted compiled then
           (accept_claims (ac_claims compiled) accepted,
            mput key (if note \<noteq> [] then compiled\<lparr>ac_Message := ac_Message compiled @ ''; '' @ note\<rparr> else compiled) comps)
         else (accepted, mput key compiled comps))"

definition compile_applications ::
  "externals \<Rightarrow> inputs \<Rightarrow> irGateway \<Rightarrow> accessRevocationHolds option \<Rightarrow> compilations" where
  "compile_applications ext inp out holds =
     snd (fold (compile_application ext inp out holds) (sort_func compare_applications (in_AccessApplications inp)) ([], []))"

definition route_counts :: "protectionDomain list \<Rightarrow> (nsname, int) gomap" where
  "route_counts domains =
     fold (\<lambda>r m. let key = (rs_Namespace (ro_Source r), rs_Name (ro_Source r)) in mput key (mget_default m key 0 + 1) m)
       (concat (map (\<lambda>d. concat (map vh_Routes (pd_VirtualHosts d))) domains)) []"

definition partition_domains ::
  "externals \<Rightarrow> inputs \<Rightarrow> irGateway \<Rightarrow> accessRevocationHolds option \<Rightarrow> compilations \<Rightarrow> partition_state" where
  "partition_domains ext inp out holds comps =
     fold (\<lambda>d st. fold (partitionAccessVirtualHost ext inp out d) (pd_VirtualHosts d) st) (ig_Domains out)
       \<lparr>px_domains = [], px_comps = comps,
        px_ports = \<lparr>pep_next = nextAccessEnvoyPort (ig_Domains out), pep_reserved = reservedPorts holds\<rparr>,
        px_dropped = [], px_remaining = route_counts (ig_Domains out)\<rparr>"

definition applyAccessApplications ::
  "externals \<Rightarrow> inputs \<Rightarrow> irGateway \<Rightarrow> http_statuses \<Rightarrow> time \<Rightarrow> accessRevocationHolds option
    \<Rightarrow> irGateway \<times> http_statuses \<times> compilations" where
  "applyAccessApplications ext inp out statuses now holds =
     (if ig_ConformanceMode out \<or> in_AccessApplications inp = [] then (markPublicDomainsForHeaderStripping out, statuses, [])
      else
        (let st = partition_domains ext inp out holds (compile_applications ext inp out holds);
             (domains, comps) = disambiguateDerivedDomainNames ext (px_domains st) (px_comps st);
             out' = apply_holds holds (out\<lparr>ig_Domains := domains\<rparr>)
         in (out', applyAccessRouteDrops inp (px_dropped st) (px_remaining st) now statuses,
             map (\<lambda>(key, c). (key, sortAccessCompilation c)) comps)))"

section \<open>Lemmas on claims\<close>

text \<open>What the partition reads of the compilations: the claims of the accepted ones.\<close>

definition accepted_of :: "compilations \<Rightarrow> (nsname \<times> accessClaim list) list" where
  "accepted_of comps = map (\<lambda>(k, c). (k, ac_claims c)) (filter (\<lambda>(k, c). ac_Accepted c) comps)"

definition unclaimed :: "compilations \<Rightarrow> string \<Rightarrow> string \<Rightarrow> route \<Rightarrow> bool" where
  "unclaimed comps listener hostname route \<longleftrightarrow>
     (\<forall>(k, claims) \<in> set (accepted_of comps). \<forall>c \<in> set claims. \<not> claim_applies listener hostname route c)"

definition claims_ranked :: "compilations \<Rightarrow> bool" where
  "claims_ranked comps \<longleftrightarrow> (\<forall>(k, claims) \<in> set (accepted_of comps). \<forall>c \<in> set claims. 0 \<le> acl_specificity c)"

lemma accepted_of_mput:
  assumes "c = mget_default comps k empty_compilation" and "ac_Accepted c' = ac_Accepted c" and "ac_claims c' = ac_claims c"
  shows "accepted_of (mput k c' comps) = accepted_of comps"
  using assms
  by (induction comps) (auto simp: accepted_of_def mget_default_def empty_compilation_def)

lemma accepted_of_mem:
  "ac_Accepted (mget_default comps k empty_compilation) \<Longrightarrow> \<exists>claims. (k, claims) \<in> set (accepted_of comps)"
  by (cases k) (force simp: mget_default_def empty_compilation_def accepted_of_def split: option.splits dest!: map_of_SomeD)

lemma accepted_of_add_bypass [simp]: "accepted_of (add_bypass owner b comps) = accepted_of comps"
  by (simp add: add_bypass_def Let_def accepted_of_mput)

lemma selected_claims_accepted:
  "selected_claims comps l h r =
     fold (\<lambda>(k, claims). fold (select_claim (key_string k)) (filter (claim_applies l h r) claims)) (accepted_of comps) []"
proof -
  have "fold (\<lambda>(key, c) selected. if ac_Accepted c then fold (select_claim (key_string key)) (filter (claim_applies l h r) (ac_claims c)) selected
             else selected) comps s =
    fold (\<lambda>(k, claims). fold (select_claim (key_string k)) (filter (claim_applies l h r) claims)) (accepted_of comps) s" for s
    by (induction comps arbitrary: s) (auto simp: accepted_of_def)
  then show ?thesis by (simp add: selected_claims_def)
qed

lemma select_claim_nonempty: "select_claim o' c s \<noteq> []"
  by (auto simp: select_claim_def split: option.splits)

lemma fold_select_Nil: "fold (select_claim o') cs s = [] \<longleftrightarrow> cs = [] \<and> s = []"
  by (induction cs arbitrary: s) (auto simp: select_claim_nonempty)

lemma selected_claims_Nil: "selected_claims comps l h r = [] \<longleftrightarrow> unclaimed comps l h r"
proof -
  have "fold (\<lambda>(k, claims). fold (select_claim (key_string k)) (filter (claim_applies l h r) claims)) es s = [] \<longleftrightarrow>
    s = [] \<and> (\<forall>(k, claims) \<in> set es. \<forall>c \<in> set claims. \<not> claim_applies l h r c)" for es s
    by (induction es arbitrary: s) (auto simp: fold_select_Nil filter_empty_conv)
  then show ?thesis by (simp add: selected_claims_accepted unclaimed_def)
qed

text \<open>Selected claims are claims of accepted compilations.\<close>

lemma select_claim_mem: "snd ` set (select_claim o' c s) \<subseteq> insert c (snd ` set s)"
proof -
  have "snd ` set (mput k v m) \<subseteq> insert v (snd ` set m)" for k v and m :: "(string, accessClaim) gomap"
    by (induction m) auto
  then show ?thesis by (auto simp: select_claim_def split: option.splits)
qed

lemma selected_claims_mem:
  assumes "(owner, c) \<in> set (selected_claims comps l h r)"
  shows "\<exists>k claims. (k, claims) \<in> set (accepted_of comps) \<and> c \<in> set claims"
proof -
  let ?all = "{c. \<exists>k claims. (k, claims) \<in> set (accepted_of comps) \<and> c \<in> set claims}"
  have inner: "snd ` set (fold (select_claim o') cs s) \<subseteq> set cs \<union> snd ` set s" for o' cs s
  proof (induction cs arbitrary: s)
    case (Cons x cs)
    have "snd ` set (fold (select_claim o') cs (select_claim o' x s)) \<subseteq> set cs \<union> snd ` set (select_claim o' x s)" by (rule Cons)
    also have "\<dots> \<subseteq> set cs \<union> insert x (snd ` set s)" using select_claim_mem by blast
    finally show ?case by auto
  qed simp
  have "snd ` set (fold (\<lambda>(k, claims). fold (select_claim (key_string k)) (filter (claim_applies l h r) claims)) es s) \<subseteq> ?all"
    if "set es \<subseteq> set (accepted_of comps)" and "snd ` set s \<subseteq> ?all" for es s
    using that
  proof (induction es arbitrary: s)
    case (Cons e es)
    obtain k claims where e: "e = (k, claims)" by (cases e)
    have "snd ` set (fold (select_claim (key_string k)) (filter (claim_applies l h r) claims) s) \<subseteq> ?all"
    proof (rule subset_trans [OF inner])
      have "(k, claims) \<in> set (accepted_of comps)" using Cons.prems(1) by (simp add: e)
      then have "set (filter (claim_applies l h r) claims) \<subseteq> ?all" by (cases k) auto
      then show "set (filter (claim_applies l h r) claims) \<union> snd ` set s \<subseteq> ?all" using Cons.prems(2) by (rule Un_least)
    qed
    then show ?case using Cons.IH Cons.prems(1) by (simp add: e)
  qed simp
  from this [of "accepted_of comps" "[]"] assms show ?thesis by (force simp: selected_claims_accepted)
qed

section \<open>Lemmas on the partition of a host\<close>

lemma mput_nonempty [simp]: "mput k v m \<noteq> []"
  by (cases m) auto

lemma take_claim_public [simp]: "hp_public (take_claim n r e p) = hp_public p"
  by (simp add: take_claim_def Let_def split: prod.split)

lemma take_claims_public [simp]: "hp_public (fold (take_claim n r) es p) = hp_public p"
  by (induction es arbitrary: p) auto

lemma claim_empty_public [simp]: "hp_public (claim_empty_host l h e p) = hp_public p"
proof -
  have keep: "hp_public (fold f cs p) = hp_public p" if "\<And>c q. hp_public (f c q) = hp_public q"
    for f :: "accessClaim \<Rightarrow> host_partition \<Rightarrow> host_partition" and cs
    using that by (induction cs arbitrary: p) auto
  show ?thesis by (cases e) (simp add: claim_empty_host_def Let_def keep)
qed

lemma partition_host_public:
  "set (hp_public (partition_host comps l host)) = {r \<in> set (vh_Routes host). unclaimed comps l (vh_Hostname host) r}"
proof -
  have "set (hp_public (fold (partition_route comps l h) rs p)) = set (hp_public p) \<union> {r \<in> set rs. unclaimed comps l h r}" for h rs p
    by (induction rs arbitrary: p) (auto simp: partition_route_def Let_def selected_claims_Nil)
  moreover have "hp_public (fold (claim_empty_host l h) es p) = hp_public p" for h es p
    by (induction es arbitrary: p) auto
  ultimately show ?thesis by (simp add: partition_host_def Let_def empty_partition_def)
qed

text \<open>A selected claim of the consuming specificity, or a shadow claim, is always taken.\<close>

lemma consuming_attained:
  assumes "es \<noteq> []" and "\<forall>(o', c) \<in> set es. 0 \<le> acl_specificity c"
  shows "\<exists>(o', c) \<in> set es. acl_shadow c \<or> \<not> acl_specificity c < consuming_specificity es"
proof (rule ccontr)
  assume none: "\<not> ?thesis"
  let ?f = "\<lambda>best (_ :: string, c). if \<not> acl_shadow c \<and> acl_specificity c > best then acl_specificity c else best"
  have below: "acl_specificity c < consuming_specificity es" if "(o', c) \<in> set es" for o' c using none that by auto
  have "foldl ?f b xs = b \<or> (\<exists>e \<in> set xs. foldl ?f b xs = acl_specificity (snd e))" for b xs
  proof (induction xs arbitrary: b)
    case (Cons x xs)
    obtain o' c where x: "x = (o', c)" by (cases x)
    from Cons.IH [of "?f b x"] show ?case by (auto simp: x split: if_splits)
  qed simp
  from this [of "- 1" es] consider "consuming_specificity es = - 1"
    | e where "e \<in> set es" "consuming_specificity es = acl_specificity (snd e)"
    unfolding consuming_specificity_def by blast
  then show False
  proof cases
    case 1
    obtain o' c where e: "(o', c) \<in> set es" using assms(1) by (cases es) auto
    with assms(2) have "0 \<le> acl_specificity c" by auto
    with below [OF e] 1 show False by simp
  next
    case 2
    then show False using below [of "fst e" "snd e"] by simp
  qed
qed

lemma take_claim_mono: "hp_wholeHost p \<noteq> [] \<Longrightarrow> hp_wholeHost (take_claim n r e p) \<noteq> []"
  by (cases e) (simp add: take_claim_def)

lemma take_claims_mono: "hp_wholeHost p \<noteq> [] \<Longrightarrow> hp_wholeHost (fold (take_claim n r) es p) \<noteq> []"
  by (induction es arbitrary: p) (simp_all add: take_claim_mono)

lemma take_claims_some:
  assumes "\<exists>(o', c) \<in> set es. acl_shadow c \<or> \<not> acl_specificity c < n"
  shows "hp_wholeHost (fold (take_claim n r) es p) \<noteq> []"
  using assms
proof (induction es arbitrary: p)
  case (Cons e es)
  obtain o' c where e: "e = (o', c)" by (cases e)
  show ?case
  proof (cases "acl_shadow c \<or> \<not> acl_specificity c < n")
    case True
    then have "hp_wholeHost (take_claim n r e p) \<noteq> []" by (auto simp: e take_claim_def)
    then show ?thesis by (simp add: take_claims_mono)
  next
    case False
    then show ?thesis using Cons by (auto simp: e)
  qed
qed simp

lemma partition_routes_whole:
  assumes "claims_ranked comps" and "r \<in> set rs" and "\<not> unclaimed comps l h r"
  shows "hp_wholeHost (fold (partition_route comps l h) rs p) \<noteq> []"
proof -
  have mono: "hp_wholeHost q \<noteq> [] \<Longrightarrow> hp_wholeHost (fold (partition_route comps l h) rs q) \<noteq> []" for rs q
    by (induction rs arbitrary: q) (auto simp: partition_route_def Let_def take_claims_mono)
  have one: "hp_wholeHost (partition_route comps l h r q) \<noteq> []" for q
  proof -
    let ?sel = "selected_claims comps l h r"
    have some: "?sel \<noteq> []" using assms(3) by (simp add: selected_claims_Nil)
    have "\<forall>(o', c) \<in> set ?sel. 0 \<le> acl_specificity c"
      using selected_claims_mem assms(1) by (fastforce simp: claims_ranked_def)
    from take_claims_some [OF consuming_attained [OF some this]] some show ?thesis
      by (simp add: partition_route_def Let_def)
  qed
  show ?thesis using assms(2)
  proof (induction rs arbitrary: p)
    case (Cons x rs)
    then show ?case using one mono by (cases "x = r") auto
  qed simp
qed

lemma unclaimed_host:
  assumes "claims_ranked comps" and "hp_claimed (partition_host comps l host) = [] \<and> hp_wholeHost (partition_host comps l host) = []"
    and "r \<in> set (vh_Routes host)"
  shows "unclaimed comps l (vh_Hostname host) r"
proof (rule ccontr)
  assume "\<not> unclaimed comps l (vh_Hostname host) r"
  from partition_routes_whole [OF assms(1,3) this, of empty_partition] assms(2,3) show False
    by (auto simp: partition_host_def Let_def split: if_splits)
qed

lemma unclaimed_cong: "accepted_of comps = accepted_of comps' \<Longrightarrow> unclaimed comps = unclaimed comps'"
  by (simp add: unclaimed_def fun_eq_iff)

lemma claims_ranked_cong: "accepted_of comps = accepted_of comps' \<Longrightarrow> claims_ranked comps = claims_ranked comps'"
  by (simp add: claims_ranked_def)

section \<open>Lemmas on domains\<close>

text \<open>The loop over the public routes keeps only sanitised ones, only when unprotected hosts are granted, and no claim changes.\<close>

definition public_inv :: "bool \<Rightarrow> route set \<Rightarrow> compilations \<Rightarrow> public_state \<Rightarrow> bool" where
  "public_inv publicAllowed rs comps st \<longleftrightarrow>
     accepted_of (pu_comps st) = accepted_of comps \<and> (pu_kept st \<noteq> [] \<longrightarrow> publicAllowed) \<and>
     set (pu_kept st) \<subseteq> sanitizeUnprotectedRoute ` rs"

lemma public_inv_drop: "public_inv a rs comps st \<Longrightarrow> public_inv a rs comps (drop_route r m st)"
  by (simp add: public_inv_def drop_route_def Let_def)

lemma public_inv_keep: "public_inv a rs comps st \<Longrightarrow> r \<in> rs \<Longrightarrow> a \<Longrightarrow> public_inv a rs comps (keep_route r q st)"
  by (auto simp: public_inv_def keep_route_def)

lemma public_inv_bypass:
  "public_inv a rs comps st \<Longrightarrow> public_inv a rs comps (st\<lparr>pu_comps := add_bypass o' b (pu_comps st)\<rparr>)"
  by (simp add: public_inv_def)

lemma public_inv_route:
  assumes "public_inv a rs comps st" and "r \<in> rs"
  shows "public_inv a rs comps (public_route l h a regions r st)"
  using assms
  by (auto simp: public_route_def Let_def intro!: public_inv_drop public_inv_keep public_inv_bypass split: sum.split prod.split)

lemma public_inv_fold:
  "public_inv a rs comps st \<Longrightarrow> set routes \<subseteq> rs \<Longrightarrow> public_inv a rs comps (fold (public_route l h a regions) routes st)"
  by (induction routes arbitrary: st) (auto intro: public_inv_route)

lemma guard_domain_fields [simp]:
  "pd_AccessApplication (guard_domain inp comps key l h d) = pd_AccessApplication d"
  "pd_Protected (guard_domain inp comps key l h d) = pd_Protected d"
  "pd_ListenerName (guard_domain inp comps key l h d) = pd_ListenerName d"
  "pd_EnvoyPort (guard_domain inp comps key l h d) = pd_EnvoyPort d"
  "pd_VirtualHosts (guard_domain inp comps key l h d) = pd_VirtualHosts d"
  by (auto simp: guard_domain_def Let_def split: option.splits)

text \<open>One owner adds at most one domain, guarded for that owner, and changes no claim.\<close>

lemma owner_domain_cases:
  fixes ext :: externals and inp :: inputs and out :: irGateway and base :: protectionDomain and host :: virtualHost
    and p :: host_partition and owner :: string and st :: partition_state
  defines "key \<equiv> parseNamespacedName owner"
  defines "st' \<equiv> owner_domain ext inp out base host p owner st"
  obtains "st' = st"
  | name port ports where "owner_port ext out base host owner (px_ports st) = (name, port, ports)"
    and "ac_Accepted (mget_default (px_comps st) key empty_compilation)"
    and "px_domains st' = px_domains st @
      [guard_domain inp (px_comps st) key (pd_ListenerName base) (vh_Hostname host) (owner_base base host p owner name port)]"
    and "px_ports st' = ports" and "accepted_of (px_comps st') = accepted_of (px_comps st)"
proof (cases "ac_Accepted (mget_default (px_comps st) key empty_compilation)")
  case True
  obtain name port ports where "owner_port ext out base host owner (px_ports st) = (name, port, ports)" by (metis prod_cases3)
  with True show ?thesis
    by (intro that(2) [of name port ports]) (simp_all add: st'_def owner_domain_def key_def Let_def accepted_of_mput)
next
  case False
  then show ?thesis by (intro that(1)) (simp add: st'_def owner_domain_def key_def Let_def)
qed

lemma public_domains_all:
  "(pu_kept pu \<noteq> [] \<Longrightarrow> P (public_domain b vh pu)) \<Longrightarrow> P (blocked_domain b vh) \<Longrightarrow> d \<in> set (public_domains b vh a regions pu) \<Longrightarrow> P d"
  by (simp add: public_domains_def split: if_splits)

text \<open>
  The interface of the partition: a predicate that holds for the four kinds of domains it emits holds for all of its
  domains. \<open>comps\<close> are the compilations the partition starts from.
\<close>

locale domain_contract =
  fixes ext :: externals and inp :: inputs and out :: irGateway and comps :: compilations and P :: "protectionDomain \<Rightarrow> bool"
  assumes unclaimed_domain:
    "\<lbrakk>b \<in> set (ig_Domains out); vh \<in> set (pd_VirtualHosts b);
      \<forall>r \<in> set (vh_Routes vh). unclaimed comps (pd_ListenerName b) (vh_Hostname vh) r\<rbrakk>
     \<Longrightarrow> P (b\<lparr>pd_StripAccessHeaders := pd_Guard b = GuardUnprotected, pd_VirtualHosts := [vh]\<rparr>)"
    and carved_domain:
    "\<lbrakk>b \<in> set (ig_Domains out); vh \<in> set (pd_VirtualHosts b); unprotected_allowed ext inp out (vh_Hostname vh);
      set (pu_kept pu) \<subseteq> sanitizeUnprotectedRoute ` {r \<in> set (vh_Routes vh). unclaimed comps (pd_ListenerName b) (vh_Hostname vh) r}\<rbrakk>
     \<Longrightarrow> P (public_domain b vh pu)"
    and closed_domain: "\<lbrakk>b \<in> set (ig_Domains out); vh \<in> set (pd_VirtualHosts b)\<rbrakk> \<Longrightarrow> P (blocked_domain b vh)"
    and owned_domain:
    "\<lbrakk>b \<in> set (ig_Domains out); vh \<in> set (pd_VirtualHosts b); accepted_of comps' = accepted_of comps;
      ac_Accepted (mget_default comps' (parseNamespacedName owner) empty_compilation);
      pd_Protected d; pd_AccessApplication d = owner; pd_ListenerName d = pd_ListenerName b;
      map vh_Hostname (pd_VirtualHosts d) = [vh_Hostname vh]\<rbrakk>
     \<Longrightarrow> P (guard_domain inp comps' (parseNamespacedName owner) (pd_ListenerName b) (vh_Hostname vh) d)"
begin

definition sound :: "partition_state \<Rightarrow> bool" where
  "sound st \<longleftrightarrow> accepted_of (px_comps st) = accepted_of comps \<and> (\<forall>d \<in> set (px_domains st). P d)"

lemma sound_owner:
  assumes "sound st" and "b \<in> set (ig_Domains out)" and "vh \<in> set (pd_VirtualHosts b)"
  shows "sound (owner_domain ext inp out b vh p owner st)"
proof (rule owner_domain_cases [of ext inp out b vh p owner st])
  fix name port ports
  assume "ac_Accepted (mget_default (px_comps st) (parseNamespacedName owner) empty_compilation)"
    and "px_domains (owner_domain ext inp out b vh p owner st) = px_domains st @ [guard_domain inp (px_comps st)
      (parseNamespacedName owner) (pd_ListenerName b) (vh_Hostname vh) (owner_base b vh p owner name port)]"
    and "accepted_of (px_comps (owner_domain ext inp out b vh p owner st)) = accepted_of (px_comps st)"
  with assms show ?thesis
    using owned_domain [OF assms(2,3), of "px_comps st" owner "owner_base b vh p owner name port"]
    by (simp add: sound_def owner_base_def)
qed (use assms in simp)

lemma sound_host:
  assumes "claims_ranked comps" and "sound st" and "b \<in> set (ig_Domains out)" and "vh \<in> set (pd_VirtualHosts b)"
  shows "sound (partitionAccessVirtualHost ext inp out b vh st)"
proof -
  let ?p = "partition_host (px_comps st) (pd_ListenerName b) vh"
  have acc: "accepted_of (px_comps st) = accepted_of comps" using assms(2) by (simp add: sound_def)
  show ?thesis
  proof (cases "hp_claimed ?p = [] \<and> hp_wholeHost ?p = []")
    case True
    have "\<forall>r \<in> set (vh_Routes vh). unclaimed comps (pd_ListenerName b) (vh_Hostname vh) r"
      using unclaimed_host [OF _ True] claims_ranked_cong [OF acc] unclaimed_cong [OF acc] assms(1) by simp
    from unclaimed_domain [OF assms(3,4) this] show ?thesis
      using True assms(2) by (auto simp: partitionAccessVirtualHost_def sound_def Let_def)
  next
    case False
    let ?regions = "map (\<lambda>(owner, rs). (owner, foldl appendUniqueAccessRegion [] rs)) (hp_regions ?p)"
    let ?allowed = "unprotected_allowed ext inp out (vh_Hostname vh)"
    let ?pu = "fold (public_route (pd_ListenerName b) (vh_Hostname vh) ?allowed ?regions) (hp_public ?p)
      \<lparr>pu_kept = [], pu_ingress = [], pu_comps = px_comps st, pu_dropped = px_dropped st, pu_remaining = px_remaining st\<rparr>"
    have "public_inv ?allowed (set (hp_public ?p)) comps ?pu"
      by (rule public_inv_fold) (simp_all add: public_inv_def acc)
    then have pu: "accepted_of (pu_comps ?pu) = accepted_of comps" "pu_kept ?pu \<noteq> [] \<Longrightarrow> ?allowed"
      "set (pu_kept ?pu) \<subseteq> sanitizeUnprotectedRoute ` {r \<in> set (vh_Routes vh). unclaimed comps (pd_ListenerName b) (vh_Hostname vh) r}"
      by (simp_all add: public_inv_def partition_host_public unclaimed_cong [OF acc])
    have public: "P d" if "d \<in> set (public_domains b vh ?allowed ?regions ?pu)" for d
      using carved_domain [OF assms(3,4) pu(2) pu(3)] closed_domain [OF assms(3,4)] that by (rule public_domains_all)
    let ?st = "st\<lparr>px_domains := px_domains st @ public_domains b vh ?allowed ?regions ?pu, px_comps := pu_comps ?pu,
      px_dropped := pu_dropped ?pu, px_remaining := pu_remaining ?pu\<rparr>"
    have start: "sound ?st" using assms(2) pu(1) by (auto simp: sound_def intro: public)
    have "sound (fold (owner_domain ext inp out b vh ?p) owners s)" if "sound s" for owners s
      using that by (induction owners arbitrary: s) (simp_all add: sound_owner [OF _ assms(3,4)])
    from this [OF start] show ?thesis using False
      unfolding partitionAccessVirtualHost_def Let_def by (simp only: if_False)
  qed
qed

lemma partition_sound:
  assumes "claims_ranked comps" and "d \<in> set (px_domains (partition_domains ext inp out holds comps))"
  shows "P d"
proof -
  have hosts: "sound (fold (partitionAccessVirtualHost ext inp out b) vhs s)"
    if "sound s" and "b \<in> set (ig_Domains out)" and "set vhs \<subseteq> set (pd_VirtualHosts b)" for b vhs s
    using that by (induction vhs arbitrary: s) (simp_all add: sound_host [OF assms(1)])
  have domains: "sound (fold (\<lambda>b st. fold (partitionAccessVirtualHost ext inp out b) (pd_VirtualHosts b) st) bs s)"
    if "sound s" and "set bs \<subseteq> set (ig_Domains out)" for bs s
    using that by (induction bs arbitrary: s) (simp_all add: hosts)
  have "sound (partition_domains ext inp out holds comps)"
    unfolding partition_domains_def by (rule domains) (simp_all add: sound_def)
  then show ?thesis using assms(2) by (simp add: sound_def)
qed

end

section \<open>Guards and exposure\<close>

lemma guards_differ [simp]: "GuardForwarding \<noteq> GuardBlocked" "GuardForwarding \<noteq> GuardUnprotected" "GuardBlocked \<noteq> GuardUnprotected"
  "GuardBlocked \<noteq> GuardForwarding" "GuardUnprotected \<noteq> GuardForwarding" "GuardUnprotected \<noteq> GuardBlocked"
  by (simp_all add: ir_consts)

text \<open>The audience of a ready application.\<close>

definition ready_audience :: "inputs \<Rightarrow> string \<Rightarrow> bool" where
  "ready_audience inp a \<longleftrightarrow> a \<noteq> [] \<and> (\<exists>k. accessApplicationReady inp k \<and> aud_AUD (aud_secret inp k) = a)"

text \<open>What must be in place before a domain forwards traffic on behalf of an application.\<close>

definition access_evidence :: "inputs \<Rightarrow> protectionDomain \<Rightarrow> bool" where
  "access_evidence inp d \<longleftrightarrow> pd_Protected d \<and>
     (case pd_Access d of
        Some g \<Rightarrow> ag_AUDs g \<noteq> [] \<and> (\<forall>a \<in> set (ag_AUDs g). ready_audience inp a) \<and>
          (\<exists>account. in_CloudflareAccount inp = Some account \<and> ag_TeamName g = ca_TeamName account \<and> ag_TeamName g \<noteq> [] \<and>
             ag_AuthDomain g = ca_AuthDomain account \<and> ag_AuthDomain g \<noteq> [])
      | None \<Rightarrow> pd_OriginJWTDisabled d \<and> accessApplicationReady inp (parseNamespacedName (pd_AccessApplication d)) \<and>
          (\<exists>app. accessApplicationByKey (in_AccessApplications inp) (parseNamespacedName (pd_AccessApplication d)) = Some app \<and>
             effectiveOriginJWTMode app = AccessOriginJWTModeDisabled \<and> jwt_disable_permitted inp app))"

definition forwarding_ok :: "inputs \<Rightarrow> protectionDomain \<Rightarrow> bool" where
  "forwarding_ok inp d \<longleftrightarrow> (pd_Guard d = GuardForwarding \<longrightarrow> access_evidence inp d)"

definition application_ns :: "accessApplication \<Rightarrow> nsname" where
  "application_ns app = (aa_Namespace app, aa_Name app)"

definition jwt_permitted :: "inputs \<Rightarrow> compilations \<Rightarrow> bool" where
  "jwt_permitted inp comps \<longleftrightarrow>
     (\<forall>(k, claims) \<in> set (accepted_of comps). \<forall>app \<in> set (in_AccessApplications inp). application_ns app = k \<longrightarrow>
        effectiveOriginJWTMode app = AccessOriginJWTModeDisabled \<longrightarrow> jwt_disable_permitted inp app)"

lemma audiences_ready:
  assumes "accessAudiencesForDomain inp comps key l h = Some audiences"
  shows "audiences \<noteq> [] \<and> (\<forall>a \<in> set audiences. ready_audience inp a)"
proof (cases "case accessApplicationByKey (in_AccessApplications inp) key of
    None \<Rightarrow> True | Some app \<Rightarrow> effectiveOriginJWTAudienceScope app = AccessOriginJWTAudienceScopeApplication")
  case True
  then have one: "audiences = [aud_AUD (aud_secret inp key)]" "accessApplicationReady inp key" "aud_AUD (aud_secret inp key) \<noteq> []"
    using assms by (auto simp: accessAudiencesForDomain_def split: if_splits)
  have "ready_audience inp (aud_AUD (aud_secret inp key))" unfolding ready_audience_def using one(2,3) by blast
  then show ?thesis by (simp add: one(1))
next
  case False
  then obtain as where loop: "fold_result (audience_step inp l h) comps [] = Inr as"
    and out: "audiences = sort_compact as" "audiences \<noteq> []"
    using assms by (auto simp: accessAudiencesForDomain_def split: sum.splits if_splits)
  have "\<forall>a \<in> set as. ready_audience inp a"
  proof (rule fold_result_invariant [OF loop, where P = "\<lambda>as. \<forall>a \<in> set as. ready_audience inp a"])
    fix e s s'
    assume s: "\<forall>a \<in> set s. ready_audience inp a" and step: "audience_step inp l h e s = Inr s'"
    then consider "s' = s" | "accessApplicationReady inp (fst e)" "aud_AUD (aud_secret inp (fst e)) \<noteq> []"
      "s' = s @ [aud_AUD (aud_secret inp (fst e))]"
      by (auto simp: audience_step_def split: if_splits)
    then show "\<forall>a \<in> set s'. ready_audience inp a"
    proof cases
      case 2
      then have "ready_audience inp (aud_AUD (aud_secret inp (fst e)))" unfolding ready_audience_def by blast
      then show ?thesis using s 2(3) by simp
    qed (use s in simp)
  qed simp
  with out show ?thesis by (simp add: set_sort_compact)
qed

lemma guarded_domain_ok:
  assumes "jwt_permitted inp comps" and "accepted_of comps' = accepted_of comps"
    and "ac_Accepted (mget_default comps' (parseNamespacedName owner) empty_compilation)"
    and "pd_Protected d" and "pd_AccessApplication d = owner"
  shows "forwarding_ok inp (guard_domain inp comps' (parseNamespacedName owner) l h d)"
proof -
  let ?key = "parseNamespacedName owner"
  let ?app = "accessApplicationByKey (in_AccessApplications inp) ?key"
  let ?mode = "case ?app of None \<Rightarrow> AccessOriginJWTModeRequired | Some a \<Rightarrow> effectiveOriginJWTMode a"
  have modes: "AccessOriginJWTModeRequired \<noteq> AccessOriginJWTModeDisabled"
    by (simp add: AccessOriginJWTModeRequired_def AccessOriginJWTModeDisabled_def)
  show ?thesis
  proof (cases "?mode = AccessOriginJWTModeDisabled")
    case True
    then obtain app where app: "?app = Some app" "effectiveOriginJWTMode app = AccessOriginJWTModeDisabled"
      using modes by (auto split: option.splits)
    have "app \<in> set (in_AccessApplications inp)" "application_ns app = ?key"
      using find_some [OF app(1) [unfolded accessApplicationByKey_def]] by (auto simp: application_ns_def)
    moreover obtain claims where "(?key, claims) \<in> set (accepted_of comps)"
      using accepted_of_mem [OF assms(3)] assms(2) by auto
    ultimately have "jwt_disable_permitted inp app" using assms(1) app(2) by (fastforce simp: jwt_permitted_def)
    with app show ?thesis using True assms(4,5)
      by (simp add: forwarding_ok_def guard_domain_def access_evidence_def Let_def)
  next
    case False
    show ?thesis
    proof (cases "accessAudiencesForDomain inp comps' ?key l h")
      case (Some audiences)
      with False audiences_ready [OF Some] assms(4) show ?thesis
        by (auto simp: forwarding_ok_def guard_domain_def access_evidence_def Let_def split: option.splits)
    qed (use False in \<open>simp add: forwarding_ok_def guard_domain_def Let_def\<close>)
  qed
qed

interpretation forwarding: domain_contract ext inp out comps
  "\<lambda>d. (\<forall>b \<in> set (ig_Domains out). pd_Guard b \<noteq> GuardForwarding) \<longrightarrow> jwt_permitted inp comps \<longrightarrow> forwarding_ok inp d"
  for ext inp out comps
  by unfold_locales (auto simp: guarded_domain_ok, auto simp: forwarding_ok_def public_domain_def blocked_domain_def)

text \<open>An unprotected domain serves only routes no accepted application claims, on hosts granted as unprotected.\<close>

definition exposed_ok :: "externals \<Rightarrow> inputs \<Rightarrow> irGateway \<Rightarrow> compilations \<Rightarrow> protectionDomain \<Rightarrow> bool" where
  "exposed_ok ext inp out comps d \<longleftrightarrow> (pd_Guard d = GuardUnprotected \<longrightarrow>
     (\<forall>vh \<in> set (pd_VirtualHosts d). \<forall>r \<in> set (vh_Routes vh).
        \<exists>b \<in> set (ig_Domains out). \<exists>h \<in> set (pd_VirtualHosts b). \<exists>r0 \<in> set (vh_Routes h).
          pd_ListenerName b = pd_ListenerName d \<and> vh_Hostname h = vh_Hostname vh \<and> (r = r0 \<or> r = sanitizeUnprotectedRoute r0) \<and>
          unclaimed comps (pd_ListenerName d) (vh_Hostname vh) r0 \<and>
          (pd_Guard b = GuardUnprotected \<or> unprotected_allowed ext inp out (vh_Hostname vh))))"

lemma guard_domain_not_open: "pd_Guard (guard_domain inp comps key l h d) \<noteq> GuardUnprotected"
  by (auto simp: guard_domain_def Let_def split: option.splits)

interpretation exposed: domain_contract ext inp out comps "exposed_ok ext inp out comps" for ext inp out comps
proof unfold_locales
  fix b vh and pu :: public_state
  assume "b \<in> set (ig_Domains out)" "vh \<in> set (pd_VirtualHosts b)" "unprotected_allowed ext inp out (vh_Hostname vh)"
    "set (pu_kept pu) \<subseteq> sanitizeUnprotectedRoute ` {r \<in> set (vh_Routes vh). unclaimed comps (pd_ListenerName b) (vh_Hostname vh) r}"
  then show "exposed_ok ext inp out comps (public_domain b vh pu)"
    unfolding exposed_ok_def public_domain_def by simp blast
qed (auto simp: exposed_ok_def blocked_domain_def guard_domain_not_open)

text \<open>
  The shape of a domain: it names a Listener of the Gateway, its guard is one of the known ones, only an unprotected domain is
  open, only a forwarding one has an Access guard, and a domain of an application is protected. The guard may be missing only
  where \<open>unguarded\<close> says so.
\<close>

definition domain_typed :: "bool \<Rightarrow> irListener list \<Rightarrow> protectionDomain \<Rightarrow> bool" where
  "domain_typed unguarded listeners d \<longleftrightarrow> (pd_Guard d = [] \<longrightarrow> unguarded) \<and>
     pd_ListenerName d \<in> il_Name ` set listeners \<and> pd_Guard d \<in> {[], GuardUnprotected, GuardBlocked, GuardForwarding} \<and>
     (pd_Guard d = GuardUnprotected \<longrightarrow> \<not> pd_Protected d \<and> pd_AccessApplication d = []) \<and>
     (pd_Guard d = GuardForwarding \<longrightarrow> pd_Protected d) \<and>
     (pd_Access d \<noteq> None \<longrightarrow> pd_Guard d = GuardForwarding) \<and> (pd_AccessApplication d \<noteq> [] \<longrightarrow> pd_Protected d)"

definition listener_domains_typed :: "bool \<Rightarrow> irGateway \<Rightarrow> bool" where
  "listener_domains_typed u out \<longleftrightarrow>
     (\<forall>b \<in> set (ig_Domains out). domain_typed u (ig_Listeners out) b \<and> pd_AccessApplication b = [] \<and> pd_Guard b \<noteq> GuardForwarding)"

lemma guards_distinct [simp]:
  "GuardUnprotected \<noteq> GuardBlocked" "GuardUnprotected \<noteq> GuardForwarding" "GuardBlocked \<noteq> GuardForwarding"
  "GuardBlocked \<noteq> GuardUnprotected" "GuardForwarding \<noteq> GuardUnprotected" "GuardForwarding \<noteq> GuardBlocked"
  "GuardUnprotected \<noteq> []" "GuardBlocked \<noteq> []" "GuardForwarding \<noteq> []"
  by (simp_all add: GuardUnprotected_def GuardBlocked_def GuardForwarding_def)

lemma guard_domain_shape:
  "pd_Guard (guard_domain inp comps key l h d) \<in> {GuardBlocked, GuardForwarding}"
  "pd_Access (guard_domain inp comps key l h d) \<noteq> None \<Longrightarrow> pd_Guard (guard_domain inp comps key l h d) = GuardForwarding"
  by (auto simp: guard_domain_def Let_def split: option.splits if_splits)

interpretation typed: domain_contract ext inp out comps
  "\<lambda>d. listener_domains_typed u out \<longrightarrow> domain_typed u (ig_Listeners out) d" for u ext inp out comps
proof unfold_locales
  fix b vh comps' owner and d :: protectionDomain
  assume b: "b \<in> set (ig_Domains out)" and d: "pd_Protected d" "pd_ListenerName d = pd_ListenerName b"
  let ?d = "guard_domain inp comps' (parseNamespacedName owner) (pd_ListenerName b) (vh_Hostname vh) d"
  have "pd_Guard ?d \<in> {GuardBlocked, GuardForwarding}" "pd_Access ?d \<noteq> None \<Longrightarrow> pd_Guard ?d = GuardForwarding"
    by (rule guard_domain_shape, erule guard_domain_shape)
  then show "listener_domains_typed u out \<longrightarrow> domain_typed u (ig_Listeners out) ?d"
    using b d by (auto simp: listener_domains_typed_def domain_typed_def)
qed (auto simp: listener_domains_typed_def domain_typed_def public_domain_def blocked_domain_def)

section \<open>Lemmas on the compiled applications\<close>

lemma reject_conflicts_cases:
  obtains "reject_conflicts accepted c = c" and "ac_Accepted c \<Longrightarrow> \<not> list_ex (claim_conflicts accepted) (ac_claims c)"
  | "\<not> ac_Accepted (reject_conflicts accepted c)"
proof (cases "ac_Accepted c")
  case True
  show ?thesis
  proof (cases "List.find (claim_conflicts accepted) (ac_claims c)")
    case None
    then have "\<not> list_ex (claim_conflicts accepted) (ac_claims c)" by (simp add: find_None_iff list_ex_iff)
    with None True show ?thesis by (intro that(1)) (simp_all add: reject_conflicts_def)
  next
    case (Some m)
    then show ?thesis using True by (intro that(2)) (simp add: reject_conflicts_def)
  qed
qed (auto simp: reject_conflicts_def intro: that)

lemma compile_application_snd:
  fixes st :: "accepted_claims \<times> compilations"
  defines "c \<equiv> \<lambda>ext inp out app. reject_conflicts (fst st) (compileAccessApplicationAgainstIR ext inp out app)"
  obtains v where "snd (compile_application ext inp out holds app st) = mput (application_ns app) v (snd st)"
    and "ac_Accepted v = ac_Accepted (c ext inp out app)" and "ac_claims v = ac_claims (c ext inp out app)"
proof -
  let ?c = "c ext inp out app" and ?note = "describe holds inp (ac_claims (c ext inp out app)) (key_string (application_ns app))"
  let ?v = "if ac_Accepted ?c \<and> ?note \<noteq> [] then ?c\<lparr>ac_Message := ac_Message ?c @ ''; '' @ ?note\<rparr> else ?c"
  have "snd (compile_application ext inp out holds app st) = mput (application_ns app) ?v (snd st)"
    by (cases st) (simp add: compile_application_def application_ns_def c_def Let_def)
  then show ?thesis by (rule that) simp_all
qed

text \<open>Every accepted entry of the compiled applications is an accepted compilation of an application of that name.\<close>

lemma compile_applications_accepted:
  assumes "(k, claims) \<in> set (accepted_of (compile_applications ext inp out holds))"
  shows "\<exists>app \<in> set (in_AccessApplications inp). application_ns app = k \<and>
    ac_Accepted (compileAccessApplicationAgainstIR ext inp out app) \<and>
    claims = ac_claims (compileAccessApplicationAgainstIR ext inp out app)"
proof -
  let ?apps = "sort_func compare_applications (in_AccessApplications inp)"
  let ?ok = "\<lambda>(k, c). ac_Accepted c \<longrightarrow> (\<exists>app \<in> set (in_AccessApplications inp). application_ns app = k \<and>
    ac_Accepted (compileAccessApplicationAgainstIR ext inp out app) \<and> ac_claims c = ac_claims (compileAccessApplicationAgainstIR ext inp out app))"
  have step: "\<forall>e \<in> set (snd (compile_application ext inp out holds app st)). ?ok e"
    if "\<forall>e \<in> set (snd st). ?ok e" and "app \<in> set (in_AccessApplications inp)" for app st
  proof -
    let ?c = "reject_conflicts (fst st) (compileAccessApplicationAgainstIR ext inp out app)"
    obtain v where v: "snd (compile_application ext inp out holds app st) = mput (application_ns app) v (snd st)"
      and fields: "ac_Accepted v = ac_Accepted ?c" "ac_claims v = ac_claims ?c"
      by (rule compile_application_snd)
    have "?ok (application_ns app, v)"
      by (rule reject_conflicts_cases [of "fst st" "compileAccessApplicationAgainstIR ext inp out app"]) (use that(2) fields in auto)
    then show ?thesis unfolding v using that(1) set_mput_subset [of "application_ns app" v "snd st"] by blast
  qed
  have "\<forall>e \<in> set (snd (fold (compile_application ext inp out holds) ?apps ([], []))). ?ok e"
    by (rule fold_invariant [where Q = "\<lambda>app. app \<in> set (in_AccessApplications inp)" and P = "\<lambda>st. \<forall>e \<in> set (snd st). ?ok e"])
      (simp add: set_sort_any, simp, rule step)
  then have "\<forall>e \<in> set (compile_applications ext inp out holds). ?ok e" by (simp only: compile_applications_def)
  moreover obtain c where "(k, c) \<in> set (compile_applications ext inp out holds)" "ac_Accepted c" "claims = ac_claims c"
    using assms by (auto simp: accepted_of_def)
  ultimately show ?thesis by blast
qed

lemma compiled_claims_ranked: "claims_ranked (compile_applications ext inp out holds)"
proof -
  have "0 \<le> acl_specificity m"
    if entry: "(k, claims) \<in> set (accepted_of (compile_applications ext inp out holds))" and m: "m \<in> set claims" for k claims m
  proof -
    obtain app where "ac_Accepted (compileAccessApplicationAgainstIR ext inp out app)"
      "claims = ac_claims (compileAccessApplicationAgainstIR ext inp out app)"
      using compile_applications_accepted [OF entry] by blast
    with compiled_application_sound(1) m show ?thesis by (auto simp: claims_sound_def claim_sound_def)
  qed
  then show ?thesis unfolding claims_ranked_def by blast
qed

lemma compiled_jwt_permitted:
  assumes "distinct (map application_ns (in_AccessApplications inp))"
  shows "jwt_permitted inp (compile_applications ext inp out holds)"
proof -
  have "jwt_disable_permitted inp app"
    if entry: "(application_ns app, claims) \<in> set (accepted_of (compile_applications ext inp out holds))"
      and app: "app \<in> set (in_AccessApplications inp)" and mode: "effectiveOriginJWTMode app = AccessOriginJWTModeDisabled" for app claims
  proof -
    obtain a where a: "a \<in> set (in_AccessApplications inp)" "application_ns a = application_ns app"
      "ac_Accepted (compileAccessApplicationAgainstIR ext inp out a)"
      using compile_applications_accepted [OF entry] by blast
    have "a = app" using a(1,2) app assms by (metis distinct_map inj_onD)
    then show ?thesis using compiled_application_sound(4) [OF a(3)] mode by simp
  qed
  then show ?thesis unfolding jwt_permitted_def by blast
qed

section \<open>Lemmas on the result\<close>

lemma owner_accepted: "accepted_of (px_comps (owner_domain ext inp out b vh p owner st)) = accepted_of (px_comps st)"
  by (rule owner_domain_cases [of ext inp out b vh p owner st]) simp_all

lemma host_accepted: "accepted_of (px_comps (partitionAccessVirtualHost ext inp out b vh st)) = accepted_of (px_comps st)"
proof -
  have owners: "accepted_of (px_comps (fold (owner_domain ext inp out b vh p) os s)) = accepted_of (px_comps s)" for p os s
    by (induction os arbitrary: s) (simp_all add: owner_accepted)
  have step: "accepted_of (pu_comps (public_route l h a regions r s)) = accepted_of (pu_comps s)" for l h a regions r s
    by (simp add: public_route_def keep_route_def drop_route_def Let_def split: sum.split prod.split)
  have public: "accepted_of (pu_comps (fold (public_route l h a regions) rs s)) = accepted_of (pu_comps s)" for l h a regions rs s
    by (induction rs arbitrary: s) (simp_all add: step)
  show ?thesis by (simp add: partitionAccessVirtualHost_def Let_def owners public)
qed

lemma partition_accepted: "accepted_of (px_comps (partition_domains ext inp out holds comps)) = accepted_of comps"
proof -
  have hosts: "accepted_of (px_comps (fold (partitionAccessVirtualHost ext inp out b) vhs s)) = accepted_of (px_comps s)" for b vhs s
    by (induction vhs arbitrary: s) (simp_all add: host_accepted)
  have "accepted_of (px_comps (fold (\<lambda>d st. fold (partitionAccessVirtualHost ext inp out d) (pd_VirtualHosts d) st) ds s)) =
      accepted_of (px_comps s)" for ds s
    by (induction ds arbitrary: s) (simp_all add: hosts)
  then show ?thesis by (simp add: partition_domains_def)
qed

lemma accepted_of_map:
  assumes "\<And>k c. ac_Accepted (f k c) = ac_Accepted c" and "\<And>k c. ac_claims (f k c) = ac_claims c"
  shows "accepted_of (map (\<lambda>(k, c). (k, f k c)) comps) = accepted_of comps"
  by (induction comps) (auto simp: accepted_of_def assms)

lemma disambiguate_accepted: "accepted_of (snd (disambiguateDerivedDomainNames ext domains comps)) = accepted_of comps"
  by (simp add: disambiguateDerivedDomainNames_def Let_def accepted_of_map)

lemma disambiguate_domains:
  assumes "d \<in> set (fst (disambiguateDerivedDomainNames ext domains comps))"
  obtains e name where "e \<in> set domains" and "d = e\<lparr>pd_Name := name\<rparr>"
proof -
  from assms obtain e where e: "e \<in> set domains"
    "d = (if ambiguous domains e then e\<lparr>pd_Name := derived_name ext (pd_ListenerName e) (pd_Name e)\<rparr> else e)"
    by (auto simp: disambiguateDerivedDomainNames_def Let_def split: if_splits)
  show ?thesis
  proof (cases "ambiguous domains e")
    case False
    with e show ?thesis by (intro that [of e "pd_Name e"]) simp_all
  qed (use e that in auto)
qed

text \<open>
  The domains of the result: without applications the given ones with headers stripped, otherwise those of the partition, renamed,
  some of them turned into blocks by a hold.
\<close>

lemma apply_domain_cases:
  assumes "d \<in> set (ig_Domains (fst (applyAccessApplications ext inp out statuses now holds)))"
  obtains (plain) "ig_ConformanceMode out \<or> in_AccessApplications inp = []"
    "d \<in> set (ig_Domains (markPublicDomainsForHeaderStripping out))"
  | (partitioned) e name where "\<not> ig_ConformanceMode out" "in_AccessApplications inp \<noteq> []"
    "e \<in> set (px_domains (partition_domains ext inp out holds (compile_applications ext inp out holds)))"
    "d = e\<lparr>pd_Name := name\<rparr>"
  | (held) e name where "\<not> ig_ConformanceMode out" "in_AccessApplications inp \<noteq> []"
    "e \<in> set (px_domains (partition_domains ext inp out holds (compile_applications ext inp out holds)))"
    "d = e\<lparr>pd_Name := name, pd_Protected := True, pd_Guard := GuardBlocked, pd_Access := None, pd_StripAccessHeaders := False\<rparr>"
proof (cases "ig_ConformanceMode out \<or> in_AccessApplications inp = []")
  case True
  then show ?thesis using assms plain by (auto simp: applyAccessApplications_def)
next
  case False
  let ?st = "partition_domains ext inp out holds (compile_applications ext inp out holds)"
  let ?domains = "fst (disambiguateDerivedDomainNames ext (px_domains ?st) (px_comps ?st))"
  have "d \<in> set (ig_Domains (apply_holds holds (out\<lparr>ig_Domains := ?domains\<rparr>)))"
    using assms False by (simp add: applyAccessApplications_def Let_def split: prod.splits)
  then consider "d \<in> set ?domains"
    | e where "e \<in> set ?domains"
      "d = e\<lparr>pd_Protected := True, pd_Guard := GuardBlocked, pd_Access := None, pd_StripAccessHeaders := False\<rparr>"
    using applied_domain_origin by fastforce
  then show ?thesis
  proof cases
    case 1
    then show ?thesis using False partitioned by (elim disambiguate_domains) auto
  next
    case (2 e)
    from 2(1) obtain e0 name where "e0 \<in> set (px_domains ?st)" "e = e0\<lparr>pd_Name := name\<rparr>" by (rule disambiguate_domains)
    then show ?thesis using False 2(2) held [of e0 name] by simp
  qed
qed

lemma apply_accepted:
  "accepted_of (snd (snd (applyAccessApplications ext inp out statuses now holds))) =
   (if ig_ConformanceMode out \<or> in_AccessApplications inp = [] then [] else accepted_of (compile_applications ext inp out holds))"
proof (cases "ig_ConformanceMode out \<or> in_AccessApplications inp = []")
  case True
  then show ?thesis by (simp add: applyAccessApplications_def accepted_of_def)
next
  case False
  let ?st = "partition_domains ext inp out holds (compile_applications ext inp out holds)"
  have "snd (snd (applyAccessApplications ext inp out statuses now holds)) =
      map (\<lambda>(key, c). (key, sortAccessCompilation c)) (snd (disambiguateDerivedDomainNames ext (px_domains ?st) (px_comps ?st)))"
    using False by (simp add: applyAccessApplications_def Let_def split: prod.split)
  then show ?thesis using False by (simp add: accepted_of_map disambiguate_accepted partition_accepted)
qed

lemma marked_domain:
  assumes "d \<in> set (ig_Domains (markPublicDomainsForHeaderStripping out))"
  obtains e where "e \<in> set (ig_Domains out)" "pd_Guard d = pd_Guard e" "pd_ListenerName d = pd_ListenerName e"
    "pd_EnvoyPort d = pd_EnvoyPort e" "pd_AccessApplication d = pd_AccessApplication e"
    "\<forall>vh \<in> set (pd_VirtualHosts d). \<exists>h \<in> set (pd_VirtualHosts e). vh_Hostname vh = vh_Hostname h \<and>
       (\<forall>r \<in> set (vh_Routes vh). \<exists>r0 \<in> set (vh_Routes h). r = r0 \<or> r = sanitizeUnprotectedRoute r0)"
proof (cases "d \<in> set (ig_Domains out)")
  case True
  then show ?thesis by (intro that [of d]) auto
next
  case False
  with assms obtain e where "e \<in> set (ig_Domains out)"
    "d = e\<lparr>pd_StripAccessHeaders := True,
               pd_VirtualHosts := map (\<lambda>h. h\<lparr>vh_Routes := map sanitizeUnprotectedRoute (vh_Routes h)\<rparr>) (pd_VirtualHosts e)\<rparr>"
    by (auto simp: markPublicDomainsForHeaderStripping_def split: if_splits)
  then show ?thesis by (intro that [of e]) auto
qed

lemma forwarding_renamed [simp]: "forwarding_ok inp (d\<lparr>pd_Name := name\<rparr>) = forwarding_ok inp d"
  by (cases "pd_Access d") (simp_all add: forwarding_ok_def access_evidence_def)

lemma apply_forwarding:
  assumes "d \<in> set (ig_Domains (fst (applyAccessApplications ext inp out statuses now holds)))"
    and base: "\<forall>b \<in> set (ig_Domains out). pd_Guard b \<noteq> GuardForwarding"
    and "distinct (map application_ns (in_AccessApplications inp))"
  shows "forwarding_ok inp d"
  using assms(1)
proof (cases rule: apply_domain_cases)
  case plain
  from plain(2) base show ?thesis by (elim marked_domain) (auto simp: forwarding_ok_def)
next
  case (partitioned e name)
  have "forwarding_ok inp e"
    using forwarding.partition_sound [OF compiled_claims_ranked partitioned(3)] base compiled_jwt_permitted [OF assms(3)] by simp
  then show ?thesis by (simp add: partitioned(4))
qed (simp add: forwarding_ok_def)

lemma unclaimed_sanitized [simp]: "unclaimed comps l h (sanitizeUnprotectedRoute r) = unclaimed comps l h r"
  by (simp add: unclaimed_def claim_applies_def sanitizeUnprotectedRoute_def)

lemma apply_exposed:
  assumes "d \<in> set (ig_Domains (fst (applyAccessApplications ext inp out statuses now holds)))"
    and "pd_Guard d = GuardUnprotected" and "vh \<in> set (pd_VirtualHosts d)" and "r \<in> set (vh_Routes vh)"
  shows "unclaimed (snd (snd (applyAccessApplications ext inp out statuses now holds))) (pd_ListenerName d) (vh_Hostname vh) r \<and>
    ((\<exists>b \<in> set (ig_Domains out). pd_ListenerName b = pd_ListenerName d \<and> pd_Guard b = GuardUnprotected) \<or>
     unprotected_allowed ext inp out (vh_Hostname vh))"
  using assms(1)
proof (cases rule: apply_domain_cases)
  case plain
  from plain(2) obtain b where "b \<in> set (ig_Domains out)" "pd_Guard b = GuardUnprotected" "pd_ListenerName b = pd_ListenerName d"
    using assms(2) by (elim marked_domain) auto
  then show ?thesis using plain(1) by (auto simp: unclaimed_def apply_accepted)
next
  case (partitioned e name)
  let ?comps = "compile_applications ext inp out holds"
  have "exposed_ok ext inp out ?comps e"
    by (rule exposed.partition_sound [OF compiled_claims_ranked partitioned(3)])
  then obtain b h r0 where "b \<in> set (ig_Domains out)" "pd_ListenerName b = pd_ListenerName d" "r = r0 \<or> r = sanitizeUnprotectedRoute r0"
    "unclaimed ?comps (pd_ListenerName d) (vh_Hostname vh) r0"
    "pd_Guard b = GuardUnprotected \<or> unprotected_allowed ext inp out (vh_Hostname vh)"
    using assms(2-4) unfolding exposed_ok_def partitioned(4) by simp blast
  moreover have "unclaimed (snd (snd (applyAccessApplications ext inp out statuses now holds))) = unclaimed ?comps"
    by (rule unclaimed_cong) (simp add: apply_accepted partitioned)
  ultimately show ?thesis by auto
next
  case (held e name)
  then show ?thesis using assms(2) by simp
qed

lemma typed_renamed [simp]: "domain_typed u ls (d\<lparr>pd_Name := name\<rparr>) = domain_typed u ls d"
  by (simp add: domain_typed_def)

lemma apply_typed:
  assumes "d \<in> set (ig_Domains (fst (applyAccessApplications ext inp out statuses now holds)))" and "listener_domains_typed u out"
  shows "domain_typed u (ig_Listeners out) d"
  using assms(1)
proof (cases rule: apply_domain_cases)
  case plain
  have "domain_typed u (ig_Listeners out) (d\<lparr>pd_StripAccessHeaders := x, pd_VirtualHosts := vhs\<rparr>) = domain_typed u (ig_Listeners out) d" for x vhs d
    by (simp add: domain_typed_def)
  with plain(2) assms(2) show ?thesis
    by (auto simp: markPublicDomainsForHeaderStripping_def listener_domains_typed_def split: if_splits)
next
  case (partitioned e name)
  then show ?thesis using typed.partition_sound [OF compiled_claims_ranked partitioned(3)] assms(2) by simp
next
  case (held e name)
  have "domain_typed u (ig_Listeners out) e" using typed.partition_sound [OF compiled_claims_ranked held(3)] assms(2) by simp
  then show ?thesis by (simp add: held(4) domain_typed_def)
qed

end
