(* ===== verification/Translate.thy ===== *)
theory Translate
  imports AccessDomains
begin

text \<open>
  \<^verbatim>\<open>Translate\<close> of \<^verbatim>\<open>src/internal/gatewayapi/translate.go\<close>, the composition of the listener, route, Access, backend and
  status components, and \<^verbatim>\<open>CompileAccessApplication\<close>, which runs it on the inputs without applications. Of the
  Gateway status, the conditions and the listener entries are modelled; its other fields are copied from the input.
\<close>

record statuses =
  sts_GatewayConditions :: "condition list"
  sts_GatewayListeners :: "listenerStatus list"
  sts_HTTPRoutes :: http_statuses
  sts_BackendTLSPolicies :: policy_statuses
  sts_AccessApplications :: compilations

definition empty_statuses :: statuses where
  "empty_statuses = \<lparr>sts_GatewayConditions = [], sts_GatewayListeners = [], sts_HTTPRoutes = [],
     sts_BackendTLSPolicies = Map.empty, sts_AccessApplications = []\<rparr>"

text \<open>\<^verbatim>\<open>time.Unix(0, 0)\<close> in nanoseconds after the zero time.\<close>

definition unix_epoch :: time where "unix_epoch = 62135596800 * second"

definition translation_time :: "inputs \<Rightarrow> time" where
  "translation_time inp = (if time_is_zero (in_Now inp) then unix_epoch else in_Now inp)"

definition conformance_mode :: "inputs \<Rightarrow> bool" where
  "conformance_mode inp = (case in_GatewayClassConfig inp of None \<Rightarrow> False | Some c \<Rightarrow> gcc_ConformanceMode c)"

definition infrastructureLabels :: "gatewayInfrastructure option \<Rightarrow> (string, string) gomap" where
  "infrastructureLabels infrastructure = (case infrastructure of None \<Rightarrow> [] | Some i \<Rightarrow> gi_Labels i)"

definition infrastructureAnnotations :: "gatewayInfrastructure option \<Rightarrow> (string, string) gomap" where
  "infrastructureAnnotations infrastructure = (case infrastructure of None \<Rightarrow> [] | Some i \<Rightarrow> gi_Annotations i)"

definition gatewayOriginRequestIR :: "gatewayClassConfig option \<Rightarrow> gatewayOriginRequest" where
  "gatewayOriginRequestIR config =
     (case config of
        None \<Rightarrow> empty_gatewayOriginRequest
      | Some c \<Rightarrow>
          (let origin = gcc_OriginRequest c in
           \<lparr>gor_ConnectTimeout = cor_ConnectTimeout origin, gor_KeepAliveTimeout = cor_KeepAliveTimeout origin,
            gor_TCPKeepAlive = cor_TCPKeepAlive origin, gor_KeepAliveConnections = cor_KeepAliveConnections origin,
            gor_NoHappyEyeballs = cor_NoHappyEyeballs origin, gor_DisableChunkedEncoding = cor_DisableChunkedEncoding origin,
            gor_HTTP2Origin = cor_HTTP2Origin origin\<rparr>))"

section \<open>The gateway of the representation\<close>

definition tunnel_policy :: "cloudflareTunnel \<Rightarrow> string" where
  "tunnel_policy t = (if tu_ManagementPolicy t = [] then ManagementPolicyManaged else tu_ManagementPolicy t)"

definition ownership_verified :: "gateway \<Rightarrow> cloudflareTunnel \<Rightarrow> bool" where
  "ownership_verified gw t \<longleftrightarrow>
     tunnel_policy t = ManagementPolicyManaged \<and> tu_StatusDeletedAt t = None \<and> tu_StatusOwnershipVerified t \<and>
     (case tu_StatusConnectorTokenSecretRef t of None \<Rightarrow> False | Some name \<Rightarrow> name \<noteq> []) \<and>
     tu_StatusGatewayRef t = Some (gw_Name gw) \<and> tu_StatusGatewayUID t \<noteq> [] \<and> tu_StatusGatewayUID t = gw_UID gw"

definition tunnel_ir :: "inputs \<Rightarrow> gateway \<Rightarrow> cloudflareTunnel \<Rightarrow> cloudflareAccount \<Rightarrow> cloudflare option" where
  "tunnel_ir inp gw t account =
     (if ownership_verified gw t then
        Some \<lparr>cf_AccountID = ca_AccountID account,
          cf_TunnelName = (if tu_TunnelName t = [] then tu_Name t else tu_TunnelName t),
          cf_TunnelID = tu_StatusTunnelID t, cf_TokenSecretName = the (tu_StatusConnectorTokenSecretRef t),
          cf_ManagementPolicy = tunnel_policy t,
          cf_Teardown = str_get (tu_Annotations t) CloudflareTunnelTeardownAnnotation = ''true'',
          cf_WARPRouting = privateRoutesRequireWARP inp, cf_OriginRequest = gatewayOriginRequestIR (in_GatewayClassConfig inp)\<rparr>
      else None)"

definition gateway_ir :: "inputs \<Rightarrow> gateway \<Rightarrow> irGateway" where
  "gateway_ir inp gw =
     empty_gateway\<lparr>ig_Key := (gw_Namespace gw, gw_Name gw), ig_UID := gw_UID gw, ig_ConformanceMode := conformance_mode inp,
       ig_InfrastructureLabels := infrastructureLabels (gw_Infrastructure gw),
       ig_InfrastructureAnnotations := infrastructureAnnotations (gw_Infrastructure gw),
       ig_Cloudflare :=
         (if conformance_mode inp then None
          else case (in_CloudflareTunnel inp, in_CloudflareAccount inp) of
            (Some t, Some a) \<Rightarrow> tunnel_ir inp gw t a | _ \<Rightarrow> None)\<rparr>"

section \<open>Gateway-wide validity\<close>

definition supported_parameters :: "inputs \<Rightarrow> parametersRef \<Rightarrow> bool" where
  "supported_parameters inp ref \<longleftrightarrow>
     \<not> conformance_mode inp \<and>
     (case in_CloudflareTunnel inp of
        None \<Rightarrow> False
      | Some t \<Rightarrow> par_Group ref = FlarewayGroup \<and> par_Kind ref = ''CloudflareTunnel'' \<and> par_Name ref = tu_Name t)"

definition unsupported_parameters :: "inputs \<Rightarrow> gateway \<Rightarrow> parametersRef option" where
  "unsupported_parameters inp gw =
     (case gw_Infrastructure gw of
        None \<Rightarrow> None
      | Some i \<Rightarrow> (case gi_ParametersRef i of
            None \<Rightarrow> None | Some ref \<Rightarrow> if supported_parameters inp ref then None else Some ref))"

text \<open>The three checks overwrite the reason and the message in this order.\<close>

definition global_validity :: "inputs \<Rightarrow> gateway \<Rightarrow> string \<times> string \<Rightarrow> bool \<times> string \<times> string" where
  "global_validity inp gw start =
     (let v0 = (False, start);
          v1 = (if gw_Addresses gw \<noteq> [] then (True, ''UnsupportedAddress'', ''spec.addresses is not supported'') else v0);
          v2 = (if gw_AllowedListeners gw then (True, ''ListenersNotValid'', ''spec.allowedListeners is not supported'') else v1)
      in case unsupported_parameters inp gw of
           None \<Rightarrow> v2
         | Some ref \<Rightarrow> (True, ''InvalidParameters'',
             ''infrastructure parametersRef '' @ par_Group ref @ ''/'' @ par_Kind ref @ '' is not supported''))"

definition gateway_acceptance :: "listenerTranslation list \<Rightarrow> string \<times> string \<Rightarrow> bool \<times> string \<times> string" where
  "gateway_acceptance listeners reason =
     (if fst reason \<noteq> ''Accepted'' then (False, reason)
      else
        (let valid = filter (\<lambda>t. lx_accepted t \<and> \<not> lx_conflicted t) listeners in
         (valid \<noteq> [],
          if length valid < length listeners then (''ListenersNotValid'', ''one or more listeners are invalid'') else reason)))"

section \<open>Translation\<close>

definition translate_gateway ::
  "externals \<Rightarrow> inputs \<Rightarrow> gateway \<Rightarrow> accessRevocationHolds option \<Rightarrow> irGateway \<times> statuses" where
  "translate_gateway ext inp gw holds =
     (let now = translation_time inp;
          (out1, listeners1, listenerReason) = translateListeners ext inp gw (reservedPorts holds) (gateway_ir inp gw);
          (invalid, gatewayReason) = global_validity inp gw listenerReason;
          listeners2 = (if invalid then map (\<lambda>t. invalidateListener t ListenerReasonUnsupportedValue (snd gatewayReason)) listeners1
                        else listeners1);
          out2 = (if invalid then out1\<lparr>ig_Listeners := [], ig_Domains := [], ig_Secrets := []\<rparr> else out1);
          (out3, listeners3, httpStatuses) = compileHTTPRoutes ext inp gw out2 listeners2 now;
          (out4, httpStatuses', applications) = applyAccessApplications ext inp out3 httpStatuses now holds;
          policies = populateBackendTLSPolicyStatuses ext inp out4 now Map.empty;
          out5 = finalizeIR (out4\<lparr>ig_Clusters := buildClusters ext inp out4\<rparr>);
          (accepted, reason, message) = gateway_acceptance listeners3 gatewayReason
      in (out5,
          \<lparr>sts_GatewayConditions = MergeConditions (gw_StatusConditions gw) now
             [NewCondition ''Accepted'' (conditionStatus accepted) reason message (gw_Generation gw) now],
           sts_GatewayListeners = map (\<lambda>t. listener_status gw t now) listeners3,
           sts_HTTPRoutes = httpStatuses', sts_BackendTLSPolicies = policies, sts_AccessApplications = applications\<rparr>))"

definition translate :: "externals \<Rightarrow> inputs \<Rightarrow> accessRevocationHolds option \<Rightarrow> irGateway option \<times> statuses" where
  "translate ext inp holds =
     (case in_Gateway inp of
        None \<Rightarrow> (None, empty_statuses)
      | Some gw \<Rightarrow> (let (out, sts) = translate_gateway ext inp gw holds in (Some out, sts)))"

definition Translate :: "externals \<Rightarrow> inputs \<Rightarrow> irGateway option \<times> statuses" where
  "Translate ext inp =
     (let (out, sts) = translate ext inp None in
      case out of
        None \<Rightarrow> (out, sts)
      | Some g \<Rightarrow>
          if ig_ConformanceMode g then (out, sts)
          else case newAccessRevocationHolds inp (the (in_Gateway inp)) (ig_Domains g) of
            None \<Rightarrow> (out, sts)
          | Some holds \<Rightarrow> translate ext inp (Some holds))"

definition CompileAccessApplication :: "externals \<Rightarrow> inputs \<Rightarrow> accessApplication option \<Rightarrow> accessApplicationCompilation" where
  "CompileAccessApplication ext inp application =
     (case application of
        None \<Rightarrow> accessFailure ''Invalid'' ''AccessApplication is nil''
      | Some app \<Rightarrow>
          (case fst (Translate ext (inp\<lparr>in_AccessApplications := [], in_AUDSecrets := Map.empty\<rparr>)) of
             None \<Rightarrow> if aa_TargetRefs app \<noteq> [] then accessLossFailure ''Gateway target was not found'' AccessTargetLossGateway
                     else compileDeclaredAccessDestinations ext inp app
           | Some out \<Rightarrow> compileAccessApplicationAgainstIR ext inp out app))"

section \<open>Lemmas on the stages\<close>

text \<open>The representation and the Listener translations after the routes, before Access.\<close>

definition routed ::
  "externals \<Rightarrow> inputs \<Rightarrow> gateway \<Rightarrow> accessRevocationHolds option
    \<Rightarrow> irGateway \<times> listenerTranslation list \<times> (nsname, routeParentStatus list) gomap" where
  "routed ext inp gw holds =
     (let (out, listeners, reason) = translateListeners ext inp gw (reservedPorts holds) (gateway_ir inp gw);
          (invalid, gatewayReason) = global_validity inp gw reason
      in compileHTTPRoutes ext inp gw
           (if invalid then out\<lparr>ig_Listeners := [], ig_Domains := [], ig_Secrets := []\<rparr> else out)
           (if invalid then map (\<lambda>t. invalidateListener t ListenerReasonUnsupportedValue (snd gatewayReason)) listeners else listeners)
           (translation_time inp))"

definition routed_access ::
  "externals \<Rightarrow> inputs \<Rightarrow> gateway \<Rightarrow> accessRevocationHolds option \<Rightarrow> irGateway \<times> http_statuses \<times> compilations" where
  "routed_access ext inp gw holds =
     (let (out, listeners, sts) = routed ext inp gw holds
      in applyAccessApplications ext inp out sts (translation_time inp) holds)"

lemma finalizeIR_fields [simp]:
  "ig_Domains (finalizeIR out) = ig_Domains out" "ig_Listeners (finalizeIR out) = ig_Listeners out"
  "ig_ConformanceMode (finalizeIR out) = ig_ConformanceMode out"
  by (simp_all add: finalizeIR_def)

lemma translate_gateway_access:
  "ig_Domains (fst (translate_gateway ext inp gw holds)) = ig_Domains (fst (routed_access ext inp gw holds))"
  "ig_Listeners (fst (translate_gateway ext inp gw holds)) = ig_Listeners (fst (routed_access ext inp gw holds))"
  "ig_ConformanceMode (fst (translate_gateway ext inp gw holds)) = ig_ConformanceMode (fst (routed_access ext inp gw holds))"
  "sts_AccessApplications (snd (translate_gateway ext inp gw holds)) = snd (snd (routed_access ext inp gw holds))"
  by (simp_all add: translate_gateway_def routed_access_def routed_def Let_def split: prod.split)

lemma gateway_ir_fields [simp]:
  "ig_ConformanceMode (gateway_ir inp gw) = conformance_mode inp" "ig_Key (gateway_ir inp gw) = (gw_Namespace gw, gw_Name gw)"
  by (simp_all add: gateway_ir_def)

lemma compileHTTPRoutes_fields:
  "ig_ConformanceMode (fst (compileHTTPRoutes ext inp gw out L now)) = ig_ConformanceMode out"
  "ig_Key (fst (compileHTTPRoutes ext inp gw out L now)) = ig_Key out"
  "ig_Listeners (fst (compileHTTPRoutes ext inp gw out L now)) = ig_Listeners out"
  by (simp_all add: compileHTTPRoutes_def Let_def)

lemma translateListeners_fields:
  "ig_ConformanceMode (fst (translateListeners ext inp gw reserved out)) = ig_ConformanceMode out"
  "ig_Key (fst (translateListeners ext inp gw reserved out)) = ig_Key out"
  by (simp_all add: translateListeners_def Let_def split: prod.split)

lemma routed_fields:
  "ig_ConformanceMode (fst (routed ext inp gw holds)) = conformance_mode inp"
  "ig_Key (fst (routed ext inp gw holds)) = (gw_Namespace gw, gw_Name gw)"
  using translateListeners_fields [of ext inp gw "reservedPorts holds" "gateway_ir inp gw"]
  by (auto simp: routed_def Let_def compileHTTPRoutes_fields split: prod.split)

lemma apply_access_fields:
  "ig_ConformanceMode (fst (applyAccessApplications ext inp out sts now holds)) = ig_ConformanceMode out"
  "ig_Listeners (fst (applyAccessApplications ext inp out sts now holds)) = ig_Listeners out"
  by (simp_all add: applyAccessApplications_def markPublicDomainsForHeaderStripping_def Let_def split: prod.split)

text \<open>Routes only add virtual hosts to the domains of the Listeners.\<close>

lemma hosts_only:
  "\<exists>vhs. add_virtual_hosts hosts d = d\<lparr>pd_VirtualHosts := vhs\<rparr>"
  "\<exists>vhs. ensure_listener_host ls d = d\<lparr>pd_VirtualHosts := vhs\<rparr>"
  "\<exists>vhs. d = d\<lparr>pd_VirtualHosts := vhs\<rparr>"
proof -
  have same: "d\<lparr>pd_VirtualHosts := pd_VirtualHosts d\<rparr> = d" by simp
  then show "\<exists>vhs. d = d\<lparr>pd_VirtualHosts := vhs\<rparr>" by metis
  show "\<exists>vhs. add_virtual_hosts hosts d = d\<lparr>pd_VirtualHosts := vhs\<rparr>"
    by (cases "mget hosts (pd_ListenerName d)") (simp_all add: add_virtual_hosts_def, metis same, blast)
  show "\<exists>vhs. ensure_listener_host ls d = d\<lparr>pd_VirtualHosts := vhs\<rparr>"
    unfolding ensure_listener_host_def by (split option.split) (metis same)
qed

lemma compileHTTPRoutes_domain:
  assumes "d \<in> set (ig_Domains (fst (compileHTTPRoutes ext inp gw out L now)))"
  obtains b vhs where "b \<in> set (ig_Domains out)" "d = b\<lparr>pd_VirtualHosts := vhs\<rparr>"
proof -
  let ?hosts = "attached_hosts ext inp gw L now"
  obtain e where e: "e \<in> set (attach_virtual_hosts ?hosts (ig_Domains out))"
    and d: "d = e \<or> d = ensure_listener_host (ig_Listeners out) e"
    using compileHTTPRoutes_domains [OF assms] .
  obtain i where i: "i < length (ig_Domains out)"
    and "e = add_virtual_hosts ?hosts (ig_Domains out ! i) \<or> e = ig_Domains out ! i"
    using e attach_virtual_hosts_nth [of ?hosts "ig_Domains out"] by (auto simp: in_set_conv_nth)
  then obtain vhs where e_eq: "e = (ig_Domains out ! i)\<lparr>pd_VirtualHosts := vhs\<rparr>"
    using hosts_only(1) [of ?hosts "ig_Domains out ! i"] hosts_only(3) [of "ig_Domains out ! i"] by metis
  have "\<exists>vhs. d = (ig_Domains out ! i)\<lparr>pd_VirtualHosts := vhs\<rparr>"
    using d hosts_only(2) [of "ig_Listeners out" e] unfolding e_eq by auto
  with i show ?thesis using that nth_mem by blast
qed

lemma routed_domain:
  assumes "d \<in> set (ig_Domains (fst (routed ext inp gw holds)))"
  obtains b vhs where
    "b \<in> set (ig_Domains (fst (translateListeners ext inp gw (reservedPorts holds) (gateway_ir inp gw))))"
    "d = b\<lparr>pd_VirtualHosts := vhs\<rparr>"
proof -
  obtain out L now where "d \<in> set (ig_Domains (fst (compileHTTPRoutes ext inp gw out L now)))"
    and "set (ig_Domains out) \<subseteq> set (ig_Domains (fst (translateListeners ext inp gw (reservedPorts holds) (gateway_ir inp gw))))"
    using assms by (force simp: routed_def Let_def split: prod.splits if_splits)
  then show ?thesis using that by (elim compileHTTPRoutes_domain) blast
qed

text \<open>A domain may lack a guard only in conformance mode, without a tunnel, or without an account.\<close>

definition unguarded_mode :: "inputs \<Rightarrow> bool" where
  "unguarded_mode inp \<longleftrightarrow> conformance_mode inp \<or> in_CloudflareTunnel inp = None \<or> in_CloudflareAccount inp = None"

lemma routed_typed: "listener_domains_typed (unguarded_mode inp) (fst (routed ext inp gw holds))"
proof -
  let ?in = "translateListeners ext inp gw (reservedPorts holds) (gateway_ir inp gw)"
  have listed: "pd_ListenerName b \<in> il_Name ` set (ig_Listeners (fst ?in)) \<and> pd_AccessApplication b = [] \<and> pd_Access b = None"
    if "b \<in> set (ig_Domains (fst ?in))" for b
    using that by (auto simp: translateListeners_def listener_domain_def Let_def split: prod.splits)
  have base: "pd_Guard b \<in> {[], GuardUnprotected, GuardBlocked} \<and> (pd_Guard b = [] \<longrightarrow> unguarded_mode inp) \<and> (pd_Guard b = GuardUnprotected \<longrightarrow> \<not> pd_Protected b)"
    if b: "b \<in> set (ig_Domains (fst ?in))" for b
  proof (cases "pd_Guard b = []")
    case False
    then have env: "\<not> conformance_mode inp" "in_CloudflareTunnel inp \<noteq> None" "in_CloudflareAccount inp \<noteq> None"
      and guard: "pd_Guard b \<in> {GuardUnprotected, GuardBlocked}"
      using domain_guard [OF b] by simp_all
    obtain t where t: "b = listener_domain t" "listener_guarded ext inp gw t"
      by (rule domain_listener [OF b]) (use env(1) in simp_all)
    then show ?thesis using env guard by (auto simp: listener_domain_def listener_guarded_def Let_def split: if_splits)
  next
    case True
    have "unguarded_mode inp"
    proof (rule ccontr)
      assume "\<not> unguarded_mode inp"
      then have env: "\<not> conformance_mode inp" "in_CloudflareTunnel inp \<noteq> None" "in_CloudflareAccount inp \<noteq> None"
        by (simp_all add: unguarded_mode_def)
      obtain t where t: "b = listener_domain t" "listener_guarded ext inp gw t"
        by (rule domain_listener [OF b]) (use env(1) in simp_all)
      then show False using env True by (auto simp: listener_domain_def listener_guarded_def Let_def split: if_splits)
    qed
    with True show ?thesis by (simp add: GuardUnprotected_def)
  qed
  have shape: "domain_typed (unguarded_mode inp) (ig_Listeners (fst ?in)) (b\<lparr>pd_VirtualHosts := vhs\<rparr>) \<and> pd_AccessApplication b = [] \<and> pd_Guard b \<noteq> GuardForwarding"
    if "b \<in> set (ig_Domains (fst ?in))" for b vhs
    using listed [OF that] base [OF that] by (auto simp: domain_typed_def)
  have kept: "ig_Domains (fst (routed ext inp gw holds)) = [] \<or> ig_Listeners (fst (routed ext inp gw holds)) = ig_Listeners (fst ?in)"
  proof -
    obtain out L reason where t: "?in = (out, L, reason)" by (metis prod_cases3)
    obtain invalid message where v: "global_validity inp gw reason = (invalid, message)" by (metis surj_pair)
    show ?thesis
      by (cases invalid) (simp_all add: routed_def t v compileHTTPRoutes_fields, simp add: compileHTTPRoutes_def Let_def)
  qed
  show ?thesis unfolding listener_domains_typed_def
  proof
    fix d assume d: "d \<in> set (ig_Domains (fst (routed ext inp gw holds)))"
    then obtain b vhs where "b \<in> set (ig_Domains (fst ?in))" "d = b\<lparr>pd_VirtualHosts := vhs\<rparr>" by (rule routed_domain)
    then show "domain_typed (unguarded_mode inp) (ig_Listeners (fst (routed ext inp gw holds))) d \<and> pd_AccessApplication d = [] \<and>
        pd_Guard d \<noteq> GuardForwarding"
      using shape [of b vhs] kept d by auto
  qed
qed

lemma routed_not_forwarding:
  assumes "b \<in> set (ig_Domains (fst (routed ext inp gw holds)))"
  shows "pd_Guard b \<noteq> GuardForwarding"
proof -
  obtain c vhs where c: "c \<in> set (ig_Domains (fst (translateListeners ext inp gw (reservedPorts holds) (gateway_ir inp gw))))"
    "b = c\<lparr>pd_VirtualHosts := vhs\<rparr>"
    using assms by (rule routed_domain)
  show ?thesis using domain_guard [OF c(1)] by (auto simp: c(2) GuardForwarding_def GuardUnprotected_def GuardBlocked_def)
qed

lemma routed_unprotected:
  assumes "b \<in> set (ig_Domains (fst (routed ext inp gw holds)))" and "pd_Guard b = GuardUnprotected"
  obtains spec where "spec \<in> set (gw_Listeners gw)" "ln_Name spec = pd_ListenerName b"
    "ad_Allowed (listener_decision ext inp gw (hostname_value (ln_Hostname spec))
       (listenerExposure (in_CloudflareTunnel inp) (ln_Name spec)) True)"
proof -
  obtain c vhs where c: "c \<in> set (ig_Domains (fst (translateListeners ext inp gw (reservedPorts holds) (gateway_ir inp gw))))"
    "b = c\<lparr>pd_VirtualHosts := vhs\<rparr>"
    using assms(1) by (rule routed_domain)
  have guards: "GuardUnprotected \<noteq> []" "GuardUnprotected \<noteq> GuardBlocked" by (simp_all add: GuardUnprotected_def GuardBlocked_def)
  have env: "\<not> conformance_mode inp" "in_CloudflareTunnel inp \<noteq> None" "in_CloudflareAccount inp \<noteq> None"
    using domain_guard [OF c(1)] assms(2) guards by (auto simp: c(2))
  obtain t l where t: "c = listener_domain t" "lx_ir t = Some l" "il_Name l = ln_Name (lx_spec t)" "listener_guarded ext inp gw t"
    "lx_spec t \<in> set (gw_Listeners gw)" "listenerExposure (in_CloudflareTunnel inp) (ln_Name (lx_spec t)) = lx_exposure t"
    by (rule domain_listener [OF c(1)]) (use env(1) in \<open>simp_all\<close>)
  have "lx_guard t = GuardUnprotected" using assms(2) by (simp add: c(2) t(1) listener_domain_def Let_def)
  then have "ad_Allowed (listener_decision ext inp gw (hostname_value (ln_Hostname (lx_spec t))) (lx_exposure t) True)"
    using t(4) env guards(2) by (simp add: listener_guarded_def Let_def split: if_splits)
  then show ?thesis using t by (intro that [of "lx_spec t"]) (simp_all add: c(2) t(1) listener_domain_def Let_def)
qed

text \<open>The translation that counts is one run of the pipeline, with the holds of the first run if there are any.\<close>

lemma Translate_run:
  assumes "Translate ext inp = (Some out, sts)"
  obtains gw holds where "in_Gateway inp = Some gw" "translate_gateway ext inp gw holds = (out, sts)"
    "holds = (if conformance_mode inp then None
              else newAccessRevocationHolds inp gw (ig_Domains (fst (translate_gateway ext inp gw None))))"
proof (cases "in_Gateway inp")
  case None
  then show ?thesis using assms by (simp add: Translate_def translate_def)
next
  case (Some gw)
  have mode: "ig_ConformanceMode (fst (translate_gateway ext inp gw None)) = conformance_mode inp"
    by (simp add: translate_gateway_access routed_access_def apply_access_fields routed_fields split: prod.split)
      (metis fst_conv routed_fields(1))
  obtain out1 sts1 where first: "translate_gateway ext inp gw None = (out1, sts1)" by (metis surj_pair)
  with mode have mode1: "ig_ConformanceMode out1 = conformance_mode inp" by simp
  show ?thesis
  proof (cases "conformance_mode inp")
    case True
    then show ?thesis using assms Some first mode1 that [of gw None] by (simp add: Translate_def translate_def)
  next
    case False
    then show ?thesis
      using assms Some first mode1 that [of gw "newAccessRevocationHolds inp gw (ig_Domains out1)"]
      by (cases "newAccessRevocationHolds inp gw (ig_Domains out1)")
        (simp_all add: Translate_def translate_def split: prod.splits)
  qed
qed

lemma Translate_access:
  assumes "Translate ext inp = (Some out, sts)" and "d \<in> set (ig_Domains out)"
  obtains gw holds out1 L sts1 where "in_Gateway inp = Some gw" "routed ext inp gw holds = (out1, L, sts1)"
    "d \<in> set (ig_Domains (fst (applyAccessApplications ext inp out1 sts1 (translation_time inp) holds)))"
    "sts_AccessApplications sts = snd (snd (applyAccessApplications ext inp out1 sts1 (translation_time inp) holds))"
proof -
  obtain gw holds where run: "in_Gateway inp = Some gw" "translate_gateway ext inp gw holds = (out, sts)"
    using assms(1) by (rule Translate_run)
  obtain out1 L sts1 where routed: "routed ext inp gw holds = (out1, L, sts1)" by (metis prod_cases3)
  show ?thesis
    using translate_gateway_access(1,4) [of ext inp gw holds] assms(2) that [OF run(1) routed]
    by (simp add: run(2) routed_access_def routed)
qed


lemma Translate_evidence:
  assumes "distinct (map application_ns (in_AccessApplications inp))"
    and "Translate ext inp = (Some out, sts)" and "d \<in> set (ig_Domains out)" and "pd_Guard d = GuardForwarding"
  shows "access_evidence inp d"
proof -
  obtain gw holds out1 L sts1 where run: "in_Gateway inp = Some gw" "routed ext inp gw holds = (out1, L, sts1)"
    "d \<in> set (ig_Domains (fst (applyAccessApplications ext inp out1 sts1 (translation_time inp) holds)))"
    using assms(2,3) by (rule Translate_access)
  have "\<forall>b \<in> set (ig_Domains out1). pd_Guard b \<noteq> GuardForwarding"
    using routed_not_forwarding [of _ ext inp gw holds] by (simp add: run(2))
  with apply_forwarding [OF run(3) _ assms(1)] assms(4) show ?thesis by (simp add: forwarding_ok_def)
qed

lemma Translate_typed:
  assumes "Translate ext inp = (Some out, sts)" and "d \<in> set (ig_Domains out)"
  shows "domain_typed (unguarded_mode inp) (ig_Listeners out) d"
proof -
  obtain gw holds where run: "translate_gateway ext inp gw holds = (out, sts)"
    using assms(1) by (rule Translate_run)
  obtain out1 L sts1 where routed: "routed ext inp gw holds = (out1, L, sts1)" by (metis prod_cases3)
  have parts: "ig_Domains out = ig_Domains (fst (applyAccessApplications ext inp out1 sts1 (translation_time inp) holds))"
    "ig_Listeners out = ig_Listeners out1"
    using translate_gateway_access(1,2) [of ext inp gw holds]
    by (simp_all add: run routed_access_def routed apply_access_fields)
  show ?thesis using apply_typed assms(2) routed_typed [of inp ext gw holds] unfolding parts by (simp add: routed)
qed

section \<open>Properties\<close>

text \<open>
  C1: no traffic is forwarded for an AccessApplication without evidence. Every domain of the translation whose guard is
  Forwarding is protected, and either validates tokens against a non-empty list of audiences, each of which is the
  non-empty audience of a ready application, with the team name and domain of the account; or its application
  asks for no origin validation, is ready, and that request is permitted.
\<close>
theorem forwarding_authenticated:
  assumes "distinct (map application_ns (in_AccessApplications inp))"
    and "Translate ext inp = (Some out, sts)" and "d \<in> set (ig_Domains out)" and "pd_Guard d = GuardForwarding"
  shows "access_evidence inp d"
  using assms by (rule Translate_evidence)

text \<open>
  C2: what is exposed without protection is neither claimed nor ungranted. A route in an unprotected domain of the
  translation is claimed by no AccessApplication that the statuses report as accepted, and the account grants the
  Gateway's namespace unprotected access to the hostname of a Listener of the domain's name or to the served hostname.
\<close>
theorem unprotected_routes_unclaimed:
  assumes "Translate ext inp = (Some out, sts)" and "d \<in> set (ig_Domains out)" and "pd_Guard d = GuardUnprotected"
    and "vh \<in> set (pd_VirtualHosts d)" and "r \<in> set (vh_Routes vh)"
  shows "\<exists>gw. in_Gateway inp = Some gw \<and>
    (\<forall>(key, c) \<in> set (sts_AccessApplications sts). ac_Accepted c \<longrightarrow>
       (\<forall>claim \<in> set (ac_claims c). \<not> claim_applies (pd_ListenerName d) (vh_Hostname vh) r claim)) \<and>
    ((\<exists>spec \<in> set (gw_Listeners gw). ln_Name spec = pd_ListenerName d \<and>
        ad_Allowed (listener_decision ext inp gw (hostname_value (ln_Hostname spec))
          (listenerExposure (in_CloudflareTunnel inp) (ln_Name spec)) True)) \<or>
     ad_Allowed (listener_decision ext inp gw (vh_Hostname vh) ExposurePublic True))"
proof -
  obtain gw holds out1 L sts1 where run: "in_Gateway inp = Some gw" "routed ext inp gw holds = (out1, L, sts1)"
    "d \<in> set (ig_Domains (fst (applyAccessApplications ext inp out1 sts1 (translation_time inp) holds)))"
    and apps: "sts_AccessApplications sts = snd (snd (applyAccessApplications ext inp out1 sts1 (translation_time inp) holds))"
    using assms(1,2) by (rule Translate_access)
  note facts = apply_exposed [OF run(3) assms(3-5), folded apps]
  have "fst (ig_Key out1) = gw_Namespace gw" using routed_fields(2) [of ext inp gw holds] by (simp add: run(2))
  then have "unprotected_allowed ext inp out1 (vh_Hostname vh) =
      ad_Allowed (listener_decision ext inp gw (vh_Hostname vh) ExposurePublic True)"
    by (simp add: unprotected_allowed_def listener_decision_def)
  moreover have "\<exists>spec \<in> set (gw_Listeners gw). ln_Name spec = pd_ListenerName d \<and>
        ad_Allowed (listener_decision ext inp gw (hostname_value (ln_Hostname spec))
          (listenerExposure (in_CloudflareTunnel inp) (ln_Name spec)) True)"
    if "b \<in> set (ig_Domains out1)" "pd_ListenerName b = pd_ListenerName d" "pd_Guard b = GuardUnprotected" for b
    using routed_unprotected [of b ext inp gw holds] that by (force simp: run(2))
  moreover have "\<forall>(key, c) \<in> set (sts_AccessApplications sts). ac_Accepted c \<longrightarrow>
       (\<forall>claim \<in> set (ac_claims c). \<not> claim_applies (pd_ListenerName d) (vh_Hostname vh) r claim)"
    using facts by (force simp: unclaimed_def accepted_of_def)
  ultimately show ?thesis using facts run(1) by blast
qed


text \<open>
  C4: the domains of a translation are well formed. Every domain names a Listener of the translated Gateway and is
  unprotected, blocked or forwarding; it lacks a guard only in conformance mode, without a tunnel or without an account. An unprotected domain is not marked protected and
  belongs to no application, a forwarding one is protected, an Access guard occurs only on a forwarding
  domain, and every domain of an application is protected.
\<close>
theorem translated_domains_typed:
  assumes "Translate ext inp = (Some out, sts)" and "d \<in> set (ig_Domains out)"
  shows "domain_typed (unguarded_mode inp) (ig_Listeners out) d"
  using assms by (rule Translate_typed)

section \<open>Examples\<close>

lemma Translate_holds:
  assumes "in_Gateway inp = Some gw" and "\<not> conformance_mode inp"
    and "newAccessRevocationHolds inp gw (ig_Domains (fst (translate_gateway ext inp gw None))) = holds"
  shows "Translate ext inp = (Some (fst (translate_gateway ext inp gw holds)), snd (translate_gateway ext inp gw holds))"
proof -
  have "\<exists>out. fst (Translate ext inp) = Some out"
    using assms(1) by (simp add: Translate_def translate_def split: prod.split option.split)
  then obtain out sts where run: "Translate ext inp = (Some out, sts)" by (metis prod.collapse)
  have "translate_gateway ext inp gw holds = (out, sts)" using run assms by (elim Translate_run) simp
  with run show ?thesis by simp
qed

text \<open>
  The Gateway of the Listener example with an application for its second Listener, whose audience is ready; and the same
  with a deleted application that still holds the host of that Listener.
\<close>

definition example_listener_application :: accessApplication where
  "example_listener_application = (example_application ''app'')\<lparr>aa_Namespace := ''n'', aa_AccountRef := ''acct'',
     aa_TargetRefs := [\<lparr>atr_Group = [], atr_Kind = [], atr_Name = ''g'', atr_SectionName = Some ''l2''\<rparr>]\<rparr>"

definition example_access_inputs :: inputs where
  "example_access_inputs = example_listener_inputs\<lparr>in_Gateway := Some example_gw,
     in_AccessApplications := [example_listener_application],
     in_AUDSecrets := [(''n'', ''app'') \<mapsto> \<lparr>aud_AUD = ''aud'', aud_ApplicationID = ''id'', aud_Ready = True\<rparr>], in_Now := 5\<rparr>"

definition example_revoked_application :: accessApplication where
  "example_revoked_application = (example_application ''old'')\<lparr>aa_Namespace := ''n'', aa_AccountRef := ''acct'',
     aa_DeletionTimestamp := 4, aa_StatusDataPlanes := [\<lparr>dps_Tunnel = ''t'', dps_Listener = ''l2'', dps_ProtectionDomain = ''l2-old'',
       dps_EnvoyPort = 0\<rparr>], aa_StatusDestinations := [\<lparr>dst_Hostname = ''y.io'', dst_URI = []\<rparr>]\<rparr>"

definition example_revocation_inputs :: inputs where
  "example_revocation_inputs = example_access_inputs\<lparr>
     in_AccessApplications := [example_listener_application, example_revoked_application]\<rparr>"

lemma example_access_fields:
  "in_Gateway example_access_inputs = Some example_gw" "\<not> conformance_mode example_access_inputs"
  "in_AccessApplications example_access_inputs = [example_listener_application]"
  "in_Gateway example_revocation_inputs = Some example_gw" "\<not> conformance_mode example_revocation_inputs"
  by (simp_all add: example_revocation_inputs_def example_access_inputs_def example_listener_inputs_def conformance_mode_def)

lemma example_access_holds: "newAccessRevocationHolds example_access_inputs example_gw live = None"
proof -
  have "\<not> revoking example_listener_application"
    by (simp add: revoking_def example_listener_application_def example_application_def time_is_zero_def str_get_def)
  then show ?thesis
    by (simp add: newAccessRevocationHolds_def AccessRevocationTombstones_def example_access_fields add_tombstones_def
        split: option.split)
qed

lemma example_access_domains:
  "map pd_Guard (ig_Domains (fst (routed_access example_externals example_access_inputs example_gw None))) =
     [GuardUnprotected, GuardForwarding]"
  by code_simp

theorem forwarding_authenticated_witness:
  "\<exists>d \<in> set (ig_Domains (the (fst (Translate example_externals example_access_inputs)))).
     pd_Guard d = GuardForwarding \<and> access_evidence example_access_inputs d"
proof -
  note run = Translate_holds [OF example_access_fields(1,2) example_access_holds, of example_externals]
  have "GuardForwarding \<in> pd_Guard ` set (ig_Domains (fst (translate_gateway example_externals example_access_inputs example_gw None)))"
    unfolding translate_gateway_access(1) set_map [symmetric] example_access_domains by simp
  then obtain d where d: "d \<in> set (ig_Domains (fst (translate_gateway example_externals example_access_inputs example_gw None)))"
    "pd_Guard d = GuardForwarding" by force
  have "distinct (map application_ns (in_AccessApplications example_access_inputs))" by (simp add: example_access_fields)
  from forwarding_authenticated [OF this run d] d show ?thesis unfolding run by auto
qed

theorem translated_domains_typed_witness:
  "\<exists>d \<in> set (ig_Domains (the (fst (Translate example_externals example_access_inputs)))). pd_Guard d = GuardForwarding \<and>
     domain_typed False (ig_Listeners (the (fst (Translate example_externals example_access_inputs)))) d"
proof -
  note run = Translate_holds [OF example_access_fields(1,2) example_access_holds, of example_externals]
  have "GuardForwarding \<in> pd_Guard ` set (ig_Domains (fst (translate_gateway example_externals example_access_inputs example_gw None)))"
    unfolding translate_gateway_access(1) set_map [symmetric] example_access_domains by simp
  then obtain d where "d \<in> set (ig_Domains (fst (translate_gateway example_externals example_access_inputs example_gw None)))"
    "pd_Guard d = GuardForwarding" by force
  moreover have "in_CloudflareTunnel example_access_inputs \<noteq> None" "in_CloudflareAccount example_access_inputs \<noteq> None"
    by (simp_all add: example_access_inputs_def example_listener_inputs_def)
  then have "\<not> unguarded_mode example_access_inputs" using example_access_fields(2) by (simp add: unguarded_mode_def)
  ultimately show ?thesis using translated_domains_typed [OF run] unfolding run by auto
qed








text \<open>The same Gateway without applications, with the route of the routing example.\<close>

definition example_open_inputs :: inputs where
  "example_open_inputs = example_listener_inputs\<lparr>in_Gateway := Some example_gw, in_HTTPRoutes := [example_route],
     in_Services := in_Services example_services, in_Now := 5\<rparr>"

lemma example_open_fields:
  "in_Gateway example_open_inputs = Some example_gw" "\<not> conformance_mode example_open_inputs"
  "in_AccessApplications example_open_inputs = []" "in_HTTPRoutes example_open_inputs = [example_route]"
  by (simp_all add: example_open_inputs_def example_listener_inputs_def conformance_mode_def)

lemma example_open_listeners:
  "(\<lambda>(out, L, reason). map (\<lambda>d. (pd_ListenerName d, pd_Guard d)) (ig_Domains out) =
      [(''l1'', GuardUnprotected), (''l2'', GuardBlocked)] \<and> \<not> fst (global_validity example_open_inputs example_gw reason) \<and>
      length L = 2 \<and> lx_spec (L ! 0) = example_listener ''l1'' ''x.io'' \<and> listener_live (L ! 0) \<and>
      il_Name (the (lx_ir (L ! 0))) = ''l1'' \<and> listenerClaimsHost 0 ''x.io'' L \<and>
      ''x.io'' \<in> set (route_hosts example_route (lx_spec (L ! 0))) \<and>
      0 \<in> set (fst (matchingListeners example_externals example_open_inputs example_gw example_route (hd (hr_ParentRefs example_route)) L)) \<and>
      parentTargetsGateway (hd (hr_ParentRefs example_route)) (hr_Namespace example_route) example_gw)
   (translateListeners example_externals example_open_inputs example_gw [] (gateway_ir example_open_inputs example_gw))"
  by code_simp

lemma example_open_rules: "rl_compiled (compileRules example_externals example_open_inputs example_route) \<noteq> []"
  by code_simp

lemma compileHTTPRoutes_keeps:
  assumes "b \<in> set (ig_Domains out)"
  shows "\<exists>d \<in> set (ig_Domains (fst (compileHTTPRoutes ext inp gw out L now))). \<exists>vhs. d = b\<lparr>pd_VirtualHosts := vhs\<rparr>"
proof -
  let ?hosts = "attached_hosts ext inp gw L now"
  obtain i where i: "i < length (ig_Domains out)" "b = ig_Domains out ! i" using assms by (auto simp: in_set_conv_nth)
  let ?e = "attach_virtual_hosts ?hosts (ig_Domains out) ! i"
  have e: "?e \<in> set (attach_virtual_hosts ?hosts (ig_Domains out))"
    using attach_virtual_hosts_nth [of ?hosts "ig_Domains out"] i by (intro nth_mem) simp
  have "?e = add_virtual_hosts ?hosts b \<or> ?e = b"
    using attach_virtual_hosts_nth [of ?hosts "ig_Domains out"] i by auto
  then have e': "\<exists>vhs. ?e = b\<lparr>pd_VirtualHosts := vhs\<rparr>"
    using hosts_only(1) [of ?hosts b] hosts_only(3) [of b] by metis
  then have "\<exists>vhs. ensure_listener_host (ig_Listeners out) ?e = b\<lparr>pd_VirtualHosts := vhs\<rparr>"
    using hosts_only(2) [of "ig_Listeners out" ?e] by auto
  with e e' show ?thesis by (cases "ig_ConformanceMode out") (auto simp: compileHTTPRoutes_def Let_def)
qed

lemma marked_serves:
  assumes "d \<in> set (ig_Domains out)" and "h \<in> set (pd_VirtualHosts d)"
  shows "\<exists>e \<in> set (ig_Domains (markPublicDomainsForHeaderStripping out)). pd_Guard e = pd_Guard d \<and>
    (\<exists>vh \<in> set (pd_VirtualHosts e). vh_Hostname vh = vh_Hostname h \<and> (vh_Routes vh = [] \<longleftrightarrow> vh_Routes h = []))"
proof (cases "ig_ConformanceMode out \<or> pd_Protected d \<or> pd_Guard d \<noteq> GuardUnprotected")
  case True
  then have "d \<in> set (ig_Domains (markPublicDomainsForHeaderStripping out))"
    using assms(1) by (auto simp: markPublicDomainsForHeaderStripping_def image_iff)
  with assms(2) show ?thesis by blast
next
  case False
  let ?strip = "\<lambda>h. h\<lparr>vh_Routes := map sanitizeUnprotectedRoute (vh_Routes h)\<rparr>"
  let ?e = "d\<lparr>pd_StripAccessHeaders := True, pd_VirtualHosts := map ?strip (pd_VirtualHosts d)\<rparr>"
  have "?e \<in> set (ig_Domains (markPublicDomainsForHeaderStripping out))"
    using False assms(1) by (auto simp: markPublicDomainsForHeaderStripping_def image_iff intro!: bexI [of _ d])
  moreover have "?strip h \<in> set (pd_VirtualHosts ?e)" using assms(2) by simp
  ultimately show ?thesis by (intro bexI [of _ ?e] conjI bexI [of _ "?strip h"]) simp_all
qed

theorem unprotected_routes_unclaimed_witness:
  "\<exists>d \<in> set (ig_Domains (the (fst (Translate example_externals example_open_inputs)))). \<exists>vh \<in> set (pd_VirtualHosts d).
     pd_Guard d = GuardUnprotected \<and> vh_Hostname vh = ''x.io'' \<and> vh_Routes vh \<noteq> [] \<and>
     ((\<exists>spec \<in> set (gw_Listeners example_gw). ln_Name spec = pd_ListenerName d \<and>
        ad_Allowed (listener_decision example_externals example_open_inputs example_gw (hostname_value (ln_Hostname spec))
          (listenerExposure (in_CloudflareTunnel example_open_inputs) (ln_Name spec)) True)) \<or>
     ad_Allowed (listener_decision example_externals example_open_inputs example_gw (vh_Hostname vh) ExposurePublic True))"
proof -
  let ?inp = example_open_inputs and ?out = "fst (translate_gateway example_externals example_open_inputs example_gw None)"
  have "newAccessRevocationHolds ?inp example_gw live = None" for live
    by (simp add: newAccessRevocationHolds_def AccessRevocationTombstones_def example_open_fields split: option.split)
  note run = Translate_holds [OF example_open_fields(1,2) this, of example_externals]
  obtain out L reason where parts:
    "translateListeners example_externals ?inp example_gw [] (gateway_ir ?inp example_gw) = (out, L, reason)" by (metis prod_cases3)
  note listeners = example_open_listeners [unfolded parts split_conv]
  have names: "map pd_ListenerName (ig_Domains out) = [''l1'', ''l2'']" and "(''l1'', GuardUnprotected) \<in> (\<lambda>d. (pd_ListenerName d, pd_Guard d)) ` set (ig_Domains out)"
    using listeners by (auto simp: map_eq_Cons_conv)
  then obtain b where b: "b \<in> set (ig_Domains out)" "pd_ListenerName b = ''l1''" "pd_Guard b = GuardUnprotected" by force
  let ?routed = "compileHTTPRoutes example_externals ?inp example_gw out L (translation_time ?inp)"
  obtain d where d: "d \<in> set (ig_Domains (fst ?routed))" "pd_ListenerName d = ''l1''" "pd_Guard d = GuardUnprotected"
    using compileHTTPRoutes_keeps [OF b(1), of example_externals ?inp example_gw L "translation_time ?inp"] b by force
  obtain c where c: "c \<in> set (rl_compiled (compileRules example_externals ?inp example_route))"
    using example_open_rules by (meson ex_in_conv set_empty)
  have "hd (hr_ParentRefs example_route) \<in> set (hr_ParentRefs example_route)" by (simp add: example_route_def)
  then have "route_reaches example_externals ?inp example_gw L ''l1'' ''x.io'' c example_route"
    using listeners c unfolding route_reaches_def parent_reaches_def offers_host_def listener_live_def by force
  then have "host_entry (attached_hosts example_externals ?inp example_gw L (translation_time ?inp)) (pd_ListenerName d) ''x.io'' c"
    unfolding d(2) by (subst attached_hosts_entry) (simp add: example_open_fields)
  from attached_hosts_served [OF _ d(1) this] names obtain h where h: "h \<in> set (pd_VirtualHosts d)" "vh_Hostname h = ''x.io''" "vh_Routes h \<noteq> []"
    by force
  obtain message where valid: "global_validity ?inp example_gw reason = (False, message)"
    using listeners by (cases "global_validity ?inp example_gw reason") simp
  have "routed example_externals ?inp example_gw None = ?routed"
    by (simp add: routed_def reservedPorts_def parts valid)
  then have domains: "ig_Domains ?out = ig_Domains (markPublicDomainsForHeaderStripping (fst ?routed))"
    by (cases ?routed) (simp add: translate_gateway_access routed_access_def applyAccessApplications_def example_open_fields)
  obtain e vh where e: "e \<in> set (ig_Domains ?out)" "pd_Guard e = GuardUnprotected" and vh: "vh \<in> set (pd_VirtualHosts e)"
    "vh_Hostname vh = ''x.io''" "vh_Routes vh \<noteq> []"
    using marked_serves [OF d(1) h(1)] d(3) h(2,3) unfolding domains by metis
  then obtain r where r: "r \<in> set (vh_Routes vh)" by (meson ex_in_conv set_empty)
  from unprotected_routes_unclaimed [OF run e vh(1) r] e vh show ?thesis
    unfolding run fst_conv option.sel example_open_fields(1) by blast
qed

end
