(* ===== verification/Cloudflared.thy ===== *)
theory Cloudflared
  imports IR ApiTypes
begin

text \<open>
  \<^verbatim>\<open>src/internal/cloudflared/config.go\<close> and \<^verbatim>\<open>compile.go\<close>: the remotely managed configuration of the tunnel. A
  Gateway's domains become ordered ingress rules, and a Direct-mode configuration is validated and copied. The wire
  types are the records of \<^verbatim>\<open>config.go\<close>; copying a pointer is the identity. Regular expression compilation, CIDR parsing and SHA-256
  are arguments.
\<close>

section \<open>Wire types\<close>

record wireIPRule =
  wip_Prefix :: string
  wip_Ports :: "int list"
  wip_Allow :: bool

record wireAccess =
  wac_AUDTag :: "string list"
  wac_TeamName :: string
  wac_Required :: "bool option"

record wireOriginRequest =
  wo_Access :: "wireAccess option"
  wo_CAPool :: "string option"
  wo_ConnectTimeout :: "int option"
  wo_DisableChunkedEncoding :: "bool option"
  wo_HTTP2Origin :: "bool option"
  wo_HTTPHostHeader :: "string option"
  wo_KeepAliveConnections :: "int option"
  wo_KeepAliveTimeout :: "int option"
  wo_MatchSNIToHost :: "bool option"
  wo_NoHappyEyeballs :: "bool option"
  wo_NoTLSVerify :: "bool option"
  wo_OriginServerName :: "string option"
  wo_ProxyType :: "string option"
  wo_TCPKeepAlive :: "int option"
  wo_TLSTimeout :: "int option"
  wo_IPRules :: "wireIPRule list"

record wireWARPRouting =
  ww_Enabled :: "bool option"
  ww_ConnectTimeout :: "int option"
  ww_TCPKeepAlive :: "int option"
  ww_MaxActiveFlows :: "int option"

record ingressRule =
  ing_Hostname :: string
  ing_Path :: string
  ing_Service :: string
  ing_OriginRequest :: "wireOriginRequest option"

record configBody =
  cb_Ingress :: "ingressRule list"
  cb_OriginRequest :: "wireOriginRequest option"
  cb_WARPRouting :: "wireWARPRouting option"

record domainRule =
  dr_category :: int
  dr_order :: int
  dr_hostname :: string
  dr_path :: string
  dr_service :: string
  dr_origin :: "wireOriginRequest option"

section \<open>Conversions\<close>

definition canonicalStrings :: "string list \<Rightarrow> string list" where
  "canonicalStrings values = sort_compact (filter (\<lambda>v. v \<noteq> []) values)"

definition canonicalPorts :: "int list \<Rightarrow> int list" where
  "canonicalPorts values = sort_compact values"

definition wireProxyType :: "string option \<Rightarrow> string option" where
  "wireProxyType value =
     (case value of None \<Rightarrow> None | Some t \<Rightarrow> if t = OriginProxyTypeRegular then None else Some ''socks'')"

text \<open>Integer division in Go truncates towards zero.\<close>

definition durationSeconds :: "duration \<Rightarrow> int" where
  "durationSeconds value = (if value < 0 then - (- value div second) else value div second)"

definition optionalDurationSeconds :: "duration option \<Rightarrow> int option" where
  "optionalDurationSeconds = map_option durationSeconds"

definition empty_wireOrigin :: wireOriginRequest where
  "empty_wireOrigin = \<lparr>wo_Access = None, wo_CAPool = None, wo_ConnectTimeout = None, wo_DisableChunkedEncoding = None,
     wo_HTTP2Origin = None, wo_HTTPHostHeader = None, wo_KeepAliveConnections = None, wo_KeepAliveTimeout = None,
     wo_MatchSNIToHost = None, wo_NoHappyEyeballs = None, wo_NoTLSVerify = None, wo_OriginServerName = None,
     wo_ProxyType = None, wo_TCPKeepAlive = None, wo_TLSTimeout = None, wo_IPRules = []\<rparr>"

definition gatewayOrigin :: "gatewayOriginRequest \<Rightarrow> wireOriginRequest" where
  "gatewayOrigin origin =
     empty_wireOrigin\<lparr>wo_ConnectTimeout := optionalDurationSeconds (gor_ConnectTimeout origin),
       wo_KeepAliveTimeout := optionalDurationSeconds (gor_KeepAliveTimeout origin),
       wo_TCPKeepAlive := optionalDurationSeconds (gor_TCPKeepAlive origin),
       wo_KeepAliveConnections := gor_KeepAliveConnections origin, wo_NoHappyEyeballs := gor_NoHappyEyeballs origin,
       wo_DisableChunkedEncoding := gor_DisableChunkedEncoding origin, wo_HTTP2Origin := gor_HTTP2Origin origin\<rparr>"

definition directOrigin :: "originRequest option \<Rightarrow> wireOriginRequest option" where
  "directOrigin origin =
     map_option (\<lambda>o'.
       \<lparr>wo_Access = map_option (\<lambda>a. \<lparr>wac_AUDTag = canonicalStrings (oa_AUDTags a), wac_TeamName = oa_TeamName a,
          wac_Required = oa_Required a\<rparr>) (or_Access o'),
        wo_CAPool = or_CAPool o', wo_ConnectTimeout = or_ConnectTimeout o',
        wo_DisableChunkedEncoding = or_DisableChunkedEncoding o', wo_HTTP2Origin = or_HTTP2Origin o',
        wo_HTTPHostHeader = or_HTTPHostHeader o', wo_KeepAliveConnections = or_KeepAliveConnections o',
        wo_KeepAliveTimeout = or_KeepAliveTimeout o', wo_MatchSNIToHost = or_MatchSNIToHost o',
        wo_NoHappyEyeballs = or_NoHappyEyeballs o', wo_NoTLSVerify = or_NoTLSVerify o',
        wo_OriginServerName = or_OriginServerName o', wo_ProxyType = wireProxyType (or_ProxyType o'),
        wo_TCPKeepAlive = or_TCPKeepAlive o', wo_TLSTimeout = or_TLSTimeout o',
        wo_IPRules = map (\<lambda>r. \<lparr>wip_Prefix = oir_Prefix r, wip_Ports = canonicalPorts (oir_Ports r), wip_Allow = oir_Allow r\<rparr>)
          (or_IPRules o')\<rparr>) origin"

definition directWARPRouting :: "warpRouting option \<Rightarrow> wireWARPRouting option" where
  "directWARPRouting routing =
     map_option (\<lambda>r. \<lparr>ww_Enabled = wr_Enabled r, ww_ConnectTimeout = wr_ConnectTimeout r, ww_TCPKeepAlive = wr_TCPKeepAlive r,
       ww_MaxActiveFlows = wr_MaxActiveFlows r\<rparr>) routing"

text \<open>A clone sorts and compacts the ports of every IP rule and keeps everything else.\<close>

definition cloneOrigin :: "wireOriginRequest option \<Rightarrow> wireOriginRequest option" where
  "cloneOrigin origin =
     map_option (\<lambda>o'. o'\<lparr>wo_IPRules := map (\<lambda>r. r\<lparr>wip_Ports := canonicalPorts (wip_Ports r)\<rparr>) (wo_IPRules o')\<rparr>) origin"

section \<open>Paths\<close>

definition quoteMeta :: "string \<Rightarrow> string" where
  "quoteMeta s = concat (map (\<lambda>c. if c \<in> set (CHR 0x5C # ''.+*?()|[]{}^$'') then [CHR 0x5C, c] else [c]) s)"

definition root_prefix :: "pathMatch \<Rightarrow> bool" where
  "root_prefix m \<longleftrightarrow> pm_Type m = PathMatchPathPrefix \<and> (pm_Value m = [] \<or> pm_Value m = ''/'')"

definition match_path :: "pathMatch \<Rightarrow> string list" where
  "match_path m =
     (if pm_Type m = PathMatchExact then [''^'' @ quoteMeta (pm_Value m) @ ''$'']
      else if pm_Type m = PathMatchRegularExpression then [pm_Value m]
      else if pm_Type m = PathMatchPathPrefix then [''^'' @ quoteMeta (trim_right (pm_Value m) CHR ''/'') @ ''(/|$)'']
      else [])"

text \<open>A root prefix returns early: the rule then has no path.\<close>

definition forwardingMatchPaths :: "pathMatch list \<Rightarrow> string list" where
  "forwardingMatchPaths matches =
     (let paths = concat (map match_path matches) in
      if matches = [] \<or> list_ex root_prefix matches \<or> paths = [] then [[]] else unique_by (\<lambda>p. p) paths)"

definition forwardingPaths :: "route list \<Rightarrow> string list" where
  "forwardingPaths routes = forwardingMatchPaths (map ro_Match routes)"

section \<open>The rules of a Gateway\<close>

definition compareIngressHostnames :: "string \<Rightarrow> string \<Rightarrow> int" where
  "compareIngressHostnames left right =
     (let leftWildcard = has_prefix left ''*.''; rightWildcard = has_prefix right ''*.'' in
      if leftWildcard \<noteq> rightWildcard then (if leftWildcard then 1 else - 1)
      else if length left \<noteq> length right then int (length right) - int (length left)
      else compare left right)"

definition compare_rules :: "domainRule \<Rightarrow> domainRule \<Rightarrow> int" where
  "compare_rules a b =
     (if compareIngressHostnames (dr_hostname a) (dr_hostname b) \<noteq> 0 then compareIngressHostnames (dr_hostname a) (dr_hostname b)
      else if dr_category a \<noteq> dr_category b then dr_category a - dr_category b
      else if length (dr_path a) \<noteq> length (dr_path b) then int (length (dr_path b)) - int (length (dr_path a))
      else dr_order a - dr_order b)"

definition refused_host :: "cloudflare \<Rightarrow> protectionDomain \<Rightarrow> bool" where
  "refused_host cf d \<longleftrightarrow>
     cf_Teardown cf \<or> pd_Guard d = GuardBlocked \<or>
     (pd_Protected d \<and> \<not> pd_OriginJWTDisabled d \<and> CanonicalAUDs (pd_Access d) = [])"

definition rule_origin :: "wireOriginRequest option \<Rightarrow> protectionDomain \<Rightarrow> wireOriginRequest option" where
  "rule_origin base d =
     (let origin = cloneOrigin base; audiences = CanonicalAUDs (pd_Access d) in
      if pd_Protected d \<and> audiences \<noteq> [] then
        map_option (\<lambda>o'. o'\<lparr>wo_Access := Some \<lparr>wac_AUDTag = audiences, wac_TeamName = ag_TeamName (the (pd_Access d)),
          wac_Required = Some True\<rparr>\<rparr>) origin
      else origin)"

definition rule_paths :: "protectionDomain \<Rightarrow> virtualHost \<Rightarrow> string list" where
  "rule_paths d vh =
     (if pd_IngressPaths d \<noteq> [] then forwardingMatchPaths (pd_IngressPaths d)
      else if pd_Protected d then forwardingPaths (vh_Routes vh)
      else [[]])"

text \<open>The rules of one virtual host; their order is numbered below.\<close>

definition virtual_host_rules :: "cloudflare \<Rightarrow> wireOriginRequest option \<Rightarrow> protectionDomain \<Rightarrow> virtualHost \<Rightarrow> domainRule list" where
  "virtual_host_rules cf base d vh =
     (let hostname = vh_Hostname vh in
      if hostname = [] \<or> hostname = ''*'' then []
      else if refused_host cf d then
        [\<lparr>dr_category = 2, dr_order = 0, dr_hostname = hostname, dr_path = [], dr_service = ''http_status:403'', dr_origin = None\<rparr>]
      else map (\<lambda>path. \<lparr>dr_category = (if pd_Protected d then 1 else 0), dr_order = 0, dr_hostname = hostname, dr_path = path,
             dr_service = ''http://127.0.0.1:'' @ show_int (pd_EnvoyPort d), dr_origin = cloneOrigin (rule_origin base d)\<rparr>)
           (rule_paths d vh))"

definition listener_exposures :: "irListener list \<Rightarrow> string \<Rightarrow> string" where
  "listener_exposures listeners name = foldl (\<lambda>exposure l. if il_Name l = name then il_Exposure l else exposure) [] listeners"

definition gateway_rules :: "cloudflare \<Rightarrow> irGateway \<Rightarrow> domainRule list" where
  "gateway_rules cf gateway =
     concat (map (\<lambda>d. concat (map (virtual_host_rules cf (Some (gatewayOrigin (cf_OriginRequest cf))) d) (pd_VirtualHosts d)))
       (filter (\<lambda>d. listener_exposures (ig_Listeners gateway) (pd_ListenerName d) \<noteq> ExposurePrivate) (ig_Domains gateway)))"

definition number_rules :: "domainRule list \<Rightarrow> domainRule list" where
  "number_rules rules = map (\<lambda>(i, r). r\<lparr>dr_order := int i\<rparr>) (enumerate 0 rules)"

definition rule_key :: "domainRule \<Rightarrow> string" where
  "rule_key r = join [dr_hostname r, dr_path r, dr_service r] [CHR 0x00]"

definition wire_rule :: "domainRule \<Rightarrow> ingressRule" where
  "wire_rule r = \<lparr>ing_Hostname = dr_hostname r, ing_Path = dr_path r, ing_Service = dr_service r, ing_OriginRequest = dr_origin r\<rparr>"

definition catch_all :: ingressRule where
  "catch_all = \<lparr>ing_Hostname = [], ing_Path = [], ing_Service = ''http_status:404'', ing_OriginRequest = None\<rparr>"

definition compileConfig :: "cloudflare \<Rightarrow> irGateway \<Rightarrow> configBody" where
  "compileConfig cf gateway =
     (let rules = sort_func compare_rules (number_rules (gateway_rules cf gateway));
          warp = cf_WARPRouting cf \<or> list_ex (\<lambda>l. il_Exposure l = ExposurePrivate) (ig_Listeners gateway)
      in \<lparr>cb_Ingress = map wire_rule (unique_by rule_key rules) @ [catch_all],
          cb_OriginRequest = Some (gatewayOrigin (cf_OriginRequest cf)),
          cb_WARPRouting = Some \<lparr>ww_Enabled = Some warp, ww_ConnectTimeout = None, ww_TCPKeepAlive = None, ww_MaxActiveFlows = None\<rparr>\<rparr>)"

section \<open>Validation of a Gateway's origin settings\<close>

definition timeout_error :: "string \<times> duration option \<Rightarrow> string option" where
  "timeout_error field =
     (case snd field of
        None \<Rightarrow> None
      | Some v \<Rightarrow>
          if v < 0 then Some (''compile cloudflared configuration: originRequest.'' @ fst field @ '' must not be negative'')
          else if v mod second \<noteq> 0 then
            Some (''compile cloudflared configuration: originRequest.'' @ fst field @ '' must use whole-second precision'')
          else None)"

text \<open>The first error of a loop that returns at once.\<close>

definition first_error :: "('a \<Rightarrow> string option) \<Rightarrow> 'a list \<Rightarrow> string option" where
  "first_error f xs = (case List.find (\<lambda>x. f x \<noteq> None) xs of None \<Rightarrow> None | Some x \<Rightarrow> f x)"

definition validateGatewayOriginRequest :: "gatewayOriginRequest \<Rightarrow> string option" where
  "validateGatewayOriginRequest origin =
     (case first_error timeout_error [(''connectTimeout'', gor_ConnectTimeout origin), (''keepAliveTimeout'', gor_KeepAliveTimeout origin),
        (''tcpKeepAlive'', gor_TCPKeepAlive origin)] of
        Some e \<Rightarrow> Some e
      | None \<Rightarrow>
          (case gor_KeepAliveConnections origin of
             None \<Rightarrow> None
           | Some n \<Rightarrow> if n < 0 then Some ''compile cloudflared configuration: originRequest.keepAliveConnections must not be negative''
                       else None))"

section \<open>Validation of a Direct configuration\<close>

definition direct_error :: "string \<Rightarrow> string" where
  "direct_error message = ''compile direct cloudflared configuration: '' @ message"

definition label_char :: "char \<Rightarrow> bool" where
  "label_char c = (let n = of_char c :: nat in (97 \<le> n \<and> n \<le> 122) \<or> (65 \<le> n \<and> n \<le> 90) \<or> (48 \<le> n \<and> n \<le> 57) \<or> c = CHR ''-'')"

definition valid_label :: "string \<Rightarrow> bool" where
  "valid_label label \<longleftrightarrow> \<not> (label = [] \<or> length label > 63 \<or> has_prefix label ''-'' \<or> has_suffix label ''-'') \<and> list_all label_char label"

definition validateHostname :: "string \<Rightarrow> string \<Rightarrow> string option" where
  "validateHostname location hostname =
     (let invalid = Some (direct_error (location @ '' '' @ show_q hostname @ '' is invalid'')) in
      if hostname = [] then None
      else if trim_space hostname \<noteq> hostname \<or> list_ex (\<lambda>c. c \<in> set ''/:@'') hostname then invalid
      else if hostname = ''*'' then None
      else
        (let name = trim_prefix hostname ''*.'' in
         if name = [] \<or> contains_char name CHR ''*'' then invalid
         else if \<not> list_all valid_label (split name CHR ''.'') then invalid
         else None))"

text \<open>\<^verbatim>\<open>net.SplitHostPort\<close> without its error texts.\<close>

definition last_colon :: "string \<Rightarrow> (string \<times> string) option" where
  "last_colon s =
     (let tail = takeWhile (\<lambda>c. c \<noteq> CHR '':'') (rev s) in
      if CHR '':'' \<in> set s then Some (take (length s - length tail - 1) s, rev tail) else None)"

definition splitHostPort :: "string \<Rightarrow> (string \<times> string) option" where
  "splitHostPort hostport =
     (case last_colon hostport of
        None \<Rightarrow> None
      | Some (before, port) \<Rightarrow>
          if hd hostport = CHR ''['' then
            (let inner = takeWhile (\<lambda>c. c \<noteq> CHR '']'') hostport; end = length inner in
             if CHR '']'' \<notin> set hostport then None
             else if Suc end \<noteq> length before then None
             else if contains_char (drop 1 hostport) CHR ''['' \<or> contains_char (drop (Suc end) hostport) CHR '']'' then None
             else Some (drop 1 inner, port))
          else if contains_char before CHR '':'' then None
          else if contains_char hostport CHR ''['' \<or> contains_char hostport CHR '']'' then None
          else Some (before, port))"

text \<open>\<^verbatim>\<open>strconv.ParseUint(s, 10, 16)\<close>.\<close>

definition parse_port :: "string \<Rightarrow> nat option" where
  "parse_port s =
     (if s = [] \<or> list_ex (\<lambda>c. (of_char c :: nat) < 48 \<or> 57 < (of_char c :: nat)) s \<or> 65535 < dec_val s then None else Some (dec_val s))"

definition validateAddress :: "string \<Rightarrow> string \<Rightarrow> string option" where
  "validateAddress location address =
     (case splitHostPort address of
        None \<Rightarrow> Some (direct_error (location @ '' '' @ show_q address @ '' must be a host:port pair''))
      | Some (host, portText) \<Rightarrow>
          if host = [] \<or> portText = [] then Some (direct_error (location @ '' '' @ show_q address @ '' must be a host:port pair''))
          else case parse_port portText of
            None \<Rightarrow> Some (direct_error (location @ '' '' @ show_q address @ '' contains an invalid port''))
          | Some port \<Rightarrow> if port = 0 then Some (direct_error (location @ '' '' @ show_q address @ '' contains an invalid port'')) else None)"

text \<open>The choices in the order of the loops; a later one overwrites the wire form and the kind.\<close>

type_synonym service_state = "nat \<times> string \<times> string"

definition address_choice :: "string \<Rightarrow> string \<times> string option \<Rightarrow> service_state \<Rightarrow> string + service_state" where
  "address_choice location choice st =
     (case snd choice of
        None \<Rightarrow> Inr st
      | Some address \<Rightarrow>
          (case validateAddress (location @ ''.'' @ fst choice @ ''.address'') address of
             Some e \<Rightarrow> Inl e
           | None \<Rightarrow> Inr (Suc (fst st), fst choice @ ''://'' @ address, fst choice)))"

definition unix_choice :: "string \<Rightarrow> string \<times> string \<times> string option \<Rightarrow> service_state \<Rightarrow> string + service_state" where
  "unix_choice location choice st =
     (let (name, scheme, service) = choice in
      case service of
        None \<Rightarrow> Inr st
      | Some path \<Rightarrow>
          if path = [] \<or> \<not> has_prefix path ''/'' then
            Inl (direct_error (location @ ''.'' @ name @ ''.path '' @ show_q path @ '' must be absolute''))
          else Inr (Suc (fst st), scheme @ path, name))"

definition builtin_choice :: "string \<Rightarrow> unit option \<Rightarrow> string \<Rightarrow> service_state \<Rightarrow> string + service_state" where
  "builtin_choice wire choice kind st = Inr (if choice = None then st else (Suc (fst st), wire, kind))"

definition status_choice :: "string \<Rightarrow> int option \<Rightarrow> service_state \<Rightarrow> string + service_state" where
  "status_choice location choice st =
     (case choice of
        None \<Rightarrow> Inr st
      | Some code \<Rightarrow>
          if code < 100 \<or> code > 599 then
            Inl (direct_error (location @ ''.httpStatus.code '' @ show_int code @ '' must be between 100 and 599''))
          else Inr (Suc (fst st), ''http_status:'' @ show_int code, ''httpStatus''))"

fun run_choices :: "(service_state \<Rightarrow> string + service_state) list \<Rightarrow> service_state \<Rightarrow> string + service_state" where
  "run_choices [] st = Inr st"
| "run_choices (f # fs) st = (case f st of Inl e \<Rightarrow> Inl e | Inr st' \<Rightarrow> run_choices fs st')"

definition service_choices :: "string \<Rightarrow> tunnelIngressService \<Rightarrow> (service_state \<Rightarrow> string + service_state) list" where
  "service_choices location s =
     map (address_choice location) [(''http'', ts_HTTP s), (''https'', ts_HTTPS s), (''tcp'', ts_TCP s), (''ssh'', ts_SSH s),
       (''rdp'', ts_RDP s), (''smb'', ts_SMB s)] @
     map (unix_choice location) [(''unix'', ''unix:'', ts_Unix s), (''unixTLS'', ''unix+tls:'', ts_UnixTLS s)] @
     [builtin_choice ''hello_world'' (ts_HelloWorld s) ''helloWorld'', status_choice location (ts_HTTPStatus s),
      builtin_choice ''bastion'' (ts_Bastion s) ''bastion'']"

definition compileService :: "string \<Rightarrow> tunnelIngressService \<Rightarrow> string + (string \<times> string)" where
  "compileService location service =
     (case run_choices (service_choices location service) (0, [], []) of
        Inl e \<Rightarrow> Inl e
      | Inr (selected, wire, kind) \<Rightarrow>
          if selected \<noteq> 1 then
            Inl (direct_error (location @ '' must select exactly one service, found '' @ show_nat selected))
          else Inr (wire, kind))"

definition isHTTPService :: "string \<Rightarrow> bool" where
  "isHTTPService kind \<longleftrightarrow> kind = ''http'' \<or> kind = ''https'' \<or> kind = ''unix'' \<or> kind = ''unixTLS''"

text \<open>
  Library functions the compiler calls: \<^verbatim>\<open>regexp.Compile\<close> and \<^verbatim>\<open>net.ParseCIDR\<close> with their error texts, and \<^verbatim>\<open>sha256.Sum256\<close>.
\<close>

record tunnel_externals =
  te_regexp :: "string \<Rightarrow> string option"
  te_cidr :: "string \<Rightarrow> string option"
  te_sha256 :: "string \<Rightarrow> string"

definition negative_error :: "string \<Rightarrow> string \<times> int option \<Rightarrow> string option" where
  "negative_error location field =
     (case snd field of
        None \<Rightarrow> None
      | Some v \<Rightarrow> if v < 0 then Some (direct_error (location @ ''.'' @ fst field @ '' must not be negative'')) else None)"

definition ip_rule_error :: "tunnel_externals \<Rightarrow> string \<Rightarrow> nat \<times> originIPRule \<Rightarrow> string option" where
  "ip_rule_error ext location entry =
     (let (index, rule) = entry; place = location @ ''.ipRules['' @ show_nat index @ '']'' in
      case te_cidr ext (oir_Prefix rule) of
        Some e \<Rightarrow> Some (direct_error (place @ ''.prefix '' @ show_q (oir_Prefix rule) @ '' is not a valid CIDR: '' @ e))
      | None \<Rightarrow>
          map_option (\<lambda>port. direct_error (place @ '' contains invalid port '' @ show_int port))
            (List.find (\<lambda>port. port < 1 \<or> port > 65535) (oir_Ports rule)))"

definition access_error :: "string \<Rightarrow> originAccess option \<Rightarrow> string option" where
  "access_error location access =
     (case access of
        None \<Rightarrow> None
      | Some a \<Rightarrow>
          if oa_TeamName a = [] \<or> canonicalStrings (oa_AUDTags a) = [] then
            Some (direct_error (location @ ''.access requires teamName and at least one non-empty audTag''))
          else None)"

definition proxy_error :: "string \<Rightarrow> string option \<Rightarrow> string option" where
  "proxy_error location proxyType =
     (case proxyType of
        None \<Rightarrow> None
      | Some t \<Rightarrow>
          if t \<noteq> OriginProxyTypeRegular \<and> t \<noteq> OriginProxyTypeSOCKS5 then
            Some (direct_error (location @ ''.proxyType '' @ show_q t @ '' is invalid''))
          else None)"

definition validateOriginRequest :: "tunnel_externals \<Rightarrow> string \<Rightarrow> originRequest option \<Rightarrow> string option" where
  "validateOriginRequest ext location origin =
     (case origin of
        None \<Rightarrow> None
      | Some o' \<Rightarrow>
          first_error (\<lambda>check. check)
            [first_error (negative_error location) [(''connectTimeout'', or_ConnectTimeout o'), (''tlsTimeout'', or_TLSTimeout o'),
               (''tcpKeepAlive'', or_TCPKeepAlive o'), (''keepAliveConnections'', or_KeepAliveConnections o'),
               (''keepAliveTimeout'', or_KeepAliveTimeout o')],
             proxy_error location (or_ProxyType o'),
             first_error (ip_rule_error ext location) (enumerate 0 (or_IPRules o')),
             access_error location (or_Access o')])"

definition validateWARPRouting :: "warpRouting option \<Rightarrow> string option" where
  "validateWARPRouting routing =
     (case routing of
        None \<Rightarrow> None
      | Some r \<Rightarrow> first_error (negative_error ''warp-routing'') [(''connectTimeout'', wr_ConnectTimeout r),
          (''tcpKeepAlive'', wr_TCPKeepAlive r), (''maxActiveFlows'', wr_MaxActiveFlows r)])"

section \<open>The Direct configuration\<close>

definition catch_all_error :: "string \<Rightarrow> bool \<Rightarrow> tunnelIngress \<Rightarrow> string option" where
  "catch_all_error location isLast rule =
     (let catchAll = (ti_Hostname rule = [] \<and> ti_Path rule = []) in
      if isLast \<and> \<not> catchAll then
        Some (direct_error (location @ '' must be the catch-all rule with hostname and path omitted''))
      else if \<not> isLast \<and> catchAll then Some (direct_error (location @ '' is a catch-all rule before the final rule''))
      else None)"

definition path_error :: "tunnel_externals \<Rightarrow> string \<Rightarrow> tunnelIngress \<Rightarrow> string option" where
  "path_error ext location rule =
     (if ti_Path rule = [] then None
      else map_option (\<lambda>e. direct_error (location @ ''.path is not a valid regular expression: '' @ e)) (te_regexp ext (ti_Path rule)))"

definition has_access :: "originRequest option \<Rightarrow> bool" where
  "has_access origin = (case origin of None \<Rightarrow> False | Some o' \<Rightarrow> or_Access o' \<noteq> None)"

definition needs_proxy :: "originRequest option \<Rightarrow> bool" where
  "needs_proxy origin =
     (case origin of None \<Rightarrow> False | Some o' \<Rightarrow> or_IPRules o' \<noteq> [] \<and> or_ProxyType o' \<noteq> Some OriginProxyTypeSOCKS5)"

definition direct_rule :: "tunnel_externals \<Rightarrow> nat \<Rightarrow> nat \<times> tunnelIngress \<Rightarrow> string + ingressRule" where
  "direct_rule ext rules entry =
     (let (index, rule) = entry; location = ''ingress['' @ show_nat index @ '']'' in
      case first_error (\<lambda>check. check) [catch_all_error location (index = rules - 1) rule,
          validateHostname (location @ ''.hostname'') (ti_Hostname rule), path_error ext location rule] of
        Some e \<Rightarrow> Inl e
      | None \<Rightarrow>
          (case compileService (location @ ''.service'') (ti_Service rule) of
             Inl e \<Rightarrow> Inl e
           | Inr (service, kind) \<Rightarrow>
               (case validateOriginRequest ext (location @ ''.originRequest'') (ti_OriginRequest rule) of
                  Some e \<Rightarrow> Inl e
                | None \<Rightarrow>
                    if has_access (ti_OriginRequest rule) \<and> \<not> isHTTPService kind then
                      Inl (direct_error (location @ ''.originRequest.access is only valid for HTTP origins''))
                    else if needs_proxy (ti_OriginRequest rule) \<and> kind \<noteq> ''bastion'' then
                      Inl (direct_error (location @ ''.originRequest.ipRules requires Bastion or SOCKS5 proxy service''))
                    else Inr \<lparr>ing_Hostname = ti_Hostname rule, ing_Path = ti_Path rule, ing_Service = service,
                               ing_OriginRequest = directOrigin (ti_OriginRequest rule)\<rparr>)))"

fun collect :: "('a \<Rightarrow> string + 'b) \<Rightarrow> 'a list \<Rightarrow> string + 'b list" where
  "collect f [] = Inr []"
| "collect f (x # xs) = (case f x of Inl e \<Rightarrow> Inl e | Inr y \<Rightarrow> (case collect f xs of Inl e \<Rightarrow> Inl e | Inr ys \<Rightarrow> Inr (y # ys)))"

definition compileDirectConfig :: "tunnel_externals \<Rightarrow> tunnelConfiguration \<Rightarrow> string + configBody" where
  "compileDirectConfig ext configuration =
     (if tc_Ingress configuration = [] then Inl (direct_error ''ingress is empty'')
      else case validateOriginRequest ext ''originRequest'' (tc_OriginRequest configuration) of
        Some e \<Rightarrow> Inl e
      | None \<Rightarrow>
          (case validateWARPRouting (tc_WARPRouting configuration) of
             Some e \<Rightarrow> Inl e
           | None \<Rightarrow>
               (case collect (direct_rule ext (length (tc_Ingress configuration))) (enumerate 0 (tc_Ingress configuration)) of
                  Inl e \<Rightarrow> Inl e
                | Inr ingress \<Rightarrow> Inr \<lparr>cb_Ingress = ingress, cb_OriginRequest = directOrigin (tc_OriginRequest configuration),
                    cb_WARPRouting = directWARPRouting (tc_WARPRouting configuration)\<rparr>)))"

section \<open>The request\<close>

text \<open>
  The JSON of \<^verbatim>\<open>encoding/json\<close>: objects keep the order of the fields, \<^verbatim>\<open>omitempty\<close> leaves out nil, empty strings and empty lists. Strings are
  taken as valid UTF-8 without U+2028 and U+2029, which the encoder would replace or escape.
\<close>

datatype json = JString string | JInt int | JBool bool | JArray "json list" | JObject "(string \<times> json) list"

definition json_char :: "char \<Rightarrow> string" where
  "json_char c =
     (let n = of_char c :: nat in
      if n = 34 \<or> n = 92 then [CHR 0x5C, c]
      else if n = 8 then CHR 0x5C # ''b'' else if n = 9 then CHR 0x5C # ''t'' else if n = 10 then CHR 0x5C # ''n''
      else if n = 12 then CHR 0x5C # ''f'' else if n = 13 then CHR 0x5C # ''r''
      else if n < 32 \<or> n = 38 \<or> n = 60 \<or> n = 62 then CHR 0x5C # ''u00'' @ hex_byte c
      else [c])"

definition json_string :: "string \<Rightarrow> string" where
  "json_string s = CHR 0x22 # concat (map json_char s) @ [CHR 0x22]"

fun marshal :: "json \<Rightarrow> string" where
  "marshal (JString s) = json_string s"
| "marshal (JInt i) = show_int i"
| "marshal (JBool b) = (if b then ''true'' else ''false'')"
| "marshal (JArray xs) = ''['' @ join (map marshal xs) '','' @ '']''"
| "marshal (JObject fs) = ''{'' @ join (map (\<lambda>(k, v). json_string k @ '':'' @ marshal v) fs) '','' @ ''}''"

definition json_opt :: "string \<Rightarrow> ('a \<Rightarrow> json) \<Rightarrow> 'a option \<Rightarrow> (string \<times> json) list" where
  "json_opt key f value = (case value of None \<Rightarrow> [] | Some v \<Rightarrow> [(key, f v)])"

definition json_text :: "string \<Rightarrow> string \<Rightarrow> (string \<times> json) list" where
  "json_text key value = (if value = [] then [] else [(key, JString value)])"

definition json_list :: "string \<Rightarrow> ('a \<Rightarrow> json) \<Rightarrow> 'a list \<Rightarrow> (string \<times> json) list" where
  "json_list key f values = (if values = [] then [] else [(key, JArray (map f values))])"

definition access_json :: "wireAccess \<Rightarrow> json" where
  "access_json a = JObject ([(''audTag'', JArray (map JString (wac_AUDTag a))), (''teamName'', JString (wac_TeamName a))] @
     json_opt ''required'' JBool (wac_Required a))"

definition ip_rule_json :: "wireIPRule \<Rightarrow> json" where
  "ip_rule_json r = JObject ([(''prefix'', JString (wip_Prefix r))] @ json_list ''ports'' JInt (wip_Ports r) @ [(''allow'', JBool (wip_Allow r))])"

definition origin_json :: "wireOriginRequest \<Rightarrow> json" where
  "origin_json o' = JObject (
     json_opt ''access'' access_json (wo_Access o') @ json_opt ''caPool'' JString (wo_CAPool o') @
     json_opt ''connectTimeout'' JInt (wo_ConnectTimeout o') @ json_opt ''disableChunkedEncoding'' JBool (wo_DisableChunkedEncoding o') @
     json_opt ''http2Origin'' JBool (wo_HTTP2Origin o') @ json_opt ''httpHostHeader'' JString (wo_HTTPHostHeader o') @
     json_opt ''keepAliveConnections'' JInt (wo_KeepAliveConnections o') @ json_opt ''keepAliveTimeout'' JInt (wo_KeepAliveTimeout o') @
     json_opt ''matchSNItoHost'' JBool (wo_MatchSNIToHost o') @ json_opt ''noHappyEyeballs'' JBool (wo_NoHappyEyeballs o') @
     json_opt ''noTLSVerify'' JBool (wo_NoTLSVerify o') @ json_opt ''originServerName'' JString (wo_OriginServerName o') @
     json_opt ''proxyType'' JString (wo_ProxyType o') @ json_opt ''tcpKeepAlive'' JInt (wo_TCPKeepAlive o') @
     json_opt ''tlsTimeout'' JInt (wo_TLSTimeout o') @ json_list ''ipRules'' ip_rule_json (wo_IPRules o'))"

definition rule_json :: "ingressRule \<Rightarrow> json" where
  "rule_json r = JObject (json_text ''hostname'' (ing_Hostname r) @ json_text ''path'' (ing_Path r) @
     [(''service'', JString (ing_Service r))] @ json_opt ''originRequest'' origin_json (ing_OriginRequest r))"

definition warp_json :: "wireWARPRouting \<Rightarrow> json" where
  "warp_json w = JObject (json_opt ''enabled'' JBool (ww_Enabled w) @ json_opt ''connectTimeout'' JInt (ww_ConnectTimeout w) @
     json_opt ''tcpKeepAlive'' JInt (ww_TCPKeepAlive w) @ json_opt ''maxActiveFlows'' JInt (ww_MaxActiveFlows w))"

definition config_json :: "configBody \<Rightarrow> json" where
  "config_json c = JObject ([(''ingress'', JArray (map rule_json (cb_Ingress c)))] @
     json_opt ''originRequest'' origin_json (cb_OriginRequest c) @ json_opt ''warp-routing'' warp_json (cb_WARPRouting c))"

text \<open>The request: the account, the decoded payload and the digest of the payload.\<close>

definition compileRequest :: "tunnel_externals \<Rightarrow> string \<Rightarrow> configBody \<Rightarrow> string \<times> json \<times> string" where
  "compileRequest ext accountID config =
     (accountID, config_json config, hex_encode (te_sha256 ext (marshal (config_json config))))"

definition Compile :: "tunnel_externals \<Rightarrow> irGateway option \<Rightarrow> string + (string \<times> json \<times> string)" where
  "Compile ext gateway =
     (case gateway of
        None \<Rightarrow> Inl ''compile cloudflared configuration: Gateway is nil''
      | Some g \<Rightarrow>
          (case ig_Cloudflare g of
             None \<Rightarrow> Inl ''compile cloudflared configuration: Cloudflare settings are absent''
           | Some cf \<Rightarrow>
               if cf_AccountID cf = [] then Inl ''compile cloudflared configuration: account ID is empty''
               else case validateGatewayOriginRequest (cf_OriginRequest cf) of
                 Some e \<Rightarrow> Inl e
               | None \<Rightarrow> Inr (compileRequest ext (cf_AccountID cf) (compileConfig cf g))))"

definition CompileDirect :: "tunnel_externals \<Rightarrow> string \<Rightarrow> tunnelConfiguration \<Rightarrow> string + (string \<times> json \<times> string)" where
  "CompileDirect ext accountID configuration =
     (if accountID = [] then Inl ''compile direct cloudflared configuration: account ID is empty''
      else case compileDirectConfig ext configuration of
        Inl e \<Rightarrow> Inl e | Inr config \<Rightarrow> Inr (compileRequest ext accountID config))"

section \<open>Lemmas on the order of the rules\<close>

interpretation ingress_hostnames: exact_comparator compareIngressHostnames
proof (rule exact_comparator.intro)
  have chain: "compareIngressHostnames = cmp_then (cmp_asc (\<lambda>h. if has_prefix h ''*.'' then 1 else 0))
      (cmp_then (cmp_desc (\<lambda>h. int (length h))) compare)"
    by (intro ext) (simp add: compareIngressHostnames_def cmp_defs Let_def)
  show "comparator compareIngressHostnames" unfolding chain by (intro comparator_intros)
  show "exact_comparator_axioms compareIngressHostnames" by unfold_locales (simp add: chain cmp_then_zero)
qed

interpretation rules: comparator compare_rules
proof -
  have chain: "compare_rules = cmp_then (cmp_on dr_hostname compareIngressHostnames) (cmp_then (cmp_asc dr_category)
      (cmp_then (cmp_desc (\<lambda>r. int (length (dr_path r)))) (cmp_asc dr_order)))"
    by (intro ext) (simp add: compare_rules_def cmp_defs)
  show "comparator compare_rules"
    unfolding chain by (intro comparator_intros ingress_hostnames.comparator_axioms)
qed

definition final_rules :: "cloudflare \<Rightarrow> irGateway \<Rightarrow> domainRule list" where
  "final_rules cf g = unique_by rule_key (sort_func compare_rules (number_rules (gateway_rules cf g)))"

lemma config_ingress: "cb_Ingress (compileConfig cf g) = map wire_rule (final_rules cf g) @ [catch_all]"
  by (simp add: compileConfig_def final_rules_def Let_def)


lemma set_number_rules: "r \<in> set (number_rules rs) \<Longrightarrow> \<exists>q \<in> set rs. \<exists>i. r = q\<lparr>dr_order := i\<rparr>"
  by (auto simp: number_rules_def in_set_enumerate_eq)

lemma number_rules_mem: "q \<in> set rs \<Longrightarrow> \<exists>i. q\<lparr>dr_order := i\<rparr> \<in> set (number_rules rs)"
proof -
  assume "q \<in> set rs"
  then obtain n where "n < length rs" "q = rs ! n" by (auto simp: in_set_conv_nth)
  then have "(n, q) \<in> set (enumerate 0 rs)" by (simp add: in_set_enumerate_eq)
  then have "q\<lparr>dr_order := int n\<rparr> \<in> set (number_rules rs)"
    unfolding number_rules_def set_map by (rule rev_image_eqI) simp
  then show ?thesis by blast
qed

lemma final_rule_gateway: "r \<in> set (final_rules cf g) \<Longrightarrow> \<exists>q \<in> set (gateway_rules cf g). \<exists>i. r = q\<lparr>dr_order := i\<rparr>"
  using set_number_rules unique_by_subset [of rule_key "sort_func compare_rules (number_rules (gateway_rules cf g))"]
  by (fastforce simp: final_rules_def set_sort_any)

text \<open>Where a rule comes from, and that no rule of a virtual host is lost.\<close>

lemma final_rule_source:
  assumes "r \<in> set (final_rules cf g)"
  obtains d vh q i where "d \<in> set (ig_Domains g)" "vh \<in> set (pd_VirtualHosts d)"
    "listener_exposures (ig_Listeners g) (pd_ListenerName d) \<noteq> ExposurePrivate"
    "q \<in> set (virtual_host_rules cf (Some (gatewayOrigin (cf_OriginRequest cf))) d vh)" "r = q\<lparr>dr_order := i\<rparr>"
proof -
  obtain q i where "q \<in> set (gateway_rules cf g)" "r = q\<lparr>dr_order := i\<rparr>" using final_rule_gateway [OF assms] by blast
  then show ?thesis using that by (auto simp: gateway_rules_def)
qed

lemma rule_hostname:
  "q \<in> set (virtual_host_rules cf base d vh) \<Longrightarrow> dr_hostname q = vh_Hostname vh \<and> vh_Hostname vh \<noteq> [] \<and> vh_Hostname vh \<noteq> ''*''"
  by (auto simp: virtual_host_rules_def Let_def split: if_splits)


lemma gateway_origin_plain [simp]: "wo_Access (gatewayOrigin origin) = None"
  by (simp add: gatewayOrigin_def empty_wireOrigin_def)

lemma rule_forwards:
  assumes "q \<in> set (virtual_host_rules cf (Some base) d vh)" and "dr_service q \<noteq> ''http_status:403''"
  shows "\<not> refused_host cf d" and "dr_service q = ''http://127.0.0.1:'' @ show_int (pd_EnvoyPort d)"
    and "dr_path q \<in> set (rule_paths d vh)" and "dr_origin q = cloneOrigin (rule_origin (Some base) d)"
  using assms by (auto simp: virtual_host_rules_def Let_def split: if_splits)

lemma guarded_origin:
  assumes "pd_Protected d" and "CanonicalAUDs (pd_Access d) \<noteq> []"
  shows "\<exists>o' a g. cloneOrigin (rule_origin (Some base) d) = Some o' \<and> wo_Access o' = Some a \<and> pd_Access d = Some g \<and>
    wac_Required a = Some True \<and> wac_AUDTag a = CanonicalAUDs (pd_Access d) \<and> wac_TeamName a = ag_TeamName g"
  using assms by (cases "pd_Access d") (simp_all add: rule_origin_def cloneOrigin_def Let_def)

text \<open>The three parts of the key of a rule, when neither the hostname nor the service has a NUL.\<close>

lemma rule_key_inj:
  assumes "rule_key r = rule_key q" and "CHR 0x00 \<notin> set (dr_hostname r) \<union> set (dr_hostname q)"
    and "CHR 0x00 \<notin> set (dr_service r) \<union> set (dr_service q)"
  shows "dr_hostname r = dr_hostname q \<and> dr_path r = dr_path q \<and> dr_service r = dr_service q"
proof -
  have "dr_hostname r @ CHR 0x00 # (dr_path r @ CHR 0x00 # dr_service r) =
      dr_hostname q @ CHR 0x00 # (dr_path q @ CHR 0x00 # dr_service q)"
    using assms(1) by (simp add: rule_key_def)
  then have "dr_hostname r = dr_hostname q"
    and "dr_path r @ CHR 0x00 # dr_service r = dr_path q @ CHR 0x00 # dr_service q"
    using cut_unique [of "CHR 0x00" "dr_hostname r" "dr_hostname q"] assms(2) by simp_all
  then show ?thesis using cut_last_unique [of "CHR 0x00" "dr_service r" "dr_service q"] assms(3) by simp
qed

lemma show_int_no_nul: "CHR 0x00 \<notin> set (show_int i)"
  using show_nat_digits [of "CHR 0x00"] by (auto simp: show_int_def)

lemma rule_service_no_nul: "q \<in> set (virtual_host_rules cf base d vh) \<Longrightarrow> CHR 0x00 \<notin> set (dr_service q)"
  by (auto simp: virtual_host_rules_def Let_def show_int_no_nul split: if_splits)

definition hostnames_plain :: "irGateway \<Rightarrow> bool" where
  "hostnames_plain g \<longleftrightarrow> (\<forall>d \<in> set (ig_Domains g). \<forall>vh \<in> set (pd_VirtualHosts d). CHR 0x00 \<notin> set (vh_Hostname vh))"

lemma gateway_rule_no_nul:
  assumes "q \<in> set (gateway_rules cf g)" and "hostnames_plain g"
  shows "CHR 0x00 \<notin> set (dr_service q) \<and> CHR 0x00 \<notin> set (dr_hostname q)"
proof -
  obtain d vh where src: "d \<in> set (ig_Domains g)" "vh \<in> set (pd_VirtualHosts d)"
    "q \<in> set (virtual_host_rules cf (Some (gatewayOrigin (cf_OriginRequest cf))) d vh)"
    using assms(1) by (auto simp: gateway_rules_def)
  then show ?thesis
    using assms(2) rule_service_no_nul [OF src(3)] rule_hostname [OF src(3)] by (simp add: hostnames_plain_def)
qed

lemma match_paths_nonempty [simp]: "forwardingMatchPaths ms \<noteq> []"
proof -
  have "unique_by (\<lambda>p. p) ps \<noteq> []" if "ps \<noteq> []" for ps :: "string list"
    using that unique_by_keys [of "\<lambda>p. p" ps] by (auto simp: image_iff)
  then show ?thesis by (auto simp: forwardingMatchPaths_def Let_def)
qed

lemma rule_paths_nonempty [simp]: "rule_paths d vh \<noteq> []"
  by (simp add: rule_paths_def forwardingPaths_def)

lemma gateway_rule_kept:
  assumes "q \<in> set (gateway_rules cf g)" and "hostnames_plain g"
  shows "\<exists>r \<in> set (cb_Ingress (compileConfig cf g)).
    ing_Hostname r = dr_hostname q \<and> ing_Path r = dr_path q \<and> ing_Service r = dr_service q"
proof -
  let ?sorted = "sort_func compare_rules (number_rules (gateway_rules cf g))"
  obtain i where "q\<lparr>dr_order := i\<rparr> \<in> set ?sorted" using number_rules_mem [OF assms(1)] by (auto simp: set_sort_any)
  then have "rule_key (q\<lparr>dr_order := i\<rparr>) \<in> rule_key ` set (final_rules cf g)"
    unfolding final_rules_def unique_by_keys by (rule imageI)
  moreover have "rule_key (q\<lparr>dr_order := i\<rparr>) = rule_key q" by (simp add: rule_key_def)
  ultimately obtain r where r: "r \<in> set (final_rules cf g)" "rule_key q = rule_key r" by auto
  obtain p j where p: "p \<in> set (gateway_rules cf g)" "r = p\<lparr>dr_order := j\<rparr>" using final_rule_gateway [OF r(1)] by blast
  have "dr_hostname q = dr_hostname r \<and> dr_path q = dr_path r \<and> dr_service q = dr_service r"
    using rule_key_inj [OF r(2)] gateway_rule_no_nul [OF assms] gateway_rule_no_nul [OF p(1) assms(2)] by (simp add: p(2))
  then have "wire_rule r \<in> set (cb_Ingress (compileConfig cf g)) \<and> ing_Hostname (wire_rule r) = dr_hostname q \<and>
      ing_Path (wire_rule r) = dr_path q \<and> ing_Service (wire_rule r) = dr_service q"
    using r(1) by (simp add: config_ingress wire_rule_def)
  then show ?thesis by blast
qed

lemma domain_rule_kept:
  assumes "d \<in> set (ig_Domains g)" and "vh \<in> set (pd_VirtualHosts d)"
    and "listener_exposures (ig_Listeners g) (pd_ListenerName d) \<noteq> ExposurePrivate"
    and "q \<in> set (virtual_host_rules cf (Some (gatewayOrigin (cf_OriginRequest cf))) d vh)"
  shows "q \<in> set (gateway_rules cf g)"
  using assms by (auto simp: gateway_rules_def)

text \<open>The domain and the virtual host behind a rule that forwards to Envoy.\<close>

lemma ingress_source:
  assumes "r \<in> set (cb_Ingress (compileConfig cf g))" and "has_prefix (ing_Service r) ''http://''"
  obtains d vh where "d \<in> set (ig_Domains g)" "vh \<in> set (pd_VirtualHosts d)"
    "listener_exposures (ig_Listeners g) (pd_ListenerName d) \<noteq> ExposurePrivate" "ing_Hostname r = vh_Hostname vh"
    "\<not> refused_host cf d" "ing_Service r = ''http://127.0.0.1:'' @ show_int (pd_EnvoyPort d)"
    "ing_OriginRequest r = cloneOrigin (rule_origin (Some (gatewayOrigin (cf_OriginRequest cf))) d)"
proof -
  have "r \<noteq> catch_all" using assms(2) by (auto simp: catch_all_def has_prefix_def)
  then obtain s where s: "s \<in> set (final_rules cf g)" "r = wire_rule s" using assms(1) by (auto simp: config_ingress)
  obtain d vh q i where src: "d \<in> set (ig_Domains g)" "vh \<in> set (pd_VirtualHosts d)"
    "listener_exposures (ig_Listeners g) (pd_ListenerName d) \<noteq> ExposurePrivate"
    "q \<in> set (virtual_host_rules cf (Some (gatewayOrigin (cf_OriginRequest cf))) d vh)" "s = q\<lparr>dr_order := i\<rparr>"
    using s(1) by (rule final_rule_source)
  have rule: "ing_Hostname r = dr_hostname q" "ing_Service r = dr_service q" "ing_OriginRequest r = dr_origin q"
    by (simp_all add: s(2) src(5) wire_rule_def)
  have "dr_service q \<noteq> ''http_status:403''" using assms(2) rule(2) by (auto simp: has_prefix_def)
  note facts = rule_forwards [OF src(4) this] rule_hostname [OF src(4)]
  show ?thesis by (rule that [OF src(1-3)]) (use facts rule in simp_all)
qed

section \<open>Properties of a Gateway's configuration\<close>

text \<open>
  The tunnel fails closed. A rule that forwards to Envoy belongs to a virtual host of a domain of a listener that is not
  private, in a tunnel that is not being torn down; the domain is not blocked, and when it is protected either the check
  of the origin token is disabled for it or the rule requires a token for the team and the non-empty audiences of
  its guard.
\<close>
theorem ingress_fails_closed:
  assumes "r \<in> set (cb_Ingress (compileConfig cf g))" and "has_prefix (ing_Service r) ''http://''"
  shows "\<exists>d \<in> set (ig_Domains g). \<exists>vh \<in> set (pd_VirtualHosts d).
    listener_exposures (ig_Listeners g) (pd_ListenerName d) \<noteq> ExposurePrivate \<and> ing_Hostname r = vh_Hostname vh \<and>
    ing_Service r = ''http://127.0.0.1:'' @ show_int (pd_EnvoyPort d) \<and> \<not> cf_Teardown cf \<and> pd_Guard d \<noteq> GuardBlocked \<and>
    (pd_Protected d \<longrightarrow> pd_OriginJWTDisabled d \<or>
       (\<exists>o' a guard. ing_OriginRequest r = Some o' \<and> wo_Access o' = Some a \<and> pd_Access d = Some guard \<and>
          wac_Required a = Some True \<and> wac_AUDTag a = CanonicalAUDs (pd_Access d) \<and> wac_AUDTag a \<noteq> [] \<and>
          wac_TeamName a = ag_TeamName guard))"
proof -
  obtain d vh where src: "d \<in> set (ig_Domains g)" "vh \<in> set (pd_VirtualHosts d)"
    "listener_exposures (ig_Listeners g) (pd_ListenerName d) \<noteq> ExposurePrivate" "ing_Hostname r = vh_Hostname vh"
    "\<not> refused_host cf d" "ing_Service r = ''http://127.0.0.1:'' @ show_int (pd_EnvoyPort d)"
    "ing_OriginRequest r = cloneOrigin (rule_origin (Some (gatewayOrigin (cf_OriginRequest cf))) d)"
    using assms by (rule ingress_source)
  have guard: "pd_Protected d \<Longrightarrow> \<not> pd_OriginJWTDisabled d \<Longrightarrow> CanonicalAUDs (pd_Access d) \<noteq> []"
    using src(5) by (auto simp: refused_host_def)
  show ?thesis
    using src(3-6) guard guarded_origin [of d "gatewayOrigin (cf_OriginRequest cf)"]
    by (intro bexI [OF _ src(1)] bexI [OF _ src(2)]) (auto simp: src(7) refused_host_def)
qed

text \<open>
  C24: no host of a Gateway is lost on the way to the tunnel. A named virtual host of a listener that is not private has a
  rule that answers 403 when its domain is refused, and otherwise a rule to its Envoy port for each path the domain
  claims, of which there is at least one. Removing duplicate rules drops none of them.
\<close>
theorem ingress_complete:
  assumes "d \<in> set (ig_Domains g)" and "vh \<in> set (pd_VirtualHosts d)" and "hostnames_plain g"
    and "listener_exposures (ig_Listeners g) (pd_ListenerName d) \<noteq> ExposurePrivate"
    and "vh_Hostname vh \<noteq> []" and "vh_Hostname vh \<noteq> ''*''"
  shows "if refused_host cf d
    then \<exists>r \<in> set (cb_Ingress (compileConfig cf g)). ing_Hostname r = vh_Hostname vh \<and> ing_Path r = [] \<and> ing_Service r = ''http_status:403''
    else rule_paths d vh \<noteq> [] \<and> (\<forall>path \<in> set (rule_paths d vh). \<exists>r \<in> set (cb_Ingress (compileConfig cf g)).
      ing_Hostname r = vh_Hostname vh \<and> ing_Path r = path \<and> ing_Service r = ''http://127.0.0.1:'' @ show_int (pd_EnvoyPort d))"
proof -
  let ?rules = "virtual_host_rules cf (Some (gatewayOrigin (cf_OriginRequest cf))) d vh"
  have kept: "\<forall>q \<in> set ?rules. \<exists>r \<in> set (cb_Ingress (compileConfig cf g)).
      ing_Hostname r = dr_hostname q \<and> ing_Path r = dr_path q \<and> ing_Service r = dr_service q"
    using gateway_rule_kept [OF domain_rule_kept [OF assms(1,2,4)] assms(3)] by blast
  show ?thesis
  proof (cases "refused_host cf d")
    case True
    then show ?thesis using assms(5,6) kept by (simp add: virtual_host_rules_def Let_def)
  next
    case False
    then show ?thesis using assms(5,6) kept by (simp add: virtual_host_rules_def Let_def)
  qed
qed




section \<open>An example Gateway\<close>

definition tunnel_host :: "string \<Rightarrow> virtualHost" where
  "tunnel_host name = \<lparr>vh_Name = name, vh_Hostname = name, vh_Routes = []\<rparr>"

definition tunnel_domain :: "string \<Rightarrow> int \<Rightarrow> bool \<Rightarrow> string list \<Rightarrow> virtualHost \<Rightarrow> protectionDomain" where
  "tunnel_domain name port protected auds vh =
     \<lparr>pd_Name = name, pd_ListenerName = ''web'', pd_EnvoyPort = port, pd_Protected = protected, pd_OriginJWTDisabled = False,
      pd_Access = (if protected then Some \<lparr>ag_AUDs = auds, ag_TeamName = ''team'', ag_AuthDomain = [], ag_OptionsPreflightBypass = False\<rparr> else None),
      pd_AccessApplication = name, pd_Guard = [], pd_StripAccessHeaders = False, pd_IngressPaths = [], pd_VirtualHosts = [vh]\<rparr>"

definition tunnel_settings :: cloudflare where
  "tunnel_settings = \<lparr>cf_AccountID = ''account'', cf_TunnelName = ''tunnel'', cf_TunnelID = ''id'', cf_TokenSecretName = [],
     cf_ManagementPolicy = [], cf_Teardown = False, cf_WARPRouting = False, cf_OriginRequest = empty_gatewayOriginRequest\<rparr>"

definition tunnel_gateway :: irGateway where
  "tunnel_gateway = \<lparr>ig_Key = (''ns'', ''gw''), ig_UID = [], ig_ConformanceMode = False, ig_InfrastructureLabels = [],
     ig_InfrastructureAnnotations = [], ig_Cloudflare = Some tunnel_settings, ig_Listeners = [],
     ig_Domains = [tunnel_domain ''open'' 80 False [] (tunnel_host ''*.b''), tunnel_domain ''app'' 81 True [''aud''] (tunnel_host ''a.b''),
       tunnel_domain ''wait'' 82 True [] (tunnel_host ''c.b'')], ig_Clusters = [], ig_Secrets = []\<rparr>"

lemma tunnel_gateway_ingress:
  "map (\<lambda>r. (ing_Hostname r, ing_Service r)) (cb_Ingress (compileConfig tunnel_settings tunnel_gateway)) =
     [(''a.b'', ''http://127.0.0.1:81''), (''c.b'', ''http_status:403''), (''*.b'', ''http://127.0.0.1:80''), ([], ''http_status:404'')]"
  by code_simp

lemma tunnel_gateway_plain: "hostnames_plain tunnel_gateway"
  by code_simp

lemma ingress_length: "length (cb_Ingress (compileConfig tunnel_settings tunnel_gateway)) = 4"
  using arg_cong [OF tunnel_gateway_ingress, of length] by simp

theorem ingress_fails_closed_witness:
  "\<exists>d \<in> set (ig_Domains tunnel_gateway). pd_EnvoyPort d = 81 \<and>
     (\<exists>o' a. ing_OriginRequest (cb_Ingress (compileConfig tunnel_settings tunnel_gateway) ! 0) = Some o' \<and> wo_Access o' = Some a \<and>
        wac_Required a = Some True \<and> wac_AUDTag a = CanonicalAUDs (pd_Access d))"
proof -
  let ?r = "cb_Ingress (compileConfig tunnel_settings tunnel_gateway) ! 0"
  have pos: "0 < length (cb_Ingress (compileConfig tunnel_settings tunnel_gateway))" by (simp add: ingress_length)
  have wire: "(ing_Hostname ?r, ing_Service ?r) = (''a.b'', ''http://127.0.0.1:81'')"
    using arg_cong [OF tunnel_gateway_ingress, of "\<lambda>xs. xs ! 0"] unfolding nth_map [OF pos] by simp
  have "has_prefix (ing_Service ?r) ''http://''" using wire by (simp add: has_prefix_def)
  from ingress_fails_closed [OF nth_mem [OF pos] this] obtain d where d: "d \<in> set (ig_Domains tunnel_gateway)"
    "ing_Service ?r = ''http://127.0.0.1:'' @ show_int (pd_EnvoyPort d)"
    "pd_Protected d \<Longrightarrow> \<not> pd_OriginJWTDisabled d \<Longrightarrow> \<exists>o' a. ing_OriginRequest ?r = Some o' \<and> wo_Access o' = Some a \<and>
       wac_Required a = Some True \<and> wac_AUDTag a = CanonicalAUDs (pd_Access d)"
    by blast
  have "show_int 81 = ''81''" by code_simp
  then have "show_int (pd_EnvoyPort d) = show_int 81" using wire d(2) by simp
  then have "pd_EnvoyPort d = 81" by (simp only: show_int_inj)
  moreover from this d(1) have "pd_Protected d \<and> \<not> pd_OriginJWTDisabled d" by (auto simp: tunnel_gateway_def tunnel_domain_def)
  ultimately show ?thesis using d by blast
qed

theorem ingress_complete_witness:
  "\<exists>r \<in> set (cb_Ingress (compileConfig tunnel_settings tunnel_gateway)). ing_Hostname r = ''c.b'' \<and> ing_Path r = [] \<and>
     ing_Service r = ''http_status:403''"
proof -
  let ?d = "tunnel_domain ''wait'' 82 True [] (tunnel_host ''c.b'')"
  have hyps: "?d \<in> set (ig_Domains tunnel_gateway)" "tunnel_host ''c.b'' \<in> set (pd_VirtualHosts ?d)"
    "listener_exposures (ig_Listeners tunnel_gateway) (pd_ListenerName ?d) \<noteq> ExposurePrivate"
    "vh_Hostname (tunnel_host ''c.b'') \<noteq> []" "vh_Hostname (tunnel_host ''c.b'') \<noteq> ''*''"
    by (simp_all add: tunnel_gateway_def tunnel_domain_def tunnel_host_def listener_exposures_def ExposurePrivate_def)
  have "refused_host tunnel_settings ?d" by code_simp
  then show ?thesis
    using ingress_complete [OF hyps(1,2) tunnel_gateway_plain hyps(3-5), of tunnel_settings] by (simp add: tunnel_host_def)
qed


section \<open>Lemmas on Direct configurations\<close>

lemma first_error_None [simp]: "first_error f xs = None \<longleftrightarrow> (\<forall>x \<in> set xs. f x = None)"
  by (induction xs) (auto simp: first_error_def)


text \<open>What a service sets, in the order of the choices, as pairs of wire form and kind.\<close>

definition service_options :: "tunnelIngressService \<Rightarrow> (string \<times> string) option list" where
  "service_options s =
     map (\<lambda>(name, o'). map_option (\<lambda>address. (name @ ''://'' @ address, name)) o')
       [(''http'', ts_HTTP s), (''https'', ts_HTTPS s), (''tcp'', ts_TCP s), (''ssh'', ts_SSH s), (''rdp'', ts_RDP s), (''smb'', ts_SMB s)] @
     [map_option (\<lambda>path. (''unix:'' @ path, ''unix'')) (ts_Unix s), map_option (\<lambda>path. (''unix+tls:'' @ path, ''unixTLS'')) (ts_UnixTLS s),
      map_option (\<lambda>_. (''hello_world'', ''helloWorld'')) (ts_HelloWorld s),
      map_option (\<lambda>code. (''http_status:'' @ show_int code, ''httpStatus'')) (ts_HTTPStatus s),
      map_option (\<lambda>_. (''bastion'', ''bastion'')) (ts_Bastion s)]"

fun somes :: "'a option list \<Rightarrow> 'a list" where
  "somes [] = []"
| "somes (None # xs) = somes xs"
| "somes (Some x # xs) = x # somes xs"

definition follows :: "(service_state \<Rightarrow> string + service_state) \<Rightarrow> (string \<times> string) option \<Rightarrow> bool" where
  "follows f choice \<longleftrightarrow> (\<forall>st st'. f st = Inr st' \<longrightarrow> st' = (case choice of None \<Rightarrow> st | Some wk \<Rightarrow> (Suc (fst st), wk)))"

lemma run_choices_count:
  assumes "list_all2 follows fs os" and "run_choices fs st = Inr st'"
  shows "fst st' = fst st + length (somes os) \<and> snd st' = last (snd st # somes os)"
  using assms
proof (induction fs os arbitrary: st rule: list_all2_induct)
  case (Cons f fs choice os)
  then obtain mid where mid: "f st = Inr mid" "run_choices fs mid = Inr st'" by (auto split: sum.splits)
  then have "mid = (case choice of None \<Rightarrow> st | Some wk \<Rightarrow> (Suc (fst st), wk))" using Cons.hyps(1) unfolding follows_def by blast
  with Cons.IH [OF mid(2)] show ?case by (cases choice) auto
qed simp

lemma run_choices_each:
  "run_choices fs st = Inr st' \<Longrightarrow> f \<in> set fs \<Longrightarrow> \<exists>a b. f a = Inr b"
proof (induction fs arbitrary: st)
  case (Cons g fs)
  then obtain mid where mid: "g st = Inr mid" "run_choices fs mid = Inr st'" by (auto split: sum.splits)
  with Cons.IH [OF mid(2)] Cons.prems(2) show ?case by (metis set_ConsD)
qed simp

lemma choices_follow: "list_all2 follows (service_choices location s) (service_options s)"
  by (auto simp: service_choices_def service_options_def follows_def address_choice_def unix_choice_def builtin_choice_def
      status_choice_def split: option.splits if_splits)

lemma service_single:
  assumes "compileService location s = Inr (wire, kind)"
  shows "somes (service_options s) = [(wire, kind)]"
proof -
  have run: "run_choices (service_choices location s) (0, [], []) = Inr (1, wire, kind)"
    using assms by (auto simp: compileService_def split: sum.splits if_splits)
  have "length (somes (service_options s)) = 1" "last (([], []) # somes (service_options s)) = (wire, kind)"
    using run_choices_count [OF choices_follow run] by simp_all
  then show ?thesis by (cases "somes (service_options s)") auto
qed

lemma service_status:
  assumes "compileService location s = Inr (wire, kind)" and "ts_HTTPStatus s = Some code"
  shows "100 \<le> code \<and> code \<le> 599"
proof -
  obtain st where run: "run_choices (service_choices location s) (0, [], []) = Inr st"
    using assms(1) by (auto simp: compileService_def split: sum.splits)
  have "status_choice location (ts_HTTPStatus s) \<in> set (service_choices location s)" by (simp add: service_choices_def)
  then show ?thesis using run_choices_each [OF run] assms(2) by (fastforce simp: status_choice_def split: if_splits)
qed

text \<open>A reader of the wire form.\<close>

definition parse_service :: "string \<Rightarrow> tunnelIngressService" where
  "parse_service w =
     (if has_prefix w ''http://'' then empty_service\<lparr>ts_HTTP := Some (trim_prefix w ''http://'')\<rparr>
      else if has_prefix w ''https://'' then empty_service\<lparr>ts_HTTPS := Some (trim_prefix w ''https://'')\<rparr>
      else if has_prefix w ''tcp://'' then empty_service\<lparr>ts_TCP := Some (trim_prefix w ''tcp://'')\<rparr>
      else if has_prefix w ''ssh://'' then empty_service\<lparr>ts_SSH := Some (trim_prefix w ''ssh://'')\<rparr>
      else if has_prefix w ''rdp://'' then empty_service\<lparr>ts_RDP := Some (trim_prefix w ''rdp://'')\<rparr>
      else if has_prefix w ''smb://'' then empty_service\<lparr>ts_SMB := Some (trim_prefix w ''smb://'')\<rparr>
      else if has_prefix w ''unix:'' then empty_service\<lparr>ts_Unix := Some (trim_prefix w ''unix:'')\<rparr>
      else if has_prefix w ''unix+tls:'' then empty_service\<lparr>ts_UnixTLS := Some (trim_prefix w ''unix+tls:'')\<rparr>
      else if has_prefix w ''http_status:'' then empty_service\<lparr>ts_HTTPStatus := Some (int (dec_val (trim_prefix w ''http_status:'')))\<rparr>
      else if w = ''hello_world'' then empty_service\<lparr>ts_HelloWorld := Some ()\<rparr>
      else empty_service\<lparr>ts_Bastion := Some ()\<rparr>)"

lemma somes_single:
  "somes (x # xs) = [y] \<longleftrightarrow> (x = Some y \<and> somes xs = []) \<or> (x = None \<and> somes xs = [y])"
  "somes (x # xs) = [] \<longleftrightarrow> x = None \<and> somes xs = []"
  by (cases x; auto)+

lemma parse_wires:
  "parse_service (''http'' @ ''://'' @ a) = empty_service\<lparr>ts_HTTP := Some a\<rparr>"
  "parse_service (''https'' @ ''://'' @ a) = empty_service\<lparr>ts_HTTPS := Some a\<rparr>"
  "parse_service (''tcp'' @ ''://'' @ a) = empty_service\<lparr>ts_TCP := Some a\<rparr>"
  "parse_service (''ssh'' @ ''://'' @ a) = empty_service\<lparr>ts_SSH := Some a\<rparr>"
  "parse_service (''rdp'' @ ''://'' @ a) = empty_service\<lparr>ts_RDP := Some a\<rparr>"
  "parse_service (''smb'' @ ''://'' @ a) = empty_service\<lparr>ts_SMB := Some a\<rparr>"
  "parse_service (''unix:'' @ a) = empty_service\<lparr>ts_Unix := Some a\<rparr>"
  "parse_service (''unix+tls:'' @ a) = empty_service\<lparr>ts_UnixTLS := Some a\<rparr>"
  "parse_service (''http_status:'' @ a) = empty_service\<lparr>ts_HTTPStatus := Some (int (dec_val a))\<rparr>"
  "parse_service ''hello_world'' = empty_service\<lparr>ts_HelloWorld := Some ()\<rparr>"
  "parse_service ''bastion'' = empty_service\<lparr>ts_Bastion := Some ()\<rparr>"
  by (simp_all add: parse_service_def has_prefix_def trim_prefix_def)

lemma parse_single:
  assumes "somes (service_options s) = [(wire, kind)]" and "\<And>code. ts_HTTPStatus s = Some code \<Longrightarrow> 0 \<le> code"
  shows "parse_service wire = s"
proof -
  have status: "int (dec_val (show_int code)) = code" if "ts_HTTPStatus s = Some code" for code
    using assms(2) [OF that] by (simp add: show_int_def)
  note wires = parse_wires [simplified, unfolded empty_service_def tunnelIngressService.update_convs, simplified]
  show ?thesis
    using assms(1)
    unfolding service_options_def list.map append.simps prod.case somes_single map_option_eq_Some option.map_disc_iff prod.inject
    by (elim disjE conjE exE; hypsubst?; (intro tunnelIngressService.equality)?; simp add: wires status)
qed

text \<open>
  C26: the wire form of a Direct service keeps the service. When the compiler accepts a service, reading the wire form back
  gives the service again, whichever of the eleven kinds was selected: no two services share a wire form.
\<close>
theorem service_wire_roundtrip:
  assumes "compileService location s = Inr (wire, kind)"
  shows "parse_service wire = s"
proof -
  show ?thesis using parse_single [OF service_single [OF assms]] service_status [OF assms] by force
qed

theorem service_wire_roundtrip_witness:
  "parse_service ''unix+tls:/run/app.sock'' = empty_service\<lparr>ts_UnixTLS := Some ''/run/app.sock''\<rparr>"
proof -
  have "compileService ''ingress[0].service'' (empty_service\<lparr>ts_UnixTLS := Some ''/run/app.sock''\<rparr>) =
      Inr (''unix+tls:/run/app.sock'', ''unixTLS'')"
    by code_simp
  then show ?thesis by (rule service_wire_roundtrip)
qed














end
