(* ===== verification/Tunnel.thy ===== *)
theory Tunnel
  imports Translate Cloudflared
begin

text \<open>
  The translator and the tunnel compiler together: \<^verbatim>\<open>Translate\<close> of \<^verbatim>\<open>src/internal/gatewayapi\<close> produces the Gateway from which
  \<^verbatim>\<open>src/internal/cloudflared\<close> compiles the ingress rules of the tunnel. The guarantee of the translated domains
  carries over to the published rules.
\<close>

section \<open>Every domain of a tunnelled Gateway has a guard\<close>

interpretation guarded: domain_contract ext inp out comps
  "\<lambda>d. (\<forall>b \<in> set (ig_Domains out). pd_Guard b \<noteq> []) \<longrightarrow> pd_Guard d \<noteq> []" for ext inp out comps
proof unfold_locales
  fix comps' owner l h and d :: protectionDomain
  show "(\<forall>b \<in> set (ig_Domains out). pd_Guard b \<noteq> []) \<longrightarrow> pd_Guard (guard_domain inp comps' (parseNamespacedName owner) l h d) \<noteq> []"
    using guard_domain_shape(1) [of inp comps' "parseNamespacedName owner" l h d] by auto
qed (auto simp: public_domain_def blocked_domain_def)

lemma apply_guarded:
  assumes "d \<in> set (ig_Domains (fst (applyAccessApplications ext inp out statuses now holds)))"
    and "\<forall>b \<in> set (ig_Domains out). pd_Guard b \<noteq> []"
  shows "pd_Guard d \<noteq> []"
  using assms(1)
proof (cases rule: apply_domain_cases)
  case plain
  from plain(2) assms(2) show ?thesis by (elim marked_domain) auto
next
  case (partitioned e name)
  then show ?thesis using guarded.partition_sound [OF compiled_claims_ranked partitioned(3)] assms(2) by simp
qed simp

lemma routed_guarded:
  assumes "b \<in> set (ig_Domains (fst (routed ext inp gw holds)))" and "\<not> conformance_mode inp"
    and "in_CloudflareTunnel inp \<noteq> None" and "in_CloudflareAccount inp \<noteq> None"
  shows "pd_Guard b \<noteq> []"
proof -
  obtain c vhs where c: "c \<in> set (ig_Domains (fst (translateListeners ext inp gw (reservedPorts holds) (gateway_ir inp gw))))"
    "b = c\<lparr>pd_VirtualHosts := vhs\<rparr>" using assms(1) by (rule routed_domain)
  obtain t where t: "c = listener_domain t" "listener_guarded ext inp gw t"
    by (rule domain_listener [OF c(1)]) (use assms(2) in simp_all)
  then have "pd_Guard c \<noteq> []"
    using assms(3,4) by (auto simp: listener_domain_def listener_guarded_def Let_def split: if_splits)
  then show ?thesis by (simp add: c(2))
qed

text \<open>The Cloudflare settings of the result are those \<^verbatim>\<open>gateway_ir\<close> starts with.\<close>

lemma settings_kept:
  "ig_Cloudflare (fst (translateListeners ext inp gw reserved out)) = ig_Cloudflare out"
  "ig_Cloudflare (fst (compileHTTPRoutes ext inp gw out L now)) = ig_Cloudflare out"
  "ig_Cloudflare (fst (applyAccessApplications ext inp out sts now holds)) = ig_Cloudflare out"
  "ig_Cloudflare (finalizeIR out) = ig_Cloudflare out"
  by (simp_all add: translateListeners_def compileHTTPRoutes_def applyAccessApplications_def
      markPublicDomainsForHeaderStripping_def finalizeIR_def apply_holds_def Let_def split: prod.split option.split)

lemma translated_settings: "ig_Cloudflare (fst (translate_gateway ext inp gw holds)) = ig_Cloudflare (gateway_ir inp gw)"
proof -
  obtain out1 L1 r1 where 1: "translateListeners ext inp gw (reservedPorts holds) (gateway_ir inp gw) = (out1, L1, r1)"
    by (metis prod_cases3)
  obtain invalid message where 2: "global_validity inp gw r1 = (invalid, message)" by (metis surj_pair)
  let ?out2 = "if invalid then out1\<lparr>ig_Listeners := [], ig_Domains := [], ig_Secrets := []\<rparr> else out1"
  let ?L2 = "if invalid then map (\<lambda>t. invalidateListener t ListenerReasonUnsupportedValue (snd message)) L1 else L1"
  obtain out3 L3 sts3 where 3: "compileHTTPRoutes ext inp gw ?out2 ?L2 (translation_time inp) = (out3, L3, sts3)" by (metis prod_cases3)
  obtain out4 sts4 apps where 4: "applyAccessApplications ext inp out3 sts3 (translation_time inp) holds = (out4, sts4, apps)"
    by (metis prod_cases3)
  have "ig_Cloudflare out4 = ig_Cloudflare out3" using settings_kept(3) 4 by (metis fst_conv)
  also have "\<dots> = ig_Cloudflare ?out2" using settings_kept(2) 3 by (metis fst_conv)
  also have "\<dots> = ig_Cloudflare out1" by simp
  also have "\<dots> = ig_Cloudflare (gateway_ir inp gw)" using settings_kept(1) 1 by (metis fst_conv)
  finally show ?thesis
    by (simp add: translate_gateway_def 1 2 3 4 settings_kept(4) Let_def split: prod.split del: if_split)
qed

lemma tunnelled:
  assumes "ig_Cloudflare (gateway_ir inp gw) = Some cf"
  shows "\<not> conformance_mode inp" "in_CloudflareTunnel inp \<noteq> None" "in_CloudflareAccount inp \<noteq> None"
  using assms by (auto simp: gateway_ir_def split: if_splits option.splits)

lemma Translate_guarded:
  assumes "Translate ext inp = (Some out, sts)" and "ig_Cloudflare out = Some cf" and "d \<in> set (ig_Domains out)"
  shows "pd_Guard d \<noteq> []"
proof -
  obtain gw holds where run: "translate_gateway ext inp gw holds = (out, sts)" using assms(1) by (rule Translate_run)
  obtain out1 L sts1 where routed: "routed ext inp gw holds = (out1, L, sts1)" by (metis prod_cases3)
  have "ig_Cloudflare (gateway_ir inp gw) = Some cf" using translated_settings [of ext inp gw holds] assms(2) by (simp add: run)
  note env = tunnelled [OF this]
  have parts: "ig_Domains out = ig_Domains (fst (applyAccessApplications ext inp out1 sts1 (translation_time inp) holds))"
    using translate_gateway_access(1) [of ext inp gw holds] by (simp add: run routed_access_def routed)
  have "\<forall>b \<in> set (ig_Domains out1). pd_Guard b \<noteq> []"
    using routed_guarded [of _ ext inp gw holds, OF _ env] by (simp add: routed)
  then show ?thesis using apply_guarded assms(3) unfolding parts by blast
qed

lemma canonical_audiences:
  "\<forall>a \<in> set (ag_AUDs g). a \<noteq> [] \<Longrightarrow> set (CanonicalAUDs (Some g)) = set (ag_AUDs g)"
  by (auto simp: CanonicalAUDs_def)

text \<open>The rule of a domain with evidence and a guard requires the audiences of that guard.\<close>

lemma evidence_origin:
  assumes "access_evidence inp d" and "pd_Access d = Some g"
  shows "\<exists>o' a account. cloneOrigin (rule_origin (Some base) d) = Some o' \<and> wo_Access o' = Some a \<and> wac_Required a = Some True \<and>
      wac_AUDTag a \<noteq> [] \<and> (\<forall>t \<in> set (wac_AUDTag a). ready_audience inp t) \<and>
      in_CloudflareAccount inp = Some account \<and> wac_TeamName a = ca_TeamName account"
proof -
  have ready: "\<forall>a \<in> set (ag_AUDs g). ready_audience inp a" "ag_AUDs g \<noteq> []" and "pd_Protected d"
    and team: "\<exists>account. in_CloudflareAccount inp = Some account \<and> ag_TeamName g = ca_TeamName account"
    using assms by (simp_all add: access_evidence_def) blast
  have auds: "set (CanonicalAUDs (Some g)) = set (ag_AUDs g)"
    by (rule canonical_audiences) (use ready in \<open>auto simp: ready_audience_def\<close>)
  then have "CanonicalAUDs (pd_Access d) \<noteq> []" using ready(2) unfolding assms(2) by (metis set_empty)
  from guarded_origin [OF \<open>pd_Protected d\<close> this, of base] obtain o' a where
    "cloneOrigin (rule_origin (Some base) d) = Some o'" "wo_Access o' = Some a" "wac_Required a = Some True"
    "wac_AUDTag a = CanonicalAUDs (Some g)" "wac_TeamName a = ag_TeamName g"
    unfolding assms(2) option.inject by blast
  moreover have "wac_AUDTag a \<noteq> []" "\<forall>t \<in> set (wac_AUDTag a). ready_audience inp t"
    using \<open>wac_AUDTag a = CanonicalAUDs (Some g)\<close> auds ready by (metis set_empty)+
  ultimately show ?thesis using team by simp
qed

section \<open>Property\<close>

text \<open>
  C5: what the tunnel serves is open by grant or authenticated. Every published rule that forwards to Envoy belongs to a
  domain of the translation that is either unprotected, or forwards on evidence of a ready application; then
  the rule itself requires a token of the account's team for audiences that all belong to ready applications, unless
  the application has no guard because disabling the check was permitted for it.
\<close>
theorem tunnel_forwards_authenticated:
  assumes "distinct (map application_ns (in_AccessApplications inp))" and "Translate ext inp = (Some out, sts)"
    and "ig_Cloudflare out = Some cf" and "r \<in> set (cb_Ingress (compileConfig cf out))" and "has_prefix (ing_Service r) ''http://''"
  shows "\<exists>d \<in> set (ig_Domains out). ing_Service r = ''http://127.0.0.1:'' @ show_int (pd_EnvoyPort d) \<and>
    ing_Hostname r \<in> vh_Hostname ` set (pd_VirtualHosts d) \<and>
    (pd_Guard d = GuardUnprotected \<and> \<not> pd_Protected d \<or>
     pd_Guard d = GuardForwarding \<and> access_evidence inp d \<and>
       (pd_Access d = None \<and> pd_OriginJWTDisabled d \<or>
        (\<exists>o' a account. ing_OriginRequest r = Some o' \<and> wo_Access o' = Some a \<and> wac_Required a = Some True \<and>
           wac_AUDTag a \<noteq> [] \<and> (\<forall>t \<in> set (wac_AUDTag a). ready_audience inp t) \<and>
           in_CloudflareAccount inp = Some account \<and> wac_TeamName a = ca_TeamName account)))"
proof -
  obtain d vh where src: "d \<in> set (ig_Domains out)" "vh \<in> set (pd_VirtualHosts d)" "ing_Hostname r = vh_Hostname vh"
    "\<not> refused_host cf d" "ing_Service r = ''http://127.0.0.1:'' @ show_int (pd_EnvoyPort d)"
    "ing_OriginRequest r = cloneOrigin (rule_origin (Some (gatewayOrigin (cf_OriginRequest cf))) d)"
    using assms(4,5) by (rule ingress_source)
  have "pd_Guard d \<noteq> []" using Translate_guarded [OF assms(2,3) src(1)] .
  moreover have "pd_Guard d \<noteq> GuardBlocked" using src(4) by (simp add: refused_host_def)
  ultimately have "pd_Guard d = GuardUnprotected \<and> \<not> pd_Protected d \<or> pd_Guard d = GuardForwarding"
    using Translate_typed [OF assms(2) src(1)] by (auto simp: domain_typed_def)
  moreover have "\<exists>o' a account. ing_OriginRequest r = Some o' \<and> wo_Access o' = Some a \<and> wac_Required a = Some True \<and>
      wac_AUDTag a \<noteq> [] \<and> (\<forall>t \<in> set (wac_AUDTag a). ready_audience inp t) \<and>
      in_CloudflareAccount inp = Some account \<and> wac_TeamName a = ca_TeamName account"
    if "access_evidence inp d" "pd_Access d = Some g" for g
    unfolding src(6) using evidence_origin [OF that] .
  ultimately show ?thesis
    using src(1-3,5) Translate_evidence [OF assms(1,2) src(1)]
    by (intro bexI [OF _ src(1)]) (cases "pd_Access d"; force simp: access_evidence_def)
qed

section \<open>Example\<close>

lemma example_access_settings: "map_option cf_Teardown (ig_Cloudflare (gateway_ir example_access_inputs example_gw)) = Some False"
  by code_simp

definition serves_application :: "irGateway \<Rightarrow> bool" where
  "serves_application g \<longleftrightarrow> hostnames_plain g \<and>
     list_ex (\<lambda>d. pd_Guard d = GuardForwarding \<and> CanonicalAUDs (pd_Access d) \<noteq> [] \<and>
       listener_exposures (ig_Listeners g) (pd_ListenerName d) \<noteq> ExposurePrivate \<and>
       list_ex (\<lambda>vh. vh_Hostname vh \<noteq> [] \<and> vh_Hostname vh \<noteq> ''*'') (pd_VirtualHosts d)) (ig_Domains g)"

lemma example_serves: "serves_application (fst (routed_access example_externals example_access_inputs example_gw None))"
  by code_simp

lemma serves_cong:
  "ig_Domains g = ig_Domains g' \<Longrightarrow> ig_Listeners g = ig_Listeners g' \<Longrightarrow> serves_application g = serves_application g'"
  by (simp add: serves_application_def hostnames_plain_def)

lemma serving_rule:
  assumes "serves_application g" and "\<not> cf_Teardown cf"
  shows "\<exists>r \<in> set (cb_Ingress (compileConfig cf g)). has_prefix (ing_Service r) ''http://''"
proof -
  obtain d vh where d: "d \<in> set (ig_Domains g)" "pd_Guard d = GuardForwarding" "CanonicalAUDs (pd_Access d) \<noteq> []"
    "listener_exposures (ig_Listeners g) (pd_ListenerName d) \<noteq> ExposurePrivate"
    "vh \<in> set (pd_VirtualHosts d)" "vh_Hostname vh \<noteq> []" "vh_Hostname vh \<noteq> ''*''" and plain: "hostnames_plain g"
    using assms(1) by (auto simp: serves_application_def list_ex_iff)
  have "\<not> refused_host cf d" using d(2,3) assms(2) by (simp add: refused_host_def)
  then have "virtual_host_rules cf (Some (gatewayOrigin (cf_OriginRequest cf))) d vh \<noteq> []"
    and "\<forall>q \<in> set (virtual_host_rules cf (Some (gatewayOrigin (cf_OriginRequest cf))) d vh).
      dr_service q = ''http://127.0.0.1:'' @ show_int (pd_EnvoyPort d)"
    using d(6,7) by (simp_all add: virtual_host_rules_def Let_def)
  then obtain q where q: "q \<in> set (virtual_host_rules cf (Some (gatewayOrigin (cf_OriginRequest cf))) d vh)"
    "dr_service q = ''http://127.0.0.1:'' @ show_int (pd_EnvoyPort d)" by (meson list.set_intros(1) neq_Nil_conv last_in_set)
  have "has_prefix (dr_service q) ''http://''" by (simp add: q(2) has_prefix_def)
  with gateway_rule_kept [OF domain_rule_kept [OF d(1,5,4) q(1)] plain] show ?thesis by metis
qed

theorem tunnel_forwards_authenticated_witness:
  "\<exists>out cf r. fst (Translate example_externals example_access_inputs) = Some out \<and> ig_Cloudflare out = Some cf \<and>
     r \<in> set (cb_Ingress (compileConfig cf out)) \<and>
     (\<exists>d \<in> set (ig_Domains out). ing_Service r = ''http://127.0.0.1:'' @ show_int (pd_EnvoyPort d) \<and>
        pd_Guard d \<in> {GuardUnprotected, GuardForwarding})"
proof -
  let ?out = "fst (translate_gateway example_externals example_access_inputs example_gw None)"
  note run = Translate_holds [OF example_access_fields(1,2) example_access_holds, of example_externals]
  obtain cf where cf: "ig_Cloudflare ?out = Some cf" "\<not> cf_Teardown cf"
    using example_access_settings by (auto simp: translated_settings)
  have "serves_application ?out" using example_serves serves_cong [OF translate_gateway_access(1,2)] by simp
  then obtain r where r: "r \<in> set (cb_Ingress (compileConfig cf ?out))" "has_prefix (ing_Service r) ''http://''"
    using serving_rule [OF _ cf(2)] by blast
  have "distinct (map application_ns (in_AccessApplications example_access_inputs))" by (simp add: example_access_fields)
  from tunnel_forwards_authenticated [OF this run cf(1) r] r cf(1) show ?thesis unfolding run fst_conv by blast
qed

end
