(* ===== verification/Ownership.thy ===== *)
theory Ownership
  imports Prelude IR
begin

text \<open>
  \<^verbatim>\<open>src/internal/cloudflare/ledger.go\<close> and \<^verbatim>\<open>ownership.go\<close>: the markers that record which Kubernetes object owns a remote
  object, plain and signed, and how a reader recognises them; \<^verbatim>\<open>src/internal/ownership/ownership.go\<close>: the
  cluster's signing key in a Secret, created and repaired by concurrent callers. SHA-256, HMAC, Punycode conversion and the
  Kubernetes client are arguments.
\<close>

section \<open>Runes\<close>

text \<open>
  UTF-8 decoding as in \<^verbatim>\<open>unicode/utf8\<close>: the width of a valid first rune, and the conversion of a string to runes, each kept in
  its encoded form. A byte that starts no valid rune becomes U+FFFD, as \<^verbatim>\<open>[]rune(s)\<close> and \<^verbatim>\<open>string(runes)\<close> do.
\<close>

definition byte_between :: "string \<Rightarrow> nat \<Rightarrow> nat \<Rightarrow> nat \<Rightarrow> bool" where
  "byte_between s i lo hi \<longleftrightarrow> i < length s \<and> lo \<le> (of_char (s ! i) :: nat) \<and> (of_char (s ! i) :: nat) \<le> hi"

definition rune_size :: "string \<Rightarrow> nat option" where
  "rune_size s =
     (if byte_between s 0 0 127 then Some 1
      else if byte_between s 0 194 223 \<and> byte_between s 1 128 191 then Some 2
      else if byte_between s 0 224 239 \<and> byte_between s 1 (if byte_between s 0 224 224 then 160 else 128)
          (if byte_between s 0 237 237 then 159 else 191) \<and> byte_between s 2 128 191 then Some 3
      else if byte_between s 0 240 244 \<and> byte_between s 1 (if byte_between s 0 240 240 then 144 else 128)
          (if byte_between s 0 244 244 then 143 else 191) \<and> byte_between s 2 128 191 \<and> byte_between s 3 128 191 then Some 4
      else None)"

definition rune_error :: string where
  "rune_error = [CHR 0xEF, CHR 0xBF, CHR 0xBD]"

fun runes :: "string \<Rightarrow> string list" where
  "runes [] = []"
| "runes (c # s) =
     (case rune_size (c # s) of
        None \<Rightarrow> rune_error # runes s
      | Some n \<Rightarrow> take n (c # s) # runes (drop (n - 1) s))"

definition rune_count :: "string \<Rightarrow> nat" where
  "rune_count s = length (runes s)"

section \<open>Digests\<close>

record digests =
  dg_sha256 :: "string \<Rightarrow> string"
  dg_hmac :: "string \<Rightarrow> string \<Rightarrow> string"

definition hmacSHA256 :: "digests \<Rightarrow> string \<Rightarrow> string \<Rightarrow> string" where
  "hmacSHA256 dg key identity = dg_hmac dg key identity"

section \<open>DNS hostnames\<close>

text \<open>\<^verbatim>\<open>idna.Lookup.ToASCII\<close> is the argument \<open>toASCII\<close>.\<close>

definition NormalizeDNSHostname :: "(string \<Rightarrow> string + string) \<Rightarrow> string \<Rightarrow> string + string" where
  "NormalizeDNSHostname toASCII hostname =
     (if hostname = [] then Inl ''a DNS hostname is required''
      else if trim_space hostname \<noteq> hostname then
        Inl (''a DNS hostname '' @ show_q hostname @ '' contains surrounding whitespace'')
      else
        (let name = trim_suffix hostname ''.'' in
         if name = [] then Inl ''a DNS hostname is required''
         else
           (let prefix = (if has_prefix name ''*.'' then ''*.'' else []); rest = trim_prefix name prefix in
            if prefix \<noteq> [] \<and> rest = [] then Inl ''wildcard DNS hostname requires a suffix''
            else case toASCII rest of
              Inl e \<Rightarrow> Inl (''convert DNS hostname '' @ show_q rest @ '' to Punycode: '' @ e)
            | Inr ascii \<Rightarrow> Inr (prefix @ to_lower ascii))))"

definition DNSHostnamesEqual :: "(string \<Rightarrow> string + string) \<Rightarrow> string \<Rightarrow> string \<Rightarrow> bool" where
  "DNSHostnamesEqual toASCII a b =
     (case (NormalizeDNSHostname toASCII a, NormalizeDNSHostname toASCII b) of
        (Inr x, Inr y) \<Rightarrow> x = y | _ \<Rightarrow> False)"

section \<open>Plain markers\<close>

definition ManagedByTag :: string where "ManagedByTag = ''managed-by=flareway''"
definition dnsRecordCommentLimit :: nat where "dnsRecordCommentLimit = 100"
definition dnsRecordCommentSeparator :: string where "dnsRecordCommentSeparator = '' ''"

definition identity :: "string \<Rightarrow> string \<Rightarrow> string \<Rightarrow> string" where
  "identity clusterID namespace name = clusterID @ ''/'' @ namespace @ ''/'' @ name"

definition OwnerTag :: "string \<Rightarrow> string \<Rightarrow> string \<Rightarrow> string \<Rightarrow> string" where
  "OwnerTag clusterID namespace name uid = ''flareway.bhyoo.com/owner='' @ identity clusterID namespace name @ ''/'' @ uid"

definition DNSRecordComment :: "digests \<Rightarrow> string \<Rightarrow> string \<Rightarrow> string \<Rightarrow> string" where
  "DNSRecordComment dg clusterID namespace gatewayName =
     (let who = identity clusterID namespace gatewayName; comment = ''flareway '' @ who in
      if rune_count comment \<le> dnsRecordCommentLimit then comment
      else ''flareway sha256:'' @ hex_encode (dg_sha256 dg who))"

definition dnsRecordCommentWithText :: "string \<Rightarrow> string \<Rightarrow> string" where
  "dnsRecordCommentWithText owner text =
     (let human = trim_space text in
      if human = [] \<or> human = ManagedByTag then owner
      else
        (let remaining = int dnsRecordCommentLimit - int (rune_count owner) - int (rune_count dnsRecordCommentSeparator) in
         if remaining \<le> 0 then owner
         else owner @ dnsRecordCommentSeparator @ concat (take (nat remaining) (runes human))))"

definition DNSRecordCommentWithText :: "digests \<Rightarrow> string \<Rightarrow> string \<Rightarrow> string \<Rightarrow> string \<Rightarrow> string" where
  "DNSRecordCommentWithText dg clusterID namespace gatewayName text =
     dnsRecordCommentWithText (DNSRecordComment dg clusterID namespace gatewayName) text"

definition PrivateResourceComment :: "string \<Rightarrow> string \<Rightarrow> string \<Rightarrow> string \<Rightarrow> string" where
  "PrivateResourceComment clusterID namespace name comment =
     (let owner = ''flareway '' @ identity clusterID namespace name in if comment = [] then owner else owner @ '' | '' @ comment)"

definition IsOwnedPrivateResource :: "string \<Rightarrow> string \<Rightarrow> string \<Rightarrow> string \<Rightarrow> bool" where
  "IsOwnedPrivateResource comment clusterID namespace name \<longleftrightarrow>
     (let owner = ''flareway '' @ identity clusterID namespace name in comment = owner \<or> has_prefix comment (owner @ '' | ''))"

definition IsOwnedBy :: "string list \<Rightarrow> string \<Rightarrow> bool" where
  "IsOwnedBy markers expected \<longleftrightarrow> expected \<noteq> [] \<and> expected \<in> set markers"

record dnsRecordSettings =
  ds_IPv4Only :: "bool option"
  ds_IPv6Only :: "bool option"

text \<open>The fields of a listed record that the markers and the sweep read.\<close>

record dnsRecord =
  dn_ID :: string
  dn_Name :: string
  dn_Type :: string
  dn_Content :: string
  dn_Comment :: string
  dn_TTL :: int
  dn_Proxied :: bool
  dn_Settings :: "dnsRecordSettings option"

definition IsOwnedDNSRecord :: "dnsRecord \<Rightarrow> string \<Rightarrow> bool" where
  "IsOwnedDNSRecord record' expectedComment \<longleftrightarrow>
     expectedComment \<noteq> [] \<and>
     (dn_Comment record' = expectedComment \<or> has_prefix (dn_Comment record') (expectedComment @ dnsRecordCommentSeparator))"

definition IsOwnedDNSRecordStrict :: "(string \<Rightarrow> string + string) \<Rightarrow> dnsRecord \<Rightarrow> string \<Rightarrow> string \<Rightarrow> bool" where
  "IsOwnedDNSRecordStrict toASCII record' expectedComment expectedTarget \<longleftrightarrow>
     IsOwnedDNSRecord record' expectedComment \<and>
     (expectedTarget = [] \<or>
      equal_fold (dn_Type record') ''CNAME'' \<and> DNSHostnamesEqual toASCII (dn_Content record') expectedTarget)"

section \<open>Signed markers\<close>

definition AccessOwnerTagPrefix :: string where "AccessOwnerTagPrefix = ''flareway-owner-''"
definition AccessBypassTagPrefix :: string where "AccessBypassTagPrefix = ''flareway-bypass-''"
definition AccessTagNameMaxLength :: nat where "AccessTagNameMaxLength = 35"
definition hmacMarkerPrefix :: string where "hmacMarkerPrefix = ''flareway hmac:''"
definition hmacMarkerHexLength :: nat where "hmacMarkerHexLength = 32"
definition privateResourceCommentLimit :: nat where "privateResourceCommentLimit = 100"

definition signAccessDigestTag :: "digests \<Rightarrow> string \<Rightarrow> string \<Rightarrow> string \<Rightarrow> string" where
  "signAccessDigestTag dg key tagPrefix who =
     (let hexDigest = hex_encode (if key = [] then dg_sha256 dg who else hmacSHA256 dg key who)
      in tagPrefix @ take (AccessTagNameMaxLength - length tagPrefix) hexDigest)"

definition SignAccessOwnerTag :: "digests \<Rightarrow> string \<Rightarrow> string \<Rightarrow> string \<Rightarrow> string \<Rightarrow> string \<Rightarrow> string" where
  "SignAccessOwnerTag dg key clusterID namespace name uid =
     signAccessDigestTag dg key AccessOwnerTagPrefix (OwnerTag clusterID namespace name uid)"

definition SignAccessBypassTag :: "digests \<Rightarrow> string \<Rightarrow> string \<Rightarrow> string \<Rightarrow> string" where
  "SignAccessBypassTag dg key ownerTag childName =
     signAccessDigestTag dg key AccessBypassTagPrefix (ownerTag @ [CHR 0x00] @ childName)"

text \<open>The pair says whether the tag matches and whether it is the legacy marker.\<close>

definition verifyAccessDigestTag :: "digests \<Rightarrow> string \<Rightarrow> string \<Rightarrow> string \<Rightarrow> string \<Rightarrow> bool \<times> bool" where
  "verifyAccessDigestTag dg tag key tagPrefix who =
     (if key \<noteq> [] \<and> tag = signAccessDigestTag dg key tagPrefix who then (True, False)
      else if tag = signAccessDigestTag dg [] tagPrefix who then (True, True)
      else (False, False))"

definition VerifyAccessOwnerTag :: "digests \<Rightarrow> string \<Rightarrow> string \<Rightarrow> string \<Rightarrow> string \<Rightarrow> string \<Rightarrow> string \<Rightarrow> bool \<times> bool" where
  "VerifyAccessOwnerTag dg tag key clusterID namespace name uid =
     verifyAccessDigestTag dg tag key AccessOwnerTagPrefix (OwnerTag clusterID namespace name uid)"

definition VerifyAccessBypassTag :: "digests \<Rightarrow> string \<Rightarrow> string \<Rightarrow> string \<Rightarrow> string \<Rightarrow> bool \<times> bool" where
  "VerifyAccessBypassTag dg tag key ownerTag childName =
     verifyAccessDigestTag dg tag key AccessBypassTagPrefix (ownerTag @ [CHR 0x00] @ childName)"

definition hmac_marker :: "digests \<Rightarrow> string \<Rightarrow> string \<Rightarrow> string" where
  "hmac_marker dg key who = hmacMarkerPrefix @ hex_encode (take (hmacMarkerHexLength div 2) (hmacSHA256 dg key who))"

definition SignDNSRecordComment :: "digests \<Rightarrow> string \<Rightarrow> string \<Rightarrow> string \<Rightarrow> string \<Rightarrow> string" where
  "SignDNSRecordComment dg key clusterID namespace gatewayName =
     (if key = [] then DNSRecordComment dg clusterID namespace gatewayName
      else
        (let marker = hmac_marker dg key (identity clusterID namespace gatewayName); suffix = namespace @ ''/'' @ gatewayName in
         if rune_count marker + rune_count dnsRecordCommentSeparator + rune_count suffix \<le> dnsRecordCommentLimit
         then marker @ dnsRecordCommentSeparator @ suffix else marker))"

definition SignDNSRecordCommentWithText :: "digests \<Rightarrow> string \<Rightarrow> string \<Rightarrow> string \<Rightarrow> string \<Rightarrow> string \<Rightarrow> string" where
  "SignDNSRecordCommentWithText dg key clusterID namespace gatewayName text =
     dnsRecordCommentWithText (SignDNSRecordComment dg key clusterID namespace gatewayName) text"

definition DNSRecordOwnershipMarkers :: "digests \<Rightarrow> string \<Rightarrow> string \<Rightarrow> string \<Rightarrow> string \<Rightarrow> string list" where
  "DNSRecordOwnershipMarkers dg key clusterID namespace gatewayName =
     (let signed = SignDNSRecordComment dg key clusterID namespace gatewayName;
          legacy = DNSRecordComment dg clusterID namespace gatewayName
      in if signed = legacy then [legacy] else [signed, legacy])"

definition SignPrivateResourceComment :: "digests \<Rightarrow> string \<Rightarrow> string \<Rightarrow> string \<Rightarrow> string \<Rightarrow> string" where
  "SignPrivateResourceComment dg key clusterID namespace name =
     (if key = [] then PrivateResourceComment clusterID namespace name []
      else hmac_marker dg key (identity clusterID namespace name))"

definition IsOwnedPrivateResourceSigned :: "digests \<Rightarrow> string \<Rightarrow> string \<Rightarrow> string \<Rightarrow> string \<Rightarrow> string \<Rightarrow> bool" where
  "IsOwnedPrivateResourceSigned dg comment key clusterID namespace name \<longleftrightarrow>
     (let signed = SignPrivateResourceComment dg key clusterID namespace name;
          owner = PrivateResourceComment clusterID namespace name [];
          truncated = ''flareway sha256:'' @ hex_encode (take 16 (dg_sha256 dg owner))
      in (key \<noteq> [] \<and> (comment = signed \<or> has_prefix comment (signed @ '' | ''))) \<or>
         IsOwnedPrivateResource comment clusterID namespace name \<or>
         (privateResourceCommentLimit < rune_count owner \<and> (comment = truncated \<or> has_prefix comment (truncated @ '' | ''))))"

section \<open>Lemmas on runes\<close>

definition valid_rune :: "string \<Rightarrow> bool" where
  "valid_rune r \<longleftrightarrow> rune_size r = Some (length r)"

lemma between_append [simp]: "i < length r \<Longrightarrow> byte_between (r @ s) i lo hi = byte_between r i lo hi"
  by (simp add: byte_between_def nth_append)

lemma between_take [simp]: "i < n \<Longrightarrow> byte_between (take n s) i lo hi = byte_between s i lo hi"
  by (simp add: byte_between_def)

lemma between_length: "byte_between s i lo hi \<Longrightarrow> i < length s"
  by (simp add: byte_between_def)

lemma rune_size_range: "rune_size s = Some n \<Longrightarrow> n \<in> {1, 2, 3, 4} \<and> n \<le> length s"
  by (auto simp: rune_size_def Suc_le_eq dest!: between_length split: if_splits)

lemma rune_size_append:
  assumes "rune_size s = Some n" and "n \<le> length r"
  shows "rune_size (take n s @ r') = Some n"
proof -
  have n: "n \<in> {1, 2, 3, 4}" "n \<le> length s" using rune_size_range [OF assms(1)] by auto
  have agree: "byte_between (take n s @ r') i lo hi = byte_between s i lo hi" if "i < n" for i lo hi
    using that n(2) by simp
  show ?thesis
    using assms(1) n(1) agree [of 0] agree [of 1] agree [of 2] agree [of 3]
    unfolding rune_size_def by (auto split: if_splits)
qed

lemma runes_valid_append: "valid_rune r \<Longrightarrow> runes (r @ s) = r # runes s"
proof -
  assume r: "valid_rune r"
  then obtain n where n: "rune_size r = Some n" "n = length r" "0 < n"
    using rune_size_range by (fastforce simp: valid_rune_def)
  then obtain c t where ct: "r = c # t" by (cases r) auto
  have "rune_size (r @ s) = Some n" using rune_size_append [OF n(1), of r s] n(2) by simp
  then show ?thesis using n by (simp add: ct)
qed

lemma runes_valid: "r \<in> set (runes s) \<Longrightarrow> valid_rune r"
proof (induction s rule: runes.induct)
  case (2 c s)
  show ?case
  proof (cases "rune_size (c # s)")
    case None
    moreover have "valid_rune rune_error" by code_simp
    ultimately show ?thesis using 2 by auto
  next
    case (Some n)
    have "valid_rune (take n (c # s))"
      using rune_size_append [OF Some, of "take n (c # s)" "[]"] rune_size_range [OF Some] by (simp add: valid_rune_def min_def)
    then show ?thesis using 2 Some by auto
  qed
qed simp

lemma runes_concat: "\<forall>r \<in> set rs. valid_rune r \<Longrightarrow> runes (concat rs @ s) = rs @ runes s"
  by (induction rs) (auto simp: runes_valid_append)

definition plain_text :: "string \<Rightarrow> bool" where
  "plain_text s \<longleftrightarrow> list_all (\<lambda>c. (of_char c :: nat) < 128) s"

lemma rune_count_plain: "plain_text p \<Longrightarrow> rune_count (p @ s) = length p + rune_count s"
proof -
  assume p: "plain_text p"
  have "runes (concat (map (\<lambda>c. [c]) p) @ s) = map (\<lambda>c. [c]) p @ runes s"
    by (rule runes_concat) (use p in \<open>auto simp: plain_text_def list_all_iff valid_rune_def rune_size_def byte_between_def\<close>)
  then show ?thesis by (simp add: rune_count_def concat_map_singleton)
qed

lemma rune_count_plain_only: "plain_text p \<Longrightarrow> rune_count p = length p"
  using rune_count_plain [of p "[]"] by (simp add: rune_count_def)

text \<open>An ASCII byte ends whatever rune precedes it.\<close>

lemma rune_size_sep:
  assumes "(of_char c :: nat) < 128" and "s \<noteq> []"
  shows "rune_size (s @ c # t) = rune_size s"
proof -
  have same: "byte_between (s @ c # t) i lo hi = byte_between s i lo hi" if "i \<le> length s" "128 \<le> lo" for i lo hi
    using that assms(1) by (auto simp: byte_between_def nth_append)
  have first: "byte_between (s @ c # t) 0 lo hi = byte_between s 0 lo hi" for lo hi using assms(2) by simp
  have bounds: "128 \<le> (if b then 160 else 128 :: nat)" "128 \<le> (if b then 144 else 128 :: nat)" "128 \<le> (128 :: nat)" for b by simp_all
  have len: "1 \<le> length s" using assms(2) by (simp add: Suc_le_eq)
  note second = same [OF len bounds(1)] same [OF len bounds(2)] same [OF len bounds(3)]
  consider "length s = 1" | "length s = 2" | "3 \<le> length s" using len by linarith
  then show ?thesis
  proof cases
    case 1
    have "byte_between s 1 lo hi = False" for lo hi using 1 by (simp add: byte_between_def)
    then show ?thesis unfolding rune_size_def first second by simp
  next
    case 2
    have none: "byte_between s 2 lo hi = False" for lo hi using 2 by (simp add: byte_between_def)
    have third: "byte_between (s @ c # t) 2 128 hi = byte_between s 2 128 hi" for hi by (rule same) (simp_all add: 2)
    show ?thesis unfolding rune_size_def first second third none by simp
  next
    case 3
    have "byte_between (s @ c # t) 2 128 hi = byte_between s 2 128 hi" "byte_between (s @ c # t) 3 128 hi = byte_between s 3 128 hi" for hi
      by (rule same, use 3 in simp_all)+
    then show ?thesis unfolding rune_size_def first second by (simp only:)
  qed
qed

lemma runes_sep: "(of_char c :: nat) < 128 \<Longrightarrow> runes (s @ c # t) = runes s @ [c] # runes t"
proof (induction s rule: runes.induct)
  case 1
  then show ?case using runes_valid_append [of "[c]" t] by (simp add: valid_rune_def rune_size_def byte_between_def)
next
  case (2 d s)
  have same: "rune_size (d # s @ c # t) = rune_size (d # s)" using rune_size_sep [OF 2(3), of "d # s" t] by simp
  show ?case
  proof (cases "rune_size (d # s)")
    case None
    then show ?thesis using 2 same by simp
  next
    case (Some n)
    have "n - 1 \<le> length s" "n \<le> Suc (length s)" using rune_size_range [OF Some] by auto
    then show ?thesis using 2(2) [OF Some 2(3)] same Some by (cases n) auto
  qed
qed

lemma rune_count_sep: "(of_char c :: nat) < 128 \<Longrightarrow> rune_count (s @ c # t) = rune_count s + Suc (rune_count t)"
  by (simp add: rune_count_def runes_sep)

lemma rune_count_taken: "rune_count (concat (take n (runes text))) = min n (rune_count text)"
proof -
  have "runes (concat (take n (runes text)) @ []) = take n (runes text) @ runes []"
    by (rule runes_concat) (auto dest: in_set_takeD intro: runes_valid)
  then show ?thesis by (simp add: rune_count_def min.commute)
qed

section \<open>Lemmas on markers\<close>

text \<open>The lengths of SHA-256 and HMAC-SHA256 values.\<close>

definition digest_sizes :: "digests \<Rightarrow> bool" where
  "digest_sizes dg \<longleftrightarrow> (\<forall>x. length (dg_sha256 dg x) = 32) \<and> (\<forall>key x. length (dg_hmac dg key x) = 32)"

lemma length_hex_encode [simp]: "length (hex_encode s) = 2 * length s"
  by (induction s) (simp_all add: hex_encode_Cons)

lemma plain_text_append [simp]: "plain_text (a @ b) \<longleftrightarrow> plain_text a \<and> plain_text b"
  by (simp add: plain_text_def)

lemma plain_hex: "plain_text (hex_encode s)"
proof -
  have "(of_char (hex_digit n) :: nat) < 128" if "n < 16" for n using that by (simp add: of_char_hex_digit)
  then have "(of_char d :: nat) < 128" if "d \<in> set (hex_byte c)" for c d
    using that hex_nibbles [of c] by (auto simp: hex_byte_def)
  then show ?thesis by (auto simp: plain_text_def list_all_iff hex_encode_def)
qed

lemma hmac_marker_size: "digest_sizes dg \<Longrightarrow> rune_count (hmac_marker dg key who) = 46"
  by (subst rune_count_plain_only)
    (simp_all only: hmac_marker_def plain_text_append plain_hex, simp_all add: hmacMarkerPrefix_def hmacMarkerHexLength_def
      hmacSHA256_def digest_sizes_def plain_text_def)

lemma legacy_comment_bounded: "digest_sizes dg \<Longrightarrow> rune_count (DNSRecordComment dg c ns gw) \<le> 100"
proof -
  assume "digest_sizes dg"
  then have "rune_count (''flareway sha256:'' @ hex_encode (dg_sha256 dg who)) = 80" for who
    by (subst rune_count_plain_only) (simp_all only: plain_text_append plain_hex, simp_all add: digest_sizes_def plain_text_def)
  then show ?thesis by (simp add: DNSRecordComment_def dnsRecordCommentLimit_def Let_def)
qed

lemma rune_count_space: "rune_count (s @ '' '' @ t) = rune_count s + Suc (rune_count t)"
  using rune_count_sep [of "CHR '' ''" s t] by simp

lemma one_space: "rune_count '' '' = 1"
  by code_simp

lemma signed_comment_bounded: "digest_sizes dg \<Longrightarrow> rune_count (SignDNSRecordComment dg key c ns gw) \<le> 100"
  using legacy_comment_bounded [of dg c ns gw] hmac_marker_size [of dg key]
  by (simp add: SignDNSRecordComment_def dnsRecordCommentLimit_def dnsRecordCommentSeparator_def one_space
      rune_count_space [simplified] Let_def)

lemma commented_bounded:
  assumes "rune_count owner \<le> 100"
  shows "rune_count (dnsRecordCommentWithText owner text) \<le> 100"
proof (cases "trim_space text = [] \<or> trim_space text = ManagedByTag \<or> rune_count owner = 100 \<or> rune_count owner = 99")
  case False
  let ?n = "nat (int dnsRecordCommentLimit - int (rune_count owner) - int (rune_count dnsRecordCommentSeparator))"
  have "dnsRecordCommentWithText owner text = owner @ '' '' @ concat (take ?n (runes (trim_space text))) \<or>
      dnsRecordCommentWithText owner text = owner"
    by (simp add: dnsRecordCommentWithText_def dnsRecordCommentSeparator_def Let_def)
  moreover have "rune_count (owner @ '' '' @ concat (take ?n (runes (trim_space text)))) \<le> 100"
    using assms False unfolding rune_count_space rune_count_taken
    by (auto simp: dnsRecordCommentLimit_def dnsRecordCommentSeparator_def one_space)
  ultimately show ?thesis using assms by auto
qed (use assms in \<open>auto simp: dnsRecordCommentWithText_def dnsRecordCommentLimit_def dnsRecordCommentSeparator_def one_space Let_def\<close>)

lemma commented_owned: "owner \<noteq> [] \<Longrightarrow> IsOwnedDNSRecord (r\<lparr>dn_Comment := dnsRecordCommentWithText owner text\<rparr>) owner"
  using has_prefix_append [of "owner @ dnsRecordCommentSeparator"]
  by (auto simp: IsOwnedDNSRecord_def dnsRecordCommentWithText_def Let_def)

lemma markers_nonempty: "DNSRecordComment dg c ns gw \<noteq> []" "SignDNSRecordComment dg key c ns gw \<noteq> []"
  by (auto simp: SignDNSRecordComment_def DNSRecordComment_def hmac_marker_def hmacMarkerPrefix_def Let_def)

lemma marker_members:
  "SignDNSRecordComment dg key c ns gw \<in> set (DNSRecordOwnershipMarkers dg key c ns gw)"
  "DNSRecordComment dg c ns gw \<in> set (DNSRecordOwnershipMarkers dg key c ns gw)"
  by (simp_all add: DNSRecordOwnershipMarkers_def Let_def)

lemma identity_inj:
  assumes "identity c ns n = identity c' ns' n'" and "CHR ''/'' \<notin> set c \<union> set c'" and "CHR ''/'' \<notin> set ns \<union> set ns'"
  shows "c = c' \<and> ns = ns' \<and> n = n'"
proof -
  have "c @ CHR ''/'' # (ns @ CHR ''/'' # n) = c' @ CHR ''/'' # (ns' @ CHR ''/'' # n')" using assms(1) by (simp add: identity_def)
  then have "c = c' \<and> ns @ CHR ''/'' # n = ns' @ CHR ''/'' # n'" by (rule cut_unique [rotated 2]) (use assms(2) in simp_all)
  then show ?thesis using cut_unique [of "CHR ''/''" ns ns' n n'] assms(3) by simp
qed

lemma owned_identity:
  assumes "IsOwnedPrivateResource comment c ns n" and "CHR '' '' \<notin> set c \<union> set ns \<union> set n"
  shows "takeWhile (\<lambda>x. x \<noteq> CHR '' '') (drop 9 comment) = identity c ns n"
proof -
  obtain rest where rest: "comment = ''flareway '' @ identity c ns n @ rest" "rest = [] \<or> (\<exists>t. rest = CHR '' '' # t)"
    using assms(1) by (auto simp: IsOwnedPrivateResource_def Let_def has_prefix_iff)
  have "CHR '' '' \<notin> set (identity c ns n)" using assms(2) by (auto simp: identity_def)
  then show ?thesis using rest(2) by (auto simp: rest(1) takeWhile_to_sep takeWhile_no_sep)
qed

section \<open>Properties of the markers\<close>

text \<open>
  C35: a DNS comment never exceeds the limit of 100 code points, whatever the names and the human text, and it begins with
  the ownership marker, which is never cut.
\<close>
theorem dns_comment_bounded:
  assumes "digest_sizes dg"
  shows "rune_count (SignDNSRecordCommentWithText dg key c ns gw text) \<le> 100 \<and>
    has_prefix (SignDNSRecordCommentWithText dg key c ns gw text) (SignDNSRecordComment dg key c ns gw) \<and>
    (\<forall>m \<in> set (DNSRecordOwnershipMarkers dg key c ns gw). rune_count m \<le> 100)"
proof -
  have "has_prefix (dnsRecordCommentWithText owner text) owner" for owner
    by (simp add: dnsRecordCommentWithText_def has_prefix_def Let_def)
  then show ?thesis
    using commented_bounded [OF signed_comment_bounded [OF assms]] signed_comment_bounded [OF assms] legacy_comment_bounded [OF assms]
    by (auto simp: SignDNSRecordCommentWithText_def DNSRecordOwnershipMarkers_def Let_def)
qed

text \<open>
  C32: a reader recognises what a writer wrote, across the migration to signed markers. A record whose comment was written
  for a Gateway, signed or plain and with any human text, is owned under one of the markers the reader accepts.
\<close>
theorem dns_marker_recognised:
  "list_ex (IsOwnedDNSRecord (r\<lparr>dn_Comment := SignDNSRecordCommentWithText dg key c ns gw text\<rparr>)) (DNSRecordOwnershipMarkers dg key c ns gw) \<and>
   list_ex (IsOwnedDNSRecord (r\<lparr>dn_Comment := DNSRecordCommentWithText dg c ns gw text\<rparr>)) (DNSRecordOwnershipMarkers dg key c ns gw)"
  unfolding list_ex_iff SignDNSRecordCommentWithText_def DNSRecordCommentWithText_def
  by (intro conjI; rule bexI, rule commented_owned, rule markers_nonempty, rule marker_members)

text \<open>
  Access tags. A signed tag uses exactly the 35 bytes Cloudflare allows and verifies for its object as signed, or as
  legacy when there is no key; the legacy tag of the object still verifies after a key exists; the same holds for bypass tags.
\<close>
theorem access_tags_verify:
  assumes "digest_sizes dg"
  shows "length (SignAccessOwnerTag dg key c ns n uid) = AccessTagNameMaxLength \<and>
    length (SignAccessBypassTag dg key parent child) = AccessTagNameMaxLength \<and>
    VerifyAccessOwnerTag dg (SignAccessOwnerTag dg key c ns n uid) key c ns n uid = (True, key = []) \<and>
    fst (VerifyAccessOwnerTag dg (SignAccessOwnerTag dg [] c ns n uid) key c ns n uid) \<and>
    VerifyAccessBypassTag dg (SignAccessBypassTag dg key parent child) key parent child = (True, key = []) \<and>
    fst (VerifyAccessBypassTag dg (SignAccessBypassTag dg [] parent child) key parent child)"
proof -
  have size: "length (signAccessDigestTag dg key p who) = AccessTagNameMaxLength" if "length p \<le> 35" for p who
    using that assms by (simp add: signAccessDigestTag_def digest_sizes_def hmacSHA256_def AccessTagNameMaxLength_def Let_def)
  show ?thesis
    by (simp add: SignAccessOwnerTag_def SignAccessBypassTag_def VerifyAccessOwnerTag_def VerifyAccessBypassTag_def
        verifyAccessDigestTag_def size AccessOwnerTagPrefix_def AccessBypassTagPrefix_def)
qed

text \<open>
  C31: a comment names one owner. When a network resource counts as owned by two objects whose cluster, namespace and name have
  neither a slash nor a space, the two are the same object.
\<close>
theorem private_owner_unique:
  assumes "IsOwnedPrivateResource comment c ns n" and "IsOwnedPrivateResource comment c' ns' n'"
    and "CHR '' '' \<notin> set (c @ ns @ n @ c' @ ns' @ n')" and "CHR ''/'' \<notin> set (c @ ns @ c' @ ns')"
  shows "c = c' \<and> ns = ns' \<and> n = n'"
  using owned_identity [OF assms(1)] owned_identity [OF assms(2)] assms(3,4) by (intro identity_inj) auto

text \<open>Digests of the right size, for examples.\<close>

definition constant_digests :: digests where
  "constant_digests = \<lparr>dg_sha256 = (\<lambda>_. replicate 32 CHR 0xA5), dg_hmac = (\<lambda>_ _. replicate 32 CHR 0x5A)\<rparr>"

lemma constant_digest_sizes: "digest_sizes constant_digests"
  by (simp add: digest_sizes_def constant_digests_def)

theorem dns_comment_bounded_witness:
  "rune_count (SignDNSRecordCommentWithText constant_digests ''k'' ''c'' ''ns'' ''gw'' (replicate 200 CHR ''x'')) \<le> 100"
  using dns_comment_bounded [OF constant_digest_sizes] by blast

theorem access_tags_verify_witness:
  "length (SignAccessOwnerTag constant_digests ''k'' ''c'' ''ns'' ''app'' ''uid'') = 35 \<and>
   VerifyAccessOwnerTag constant_digests (SignAccessOwnerTag constant_digests ''k'' ''c'' ''ns'' ''app'' ''uid'') ''k'' ''c'' ''ns'' ''app'' ''uid'' = (True, False)"
  using access_tags_verify [OF constant_digest_sizes, of "''k''" "''c''" "''ns''" "''app''" "''uid''" "[]" "[]"]
  by (simp add: AccessTagNameMaxLength_def)

theorem private_owner_unique_witness:
  "IsOwnedPrivateResource ''flareway c/ns/n | note'' ''c'' ''ns'' ''n'' \<and>
   \<not> IsOwnedPrivateResource ''flareway c/ns/n | note'' ''c'' ''ns'' ''m''"
proof -
  have owned: "IsOwnedPrivateResource ''flareway c/ns/n | note'' ''c'' ''ns'' ''n''" by code_simp
  then show ?thesis using private_owner_unique [OF owned, of "''c''" "''ns''" "''m''"] by auto
qed

section \<open>The signing key\<close>

text \<open>
  The Secret as the client returns it: its resource version and its data. The client's calls answer with an error or a
  result; a write also changes the state of the server. \<open>KubeError\<close> stands for every error other than the two the code tests.
\<close>

datatype kube_failure = NotFound string | AlreadyExists string | KubeError string

fun failure_text :: "kube_failure \<Rightarrow> string" where
  "failure_text (NotFound e) = e"
| "failure_text (AlreadyExists e) = e"
| "failure_text (KubeError e) = e"

record secret_object =
  so_key :: nsname
  so_version :: string
  so_data :: "(string, string) gomap"

record 's secret_client =
  sc_get :: "nsname \<Rightarrow> 's \<Rightarrow> kube_failure + secret_object"
  sc_create :: "nsname \<Rightarrow> (string, string) gomap \<Rightarrow> 's \<Rightarrow> kube_failure option \<times> 's"
  sc_update :: "secret_object \<Rightarrow> 's \<Rightarrow> kube_failure option \<times> 's"

definition SecretName :: string where "SecretName = ''flareway-ownership-key''"
definition SecretKey :: string where "SecretKey = ''key''"
definition KeyLengthBytes :: nat where "KeyLengthBytes = 32"

definition newKeyMaterial :: "string + string \<Rightarrow> string + string" where
  "newKeyMaterial random = (case random of Inl e \<Rightarrow> Inl (''generate ownership key: '' @ e) | Inr material \<Rightarrow> Inr material)"

definition secret_name :: "nsname \<Rightarrow> string" where
  "secret_name key = fst key @ ''/'' @ snd key"

definition stored_key :: "(string, string) gomap \<Rightarrow> string" where
  "stored_key data = mget_default data SecretKey []"

text \<open>
  \<^verbatim>\<open>GetOrCreateKey\<close> as the calls it makes, so that other callers can run in between: \<open>KeyStart\<close> is before the first read,
  \<open>KeyRepair\<close> holds the object that carries no valid key, \<open>KeyCreate\<close> is after a not-found answer, \<open>KeyReread\<close> after
  losing the race to create.
\<close>

datatype key_state = KeyStart | KeyRepair secret_object | KeyCreate | KeyReread | KeyDone "string + string"

definition start_step :: "'s secret_client \<Rightarrow> nsname \<Rightarrow> 's \<Rightarrow> key_state" where
  "start_step client key s =
     (case sc_get client key s of
        Inr current \<Rightarrow> if length (stored_key (so_data current)) = KeyLengthBytes then KeyDone (Inr (stored_key (so_data current)))
                       else KeyRepair current
      | Inl (NotFound e) \<Rightarrow> KeyCreate
      | Inl e \<Rightarrow> KeyDone (Inl (''get ownership key Secret '' @ secret_name key @ '': '' @ failure_text e)))"

definition repair_step :: "'s secret_client \<Rightarrow> nsname \<Rightarrow> string + string \<Rightarrow> secret_object \<Rightarrow> 's \<Rightarrow> key_state \<times> 's" where
  "repair_step client key random current s =
     (case newKeyMaterial random of
        Inl e \<Rightarrow> (KeyDone (Inl e), s)
      | Inr material \<Rightarrow>
          (case sc_update client (current\<lparr>so_data := mput SecretKey material (so_data current)\<rparr>) s of
             (Some e, s') \<Rightarrow> (KeyDone (Inl (''repair ownership key Secret '' @ secret_name key @ '': '' @ failure_text e)), s')
           | (None, s') \<Rightarrow> (KeyDone (Inr material), s')))"

definition create_step :: "'s secret_client \<Rightarrow> nsname \<Rightarrow> string + string \<Rightarrow> 's \<Rightarrow> key_state \<times> 's" where
  "create_step client key random s =
     (case newKeyMaterial random of
        Inl e \<Rightarrow> (KeyDone (Inl e), s)
      | Inr material \<Rightarrow>
          (case sc_create client key [(SecretKey, material)] s of
             (None, s') \<Rightarrow> (KeyDone (Inr material), s')
           | (Some (AlreadyExists e), s') \<Rightarrow> (KeyReread, s')
           | (Some e, s') \<Rightarrow> (KeyDone (Inl (''create ownership key Secret '' @ secret_name key @ '': '' @ failure_text e)), s')))"

definition reread_step :: "'s secret_client \<Rightarrow> nsname \<Rightarrow> 's \<Rightarrow> key_state" where
  "reread_step client key s =
     (case sc_get client key s of
        Inl e \<Rightarrow> KeyDone (Inl (''get concurrently created ownership key Secret '' @ secret_name key @ '': '' @ failure_text e))
      | Inr current \<Rightarrow>
          if length (stored_key (so_data current)) \<noteq> KeyLengthBytes
          then KeyDone (Inl (''concurrently created ownership key Secret '' @ secret_name key @ '' carries no valid key''))
          else KeyDone (Inr (stored_key (so_data current))))"

fun key_step :: "'s secret_client \<Rightarrow> nsname \<Rightarrow> string + string \<Rightarrow> key_state \<times> 's \<Rightarrow> key_state \<times> 's" where
  "key_step client key random (KeyStart, s) = (start_step client key s, s)"
| "key_step client key random (KeyRepair current, s) = repair_step client key random current s"
| "key_step client key random (KeyCreate, s) = create_step client key random s"
| "key_step client key random (KeyReread, s) = (reread_step client key s, s)"
| "key_step client key random (KeyDone r, s) = (KeyDone r, s)"

text \<open>One call that nobody interrupts: at most three calls to the server.\<close>

definition GetOrCreateKey :: "'s secret_client \<Rightarrow> string \<Rightarrow> string + string \<Rightarrow> 's \<Rightarrow> (string + string) option \<times> 's" where
  "GetOrCreateKey client operatorNamespace random s =
     (let step = key_step client (operatorNamespace, SecretName) random; (result, s') = step (step (step (KeyStart, s)))
      in (case result of KeyDone r \<Rightarrow> Some r | _ \<Rightarrow> None, s'))"

text \<open>The stable UID of a cluster; reading the Namespace gives an error or its UID.\<close>

definition ClusterID :: "(string \<Rightarrow> kube_failure + string) \<Rightarrow> string + string" where
  "ClusterID get =
     (case get ''kube-system'' of
        Inl e \<Rightarrow> Inl (''get kube-system namespace UID: '' @ failure_text e)
      | Inr uid \<Rightarrow> if uid = [] then Inl ''kube-system namespace has no UID'' else Inr uid)"

section \<open>Concurrent callers\<close>

text \<open>
  What the client promises for one Secret, with \<open>writes\<close> its versions, the newest first. A read may come from a cache: it
  returns some version, not always the newest, or fails. A creation succeeds only when there is none; an update succeeds only on the newest
  version and writes one under a new version; a failed write may or may not have taken effect.
\<close>

definition secret_laws :: "'s secret_client \<Rightarrow> nsname \<Rightarrow> ('s \<Rightarrow> (string \<times> (string, string) gomap) list) \<Rightarrow> bool" where
  "secret_laws client key writes \<longleftrightarrow>
     (\<forall>s current. sc_get client key s = Inr current \<longrightarrow>
        so_key current = key \<and> (so_version current, so_data current) \<in> set (writes s)) \<and>
     (\<forall>data s r s'. sc_create client key data s = (r, s') \<longrightarrow>
        r \<noteq> None \<and> writes s' = writes s \<or> writes s = [] \<and> (\<exists>v. writes s' = [(v, data)])) \<and>
     (\<forall>current s r s'. so_key current = key \<and> sc_update client current s = (r, s') \<longrightarrow>
        r \<noteq> None \<and> writes s' = writes s \<or>
        (\<exists>data ws v. writes s = (so_version current, data) # ws \<and> v \<notin> fst ` set (writes s) \<and>
           writes s' = (v, so_data current) # writes s))"

text \<open>
  The key of the newest version, the changes that keep it, and the histories in which no older version carries another valid key.
\<close>

definition is_current_key :: "(string \<times> (string, string) gomap) list \<Rightarrow> string \<Rightarrow> bool" where
  "is_current_key ws k \<longleftrightarrow> length k = KeyLengthBytes \<and> (case ws of [] \<Rightarrow> False | (v, data) # _ \<Rightarrow> stored_key data = k)"

definition allowed_change :: "(string \<times> (string, string) gomap) list \<Rightarrow> (string \<times> (string, string) gomap) list \<Rightarrow> bool" where
  "allowed_change ws ws' \<longleftrightarrow> ws' = ws \<or>
     (\<exists>v data. ws' = (v, data) # ws \<and> v \<notin> fst ` set ws \<and> (\<forall>k. is_current_key ws k \<longrightarrow> stored_key data = k))"

definition key_history :: "(string \<times> (string, string) gomap) list \<Rightarrow> bool" where
  "key_history ws \<longleftrightarrow> distinct (map fst ws) \<and>
     (\<forall>(v, data) \<in> set ws. length (stored_key data) = KeyLengthBytes \<longrightarrow> is_current_key ws (stored_key data))"

text \<open>
  Any number of callers, each making its next call whenever it likes, with fresh randomness of the right length or an
  error from the random source. In between others may write the Secret as well, as long as they keep a valid key, and the rest of the
  state, such as what the cache has seen, may change in any way.
\<close>

inductive key_run :: "'s secret_client \<Rightarrow> nsname \<Rightarrow> ('s \<Rightarrow> (string \<times> (string, string) gomap) list) \<Rightarrow> 's \<Rightarrow> (nat \<Rightarrow> key_state) \<Rightarrow> 's \<Rightarrow> bool"
  for client :: "'s secret_client" and key :: nsname and writes :: "'s \<Rightarrow> (string \<times> (string, string) gomap) list" and start :: 's where
  key_run_start: "key_run client key writes start (\<lambda>_. KeyStart) start"
| key_run_call: "key_run client key writes start callers s \<Longrightarrow> \<forall>m. random = Inr m \<longrightarrow> length m = KeyLengthBytes \<Longrightarrow>
    key_step client key random (callers i, s) = (next_state, s') \<Longrightarrow> key_run client key writes start (callers(i := next_state)) s'"
| key_run_other: "key_run client key writes start callers s \<Longrightarrow> allowed_change (writes s) (writes s') \<Longrightarrow>
    key_run client key writes start callers s'"

text \<open>What a caller's position says about the versions.\<close>

definition holds_repair :: "nsname \<Rightarrow> (string \<times> (string, string) gomap) list \<Rightarrow> secret_object \<Rightarrow> bool" where
  "holds_repair key ws current \<longleftrightarrow> so_key current = key \<and> (so_version current, so_data current) \<in> set ws \<and>
     length (stored_key (so_data current)) \<noteq> KeyLengthBytes"

definition caller_ok :: "nsname \<Rightarrow> (string \<times> (string, string) gomap) list \<Rightarrow> key_state \<Rightarrow> bool" where
  "caller_ok key ws st \<longleftrightarrow>
     (case st of KeyRepair current \<Rightarrow> holds_repair key ws current | KeyDone (Inr k) \<Rightarrow> is_current_key ws k | _ \<Rightarrow> True)"

lemma stored_key_put [simp]: "stored_key (mput SecretKey m data) = m" "stored_key [(SecretKey, m)] = m"
  by (simp_all add: stored_key_def mget_default_def)

lemma caller_done: "caller_ok key ws (KeyDone (Inr k)) \<longleftrightarrow> is_current_key ws k"
  by (simp add: caller_ok_def)

text \<open>The allowed changes keep the current key, and with it every history and every caller.\<close>

lemma current_kept: "is_current_key ws k \<Longrightarrow> allowed_change ws ws' \<Longrightarrow> is_current_key ws' k"
  by (auto simp: allowed_change_def is_current_key_def)

lemma history_kept:
  assumes "key_history ws" and "allowed_change ws ws'"
  shows "key_history ws'"
proof -
  have "is_current_key ws' (stored_key data)" if "(v, data) \<in> set ws'" "length (stored_key data) = KeyLengthBytes" for v data
  proof (cases "(v, data) \<in> set ws")
    case True
    then show ?thesis using that(2) assms current_kept by (fastforce simp: key_history_def)
  next
    case False
    then show ?thesis using that assms(2) by (auto simp: allowed_change_def is_current_key_def)
  qed
  moreover have "distinct (map fst ws')" using assms by (auto simp: allowed_change_def key_history_def)
  ultimately show ?thesis by (auto simp: key_history_def)
qed

lemma caller_kept:
  assumes "caller_ok key ws st" and "allowed_change ws ws'"
  shows "caller_ok key ws' st"
  using assms current_kept [OF _ assms(2)]
  by (auto simp: caller_ok_def allowed_change_def holds_repair_def split: key_state.splits sum.splits)

lemma read_law:
  assumes "secret_laws client key writes" and "sc_get client key s = Inr current"
  shows "so_key current = key \<and> (so_version current, so_data current) \<in> set (writes s)"
  using assms by (auto simp: secret_laws_def)

lemma create_law:
  assumes "secret_laws client key writes" and "sc_create client key data s = (r, s')"
  shows "r \<noteq> None \<and> writes s' = writes s \<or> writes s = [] \<and> (\<exists>v. writes s' = [(v, data)])"
  using assms by (auto simp: secret_laws_def)

lemma update_law:
  assumes "secret_laws client key writes" and "so_key current = key" and "sc_update client current s = (r, s')"
  shows "r \<noteq> None \<and> writes s' = writes s \<or>
        (\<exists>data ws v. writes s = (so_version current, data) # ws \<and> v \<notin> fst ` set (writes s) \<and>
           writes s' = (v, so_data current) # writes s)"
  using assms(1) [unfolded secret_laws_def, THEN conjunct2, THEN conjunct2, rule_format, OF conjI [OF assms(2,3)]] .

text \<open>However old the version a caller reads, a valid key in it is the current one.\<close>

lemma read_current:
  assumes "secret_laws client key writes" and "key_history (writes s)" and "sc_get client key s = Inr current"
    and "length (stored_key (so_data current)) = KeyLengthBytes"
  shows "is_current_key (writes s) (stored_key (so_data current))"
  using read_law [OF assms(1,3)] assms(2,4) by (auto simp: key_history_def)

lemma repair_step_ok:
  assumes "secret_laws client key writes" and "length m = KeyLengthBytes" and "key_history (writes s)"
    and held: "holds_repair key (writes s) current"
    and call: "sc_update client (current\<lparr>so_data := mput SecretKey m (so_data current)\<rparr>) s = (r, t)"
  shows "allowed_change (writes s) (writes t) \<and> (r = None \<longrightarrow> is_current_key (writes t) m)"
proof -
  let ?new = "current\<lparr>so_data := mput SecretKey m (so_data current)\<rparr>"
  have "so_key ?new = key" using held by (simp add: holds_repair_def)
  from update_law [OF assms(1) this call] consider "r \<noteq> None" "writes t = writes s"
    | data ws v where "writes s = (so_version current, data) # ws" "v \<notin> fst ` set (writes s)" "writes t = (v, so_data ?new) # writes s"
    by auto
  then show ?thesis
  proof cases
    case 2
    have "data = so_data current"
      using held assms(3) 2(1) by (auto simp: holds_repair_def key_history_def rev_image_eqI)
    then have "\<not> is_current_key (writes s) k" for k using held by (auto simp: holds_repair_def is_current_key_def 2(1))
    then have "allowed_change (writes s) (writes t)" using 2(2,3) by (auto simp: allowed_change_def)
    then show ?thesis using assms(2) by (simp add: is_current_key_def 2(3))
  qed (auto simp: allowed_change_def)
qed

lemma key_step_ok:
  assumes laws: "secret_laws client key writes" and "\<forall>m. random = Inr m \<longrightarrow> length m = KeyLengthBytes"
    and "key_history (writes s)" and "caller_ok key (writes s) st" and step: "key_step client key random (st, s) = (st', s')"
  shows "caller_ok key (writes s') st' \<and> allowed_change (writes s) (writes s')"
proof (cases st)
  case KeyStart
  then show ?thesis using step read_law [OF laws, of s] read_current [OF laws assms(3)]
    by (auto simp: start_step_def caller_ok_def holds_repair_def allowed_change_def split: sum.splits kube_failure.splits if_splits)
next
  case KeyReread
  then show ?thesis using step read_current [OF laws assms(3)]
    by (auto simp: reread_step_def caller_ok_def allowed_change_def split: sum.splits if_splits)
next
  case KeyCreate
  show ?thesis
  proof (cases random)
    case (Inr m)
    obtain r t where call: "sc_create client key [(SecretKey, m)] s = (r, t)" by fastforce
    show ?thesis using create_law [OF laws call] step KeyCreate Inr assms(2) call
      by (auto simp: create_step_def newKeyMaterial_def caller_ok_def is_current_key_def allowed_change_def
          split: option.splits kube_failure.splits)
  qed (use step KeyCreate in \<open>auto simp: create_step_def newKeyMaterial_def caller_ok_def allowed_change_def\<close>)
next
  case (KeyRepair current)
  have held: "holds_repair key (writes s) current" using assms(4) KeyRepair by (simp add: caller_ok_def)
  show ?thesis
  proof (cases random)
    case (Inr m)
    obtain r t where call: "sc_update client (current\<lparr>so_data := mput SecretKey m (so_data current)\<rparr>) s = (r, t)" by fastforce
    have "length m = KeyLengthBytes" using assms(2) Inr by simp
    from repair_step_ok [OF laws this assms(3) held call] show ?thesis using step KeyRepair Inr call
      by (cases r) (auto simp: repair_step_def newKeyMaterial_def caller_ok_def)
  qed (use step KeyRepair in \<open>auto simp: repair_step_def newKeyMaterial_def caller_ok_def allowed_change_def\<close>)
next
  case (KeyDone r)
  then show ?thesis using step assms(4) by (auto simp: allowed_change_def)
qed

lemma key_run_ok:
  assumes "key_run client key writes start callers s" and "secret_laws client key writes" and "key_history (writes start)"
  shows "key_history (writes s) \<and> (\<forall>i. caller_ok key (writes s) (callers i))"
  using assms(1)
proof induction
  case key_run_start
  then show ?case using assms(3) by (simp add: caller_ok_def)
next
  case (key_run_call callers s random i next_state s')
  then have step: "caller_ok key (writes s') next_state" "allowed_change (writes s) (writes s')"
    using key_step_ok [OF assms(2), of random s "callers i" next_state s'] by auto
  then show ?case using key_run_call.IH history_kept [OF _ step(2)] caller_kept [OF _ step(2)] by simp
next
  case (key_run_other callers s s')
  then show ?case using history_kept caller_kept by blast
qed

text \<open>
  C28: all callers agree on one key. However the calls of any number of callers interleave, whatever fails, and however stale the
  versions are that the cached client returns, every caller that returns a key returns the same one, of 32 bytes, and it
  is the key the Secret holds; this includes callers that repair a Secret without a valid key. Others may write the
  Secret in between. Assumed is that nobody deletes the Secret or replaces a valid key in it, and that at the start every valid
  key among its versions is the key of the newest.
\<close>
theorem ownership_keys_agree:
  assumes "secret_laws client key writes" and "key_history (writes start)" and "key_run client key writes start callers s"
    and "callers i = KeyDone (Inr k)" and "callers j = KeyDone (Inr k')"
  shows "k = k' \<and> length k = 32 \<and> (\<exists>v data ws. writes s = (v, data) # ws \<and> stored_key data = k)"
proof -
  have "is_current_key (writes s) k" "is_current_key (writes s) k'"
    using key_run_ok [OF assms(3,1,2), THEN conjunct2] assms(4,5) caller_done by metis+
  then show ?thesis by (auto simp: is_current_key_def KeyLengthBytes_def split: list.splits)
qed

text \<open>A server that keeps the versions of one Secret in a list, and the same behind a cache that is some versions behind.\<close>

type_synonym version_list = "(string \<times> (string, string) gomap) list"

definition fresh_version :: "version_list \<Rightarrow> string" where
  "fresh_version s = CHR ''v'' # concat (map fst s)"

definition list_client :: "version_list secret_client" where
  "list_client =
     \<lparr>sc_get = (\<lambda>key s. case s of [] \<Rightarrow> Inl (NotFound []) | (v, d) # _ \<Rightarrow> Inr \<lparr>so_key = key, so_version = v, so_data = d\<rparr>),
      sc_create = (\<lambda>key d s. if s = [] then (None, [(fresh_version s, d)]) else (Some (AlreadyExists []), s)),
      sc_update = (\<lambda>current s. case s of [] \<Rightarrow> (Some (NotFound []), s)
        | (v, d) # _ \<Rightarrow> if v = so_version current then (None, (fresh_version s, so_data current) # s) else (Some (KubeError []), s))\<rparr>"

definition cached_client :: "(nat \<times> version_list) secret_client" where
  "cached_client =
     \<lparr>sc_get = (\<lambda>key (lag, s). sc_get list_client key (drop lag s)),
      sc_create = (\<lambda>key d (lag, s). case sc_create list_client key d s of (r, s') \<Rightarrow> (r, (lag + length s' - length s, s'))),
      sc_update = (\<lambda>current (lag, s). case sc_update list_client current s of (r, s') \<Rightarrow> (r, (lag + length s' - length s, s')))\<rparr>"

lemma fresh_version_new: "fresh_version s \<notin> fst ` set s"
proof -
  have "length v \<le> length (concat (map fst s))" if "v \<in> fst ` set s" for v
    using that by (induction s) (auto intro: trans_le_add2)
  then show ?thesis unfolding fresh_version_def by fastforce
qed

lemma fresh_versions [simp]: "fresh_version ((v, d) # s) \<noteq> v" "(fresh_version ((v, d) # s), e) \<notin> set s"
  using fresh_version_new [of "(v, d) # s"] by force+

lemma cached_client_laws: "secret_laws cached_client key snd"
proof -
  have get: "so_key current = key \<and> (so_version current, so_data current) \<in> set s"
    if "sc_get list_client key (drop lag s) = Inr current" for lag s current
    using that set_drop_subset [of lag s] by (cases "drop lag s") (auto simp: list_client_def)
  have create: "r \<noteq> None \<and> s' = s \<or> s = [] \<and> (\<exists>v. s' = [(v, data)])"
    if "sc_create list_client key data s = (r, s')" for data s r s'
    using that by (auto simp: list_client_def split: if_splits)
  have update: "r \<noteq> None \<and> s' = s \<or>
      (\<exists>data ws v. s = (so_version current, data) # ws \<and> v \<notin> fst ` set s \<and> s' = (v, so_data current) # s)"
    if "sc_update list_client current s = (r, s')" for current s r s'
    using that fresh_version_new [of s] by (auto simp: list_client_def split: list.splits if_splits)
  show ?thesis
    unfolding secret_laws_def
  proof (intro conjI allI impI)
    fix current and s :: "nat \<times> version_list"
    assume "sc_get cached_client key s = Inr current"
    then show "so_key current = key" "(so_version current, so_data current) \<in> set (snd s)"
      using get [of "fst s" "snd s" current] by (simp_all add: cached_client_def split: prod.splits)
  next
    fix data r and s s' :: "nat \<times> version_list"
    assume "sc_create cached_client key data s = (r, s')"
    then show "r \<noteq> None \<and> snd s' = snd s \<or> snd s = [] \<and> (\<exists>v. snd s' = [(v, data)])"
      by (intro create) (auto simp: cached_client_def split: prod.splits)
  next
    fix current r and s s' :: "nat \<times> version_list"
    assume "so_key current = key \<and> sc_update cached_client current s = (r, s')"
    then show "r \<noteq> None \<and> snd s' = snd s \<or>
        (\<exists>data ws v. snd s = (so_version current, data) # ws \<and> v \<notin> fst ` set (snd s) \<and> snd s' = (v, so_data current) # snd s)"
      by (intro update) (auto simp: cached_client_def split: prod.splits)
  qed
qed

definition racing_callers :: "string \<Rightarrow> nat \<Rightarrow> key_state" where
  "racing_callers k = (\<lambda>_. KeyStart)(0 := KeyDone (Inr k), 1 := KeyDone (Inr k))"

text \<open>
  Two callers find no Secret; the first creates it, the second loses the race; the cache then sees the new Secret, somebody
  else adds a field to it, and the second caller reads the first version again.
\<close>

abbreviation racing_versions :: "string \<Rightarrow> version_list" where
  "racing_versions k \<equiv> [(''w'', [(SecretKey, k), (''note'', [])]), (''v'', [(SecretKey, k)])]"

lemma racing_run:
  fixes k m :: string
  assumes "length k = KeyLengthBytes" and "length m = KeyLengthBytes"
  shows "key_run cached_client key snd (0, []) (racing_callers k) (1, racing_versions k)"
proof -
  let ?run = "key_run cached_client key snd (0, [])" and ?idle = "\<lambda>_. KeyStart" and ?first = "[(''v'', [(SecretKey, k)])]"
  note steps = cached_client_def list_client_def start_step_def create_step_def reread_step_def newKeyMaterial_def fresh_version_def
  have "?run (?idle(0 := KeyCreate)) (0, [])"
    by (rule key_run_call [OF key_run_start, where random = "Inl []" and i = 0]) (simp_all add: steps)
  then have "?run (?idle(0 := KeyCreate, 1 := KeyCreate)) (0, [])"
    by (rule key_run_call [where random = "Inl []" and i = 1]) (simp_all add: steps)
  then have "?run ((?idle(0 := KeyCreate, 1 := KeyCreate))(0 := KeyDone (Inr k))) (1, ?first)"
    by (rule key_run_call [where random = "Inr k" and i = 0]) (simp_all add: steps assms)
  then have "?run ((?idle(0 := KeyCreate, 1 := KeyCreate))(0 := KeyDone (Inr k), 1 := KeyReread)) (1, ?first)"
    by (rule key_run_call [where random = "Inr m" and i = 1]) (simp_all add: steps assms)
  then have "?run ((?idle(0 := KeyCreate, 1 := KeyCreate))(0 := KeyDone (Inr k), 1 := KeyReread)) (1, racing_versions k)"
    by (rule key_run_other) (simp add: allowed_change_def is_current_key_def stored_key_def mget_default_def)
  then have "?run ((?idle(0 := KeyCreate, 1 := KeyCreate))(0 := KeyDone (Inr k), 1 := KeyReread, 1 := KeyDone (Inr k))) (1, racing_versions k)"
    by (rule key_run_call [where random = "Inl []" and i = 1]) (simp_all add: steps assms)
  then show ?thesis unfolding racing_callers_def by (simp add: fun_upd_twist)
qed

theorem ownership_keys_agree_witness:
  "key_run cached_client (''ns'', SecretName) snd (0, []) (racing_callers (replicate 32 CHR ''k'')) (1, racing_versions (replicate 32 CHR ''k'')) \<and>
   length (replicate 32 CHR ''k'') = 32 \<and> racing_callers (replicate 32 CHR ''k'') 1 = KeyDone (Inr (replicate 32 CHR ''k''))"
proof -
  have run: "key_run cached_client (''ns'', SecretName) snd (0, []) (racing_callers (replicate 32 CHR ''k'')) (1, racing_versions (replicate 32 CHR ''k''))"
    by (rule racing_run [of _ "replicate 32 CHR ''m''"]) (simp_all add: KeyLengthBytes_def)
  have "key_history (snd (0, [] :: version_list))" by (simp add: key_history_def)
  from ownership_keys_agree [OF cached_client_laws this run, of 0 "replicate 32 CHR ''k''" 1 "replicate 32 CHR ''k''"] run
  show ?thesis by (simp add: racing_callers_def)
qed

lemma key_call_done: "\<exists>r. fst (key_step client key random (key_step client key random (key_step client key random (KeyStart, s)))) = KeyDone r"
proof -
  have last: "\<exists>r. fst (key_step client key random (st, t)) = KeyDone r" if "st = KeyReread \<or> (\<exists>r. st = KeyDone r)" for st t
    using that by (auto simp: reread_step_def split: sum.splits)
  have mid: "fst (key_step client key random (st, t)) = KeyReread \<or> (\<exists>r. fst (key_step client key random (st, t)) = KeyDone r)"
    if "st \<noteq> KeyStart" for st t
    using that by (cases st) (auto simp: reread_step_def create_step_def repair_step_def split: sum.splits option.splits kube_failure.splits prod.splits)
  have first: "start_step client key s \<noteq> KeyStart" by (simp add: start_step_def split: sum.split kube_failure.split)
  show ?thesis using last [OF mid [OF first]] by (metis key_step.simps(1) prod.collapse)
qed

text \<open>
  A call always returns. Uninterrupted, it ends after at most three requests to the server, with an error or with a key,
  whatever the server answers.
\<close>
lemma key_call_returns: "\<exists>r. fst (GetOrCreateKey client operatorNamespace random s) = Some r"
  using key_call_done [of client "(operatorNamespace, SecretName)" random s]
  by (auto simp: GetOrCreateKey_def Let_def split: prod.splits)

end
