(* ===== verification/Sweep.thy ===== *)
theory Sweep
  imports FreshnessGate Ownership Authz ApiTypes
begin

text \<open>
  \<^verbatim>\<open>src/internal/sweep\<close>: \<^verbatim>\<open>types.go\<close>, \<^verbatim>\<open>classify.go\<close>, \<^verbatim>\<open>account_sweeper.go\<close>, \<^verbatim>\<open>sweeper.go\<close> and the registry of \<^verbatim>\<open>targets.go\<close>. A pass
  compares a complete remote listing with what the statuses record, and drift closes the freshness gate of the
  object through the latch of \<open>Freshness\<close>. The content check of a matched pair writes to the latch, so the classifier
  passes it along. Listings, clocks and random numbers are arguments; metrics and log lines are left out.
\<close>

section \<open>Types\<close>

datatype driftCase = DriftCaseOrphan | DriftCaseMissing | DriftCaseMismatch

record driftItem =
  di_Kind :: string
  di_TargetKind :: string
  di_Key :: namespacedName
  di_RemoteID :: string
  di_Case :: driftCase
  di_Reason :: string

record localRef =
  lr_kind :: string
  lr_key :: namespacedName
  lr_uid :: string
  lr_remoteID :: string
  lr_expectedName :: string
  lr_specName :: string
  lr_scope :: string

definition no_name :: namespacedName where
  "no_name = \<lparr>nn_Namespace = [], nn_Name = []\<rparr>"

section \<open>Classification\<close>

record ('r, 'o) classifyOptions =
  co_kind :: string
  co_idOf :: "'r \<Rightarrow> string"
  co_listed :: "localRef \<Rightarrow> bool"
  co_nameOf :: "'r \<Rightarrow> string"
  co_nameEqual :: "(string \<Rightarrow> string \<Rightarrow> bool) option"
  co_extra :: "(localRef \<Rightarrow> 'r \<Rightarrow> string) option"
  co_content :: "(localRef \<Rightarrow> 'r \<Rightarrow> 'o latch_ptr \<Rightarrow> bool \<times> 'o latch_ptr) option"
  co_orphan :: "('r \<Rightarrow> string set \<Rightarrow> namespacedName option) option"

definition contentMismatchReason :: string where
  "contentMismatchReason = ''remote content no longer matches the desired state last verified by the reconciler''"

definition names_differ :: "localRef \<Rightarrow> 'r \<Rightarrow> ('r, 'o) classifyOptions \<Rightarrow> bool" where
  "names_differ ref remote opts \<longleftrightarrow>
     lr_expectedName ref \<noteq> [] \<and>
     \<not> (case co_nameEqual opts of None \<Rightarrow> co_nameOf opts remote = lr_expectedName ref
         | Some eq \<Rightarrow> eq (co_nameOf opts remote) (lr_expectedName ref))"

definition extra_reason :: "localRef \<Rightarrow> 'r \<Rightarrow> ('r, 'o) classifyOptions \<Rightarrow> string" where
  "extra_reason ref remote opts = (case co_extra opts of None \<Rightarrow> [] | Some extra \<Rightarrow> extra ref remote)"

definition matchReason :: "localRef \<Rightarrow> 'r \<Rightarrow> ('r, 'o) classifyOptions \<Rightarrow> 'o latch_ptr \<Rightarrow> string \<times> 'o latch_ptr" where
  "matchReason ref remote opts latch =
     (if names_differ ref remote opts then
        (''remote name '' @ show_q (co_nameOf opts remote) @ '' does not match expected '' @ show_q (lr_expectedName ref), latch)
      else if extra_reason ref remote opts \<noteq> [] then (extra_reason ref remote opts, latch)
      else case co_content opts of
        None \<Rightarrow> ([], latch)
      | Some content \<Rightarrow>
          (case content ref remote latch of (drifted, latch') \<Rightarrow> (if drifted then contentMismatchReason else [], latch')))"

text \<open>A later remote with the same ID replaces an earlier one in the map.\<close>

definition remoteByID :: "('r \<Rightarrow> string) \<Rightarrow> 'r list \<Rightarrow> string \<Rightarrow> 'r option" where
  "remoteByID idOf remotes id' = List.find (\<lambda>r. idOf r = id') (rev remotes)"

definition claimed_ids :: "localRef list \<Rightarrow> string set" where
  "claimed_ids refs = set (filter (\<lambda>i. i \<noteq> []) (map lr_remoteID refs))"

definition ref_item :: "string \<Rightarrow> localRef \<Rightarrow> driftCase \<Rightarrow> string \<Rightarrow> driftItem" where
  "ref_item kind ref c reason =
     \<lparr>di_Kind = kind, di_TargetKind = lr_kind ref, di_Key = lr_key ref, di_RemoteID = lr_remoteID ref, di_Case = c, di_Reason = reason\<rparr>"

definition missing_reason :: string where
  "missing_reason = ''remote object recorded in status is absent from the listing''"

definition judge_ref :: "'r list \<Rightarrow> ('r, 'o) classifyOptions \<Rightarrow> localRef \<Rightarrow> 'o latch_ptr \<Rightarrow> driftItem list \<times> 'o latch_ptr" where
  "judge_ref remotes opts ref latch =
     (if lr_remoteID ref = [] \<or> \<not> co_listed opts ref then ([], latch)
      else case remoteByID (co_idOf opts) remotes (lr_remoteID ref) of
        None \<Rightarrow> ([ref_item (co_kind opts) ref DriftCaseMissing missing_reason], latch)
      | Some remote \<Rightarrow>
          (case matchReason ref remote opts latch of
             (reason, latch') \<Rightarrow> (if reason \<noteq> [] then [ref_item (co_kind opts) ref DriftCaseMismatch reason] else [], latch')))"

fun judge_refs :: "'r list \<Rightarrow> ('r, 'o) classifyOptions \<Rightarrow> localRef list \<Rightarrow> 'o latch_ptr \<Rightarrow> driftItem list \<times> 'o latch_ptr" where
  "judge_refs remotes opts [] latch = ([], latch)"
| "judge_refs remotes opts (ref # refs) latch =
     (case judge_ref remotes opts ref latch of
        (items, latch') \<Rightarrow> (case judge_refs remotes opts refs latch' of (rest, latch'') \<Rightarrow> (items @ rest, latch'')))"

definition orphan_item :: "string \<Rightarrow> namespacedName \<Rightarrow> string \<Rightarrow> driftItem" where
  "orphan_item kind key id' =
     \<lparr>di_Kind = kind, di_TargetKind = kind, di_Key = key, di_RemoteID = id', di_Case = DriftCaseOrphan,
      di_Reason = ''remote object carries a Flareway ownership marker but no matching Kubernetes object exists''\<rparr>"

definition judge_remote :: "localRef list \<Rightarrow> ('r, 'o) classifyOptions \<Rightarrow> 'r \<Rightarrow> driftItem list" where
  "judge_remote refs opts remote =
     (let id' = co_idOf opts remote in
      case co_orphan opts of
        None \<Rightarrow> []
      | Some orphan \<Rightarrow>
          if id' = [] \<or> id' \<in> claimed_ids refs then []
          else (case orphan remote (claimed_ids refs) of None \<Rightarrow> [] | Some key \<Rightarrow> [orphan_item (co_kind opts) key id']))"

definition classify :: "localRef list \<Rightarrow> 'r list \<Rightarrow> ('r, 'o) classifyOptions \<Rightarrow> 'o latch_ptr \<Rightarrow> driftItem list \<times> 'o latch_ptr" where
  "classify refs remotes opts latch =
     (case judge_refs remotes opts refs latch of
        (items, latch') \<Rightarrow> (items @ concat (map (judge_remote refs opts) remotes), latch'))"

section \<open>Generated names\<close>

definition accessRemoteNameValue :: "string \<Rightarrow> string \<Rightarrow> string \<Rightarrow> string" where
  "accessRemoteNameValue clusterID namespace specName = ''flareway/'' @ clusterID @ ''/'' @ namespace @ ''/'' @ specName"

text \<open>\<^verbatim>\<open>strings.SplitN(rest, "/", 3)\<close> with the checks on its parts.\<close>

definition split_three :: "string \<Rightarrow> (string \<times> string \<times> string) option" where
  "split_three rest =
     (case cut rest CHR ''/'' of
        (a, tail, True) \<Rightarrow>
          (case cut tail CHR ''/'' of
             (b, c, True) \<Rightarrow> if a = [] \<or> b = [] \<or> c = [] then None else Some (a, b, c)
           | _ \<Rightarrow> None)
      | _ \<Rightarrow> None)"

definition parseAccessRemoteName :: "string \<Rightarrow> (string \<times> string \<times> string) option" where
  "parseAccessRemoteName name =
     (if \<not> has_prefix name ''flareway/'' then None else split_three (trim_prefix name ''flareway/''))"

text \<open>\<^verbatim>\<open>strings.Cut\<close> with a separator of several bytes: the part before its first occurrence.\<close>

fun cut_before :: "string \<Rightarrow> string \<Rightarrow> string" where
  "cut_before [] sep = []"
| "cut_before (c # s) sep = (if has_prefix (c # s) sep then [] else c # cut_before s sep)"

definition parsePrivateOwnerComment :: "string \<Rightarrow> (string \<times> string \<times> string) option" where
  "parsePrivateOwnerComment comment =
     (let owner = cut_before comment '' | ''; rest = trim_prefix owner ''flareway '' in
      if \<not> has_prefix owner ''flareway '' then None
      else if has_prefix rest ''hmac:'' \<or> has_prefix rest ''sha256:'' then None
      else split_three rest)"

section \<open>Listing errors\<close>

text \<open>
  The errors the sweep tells apart with \<^verbatim>\<open>errors.Is\<close> and \<^verbatim>\<open>errors.As\<close>, which look through \<open>Wrapped\<close> (\<^verbatim>\<open>%w\<close>) and through
  \<open>Scoped\<close>, the aggregate of the failures of single zones, to their causes. The aggregate also matches the sentinel of an incomplete
  listing, so the order of the tests matters.
\<close>

datatype sweep_error = Canceled | DeadlineExceeded | RateLimitWait | StatusError int | IncompleteListing
  | Scoped "(string \<times> sweep_error) list" | Wrapped string sweep_error | OtherError string

fun unwrap :: "sweep_error \<Rightarrow> sweep_error" where
  "unwrap (Wrapped message e) = unwrap e"
| "unwrap e = e"

definition is_scoped :: "sweep_error \<Rightarrow> bool" where
  "is_scoped err = (case unwrap err of Scoped failures \<Rightarrow> True | _ \<Rightarrow> False)"

fun is_incomplete :: "sweep_error \<Rightarrow> bool" where
  "is_incomplete IncompleteListing = True"
| "is_incomplete (Scoped failures) = True"
| "is_incomplete (Wrapped message e) = is_incomplete e"
| "is_incomplete _ = False"

fun is_canceled :: "sweep_error \<Rightarrow> bool" where
  "is_canceled Canceled = True"
| "is_canceled (Scoped failures) = list_ex (\<lambda>(zone, e). is_canceled e) failures"
| "is_canceled (Wrapped message e) = is_canceled e"
| "is_canceled _ = False"

fun is_deadline :: "sweep_error \<Rightarrow> bool" where
  "is_deadline DeadlineExceeded = True"
| "is_deadline (Scoped failures) = list_ex (\<lambda>(zone, e). is_deadline e) failures"
| "is_deadline (Wrapped message e) = is_deadline e"
| "is_deadline _ = False"

fun is_rate_limit :: "sweep_error \<Rightarrow> bool" where
  "is_rate_limit RateLimitWait = True"
| "is_rate_limit (Scoped failures) = list_ex (\<lambda>(zone, e). is_rate_limit e) failures"
| "is_rate_limit (Wrapped message e) = is_rate_limit e"
| "is_rate_limit _ = False"

text \<open>The first API error in the tree of causes, depth first.\<close>

fun StatusCode :: "sweep_error \<Rightarrow> int option" where
  "StatusCode (StatusError status) = Some status"
| "StatusCode (Scoped failures) =
     (case concat (map (\<lambda>(zone, e). case StatusCode e of None \<Rightarrow> [] | Some status \<Rightarrow> [status]) failures) of
        [] \<Rightarrow> None | status # _ \<Rightarrow> Some status)"
| "StatusCode (Wrapped message e) = StatusCode e"
| "StatusCode _ = None"

definition listFailure :: "sweep_error \<Rightarrow> sweep_error" where
  "listFailure err =
     (if is_canceled err \<or> is_deadline err then err
      else case StatusCode err of
        Some status \<Rightarrow> if 400 \<le> status \<and> status < 500 then err else IncompleteListing
      | None \<Rightarrow> IncompleteListing)"

definition zoneFailureIsolatable :: "sweep_error \<Rightarrow> bool" where
  "zoneFailureIsolatable err =
     (if is_canceled err \<or> is_deadline err \<or> is_rate_limit err then False
      else case StatusCode err of
        None \<Rightarrow> True
      | Some status \<Rightarrow> status = 403 \<or> status = 404 \<or> 500 \<le> status)"

definition scopedListingErr :: "(string \<times> sweep_error) list \<Rightarrow> sweep_error option" where
  "scopedListingErr failures = (if failures = [] then None else Some (Scoped failures))"

section \<open>One pass\<close>

datatype sweep_result = SweepResultOK | SweepResultPartial | SweepResultError | SweepResultNone

text \<open>The items of a pass may be nil.\<close>

definition RunTargetOnce ::
  "driftItem list option \<times> sweep_error option \<Rightarrow> driftItem list option \<times> sweep_result \<times> sweep_error option" where
  "RunTargetOnce result =
     (case result of
        (items, Some err) \<Rightarrow>
          if is_canceled err then (None, SweepResultNone, Some err)
          else if is_scoped err then (items, SweepResultPartial, Some err)
          else if is_incomplete err then (None, SweepResultPartial, None)
          else (None, SweepResultError, Some err)
      | (None, None) \<Rightarrow> (None, SweepResultPartial, None)
      | (Some items, None) \<Rightarrow> (Some items, SweepResultOK, None))"

text \<open>
  The state a pass acts on: the latch (nil without an invalidator) and the buffered channel of wakeups, absent or with its
  capacity. An event carries the group and version only for a registered kind.
\<close>

record wakeup =
  wk_GVK :: "(string \<times> string \<times> string) option"
  wk_Namespace :: string
  wk_Name :: string

record 'o sweep_state =
  ss_latch :: "'o latch_ptr"
  ss_events :: "wakeup list option"
  ss_capacity :: nat

definition kindGVK :: "string list" where
  "kindGVK = [''AccessApplication'', ''AccessStandaloneApplication'', ''AccessCustomPage'', ''AccessGroup'',
     ''AccessInfrastructureTarget'', ''AccessPolicy'', ''CloudflareTunnel'', ''DevicePostureIntegration'', ''DevicePostureRule'',
     ''DeviceProfile'', ''HostnameRoute'', ''IdentityProvider'', ''NetworkRoute'', ''ServiceToken'', ''VirtualNetwork'',
     ''WARPConnector'', ''ZeroTrustGatewayPolicy'', ''ZeroTrustList'']"

definition wakeup_of :: "driftItem \<Rightarrow> wakeup" where
  "wakeup_of item =
     \<lparr>wk_GVK = (if di_TargetKind item \<in> set kindGVK then Some (''flareway.bhyoo.com'', ''v1alpha1'', di_TargetKind item) else None),
      wk_Namespace = nn_Namespace (di_Key item), wk_Name = nn_Name (di_Key item)\<rparr>"

definition emitEvent :: "driftItem \<Rightarrow> 'o sweep_state \<Rightarrow> 'o sweep_state" where
  "emitEvent item st =
     (case ss_events st of
        None \<Rightarrow> st
      | Some events \<Rightarrow> if length events < ss_capacity st then st\<lparr>ss_events := Some (events @ [wakeup_of item])\<rparr> else st)"

definition handle_item :: "driftItem \<Rightarrow> 'o sweep_state \<Rightarrow> 'o sweep_state" where
  "handle_item item st =
     (case di_Case item of
        DriftCaseOrphan \<Rightarrow> st
      | _ \<Rightarrow> emitEvent item (st\<lparr>ss_latch := Invalidate (di_TargetKind item) (di_Key item) (di_Reason item) (ss_latch st)\<rparr>))"

definition handleDriftResults :: "driftItem list \<Rightarrow> 'o sweep_state \<Rightarrow> 'o sweep_state" where
  "handleDriftResults items st = fold handle_item items st"

definition runTarget :: "driftItem list option \<times> sweep_error option \<Rightarrow> 'o sweep_state \<Rightarrow> 'o sweep_state" where
  "runTarget outcome st =
     (case RunTargetOnce outcome of
        (items, result, err) \<Rightarrow>
          (let safe = (case items of None \<Rightarrow> [] | Some xs \<Rightarrow> xs) in
           if (case err of None \<Rightarrow> False | Some e \<Rightarrow> is_canceled e) then st
           else if result = SweepResultPartial then handleDriftResults safe st
           else if err \<noteq> None then st
           else handleDriftResults safe st))"

text \<open>The content hook of a pass: none without a latch or without the start of the pass.\<close>

definition contentCheckWith :: "time \<Rightarrow> 'o latch_ptr \<Rightarrow> ('r \<Rightarrow> 'o) \<Rightarrow> (localRef \<Rightarrow> 'r \<Rightarrow> 'o latch_ptr \<Rightarrow> bool \<times> 'o latch_ptr) option" where
  "contentCheckWith start confirmer observe =
     (if confirmer = None \<or> time_is_zero start then None
      else Some (\<lambda>ref remote latch. ConfirmContent (lr_kind ref) (lr_key ref) (observe remote) start latch))"

definition contentCheck :: "time \<Rightarrow> 'r latch_ptr \<Rightarrow> (localRef \<Rightarrow> 'r \<Rightarrow> 'r latch_ptr \<Rightarrow> bool \<times> 'r latch_ptr) option" where
  "contentCheck start confirmer = contentCheckWith start confirmer (\<lambda>remote. remote)"

section \<open>Pacing\<close>

text \<open>\<^verbatim>\<open>rng.Int64N\<close> is the argument \<open>rng\<close>.\<close>

definition initialDelay :: "duration \<Rightarrow> (int \<Rightarrow> int) \<Rightarrow> duration" where
  "initialDelay ttl rng = (let bound = (if ttl > minute then minute else ttl) in if bound \<le> 1 then 0 else rng bound)"

definition jitteredInterval :: "duration \<Rightarrow> (int \<Rightarrow> int) \<Rightarrow> duration" where
  "jitteredInterval ttl rng = (let jitterBound = ttl div 5 in if jitterBound \<le> 0 then ttl else wrap64 (ttl + rng jitterBound))"

section \<open>The registry of targets\<close>

datatype controllerGroup = GatewayGroup | AccessGroup | PrivateNetworkGroup | DeviceGroup | OrganizationGroup

record controllerGroups =
  cg_Gateway :: bool
  cg_Access :: bool
  cg_PrivateNetwork :: bool
  cg_Device :: bool
  cg_Organization :: bool

fun group_enabled :: "controllerGroups \<Rightarrow> controllerGroup \<Rightarrow> bool" where
  "group_enabled groups GatewayGroup = cg_Gateway groups"
| "group_enabled groups AccessGroup = cg_Access groups"
| "group_enabled groups PrivateNetworkGroup = cg_PrivateNetwork groups"
| "group_enabled groups DeviceGroup = cg_Device groups"
| "group_enabled groups OrganizationGroup = cg_Organization groups"

definition sweepTargetRegistry :: "(string \<times> controllerGroup) list" where
  "sweepTargetRegistry =
     [(''AccessApplication'', AccessGroup), (''AccessStandaloneApplication'', AccessGroup), (''AccessPolicy'', AccessGroup),
      (''AccessGroup'', AccessGroup), (''ServiceToken'', AccessGroup), (''IdentityProvider'', AccessGroup),
      (''AccessCustomPage'', AccessGroup), (''AccessInfrastructureTarget'', AccessGroup), (''DNSRecord'', GatewayGroup),
      (''CloudflareTunnel'', GatewayGroup), (''ZeroTrustGatewayPolicy'', OrganizationGroup), (''ZeroTrustList'', OrganizationGroup),
      (''VirtualNetwork'', PrivateNetworkGroup), (''NetworkRoute'', PrivateNetworkGroup), (''HostnameRoute'', PrivateNetworkGroup),
      (''DeviceProfile'', DeviceGroup), (''DevicePostureRule'', AccessGroup), (''DevicePostureIntegration'', AccessGroup),
      (''WARPConnector'', PrivateNetworkGroup)]"

text \<open>The kind and grade of a target; \<open>None\<close> is the panic for a kind without a grade.\<close>

definition with_grade :: "string \<times> controllerGroup \<Rightarrow> (string \<times> grade) option" where
  "with_grade spec = map_option (\<lambda>g. (fst spec, g)) (GradeForKind (fst spec))"

fun all_some :: "'a option list \<Rightarrow> 'a list option" where
  "all_some [] = Some []"
| "all_some (None # xs) = None"
| "all_some (Some x # xs) = map_option ((#) x) (all_some xs)"

definition targetsForGroups :: "controllerGroups \<Rightarrow> (string \<times> grade) list option" where
  "targetsForGroups groups =
     (if \<not> cg_Gateway groups \<and> \<not> cg_Access groups \<and> \<not> cg_PrivateNetwork groups \<and> \<not> cg_Device groups \<and> \<not> cg_Organization groups
      then Some []
      else all_some (map with_grade (filter (\<lambda>spec. group_enabled groups (snd spec)) sweepTargetRegistry)))"

definition defaultTargets :: "(string \<times> grade) list option" where
  "defaultTargets = targetsForGroups \<lparr>cg_Gateway = True, cg_Access = True, cg_PrivateNetwork = True, cg_Device = True, cg_Organization = True\<rparr>"

section \<open>Sweepers of accounts\<close>

text \<open>What the sweep reads of an account, and a running sweeper with the token it was started with.\<close>

record sweepAccount =
  sa_Name :: string
  sa_AccountID :: string
  sa_SecretNamespace :: string
  sa_SecretName :: string
  sa_SecretKey :: string
  sa_Conditions :: "condition list"

record accountSweeper =
  as_AccountName :: string
  as_AccountID :: string
  as_Token :: string

definition condition_true :: "string \<Rightarrow> condition list \<Rightarrow> bool" where
  "condition_true type conditions =
     foldl (\<lambda>holds c. if cd_Type c = type then cd_Status c = ConditionStatusTrue else holds) False conditions"

definition isAccountReadyForSweep :: "sweepAccount \<Rightarrow> bool" where
  "isAccountReadyForSweep account \<longleftrightarrow>
     condition_true ''Accepted'' (sa_Conditions account) \<and> condition_true ''CredentialsValid'' (sa_Conditions account)"

text \<open>Reading a Secret through the cached client is the argument \<open>get\<close>.\<close>

definition resolveAccountToken :: "(nsname \<Rightarrow> string + (string, string) gomap) \<Rightarrow> sweepAccount \<Rightarrow> string + string" where
  "resolveAccountToken get account =
     (case get (sa_SecretNamespace account, sa_SecretName account) of
        Inl e \<Rightarrow> Inl e
      | Inr data \<Rightarrow>
          (let key = (if sa_SecretKey account = [] then ''token'' else sa_SecretKey account); token = mget_default data key [] in
           if token = [] then Inl (''secretKey '' @ show_q key @ '' not found'') else Inr token))"

definition ensureAccountSweeper ::
  "(nsname \<Rightarrow> string + (string, string) gomap) \<Rightarrow> sweepAccount \<Rightarrow> (string, accountSweeper) gomap \<Rightarrow> (string, accountSweeper) gomap" where
  "ensureAccountSweeper get account running =
     (if mget running (sa_Name account) \<noteq> None then running
      else case resolveAccountToken get account of
        Inl e \<Rightarrow> running
      | Inr token \<Rightarrow> mput (sa_Name account)
          \<lparr>as_AccountName = sa_Name account, as_AccountID = sa_AccountID account, as_Token = token\<rparr> running)"

definition reconcileAccounts ::
  "string + sweepAccount list \<Rightarrow> (nsname \<Rightarrow> string + (string, string) gomap) \<Rightarrow> (string, accountSweeper) gomap \<Rightarrow> (string, accountSweeper) gomap" where
  "reconcileAccounts listed get running =
     (case listed of
        Inl e \<Rightarrow> running
      | Inr accounts \<Rightarrow>
          (let ready = filter isAccountReadyForSweep accounts in
           filter (\<lambda>(name, s). name \<in> sa_Name ` set ready) (fold (ensureAccountSweeper get) ready running)))"

definition stopAll :: "(string, accountSweeper) gomap \<Rightarrow> (string, accountSweeper) gomap" where
  "stopAll running = []"

section \<open>Lemmas on classification\<close>

lemma remoteByID_None: "remoteByID idOf remotes i = None \<longleftrightarrow> i \<notin> idOf ` set remotes"
  by (auto simp: remoteByID_def find_None_iff)

lemma remoteByID_Some: "remoteByID idOf remotes i = Some r \<Longrightarrow> r \<in> set remotes \<and> idOf r = i"
  by (auto simp: remoteByID_def find_Some_iff) (metis nth_mem set_rev length_rev)

lemma judge_refs_sound:
  "i \<in> set (fst (judge_refs remotes opts refs latch)) \<Longrightarrow> \<exists>ref \<in> set refs. \<exists>lp. i \<in> set (fst (judge_ref remotes opts ref lp))"
proof (induction refs arbitrary: latch)
  case (Cons ref refs)
  obtain items lp where one: "judge_ref remotes opts ref latch = (items, lp)" by fastforce
  then have "i \<in> set items \<or> i \<in> set (fst (judge_refs remotes opts refs lp))" using Cons.prems by (auto split: prod.splits)
  then show ?case using Cons.IH one by (metis fst_conv list.set_intros)
qed simp

lemma judge_refs_all:
  "ref \<in> set refs \<Longrightarrow> \<exists>lp. set (fst (judge_ref remotes opts ref lp)) \<subseteq> set (fst (judge_refs remotes opts refs latch))"
proof (induction refs arbitrary: latch)
  case (Cons r refs)
  obtain items lp where one: "judge_ref remotes opts r latch = (items, lp)" by fastforce
  have all: "set (fst (judge_refs remotes opts (r # refs) latch)) = set items \<union> set (fst (judge_refs remotes opts refs lp))"
    by (simp add: one split: prod.split)
  show ?case
  proof (cases "ref = r")
    case True
    then show ?thesis unfolding all using one by (intro exI [of _ latch]) simp
  next
    case False
    then show ?thesis unfolding all using Cons.IH [of lp] Cons.prems by auto
  qed
qed simp

lemma judge_ref_missing:
  assumes "lr_remoteID ref \<noteq> []" and "co_listed opts ref" and "lr_remoteID ref \<notin> co_idOf opts ` set remotes"
  shows "fst (judge_ref remotes opts ref latch) = [ref_item (co_kind opts) ref DriftCaseMissing missing_reason]"
proof -
  have "remoteByID (co_idOf opts) remotes (lr_remoteID ref) = None" using assms(3) by (simp add: remoteByID_None)
  then show ?thesis using assms(1,2) by (simp add: judge_ref_def)
qed

text \<open>What an item of the first loop says about its reference.\<close>

definition ref_item_ok :: "'r list \<Rightarrow> ('r, 'o) classifyOptions \<Rightarrow> localRef \<Rightarrow> driftItem \<Rightarrow> bool" where
  "ref_item_ok remotes opts ref i \<longleftrightarrow>
     i = ref_item (co_kind opts) ref (di_Case i) (di_Reason i) \<and> lr_remoteID ref \<noteq> [] \<and> co_listed opts ref \<and>
     (di_Case i = DriftCaseMissing \<and> lr_remoteID ref \<notin> co_idOf opts ` set remotes \<or>
      di_Case i = DriftCaseMismatch \<and> di_Reason i \<noteq> [] \<and>
        (\<exists>remote \<in> set remotes. co_idOf opts remote = lr_remoteID ref \<and>
           (\<exists>latch. fst (matchReason ref remote opts latch) = di_Reason i)))"

lemma judge_ref_ok: "i \<in> set (fst (judge_ref remotes opts ref latch)) \<Longrightarrow> ref_item_ok remotes opts ref i"
  by (auto simp: judge_ref_def ref_item_ok_def ref_item_def remoteByID_None missing_reason_def
      split: if_splits option.splits prod.splits dest!: remoteByID_Some) (metis fst_conv)+

lemma judge_remote_mem:
  "i \<in> set (judge_remote refs opts remote) \<longleftrightarrow>
     co_idOf opts remote \<noteq> [] \<and> co_idOf opts remote \<notin> claimed_ids refs \<and>
     (\<exists>orphan key. co_orphan opts = Some orphan \<and> orphan remote (claimed_ids refs) = Some key \<and>
        i = orphan_item (co_kind opts) key (co_idOf opts remote))"
  by (cases "co_orphan opts"; cases "the (co_orphan opts) remote (claimed_ids refs)") (auto simp: judge_remote_def Let_def)

section \<open>Properties of a pass\<close>

text \<open>
  C30: a classification judges only what the listing covers. Every item is about a reference with a recorded remote ID in a
  listed scope, and is missing exactly when no listed remote has that ID, or else a mismatch with a listed remote; or it is an orphan whose
  ID no reference claims and which the kind's marker check attributes. Conversely, every covered reference without a remote
  is reported missing, and every unclaimed remote that the marker check attributes is reported as an orphan.
\<close>
theorem classify_exact:
  assumes "classify refs remotes opts latch = (items, latch')"
  shows "(\<forall>i \<in> set items. (\<exists>ref \<in> set refs. ref_item_ok remotes opts ref i) \<or>
      (\<exists>remote \<in> set remotes. i \<in> set (judge_remote refs opts remote) \<and> di_Case i = DriftCaseOrphan \<and>
         (\<forall>ref \<in> set refs. lr_remoteID ref \<noteq> di_RemoteID i))) \<and>
    (\<forall>ref \<in> set refs. lr_remoteID ref \<noteq> [] \<and> co_listed opts ref \<and> lr_remoteID ref \<notin> co_idOf opts ` set remotes \<longrightarrow>
       ref_item (co_kind opts) ref DriftCaseMissing missing_reason \<in> set items) \<and>
    (\<forall>remote \<in> set remotes. \<forall>orphan key. co_idOf opts remote \<noteq> [] \<and> co_idOf opts remote \<notin> lr_remoteID ` set refs \<and>
       co_orphan opts = Some orphan \<and> orphan remote (claimed_ids refs) = Some key \<longrightarrow>
       orphan_item (co_kind opts) key (co_idOf opts remote) \<in> set items)"
proof -
  have items: "set items = set (fst (judge_refs remotes opts refs latch)) \<union> (\<Union>remote \<in> set remotes. set (judge_remote refs opts remote))"
    using assms by (auto simp: classify_def split: prod.splits)
  have orphans: "di_Case i = DriftCaseOrphan \<and> (\<forall>ref \<in> set refs. lr_remoteID ref \<noteq> di_RemoteID i)"
    if "i \<in> set (judge_remote refs opts remote)" for i remote
    using that by (auto simp: judge_remote_mem orphan_item_def claimed_ids_def image_iff)
  have ref_items: "\<exists>ref \<in> set refs. ref_item_ok remotes opts ref i" if "i \<in> set (fst (judge_refs remotes opts refs latch))" for i
    using judge_refs_sound [OF that] judge_ref_ok by blast
  have missing: "ref_item (co_kind opts) ref DriftCaseMissing missing_reason \<in> set (fst (judge_refs remotes opts refs latch))"
    if "ref \<in> set refs" "lr_remoteID ref \<noteq> []" "co_listed opts ref" "lr_remoteID ref \<notin> co_idOf opts ` set remotes" for ref
    using judge_refs_all [OF that(1), of remotes opts latch] judge_ref_missing [OF that(2-4)] by auto
  have found: "orphan_item (co_kind opts) key (co_idOf opts remote) \<in> set (judge_remote refs opts remote)"
    if "co_idOf opts remote \<noteq> []" "co_idOf opts remote \<notin> lr_remoteID ` set refs"
      "co_orphan opts = Some orphan" "orphan remote (claimed_ids refs) = Some key" for remote orphan key
    using that by (auto simp: judge_remote_mem claimed_ids_def)
  have "\<forall>i \<in> set items. (\<exists>ref \<in> set refs. ref_item_ok remotes opts ref i) \<or>
      (\<exists>remote \<in> set remotes. i \<in> set (judge_remote refs opts remote) \<and> di_Case i = DriftCaseOrphan \<and>
         (\<forall>ref \<in> set refs. lr_remoteID ref \<noteq> di_RemoteID i))"
    unfolding items using orphans ref_items by blast
  moreover have "\<forall>ref \<in> set refs. lr_remoteID ref \<noteq> [] \<and> co_listed opts ref \<and> lr_remoteID ref \<notin> co_idOf opts ` set remotes \<longrightarrow>
       ref_item (co_kind opts) ref DriftCaseMissing missing_reason \<in> set items"
    unfolding items using missing by simp
  moreover have "\<forall>remote \<in> set remotes. \<forall>orphan key. co_idOf opts remote \<noteq> [] \<and> co_idOf opts remote \<notin> lr_remoteID ` set refs \<and>
       co_orphan opts = Some orphan \<and> orphan remote (claimed_ids refs) = Some key \<longrightarrow>
       orphan_item (co_kind opts) key (co_idOf opts remote) \<in> set items"
    unfolding items using found by blast
  ultimately show ?thesis by blast
qed

section \<open>Lemmas on dispatch\<close>

definition invalidations :: "driftItem list \<Rightarrow> (string \<times> namespacedName \<times> string) list" where
  "invalidations items =
     map (\<lambda>i. (di_TargetKind i, di_Key i, di_Reason i)) (filter (\<lambda>i. di_Case i \<noteq> DriftCaseOrphan) items)"

lemma emit_fields [simp]:
  "ss_latch (emitEvent i st) = ss_latch st" "ss_capacity (emitEvent i st) = ss_capacity st"
  by (simp_all add: emitEvent_def split: option.split)

lemma handle_latch:
  "ss_latch (handleDriftResults items st) = fold (\<lambda>(kind, key, reason). Invalidate kind key reason) (invalidations items) (ss_latch st)"
  by (induction items arbitrary: st) (auto simp: handleDriftResults_def handle_item_def invalidations_def split: driftCase.split)

text \<open>Wakeups are appended while there is room and never removed.\<close>

definition events_ok :: "'o sweep_state \<Rightarrow> 'o sweep_state \<Rightarrow> bool" where
  "events_ok st st' \<longleftrightarrow> ss_capacity st' = ss_capacity st \<and>
     (case ss_events st of
        None \<Rightarrow> ss_events st' = None
      | Some events \<Rightarrow> \<exists>added. ss_events st' = Some (events @ added) \<and> (length events \<le> ss_capacity st \<longrightarrow> length (events @ added) \<le> ss_capacity st))"

lemma events_ok_refl: "events_ok st st"
  by (auto simp: events_ok_def split: option.split)

lemma events_ok_trans: "events_ok a b \<Longrightarrow> events_ok b c \<Longrightarrow> events_ok a c"
  by (auto simp: events_ok_def split: option.splits)

lemma handle_item_events: "events_ok st (handle_item i st)"
  by (auto simp: events_ok_def handle_item_def emitEvent_def split: driftCase.split option.split)

lemma handle_events: "events_ok st (handleDriftResults items st)"
proof (induction items arbitrary: st)
  case (Cons i items)
  then show ?case using events_ok_trans [OF handle_item_events [of st i] Cons.IH] by (simp add: handleDriftResults_def)
qed (simp add: handleDriftResults_def events_ok_refl)

lemma handled_invalid:
  assumes "ss_latch st \<noteq> None"
  shows "IsInvalidated kind key (ss_latch (handleDriftResults items st)) \<longleftrightarrow>
    (\<exists>i \<in> set items. di_Case i \<noteq> DriftCaseOrphan \<and> di_TargetKind i = kind \<and> di_Key i = key) \<or> IsInvalidated kind key (ss_latch st)"
  unfolding handle_latch latch.fold_invalidate [OF assms] by (auto simp: invalidations_def)

lemma invalidated_gate_closed:
  assumes "policy_ok policy" and "IsInvalidated kind key latch"
  shows "\<not> gate_Open (gd_Gate (fst (evaluateGateWithHash policy latch grade kind key ah dh appliedAt now)))"
  using settled_open_conditions [OF assms(1), of latch grade kind key ah dh appliedAt now] assms(2) by (auto simp: settled_gate_def)

text \<open>
  C29: drift closes the gate, and nothing else does. After a pass is handled exactly the objects with a missing or mismatched
  item, and those that already were, are invalidated, so their gate stays closed at any time, with any stamp; orphans leave the latch alone. This
  does not depend on the wakeups, which are kept within the capacity of the channel and never displace earlier ones.
\<close>
theorem drift_closes_gate:
  assumes "ss_latch st \<noteq> None" and "policy_ok policy"
  shows "(IsInvalidated kind key (ss_latch (handleDriftResults items st)) \<longleftrightarrow>
      (\<exists>i \<in> set items. di_Case i \<noteq> DriftCaseOrphan \<and> di_TargetKind i = kind \<and> di_Key i = key) \<or> IsInvalidated kind key (ss_latch st)) \<and>
    ((\<exists>i \<in> set items. di_Case i \<noteq> DriftCaseOrphan \<and> di_TargetKind i = kind \<and> di_Key i = key) \<longrightarrow>
      \<not> gate_Open (gd_Gate (fst (evaluateGateWithHash policy (ss_latch (handleDriftResults items st)) grade kind key ah dh appliedAt now)))) \<and>
    events_ok st (handleDriftResults items st)"
proof -
  note invalid = handled_invalid [OF assms(1), of kind key items]
  have "\<not> gate_Open (gd_Gate (fst (evaluateGateWithHash policy (ss_latch (handleDriftResults items st)) grade kind key ah dh appliedAt now)))"
    if "\<exists>i \<in> set items. di_Case i \<noteq> DriftCaseOrphan \<and> di_TargetKind i = kind \<and> di_Key i = key"
    using invalidated_gate_closed [OF assms(2)] invalid that by blast
  then show ?thesis using invalid handle_events by blast
qed

lemma is_canceled_unwrap: "is_canceled (unwrap e) = is_canceled e"
  by (induction e rule: unwrap.induct) simp_all

lemma runTarget_error:
  "runTarget (items, Some e) st =
     (if is_scoped e \<and> \<not> is_canceled e then handleDriftResults (case items of None \<Rightarrow> [] | Some xs \<Rightarrow> xs) st else st)"
  by (cases items) (simp_all add: runTarget_def RunTargetOnce_def handleDriftResults_def)

lemma runTarget_complete: "runTarget (items, None) st = handleDriftResults (case items of None \<Rightarrow> [] | Some xs \<Rightarrow> xs) st"
  by (cases items) (simp_all add: runTarget_def RunTargetOnce_def)

text \<open>
  C33: a pass without a complete listing is not acted on. Whatever the target returns, either the state is unchanged, or the
  items of a complete listing or of the completed scopes of a scoped listing are handled, although a scoped listing also
  counts as incomplete; a cancelled pass, an incomplete listing, a nil item list and every other error change nothing, even when
  items come with the error. Errors may be wrapped any number of times.
\<close>
theorem pass_fails_closed:
  "runTarget (items, err) st =
     (case (items, map_option unwrap err) of
        (Some xs, None) \<Rightarrow> handleDriftResults xs st
      | (Some xs, Some (Scoped failures)) \<Rightarrow>
          if list_ex (\<lambda>(zone, e). is_canceled e) failures then st else handleDriftResults xs st
      | _ \<Rightarrow> st)"
proof (cases err)
  case None
  then show ?thesis by (cases items) (simp_all add: runTarget_complete handleDriftResults_def)
next
  case (Some e)
  show ?thesis unfolding Some runTarget_error using is_canceled_unwrap [of e]
    by (cases items; cases "unwrap e") (auto simp: is_scoped_def handleDriftResults_def)
qed

section \<open>Lemmas on names\<close>

lemma cut_found: "cut s c = (a, b, True) \<longleftrightarrow> s = a @ c # b \<and> c \<notin> set a"
proof
  assume h: "cut s c = (a, b, True)"
  then obtain p q where s: "s = p @ c # q" "c \<notin> set p" by (auto simp: cut_def dest: split_list_first)
  then show "s = a @ c # b \<and> c \<notin> set a" using h by simp
qed simp

lemma split_three_iff:
  "split_three s = Some (a, b, c) \<longleftrightarrow>
     s = a @ ''/'' @ b @ ''/'' @ c \<and> CHR ''/'' \<notin> set a \<union> set b \<and> a \<noteq> [] \<and> b \<noteq> [] \<and> c \<noteq> []"
proof
  assume "split_three s = Some (a, b, c)"
  then show "s = a @ ''/'' @ b @ ''/'' @ c \<and> CHR ''/'' \<notin> set a \<union> set b \<and> a \<noteq> [] \<and> b \<noteq> [] \<and> c \<noteq> []"
    by (auto simp: split_three_def cut_found split: prod.splits bool.splits if_splits)
next
  assume "s = a @ ''/'' @ b @ ''/'' @ c \<and> CHR ''/'' \<notin> set a \<union> set b \<and> a \<noteq> [] \<and> b \<noteq> [] \<and> c \<noteq> []"
  then show "split_three s = Some (a, b, c)" by (simp add: split_three_def)
qed

lemma cut_before_whole: "sep \<noteq> [] \<Longrightarrow> hd sep \<notin> set s \<Longrightarrow> cut_before s sep = s"
  by (induction s) (auto simp: has_prefix_iff neq_Nil_conv)

lemma cut_before_sep: "sep \<noteq> [] \<Longrightarrow> hd sep \<notin> set s \<Longrightarrow> cut_before (s @ sep @ t) sep = s"
proof (induction s)
  case Nil
  then obtain c u where "sep = c # u" by (cases sep) auto
  then show ?case using has_prefix_append [of sep t] by simp
next
  case (Cons x s)
  then show ?case by (auto simp: has_prefix_iff neq_Nil_conv)
qed

section \<open>Properties of generated names\<close>

text \<open>
  Generated Access names are read back exactly. A name parses to a cluster, a namespace and an object name precisely when it is the name generated for
  them, the first two parts have no slash and no part is empty; the object name may contain slashes.
\<close>
theorem access_remote_name_roundtrip:
  "parseAccessRemoteName name = Some (clusterID, namespace, specName) \<longleftrightarrow>
     name = accessRemoteNameValue clusterID namespace specName \<and> CHR ''/'' \<notin> set clusterID \<union> set namespace \<and>
     clusterID \<noteq> [] \<and> namespace \<noteq> [] \<and> specName \<noteq> []"
proof -
  have "parseAccessRemoteName name = Some (clusterID, namespace, specName) \<longleftrightarrow>
      (\<exists>rest. name = ''flareway/'' @ rest \<and> split_three rest = Some (clusterID, namespace, specName))"
    unfolding parseAccessRemoteName_def has_prefix_iff by (auto simp: trim_prefix_def has_prefix_def)
  then show ?thesis unfolding split_three_iff accessRemoteNameValue_def by auto
qed

lemma cut_before_owner:
  assumes "CHR '' '' \<notin> set ident" and "2 \<le> length ident" and "rest = [] \<or> (\<exists>t. rest = '' | '' @ t)"
  shows "cut_before (''flareway '' @ ident @ rest) '' | '' = ''flareway '' @ ident"
proof -
  have tail: "cut_before (ident @ rest) '' | '' = ident"
    using assms(3) cut_before_whole [of "'' | ''" ident] cut_before_sep [of "'' | ''" ident] assms(1) by auto
  obtain a b u where "ident = a # b # u" using assms(2) by (cases ident; cases "tl ident") auto
  moreover from this have "b \<noteq> CHR '' ''" using assms(1) by auto
  ultimately have "\<not> has_prefix (CHR '' '' # ident @ rest) '' | ''" by (simp add: has_prefix_def)
  then show ?thesis using tail by (simp add: has_prefix_def)
qed

lemma colon_prefix:
  assumes "CHR '':'' \<notin> set a" and "CHR ''/'' \<notin> set p"
  shows "\<not> has_prefix (a @ CHR ''/'' # b) (p @ '':'')"
proof
  assume "has_prefix (a @ CHR ''/'' # b) (p @ '':'')"
  then obtain t where eq: "a @ CHR ''/'' # b = p @ CHR '':'' # t" by (auto simp: has_prefix_iff)
  then have "p @ CHR '':'' # t = a @ CHR ''/'' # b" by simp
  then consider us where "p = a @ us" "us @ CHR '':'' # t = CHR ''/'' # b" | us where "p @ us = a" "CHR '':'' # t = us @ CHR ''/'' # b"
    by (auto simp: append_eq_append_conv2)
  then show False
  proof cases
    case 1
    then show False using assms(2) by (cases us) auto
  next
    case 2
    then show False using assms(1) by (cases us) auto
  qed
qed

text \<open>
  C39: the sweep attributes a plain ownership comment to the object that wrote it, whatever human comment follows, and the
  clients' own check agrees. The identity has no space, its first two parts no slash, and the cluster ID no colon, so that it does
  not look like a digest.
\<close>
theorem private_comment_attributed:
  assumes "CHR '' '' \<notin> set (clusterID @ namespace @ name)" and "CHR ''/'' \<notin> set (clusterID @ namespace)"
    and "clusterID \<noteq> []" and "namespace \<noteq> []" and "name \<noteq> []" and "CHR '':'' \<notin> set clusterID"
  shows "parsePrivateOwnerComment (PrivateResourceComment clusterID namespace name comment) = Some (clusterID, namespace, name) \<and>
    IsOwnedPrivateResource (PrivateResourceComment clusterID namespace name comment) clusterID namespace name"
proof -
  let ?who = "identity clusterID namespace name"
  define rest where "rest = (if comment = [] then [] else '' | '' @ comment)"
  have rest: "PrivateResourceComment clusterID namespace name comment = ''flareway '' @ ?who @ rest"
    "rest = [] \<or> (\<exists>t. rest = '' | '' @ t)"
    by (simp_all add: PrivateResourceComment_def rest_def Let_def)
  have "CHR '' '' \<notin> set ?who" "2 \<le> length ?who" using assms(1) by (auto simp: identity_def)
  then have owner: "cut_before (PrivateResourceComment clusterID namespace name comment) '' | '' = ''flareway '' @ ?who"
    unfolding rest(1) using rest(2) by (rule cut_before_owner)
  have "\<not> has_prefix ?who ''hmac:''" "\<not> has_prefix ?who ''sha256:''"
    using colon_prefix [OF assms(6), of "''hmac''" "namespace @ ''/'' @ name"] colon_prefix [OF assms(6), of "''sha256''" "namespace @ ''/'' @ name"]
    by (simp_all add: identity_def)
  moreover have "split_three ?who = Some (clusterID, namespace, name)"
    using assms(2-5) by (simp add: split_three_iff identity_def)
  ultimately have "parsePrivateOwnerComment (PrivateResourceComment clusterID namespace name comment) = Some (clusterID, namespace, name)"
    unfolding parsePrivateOwnerComment_def owner Let_def trim_prefix_append by (simp add: has_prefix_def)
  moreover have "IsOwnedPrivateResource (PrivateResourceComment clusterID namespace name comment) clusterID namespace name"
    unfolding PrivateResourceComment_def IsOwnedPrivateResource_def Let_def
    using has_prefix_append [of "(''flareway '' @ ?who) @ '' | ''" comment] by (cases "comment = []") (simp_all only: append_assoc, simp_all)
  ultimately show ?thesis by blast
qed

section \<open>Properties of the sweepers\<close>

lemma ensure_lookup:
  "mget (ensureAccountSweeper get account running) name =
     (if name = sa_Name account \<and> mget running name = None then
        (case resolveAccountToken get account of Inl e \<Rightarrow> None
         | Inr token \<Rightarrow> Some \<lparr>as_AccountName = sa_Name account, as_AccountID = sa_AccountID account, as_Token = token\<rparr>)
      else mget running name)"
  by (auto simp: ensureAccountSweeper_def split: sum.split)

lemma ensure_keys: "keys_ok running \<Longrightarrow> keys_ok (ensureAccountSweeper get account running)"
  by (simp add: ensureAccountSweeper_def split: sum.split)

lemma fold_ensure_keys: "keys_ok running \<Longrightarrow> keys_ok (fold (ensureAccountSweeper get) accounts running)"
  by (induction accounts arbitrary: running) (simp_all add: ensure_keys)

lemma fold_ensure_kept: "mget running name = Some s \<Longrightarrow> mget (fold (ensureAccountSweeper get) accounts running) name = Some s"
  by (induction accounts arbitrary: running) (simp_all add: ensure_lookup)

lemma fold_ensure_new:
  assumes "mget running name = None" and "mget (fold (ensureAccountSweeper get) accounts running) name = Some s"
  shows "\<exists>account \<in> set accounts. sa_Name account = name \<and> resolveAccountToken get account = Inr (as_Token s) \<and> as_AccountID s = sa_AccountID account"
  using assms
proof (induction accounts arbitrary: running)
  case (Cons account accounts)
  show ?case
  proof (cases "mget (ensureAccountSweeper get account running) name")
    case None
    then show ?thesis using Cons.IH [OF None] Cons.prems(2) by auto
  next
    case (Some t)
    then have "t = s" using fold_ensure_kept [OF Some, of get accounts] Cons.prems(2) by simp
    then show ?thesis using Some Cons.prems(1) by (auto simp: ensure_lookup split: if_splits sum.splits)
  qed
qed simp

lemma fold_ensure_started:
  assumes "account \<in> set accounts" and "resolveAccountToken get account = Inr token"
  shows "mget (fold (ensureAccountSweeper get) accounts running) (sa_Name account) \<noteq> None"
  using assms(1)
proof (induction accounts arbitrary: running)
  case (Cons a accounts)
  show ?case
  proof (cases "a = account")
    case True
    then have "mget (ensureAccountSweeper get account running) (sa_Name account) \<noteq> None"
      using assms(2) by (auto simp: ensure_lookup)
    then show ?thesis using fold_ensure_kept [of _ "sa_Name account"] True by fastforce
  qed (use Cons in auto)
qed simp

lemma mget_filter_key:
  "mget (filter (\<lambda>(name, s). P name) m) name = (if P name then mget m name else None)"
  by (induction m) (auto split: prod.split)

text \<open>
  C34: which accounts are swept. After the accounts were listed, a sweeper runs only for a ready account, and for each ready account whose token is found; a sweeper that was
  already running for such an account is kept as it was started, with its token and account ID, and a new one has the token of a
  ready account of its name. When listing fails nothing changes.
\<close>
theorem swept_accounts_ready:
  assumes "reconcileAccounts (Inr accounts) get running = running'"
  shows "(\<forall>name s. mget running' name = Some s \<longrightarrow>
      (\<exists>account \<in> set accounts. isAccountReadyForSweep account \<and> sa_Name account = name) \<and>
      (mget running name = Some s \<or>
       (\<exists>account \<in> set accounts. isAccountReadyForSweep account \<and> sa_Name account = name \<and>
          resolveAccountToken get account = Inr (as_Token s) \<and> as_AccountID s = sa_AccountID account))) \<and>
    (\<forall>account \<in> set accounts. isAccountReadyForSweep account \<longrightarrow>
       (\<forall>s. mget running (sa_Name account) = Some s \<longrightarrow> mget running' (sa_Name account) = Some s) \<and>
       (\<forall>token. resolveAccountToken get account = Inr token \<longrightarrow> mget running' (sa_Name account) \<noteq> None)) \<and>
    reconcileAccounts (Inl e) get running = running"
proof -
  let ?ready = "filter isAccountReadyForSweep accounts"
  let ?all = "fold (ensureAccountSweeper get) ?ready running"
  have lookup: "mget running' name = (if name \<in> sa_Name ` set ?ready then mget ?all name else None)" for name
    using assms mget_filter_key [of "\<lambda>n. n \<in> sa_Name ` set ?ready" ?all name] by (simp add: reconcileAccounts_def Let_def)
  have origin: "mget running name = Some s \<or> (\<exists>account \<in> set ?ready. sa_Name account = name \<and>
      resolveAccountToken get account = Inr (as_Token s) \<and> as_AccountID s = sa_AccountID account)"
    if "mget ?all name = Some s" for name s
    using that fold_ensure_new [of running name get ?ready s] fold_ensure_kept [of running name _ get ?ready]
    by (cases "mget running name") auto
  have kept: "mget running' (sa_Name account) = Some s"
    if "account \<in> set accounts" "isAccountReadyForSweep account" "mget running (sa_Name account) = Some s" for account s
    using that fold_ensure_kept [of running "sa_Name account" s get ?ready] by (simp add: lookup)
  have started: "mget running' (sa_Name account) \<noteq> None"
    if "account \<in> set accounts" "isAccountReadyForSweep account" "resolveAccountToken get account = Inr token" for account token
    using that fold_ensure_started [of account ?ready get token running] by (simp add: lookup)
  have found: "mget ?all name = Some s \<and> name \<in> sa_Name ` set ?ready" if "mget running' name = Some s" for name s
    using that by (simp add: lookup split: if_splits)
  have "(\<exists>account \<in> set accounts. isAccountReadyForSweep account \<and> sa_Name account = name) \<and>
      (mget running name = Some s \<or>
       (\<exists>account \<in> set accounts. isAccountReadyForSweep account \<and> sa_Name account = name \<and>
          resolveAccountToken get account = Inr (as_Token s) \<and> as_AccountID s = sa_AccountID account))"
    if "mget running' name = Some s" for name s
    using found [OF that] origin [of name s] by auto
  moreover have "reconcileAccounts (Inl e) get running = running" by (simp add: reconcileAccounts_def)
  ultimately show ?thesis using kept started by blast
qed

text \<open>
  Passes are spread but neither skipped nor early. With a random source in its documented range, the first pass starts
  within a minute and within the period, and the next one follows after at least the period and less than six fifths of it.
\<close>
theorem sweep_intervals:
  assumes "0 < ttl" and "int64_ok (ttl + ttl div 5)" and "\<And>n. 0 < n \<Longrightarrow> 0 \<le> rng n \<and> rng n < n"
  shows "0 \<le> initialDelay ttl rng \<and> initialDelay ttl rng < ttl \<and> initialDelay ttl rng < 60 * 1000000000 \<and>
    ttl \<le> jitteredInterval ttl rng \<and> jitteredInterval ttl rng \<le> ttl + ttl div 5"
proof -
  have "jitteredInterval ttl rng = ttl + rng (ttl div 5)" if "0 < ttl div 5"
  proof -
    have "0 \<le> rng (ttl div 5)" "rng (ttl div 5) < ttl div 5" using assms(3) [OF that] by auto
    then have "int64_ok (ttl + rng (ttl div 5))" using assms(1,2) by (auto simp: int64_ok_def min_int64_def)
    then show ?thesis using that by (simp add: jitteredInterval_def wrap64_id)
  qed
  then have "ttl \<le> jitteredInterval ttl rng \<and> jitteredInterval ttl rng \<le> ttl + ttl div 5"
    using assms(1) assms(3) [of "ttl div 5"] by (cases "0 < ttl div 5") (auto simp: jitteredInterval_def)
  moreover have "0 \<le> initialDelay ttl rng \<and> initialDelay ttl rng < ttl \<and> initialDelay ttl rng < 60 * 1000000000"
    using assms(1) assms(3) [of ttl] assms(3) [of minute] by (auto simp: initialDelay_def minute_def second_def Let_def)
  ultimately show ?thesis by blast
qed

text \<open>
  The registry never panics. Every selection of controller groups yields targets, each with the grade of its kind, and
  with all groups these are the nineteen kinds of the registry in order.
\<close>
theorem registry_graded:
  "(\<exists>targets. targetsForGroups groups = Some targets \<and> set (map fst targets) \<subseteq> set (map fst sweepTargetRegistry) \<and>
     list_all (\<lambda>(kind, g). GradeForKind kind = Some g) targets) \<and>
   map_option (map fst) defaultTargets = Some (map fst sweepTargetRegistry)"
proof -
  have graded: "list_all (\<lambda>spec. GradeForKind (fst spec) \<noteq> None) sweepTargetRegistry" by code_simp
  have "\<exists>targets. all_some (map with_grade specs) = Some targets \<and> map fst targets = map fst specs \<and>
      list_all (\<lambda>(kind, g). GradeForKind kind = Some g) targets" if "set specs \<subseteq> set sweepTargetRegistry" for specs
    using that graded by (induction specs) (auto simp: with_grade_def list_all_iff)
  from this [of "filter (\<lambda>spec. group_enabled groups (snd spec)) sweepTargetRegistry"] obtain targets where
    targets: "all_some (map with_grade (filter (\<lambda>spec. group_enabled groups (snd spec)) sweepTargetRegistry)) = Some targets"
    "map fst targets = map fst (filter (\<lambda>spec. group_enabled groups (snd spec)) sweepTargetRegistry)"
    "list_all (\<lambda>(kind, g). GradeForKind kind = Some g) targets" by auto
  have "set (map fst targets) \<subseteq> set (map fst sweepTargetRegistry)" unfolding targets(2) by auto
  then have "\<exists>targets. targetsForGroups groups = Some targets \<and> set (map fst targets) \<subseteq> set (map fst sweepTargetRegistry) \<and>
     list_all (\<lambda>(kind, g). GradeForKind kind = Some g) targets"
    using targets(1,3) unfolding targetsForGroups_def by (cases "cg_Gateway groups \<or> cg_Access groups \<or> cg_PrivateNetwork groups \<or>
      cg_Device groups \<or> cg_Organization groups") simp_all
  moreover have "map_option (map fst) defaultTargets = Some (map fst sweepTargetRegistry)" by code_simp
  ultimately show ?thesis by blast
qed

section \<open>Examples\<close>

definition example_ref :: "string \<Rightarrow> string \<Rightarrow> localRef" where
  "example_ref name remoteID = \<lparr>lr_kind = ''AccessPolicy'', lr_key = \<lparr>nn_Namespace = ''n'', nn_Name = name\<rparr>, lr_uid = [],
     lr_remoteID = remoteID, lr_expectedName = [], lr_specName = name, lr_scope = []\<rparr>"

text \<open>Remotes are their IDs here; one starting with an x is attributed to nobody in particular.\<close>

definition example_options :: "(string, nat) classifyOptions" where
  "example_options = \<lparr>co_kind = ''AccessPolicy'', co_idOf = (\<lambda>r. r), co_listed = (\<lambda>ref. lr_scope ref = []), co_nameOf = (\<lambda>r. r),
     co_nameEqual = None, co_extra = None, co_content = None, co_orphan = Some (\<lambda>r claimed. if has_prefix r ''x'' then Some no_name else None)\<rparr>"

theorem classify_exact_witness:
  "ref_item ''AccessPolicy'' (example_ref ''a'' ''1'') DriftCaseMissing missing_reason
     \<in> set (fst (classify [example_ref ''a'' ''1'', example_ref ''b'' ''2''] [''2'', ''x3''] example_options None)) \<and>
   orphan_item ''AccessPolicy'' no_name ''x3''
     \<in> set (fst (classify [example_ref ''a'' ''1'', example_ref ''b'' ''2''] [''2'', ''x3''] example_options None))"
proof -
  let ?refs = "[example_ref ''a'' ''1'', example_ref ''b'' ''2'']" and ?remotes = "[''2'', ''x3'']"
  obtain items lp where run: "classify ?refs ?remotes example_options None = (items, lp)" by fastforce
  note facts = classify_exact [OF run]
  have "co_listed example_options (example_ref ''a'' ''1'')" by (simp add: example_options_def example_ref_def)
  then have "ref_item ''AccessPolicy'' (example_ref ''a'' ''1'') DriftCaseMissing missing_reason \<in> set items"
    using facts [THEN conjunct2, THEN conjunct1, rule_format, of "example_ref ''a'' ''1''"] by (simp add: example_options_def example_ref_def)
  moreover have "orphan_item ''AccessPolicy'' no_name ''x3'' \<in> set items"
    using facts [THEN conjunct2, THEN conjunct2, rule_format, of "''x3''" "\<lambda>r claimed. if has_prefix r ''x'' then Some no_name else None" no_name]
    by (simp add: example_options_def example_ref_def has_prefix_def)
  ultimately show ?thesis by (simp add: run)
qed

definition example_sweep_state :: "nat sweep_state" where
  "example_sweep_state = \<lparr>ss_latch = Some NewLatch, ss_events = Some [], ss_capacity = 0\<rparr>"

lemma default_policy_ok: "policy_ok DefaultPolicy"
  by (simp add: policy_ok_def DefaultPolicy_def int64_ok_def min_int64_def max_int64_def second_def)

theorem drift_closes_gate_witness:
  "IsInvalidated ''AccessPolicy'' \<lparr>nn_Namespace = ''n'', nn_Name = ''a''\<rparr>
     (ss_latch (handleDriftResults [ref_item ''AccessPolicy'' (example_ref ''a'' ''1'') DriftCaseMissing missing_reason] example_sweep_state)) \<and>
   \<not> IsInvalidated ''AccessPolicy'' no_name
     (ss_latch (handleDriftResults [orphan_item ''AccessPolicy'' no_name ''x3''] example_sweep_state))"
proof -
  have live: "ss_latch example_sweep_state \<noteq> None" by (simp add: example_sweep_state_def)
  have fresh: "\<not> IsInvalidated kind key (ss_latch example_sweep_state)" for kind key
    by (simp add: example_sweep_state_def IsInvalidated_def NewLatch_def)
  note facts = drift_closes_gate [OF live default_policy_ok, THEN conjunct1]
  show ?thesis by (simp add: facts fresh) (simp add: ref_item_def example_ref_def orphan_item_def)
qed

theorem private_comment_attributed_witness:
  "parsePrivateOwnerComment (PrivateResourceComment ''c'' ''ns'' ''n'' ''kept | by hand'') = Some (''c'', ''ns'', ''n'')"
  using private_comment_attributed [of "''c''" "''ns''" "''n''" "''kept | by hand''"] by simp

definition example_condition :: "string \<Rightarrow> string \<Rightarrow> condition" where
  "example_condition type status = \<lparr>cd_Type = type, cd_Status = status, cd_ObservedGeneration = 0, cd_LastTransitionTime = 0,
     cd_Reason = [], cd_Message = []\<rparr>"

definition example_sweep_account :: sweepAccount where
  "example_sweep_account = \<lparr>sa_Name = ''main'', sa_AccountID = ''id'', sa_SecretNamespace = ''n'', sa_SecretName = ''s'', sa_SecretKey = [],
     sa_Conditions = [example_condition ''Accepted'' ''True'', example_condition ''CredentialsValid'' ''True'']\<rparr>"

theorem swept_accounts_ready_witness:
  "mget (reconcileAccounts (Inr [example_sweep_account]) (\<lambda>_. Inr [(''token'', ''secret'')]) []) ''main'' \<noteq> None"
proof -
  have ready: "isAccountReadyForSweep example_sweep_account" by code_simp
  have token: "resolveAccountToken (\<lambda>_. Inr [(''token'', ''secret'')]) example_sweep_account = Inr ''secret''" by code_simp
  have name: "sa_Name example_sweep_account = ''main''" by (simp add: example_sweep_account_def)
  from swept_accounts_ready [OF refl, of "[example_sweep_account]" "\<lambda>_. Inr [(''token'', ''secret'')]" "[]"] ready token
  show ?thesis unfolding name [symmetric] by auto
qed

theorem sweep_intervals_witness:
  "minute \<le> jitteredInterval minute (\<lambda>n. n - 1) \<and> jitteredInterval minute (\<lambda>n. n - 1) \<le> minute + minute div 5"
proof -
  have "int64_ok (minute + minute div 5)" by (simp add: minute_def second_def int64_ok_def min_int64_def max_int64_def)
  then show ?thesis using sweep_intervals [of minute "\<lambda>n. n - 1"] by (simp add: minute_def second_def)
qed

end
