(* ===== verification/SweepTargets.thy ===== *)
theory SweepTargets
  imports Sweep PrivateAccess
begin

text \<open>
  \<^verbatim>\<open>src/internal/sweep/targets_*.go\<close> and the cached lookups of \<^verbatim>\<open>account_sweeper.go\<close>: one pass of every registered kind, and the
  composition of the registry with the handling of drift. The outcome of every remote call, of every list of Kubernetes
  objects and of every clock reading of a pass is a field of its environment. A sweep function threads the caches and the
  latch of its sweeper and stops at the first error.
\<close>

named_theorems pass_intros "introduction rules for what a sweep function ensures"

section \<open>Remote and local objects\<close>

text \<open>
  What the sweep reads of the listed objects; \<open>rm_Content\<close> stands for the other fields, which only a content matcher reads. The ID of
  a device profile is its policy ID and the name of an infrastructure target its hostname; routes have no name.
\<close>

record 'c remoteObject =
  rm_ID :: string
  rm_Name :: string
  rm_Content :: 'c

record 'c remoteTunnel = "'c remoteObject" +
  rt_DeletedAt :: "time option"

record 'c remoteApplication = "'c remoteObject" +
  ra_Tags :: "string list"

record 'c remotePolicy = "'c remoteObject" +
  rp_Decision :: string

record 'c remoteRule = "'c remoteObject" +
  rr_Description :: string

record 'c remoteList = "'c remoteObject" +
  rl_Type :: string

record 'c remoteNetwork = "'c remoteObject" +
  rv_IsDefault :: bool
  rv_Comment :: string
  rv_Deleted :: bool

record 'c remoteNetworkRoute = "'c remoteObject" +
  rn_Network :: string
  rn_Comment :: string
  rn_Deleted :: bool

record 'c remoteHostnameRoute = "'c remoteObject" +
  rh_Hostname :: string
  rh_Comment :: string
  rh_Deleted :: bool

record 'c accessApplicationListing =
  al_Application :: "'c remoteApplication"
  al_Applications :: "(string, 'c remoteApplication) gomap"
  al_IdentityProviders :: "string list option"
  al_CustomPages :: "(string, 'c remoteObject) gomap option"

text \<open>The values handed to a content matcher as \<^verbatim>\<open>any\<close>; a plain object carries the name of its type.\<close>

datatype 'c observed = ObservedListing "'c accessApplicationListing" | ObservedApplication "'c remoteApplication"
  | ObservedPolicy "'c remotePolicy" | ObservedTunnel string "'c remoteTunnel" | ObservedRule "'c remoteRule" | ObservedList "'c remoteList"
  | ObservedNetwork "'c remoteNetwork" | ObservedNetworkRoute "'c remoteNetworkRoute" | ObservedHostnameRoute "'c remoteHostnameRoute"
  | ObservedObject string "'c remoteObject"

record zone =
  zn_ID :: string
  zn_Name :: string

text \<open>A Kubernetes object of a swept kind with the ID its status records.\<close>

record sweepObject =
  ob_Namespace :: string
  ob_Name :: string
  ob_UID :: string
  ob_DeletionTimestamp :: "time option"
  ob_AccountRef :: string
  ob_ManagementPolicy :: string
  ob_SpecName :: string
  ob_StatusID :: string

record zoneObject = sweepObject +
  zo_Zone :: string

record applicationObject = zoneObject +
  ao_AllowedIDPRefs :: "string list"
  ao_HasSCIMConfig :: bool
  ao_CustomPageRefs :: "string list"

record standaloneObject = zoneObject +
  sl_Type :: string

record policyObject = sweepObject +
  po_Decision :: string

record ruleObject = sweepObject +
  ru_Description :: "string option"

record listObject = sweepObject +
  lo_Type :: string

record networkObject = sweepObject +
  no_IsDefault :: bool

record routeObject = sweepObject +
  rt_Network :: string

record hostRouteObject = sweepObject +
  hr_Hostname :: string

record dnsCheckpoint =
  cp_Hostname :: string
  cp_RecordID :: string
  cp_ZoneID :: string
  cp_OwnershipComment :: string
  cp_TTL :: int
  cp_Proxied :: "bool option"
  cp_Settings :: "dnsRecordSettings option"

record tunnelObject = sweepObject +
  to_GatewayRef :: "string option"
  to_DNSRecords :: "dnsCheckpoint list"

section \<open>The environment of a pass\<close>

text \<open>A remote call is paced first: the outcome of the wait, then the outcome of the listing.\<close>

type_synonym 'r call = "sweep_error option \<times> (sweep_error + 'r list)"

record 'c cloudflareAPI =
  cf_Zones :: "nat \<Rightarrow> zone call"
  cf_AccessApplications :: "string \<Rightarrow> 'c remoteApplication call"
  cf_AccessGroups :: "string \<Rightarrow> 'c remoteObject call"
  cf_ServiceTokens :: "string \<Rightarrow> 'c remoteObject call"
  cf_DNSRecords :: "string \<Rightarrow> dnsRecord call"
  cf_AccessPolicies :: "'c remotePolicy call"
  cf_IdentityProviders :: "'c remoteObject call"
  cf_AccessCustomPages :: "'c remoteObject call"
  cf_InfrastructureTargets :: "'c remoteObject call"
  cf_Tunnels :: "'c remoteTunnel call"
  cf_WARPConnectors :: "'c remoteTunnel call"
  cf_GatewayRules :: "'c remoteRule call"
  cf_GatewayLists :: "'c remoteList call"
  cf_VirtualNetworks :: "'c remoteNetwork call"
  cf_NetworkRoutes :: "'c remoteNetworkRoute call"
  cf_HostnameRoutes :: "'c remoteHostnameRoute call"
  cf_DeviceProfiles :: "'c remoteObject call"
  cf_PostureRules :: "'c remoteObject call"
  cf_PostureIntegrations :: "'c remoteObject call"

record kubeClient =
  kc_Namespace :: "string \<Rightarrow> sweep_error + string"
  kc_Grants :: "string \<Rightarrow> sweep_error + accountGrant list"
  kc_AccessApplications :: "sweep_error + applicationObject list"
  kc_StandaloneApplications :: "sweep_error + standaloneObject list"
  kc_AccessPolicies :: "sweep_error + policyObject list"
  kc_AccessGroups :: "sweep_error + zoneObject list"
  kc_ServiceTokens :: "sweep_error + zoneObject list"
  kc_IdentityProviders :: "sweep_error + sweepObject list"
  kc_AccessCustomPages :: "sweep_error + sweepObject list"
  kc_InfrastructureTargets :: "sweep_error + sweepObject list"
  kc_Tunnels :: "sweep_error + tunnelObject list"
  kc_WARPConnectors :: "sweep_error + sweepObject list"
  kc_GatewayPolicies :: "sweep_error + ruleObject list"
  kc_ZeroTrustLists :: "sweep_error + listObject list"
  kc_VirtualNetworks :: "sweep_error + networkObject list"
  kc_NetworkRoutes :: "sweep_error + routeObject list"
  kc_HostnameRoutes :: "sweep_error + hostRouteObject list"
  kc_DeviceProfiles :: "sweep_error + sweepObject list"
  kc_PostureRules :: "sweep_error + sweepObject list"
  kc_PostureIntegrations :: "sweep_error + sweepObject list"

text \<open>
  The clock before and after the n-th listing of the zones, the start of the pass, and what the code calls outside the repository: the
  Secret client with its source of randomness, digests, IDNA, prefix parsing and the printed address of a flag.
\<close>

record ('s, 'c) pass_env =
  pe_accountName :: string
  pe_operatorNamespace :: string
  pe_start :: time
  pe_clock :: "nat \<Rightarrow> time \<times> time"
  pe_api :: "'c cloudflareAPI"
  pe_client :: kubeClient
  pe_secrets :: "'s secret_client"
  pe_random :: "string + string"
  pe_digests :: digests
  pe_toASCII :: "string \<Rightarrow> string + string"
  pe_ParsePrefix :: "string \<Rightarrow> ipPrefix option"
  pe_address :: "bool \<Rightarrow> string"

text \<open>The state of a sweeper that its passes share, with the server state behind the ownership key.\<close>

record ('s, 'c) runner =
  rn_latch :: "'c observed latch_ptr"
  rn_zonesCache :: "zone list option"
  rn_zonesCachedAt :: time
  rn_clusterIDCache :: string
  rn_ownershipKeyData :: string
  rn_ownershipKeyDone :: bool
  rn_secrets :: 's

definition paced :: "'r call \<Rightarrow> sweep_error + 'r list" where
  "paced call =
     (case call of
        (Some e, _) \<Rightarrow> Inl e
      | (None, Inl e) \<Rightarrow> Inl (listFailure e)
      | (None, Inr remotes) \<Rightarrow> Inr remotes)"


definition wrapped :: "string \<Rightarrow> sweep_error + 'a \<Rightarrow> sweep_error + 'a" where
  "wrapped message result = (case result of Inl e \<Rightarrow> Inl (Wrapped message e) | Inr x \<Rightarrow> Inr x)"

definition and_then :: "'e + 'a \<Rightarrow> ('a \<Rightarrow> 'st \<Rightarrow> ('e + 'b) \<times> 'st) \<Rightarrow> 'st \<Rightarrow> ('e + 'b) \<times> 'st" where
  "and_then result k st = (case result of Inl e \<Rightarrow> (Inl e, st) | Inr x \<Rightarrow> k x st)"

definition and_run :: "('st \<Rightarrow> ('e + 'a) \<times> 'st) \<Rightarrow> ('a \<Rightarrow> 'st \<Rightarrow> ('e + 'b) \<times> 'st) \<Rightarrow> 'st \<Rightarrow> ('e + 'b) \<times> 'st" where
  "and_run m k st = (case m st of (Inl e, st') \<Rightarrow> (Inl e, st') | (Inr x, st') \<Rightarrow> k x st')"

section \<open>Cached lookups\<close>

definition zones :: "('s, 'c) pass_env \<Rightarrow> nat \<Rightarrow> ('s, 'c) runner \<Rightarrow> (sweep_error + zone list) \<times> ('s, 'c) runner" where
  "zones env n st =
     (let fetch = (case paced (cf_Zones (pe_api env) n) of
                     Inl e \<Rightarrow> (Inl e, st)
                   | Inr listed \<Rightarrow> (Inr listed, st\<lparr>rn_zonesCache := Some listed, rn_zonesCachedAt := snd (pe_clock env n)\<rparr>)) in
      case rn_zonesCache st of
        None \<Rightarrow> fetch
      | Some cached \<Rightarrow> if time_sub (fst (pe_clock env n)) (rn_zonesCachedAt st) < minute then (Inr cached, st) else fetch)"

definition clusterID :: "('s, 'c) pass_env \<Rightarrow> ('s, 'c) runner \<Rightarrow> (sweep_error + string) \<times> ('s, 'c) runner" where
  "clusterID env st =
     (if rn_clusterIDCache st \<noteq> [] then (Inr (rn_clusterIDCache st), st)
      else case kc_Namespace (pe_client env) ''kube-system'' of
        Inl e \<Rightarrow> (Inl e, st)
      | Inr uid \<Rightarrow>
          if uid = [] then (Inl (OtherError ''kube-system Namespace has no UID''), st)
          else (Inr uid, st\<lparr>rn_clusterIDCache := uid\<rparr>))"

text \<open>Without a key the markers are the legacy ones; only a key that was resolved is cached.\<close>

definition ownershipKey :: "('s, 'c) pass_env \<Rightarrow> ('s, 'c) runner \<Rightarrow> string \<times> ('s, 'c) runner" where
  "ownershipKey env st =
     (if rn_ownershipKeyDone st then (rn_ownershipKeyData st, st)
      else case GetOrCreateKey (pe_secrets env) (pe_operatorNamespace env) (pe_random env) (rn_secrets st) of
        (Some (Inr key), s) \<Rightarrow> (key, st\<lparr>rn_ownershipKeyData := key, rn_ownershipKeyDone := True, rn_secrets := s\<rparr>)
      | (_, s) \<Rightarrow> ([], st\<lparr>rn_secrets := s\<rparr>))"

definition and_key :: "('s, 'c) pass_env \<Rightarrow> (string \<Rightarrow> ('s, 'c) runner \<Rightarrow> (sweep_error + 'b) \<times> ('s, 'c) runner) \<Rightarrow>
    ('s, 'c) runner \<Rightarrow> (sweep_error + 'b) \<times> ('s, 'c) runner" where
  "and_key env k st = (case ownershipKey env st of (key, st') \<Rightarrow> k key st')"

section \<open>Shared parts of the sweep functions\<close>

definition accountScopeListed :: "localRef \<Rightarrow> bool" where
  "accountScopeListed ref \<longleftrightarrow> lr_scope ref = []"

definition scopeListed :: "string set \<Rightarrow> localRef \<Rightarrow> bool" where
  "scopeListed listed ref \<longleftrightarrow> lr_scope ref \<in> listed"

definition observeOnly :: "string \<Rightarrow> bool" where
  "observeOnly policy \<longleftrightarrow> policy = ManagementPolicyObserveOnly"

definition deleting :: "'x sweepObject_scheme \<Rightarrow> bool" where
  "deleting object \<longleftrightarrow> (case ob_DeletionTimestamp object of None \<Rightarrow> False | Some t \<Rightarrow> \<not> time_is_zero t)"

text \<open>The guard of every loop over local objects.\<close>

definition judged :: "('s, 'c) pass_env \<Rightarrow> 'x sweepObject_scheme \<Rightarrow> bool" where
  "judged env object \<longleftrightarrow>
     \<not> (ob_AccountRef object \<noteq> pe_accountName env \<or> deleting object \<or> observeOnly (ob_ManagementPolicy object))"

definition object_key :: "'x sweepObject_scheme \<Rightarrow> namespacedName" where
  "object_key object = \<lparr>nn_Namespace = ob_Namespace object, nn_Name = ob_Name object\<rparr>"

definition object_ref :: "string \<Rightarrow> string \<Rightarrow> string \<Rightarrow> string \<Rightarrow> 'x sweepObject_scheme \<Rightarrow> localRef" where
  "object_ref kind expectedName specName scope object =
     \<lparr>lr_kind = kind, lr_key = object_key object, lr_uid = ob_UID object, lr_remoteID = ob_StatusID object,
      lr_expectedName = expectedName, lr_specName = specName, lr_scope = scope\<rparr>"

text \<open>A map filled in a loop over the objects, read with its last entry.\<close>

definition by_key :: "('x sweepObject_scheme \<Rightarrow> 'v) \<Rightarrow> 'x sweepObject_scheme list \<Rightarrow> namespacedName \<Rightarrow> 'v option" where
  "by_key value objects key = map_option value (List.find (\<lambda>object. object_key object = key) (rev objects))"

definition options :: "string \<Rightarrow> (localRef \<Rightarrow> bool) \<Rightarrow> ('r \<Rightarrow> string) \<Rightarrow> ('r \<Rightarrow> string) \<Rightarrow> ('r, 'o) classifyOptions" where
  "options kind listed idOf nameOf =
     \<lparr>co_kind = kind, co_idOf = idOf, co_listed = listed, co_nameOf = nameOf, co_nameEqual = None, co_extra = None,
      co_content = None, co_orphan = None\<rparr>"

definition judge_pass :: "('s, 'c) pass_env \<Rightarrow> ('r \<Rightarrow> 'c observed) \<Rightarrow> localRef list \<Rightarrow> 'r list \<Rightarrow> ('r, 'c observed) classifyOptions \<Rightarrow>
    ('s, 'c) runner \<Rightarrow> (sweep_error + driftItem list) \<times> ('s, 'c) runner" where
  "judge_pass env observe refs remotes opts st =
     (case classify refs remotes (opts\<lparr>co_content := contentCheckWith (pe_start env) (rn_latch st) observe\<rparr>) (rn_latch st) of
        (items, latch) \<Rightarrow> (Inr items, st\<lparr>rn_latch := latch\<rparr>))"

section \<open>Access objects\<close>

definition accessManagedTag :: string where "accessManagedTag = ''flareway-managed''"

definition accessDigestTag :: "digests \<Rightarrow> string \<Rightarrow> string \<Rightarrow> string" where
  "accessDigestTag dg prefix' identity' =
     prefix' @ take (AccessTagNameMaxLength - length prefix') (hex_encode (dg_sha256 dg identity'))"

definition accessOwnerMarkers :: "digests \<Rightarrow> string \<Rightarrow> string \<Rightarrow> string \<Rightarrow> string \<Rightarrow> string \<Rightarrow> string list" where
  "accessOwnerMarkers dg key cluster namespace' name uid =
     (let legacy = accessDigestTag dg AccessOwnerTagPrefix (OwnerTag cluster namespace' name uid);
          signed = SignAccessOwnerTag dg key cluster namespace' name uid in
      if signed = legacy then [legacy] else [legacy, signed])"

definition hasAnyTag :: "string list \<Rightarrow> string list \<Rightarrow> bool" where
  "hasAnyTag tags expected = list_ex (\<lambda>tag. tag \<in> set tags) expected"

definition foreignOwnerTags :: "string list \<Rightarrow> string list \<Rightarrow> string list" where
  "foreignOwnerTags tags mine = filter (\<lambda>tag. has_prefix tag AccessOwnerTagPrefix \<and> tag \<notin> set mine) tags"

definition hasBypassTag :: "string list \<Rightarrow> bool" where
  "hasBypassTag tags = list_ex (\<lambda>tag. has_prefix tag AccessBypassTagPrefix) tags"

definition normalizeZoneName :: "string \<Rightarrow> string" where
  "normalizeZoneName name = to_lower (trim_suffix name ''.'')"

definition zoneIDByName :: "zone list \<Rightarrow> (string, string) gomap" where
  "zoneIDByName zs = fold (\<lambda>z. mput (normalizeZoneName (zn_Name z)) (zn_ID z)) zs []"

definition resolveScope :: "string \<Rightarrow> (string, string) gomap \<Rightarrow> string option" where
  "resolveScope zoneName byName = (if zoneName = [] then Some [] else mget byName (normalizeZoneName zoneName))"

text \<open>The IDs of the scopes, the account scope being the empty one; the scopes listed are the same.\<close>

definition accessScopes :: "('s, 'c) pass_env \<Rightarrow> ('s, 'c) runner \<Rightarrow> (sweep_error + string list) \<times> ('s, 'c) runner" where
  "accessScopes env = and_run (zones env 0) (\<lambda>zs st. (Inr ([] # map zn_ID zs), st))"

fun list_scopes :: "(string \<Rightarrow> 'r call) \<Rightarrow> string list \<Rightarrow> sweep_error + 'r list" where
  "list_scopes call [] = Inr []"
| "list_scopes call (scope # scopes) =
     (case paced (call scope) of
        Inl e \<Rightarrow> Inl e
      | Inr remotes \<Rightarrow> (case list_scopes call scopes of Inl e \<Rightarrow> Inl e | Inr rest \<Rightarrow> Inr (remotes @ rest)))"

definition listAccessApplications :: "('s, 'c) pass_env \<Rightarrow> string list \<Rightarrow> sweep_error + 'c remoteApplication list" where
  "listAccessApplications env scopes = list_scopes (cf_AccessApplications (pe_api env)) scopes"

text \<open>The objects of this account whose zone is known, each with its scope.\<close>

definition scoped_objects :: "('s, 'c) pass_env \<Rightarrow> zone list \<Rightarrow> 'x zoneObject_scheme list \<Rightarrow> ('x zoneObject_scheme \<times> string) list" where
  "scoped_objects env zs objects =
     concat (map (\<lambda>object. case resolveScope (zo_Zone object) (zoneIDByName zs) of None \<Rightarrow> [] | Some scope \<Rightarrow> [(object, scope)])
       (filter (judged env) objects))"

definition accessNamedOrphan :: "string \<Rightarrow> localRef list \<Rightarrow> ('r \<Rightarrow> string) \<Rightarrow> ('r \<Rightarrow> string) \<Rightarrow> 'r \<Rightarrow> string set \<Rightarrow> namespacedName option" where
  "accessNamedOrphan cluster refs idOf nameOf remote claimed =
     (case parseAccessRemoteName (nameOf remote) of
        None \<Rightarrow> None
      | Some (ownerCluster, namespace', specName) \<Rightarrow>
          if ownerCluster \<noteq> cluster then None
          else case List.find (\<lambda>ref. nn_Namespace (lr_key ref) = namespace' \<and> lr_specName ref = specName) refs of
            Some ref \<Rightarrow> if lr_remoteID ref \<noteq> idOf remote then Some (lr_key ref) else None
          | None \<Rightarrow> Some \<lparr>nn_Namespace = namespace', nn_Name = specName\<rparr>)"

definition application_ref :: "applicationObject \<times> string \<Rightarrow> localRef" where
  "application_ref entry =
     (case entry of (app, scope) \<Rightarrow>
        object_ref ''AccessApplication'' (if ob_SpecName app = [] then ob_Namespace app @ ''/'' @ ob_Name app else ob_SpecName app)
          (ob_Name app) scope app)"

definition application_markers :: "digests \<Rightarrow> string \<Rightarrow> string \<Rightarrow> applicationObject list \<Rightarrow> namespacedName \<Rightarrow> string list" where
  "application_markers dg key cluster apps k =
     (case by_key (\<lambda>app. accessOwnerMarkers dg key cluster (ob_Namespace app) (ob_Name app) (ob_UID app)) apps k of
        None \<Rightarrow> [] | Some ms \<Rightarrow> ms)"

definition application_extra :: "(namespacedName \<Rightarrow> string list) \<Rightarrow> localRef \<Rightarrow> 'c remoteApplication \<Rightarrow> string" where
  "application_extra markers ref remote =
     (let mine = markers (lr_key ref); foreign = foreignOwnerTags (ra_Tags remote) mine in
      if \<not> hasAnyTag (ra_Tags remote) [accessManagedTag] then ''remote application lost the flareway-managed tag''
      else if \<not> hasAnyTag (ra_Tags remote) mine then ''remote application lost this object'' @ [CHR 0x27] @ ''s owner tag''
      else if foreign \<noteq> [] then ''remote application carries foreign owner tags ['' @ join foreign '' '' @ '']''
      else [])"

definition application_orphan :: "(namespacedName \<Rightarrow> string list) \<Rightarrow> localRef list \<Rightarrow> 'c remoteApplication \<Rightarrow> string set \<Rightarrow> namespacedName option" where
  "application_orphan markers refs remote claimed =
     (if \<not> hasAnyTag (ra_Tags remote) [accessManagedTag] \<or> hasBypassTag (ra_Tags remote) then None
      else case List.find (\<lambda>ref. hasAnyTag (ra_Tags remote) (markers (lr_key ref))) refs of
        Some ref \<Rightarrow> if lr_remoteID ref \<noteq> rm_ID remote then Some (lr_key ref) else None
      | None \<Rightarrow> None)"

text \<open>A listing that is taken only when an application refers to it.\<close>

definition when_needed :: "bool \<Rightarrow> 'r call \<Rightarrow> sweep_error + 'r list option" where
  "when_needed needed call = (if needed then (case paced call of Inl e \<Rightarrow> Inl e | Inr xs \<Rightarrow> Inr (Some xs)) else Inr None)"

definition sweepAccessApplications :: "('s, 'c) pass_env \<Rightarrow> ('s, 'c) runner \<Rightarrow> (sweep_error + driftItem list) \<times> ('s, 'c) runner" where
  "sweepAccessApplications env =
     and_run (accessScopes env) (\<lambda>scopes.
     and_then (listAccessApplications env scopes) (\<lambda>remotes.
     and_run (clusterID env) (\<lambda>cluster.
     and_key env (\<lambda>key.
     and_run (zones env 1) (\<lambda>zs.
     and_then (wrapped ''list AccessApplications'' (kc_AccessApplications (pe_client env))) (\<lambda>list.
       let entries = scoped_objects env zs list; refs = map application_ref entries;
           markers = application_markers (pe_digests env) key cluster (map fst entries);
           needProviders = list_ex (\<lambda>(app, scope). ao_AllowedIDPRefs app \<noteq> [] \<or> ao_HasSCIMConfig app) entries;
           needPages = list_ex (\<lambda>(app, scope). ao_CustomPageRefs app \<noteq> []) entries;
           applications = fold (\<lambda>r. mput (rm_ID r) r) remotes [] in
       and_then (when_needed needProviders (cf_IdentityProviders (pe_api env))) (\<lambda>providers.
       and_then (when_needed needPages (cf_AccessCustomPages (pe_api env))) (\<lambda>pages.
         judge_pass env
           (\<lambda>remote. ObservedListing \<lparr>al_Application = remote, al_Applications = applications,
              al_IdentityProviders = map_option (map rm_ID) providers,
              al_CustomPages = map_option (\<lambda>ps. fold (\<lambda>p. mput (rm_ID p) p) ps []) pages\<rparr>)
           refs remotes
           ((options ''AccessApplication'' (scopeListed (set scopes)) rm_ID rm_Name)
              \<lparr>co_extra := Some (application_extra markers), co_orphan := Some (application_orphan markers refs)\<rparr>)))))))))"

definition AccessStandaloneApplicationTypeWARP :: string where "AccessStandaloneApplicationTypeWARP = ''WARP''"

definition standalone_ref :: "string \<Rightarrow> standaloneObject \<times> string \<Rightarrow> localRef" where
  "standalone_ref cluster entry =
     (case entry of (app, scope) \<Rightarrow>
        object_ref ''AccessStandaloneApplication''
          (if ob_SpecName app = [] \<and> sl_Type app \<noteq> AccessStandaloneApplicationTypeWARP
           then accessRemoteNameValue cluster (ob_Namespace app) (ob_Name app) else ob_SpecName app)
          (ob_Name app) scope app)"

definition sweepAccessStandaloneApplications :: "('s, 'c) pass_env \<Rightarrow> ('s, 'c) runner \<Rightarrow> (sweep_error + driftItem list) \<times> ('s, 'c) runner" where
  "sweepAccessStandaloneApplications env =
     and_run (accessScopes env) (\<lambda>scopes.
     and_then (listAccessApplications env scopes) (\<lambda>remotes.
     and_run (clusterID env) (\<lambda>cluster.
     and_run (zones env 1) (\<lambda>zs.
     and_then (wrapped ''list AccessStandaloneApplications'' (kc_StandaloneApplications (pe_client env))) (\<lambda>list.
       let refs = map (standalone_ref cluster) (scoped_objects env zs list) in
       judge_pass env ObservedApplication refs remotes
         ((options ''AccessStandaloneApplication'' (scopeListed (set scopes)) rm_ID rm_Name)
            \<lparr>co_orphan := Some (accessNamedOrphan cluster refs rm_ID rm_Name)\<rparr>))))))"

text \<open>The reference of a kind whose remote name is generated from the name in its spec.\<close>

definition named_ref :: "string \<Rightarrow> string \<Rightarrow> string \<Rightarrow> 'x sweepObject_scheme \<Rightarrow> localRef" where
  "named_ref kind cluster scope object =
     object_ref kind (accessRemoteNameValue cluster (ob_Namespace object) (ob_SpecName object)) (ob_SpecName object) scope object"

definition sweepAccessPolicies :: "('s, 'c) pass_env \<Rightarrow> ('s, 'c) runner \<Rightarrow> (sweep_error + driftItem list) \<times> ('s, 'c) runner" where
  "sweepAccessPolicies env =
     and_then (paced (cf_AccessPolicies (pe_api env))) (\<lambda>remotes.
     and_run (clusterID env) (\<lambda>cluster.
     and_then (wrapped ''list AccessPolicies'' (kc_AccessPolicies (pe_client env))) (\<lambda>list.
       let mine = filter (judged env) list; refs = map (named_ref ''AccessPolicy'' cluster []) mine in
       judge_pass env ObservedPolicy refs remotes
         ((options ''AccessPolicy'' accountScopeListed rm_ID rm_Name)
            \<lparr>co_extra := Some (\<lambda>ref remote. case by_key po_Decision mine (lr_key ref) of
                 None \<Rightarrow> []
               | Some want \<Rightarrow> if want \<noteq> [] \<and> rp_Decision remote \<noteq> want
                   then ''remote decision '' @ show_q (rp_Decision remote) @ '' does not match spec decision '' @ show_q want else []),
             co_orphan := Some (accessNamedOrphan cluster refs rm_ID rm_Name)\<rparr>))))"

text \<open>The shared shape of the kinds that are listed in every scope and named after their spec.\<close>

definition sweep_scoped_kind :: "string \<Rightarrow> string \<Rightarrow> (string \<Rightarrow> 'c remoteObject call) \<Rightarrow> sweep_error + zoneObject list \<Rightarrow>
    ('s, 'c) pass_env \<Rightarrow> ('s, 'c) runner \<Rightarrow> (sweep_error + driftItem list) \<times> ('s, 'c) runner" where
  "sweep_scoped_kind kind plural call objects env =
     and_run (accessScopes env) (\<lambda>scopes.
     and_then (list_scopes call scopes) (\<lambda>remotes.
     and_run (clusterID env) (\<lambda>cluster.
     and_run (zones env 1) (\<lambda>zs.
     and_then (wrapped (''list '' @ plural) objects) (\<lambda>list.
       let refs = map (\<lambda>(object, scope). named_ref kind cluster scope object) (scoped_objects env zs list) in
       judge_pass env (ObservedObject kind) refs remotes
         ((options kind (scopeListed (set scopes)) rm_ID rm_Name)\<lparr>co_orphan := Some (accessNamedOrphan cluster refs rm_ID rm_Name)\<rparr>))))))"

definition sweepAccessGroups :: "('s, 'c) pass_env \<Rightarrow> ('s, 'c) runner \<Rightarrow> (sweep_error + driftItem list) \<times> ('s, 'c) runner" where
  "sweepAccessGroups env =
     sweep_scoped_kind ''AccessGroup'' ''AccessGroups'' (cf_AccessGroups (pe_api env)) (kc_AccessGroups (pe_client env)) env"

definition sweepServiceTokens :: "('s, 'c) pass_env \<Rightarrow> ('s, 'c) runner \<Rightarrow> (sweep_error + driftItem list) \<times> ('s, 'c) runner" where
  "sweepServiceTokens env =
     sweep_scoped_kind ''ServiceToken'' ''ServiceTokens'' (cf_ServiceTokens (pe_api env)) (kc_ServiceTokens (pe_client env)) env"

text \<open>The same for the kinds that are listed once, in the account.\<close>

definition sweep_named_kind :: "string \<Rightarrow> string \<Rightarrow> 'c remoteObject call \<Rightarrow> sweep_error + sweepObject list \<Rightarrow>
    ('s, 'c) pass_env \<Rightarrow> ('s, 'c) runner \<Rightarrow> (sweep_error + driftItem list) \<times> ('s, 'c) runner" where
  "sweep_named_kind kind plural call objects env =
     and_then (paced call) (\<lambda>remotes.
     and_run (clusterID env) (\<lambda>cluster.
     and_then (wrapped (''list '' @ plural) objects) (\<lambda>list.
       let refs = map (named_ref kind cluster []) (filter (judged env) list) in
       judge_pass env (ObservedObject kind) refs remotes
         ((options kind accountScopeListed rm_ID rm_Name)\<lparr>co_orphan := Some (accessNamedOrphan cluster refs rm_ID rm_Name)\<rparr>))))"

definition sweepIdentityProviders :: "('s, 'c) pass_env \<Rightarrow> ('s, 'c) runner \<Rightarrow> (sweep_error + driftItem list) \<times> ('s, 'c) runner" where
  "sweepIdentityProviders env = sweep_named_kind ''IdentityProvider'' ''IdentityProviders''
     (cf_IdentityProviders (pe_api env)) (kc_IdentityProviders (pe_client env)) env"

definition sweepAccessCustomPages :: "('s, 'c) pass_env \<Rightarrow> ('s, 'c) runner \<Rightarrow> (sweep_error + driftItem list) \<times> ('s, 'c) runner" where
  "sweepAccessCustomPages env = sweep_named_kind ''AccessCustomPage'' ''AccessCustomPages''
     (cf_AccessCustomPages (pe_api env)) (kc_AccessCustomPages (pe_client env)) env"

definition sweepDevicePostureRules :: "('s, 'c) pass_env \<Rightarrow> ('s, 'c) runner \<Rightarrow> (sweep_error + driftItem list) \<times> ('s, 'c) runner" where
  "sweepDevicePostureRules env = sweep_named_kind ''DevicePostureRule'' ''DevicePostureRules''
     (cf_PostureRules (pe_api env)) (kc_PostureRules (pe_client env)) env"

definition sweepDevicePostureIntegrations :: "('s, 'c) pass_env \<Rightarrow> ('s, 'c) runner \<Rightarrow> (sweep_error + driftItem list) \<times> ('s, 'c) runner" where
  "sweepDevicePostureIntegrations env = sweep_named_kind ''DevicePostureIntegration'' ''DevicePostureIntegrations''
     (cf_PostureIntegrations (pe_api env)) (kc_PostureIntegrations (pe_client env)) env"

definition sweepAccessInfrastructureTargets :: "('s, 'c) pass_env \<Rightarrow> ('s, 'c) runner \<Rightarrow> (sweep_error + driftItem list) \<times> ('s, 'c) runner" where
  "sweepAccessInfrastructureTargets env =
     and_then (paced (cf_InfrastructureTargets (pe_api env))) (\<lambda>remotes.
     and_then (wrapped ''list AccessInfrastructureTargets'' (kc_InfrastructureTargets (pe_client env))) (\<lambda>list.
       let refs = map (\<lambda>target. object_ref ''AccessInfrastructureTarget'' (ob_SpecName target) [] [] target) (filter (judged env) list) in
       judge_pass env (ObservedObject ''AccessInfrastructureTarget'') refs remotes
         ((options ''AccessInfrastructureTarget'' accountScopeListed rm_ID rm_Name)\<lparr>co_nameEqual := Some equal_fold\<rparr>)))"

section \<open>Tunnels, Zero Trust and device objects\<close>

definition desiredTunnelName :: "'x sweepObject_scheme \<Rightarrow> string \<Rightarrow> string" where
  "desiredTunnelName tunnel cluster =
     (if ob_SpecName tunnel \<noteq> [] then ob_SpecName tunnel else join [cluster, ob_Namespace tunnel, ob_Name tunnel] ''-'')"

definition sweepCloudflareTunnels :: "('s, 'c) pass_env \<Rightarrow> ('s, 'c) runner \<Rightarrow> (sweep_error + driftItem list) \<times> ('s, 'c) runner" where
  "sweepCloudflareTunnels env =
     and_then (paced (cf_Tunnels (pe_api env))) (\<lambda>remotes.
     and_run (clusterID env) (\<lambda>cluster.
     and_then (wrapped ''list CloudflareTunnels'' (kc_Tunnels (pe_client env))) (\<lambda>list.
       let mine = filter (judged env) list; expectedNames = set (map (\<lambda>t. desiredTunnelName t cluster) mine);
           refs = map (\<lambda>t. object_ref ''CloudflareTunnel'' (desiredTunnelName t cluster) [] [] t) mine;
           live = filter (\<lambda>r. rt_DeletedAt r = None) remotes in
       judge_pass env (ObservedTunnel ''Tunnel'') refs live
         ((options ''CloudflareTunnel'' accountScopeListed rm_ID rm_Name)
            \<lparr>co_orphan := Some (\<lambda>remote claimed.
               if \<not> has_prefix (rm_Name remote) (cluster @ ''-'') \<or> rm_Name remote \<in> expectedNames then None else Some no_name)\<rparr>))))"

definition sweepWARPConnectors :: "('s, 'c) pass_env \<Rightarrow> ('s, 'c) runner \<Rightarrow> (sweep_error + driftItem list) \<times> ('s, 'c) runner" where
  "sweepWARPConnectors env =
     and_then (paced (cf_WARPConnectors (pe_api env))) (\<lambda>remotes.
     and_then (wrapped ''list WARPConnectors'' (kc_WARPConnectors (pe_client env))) (\<lambda>list.
       let refs = map (\<lambda>c. object_ref ''WARPConnector'' (trim_space (ob_SpecName c)) [] [] c) (filter (judged env) list);
           live = filter (\<lambda>r. rt_DeletedAt r = None) remotes in
       judge_pass env (ObservedTunnel ''WARPConnector'') refs live (options ''WARPConnector'' accountScopeListed rm_ID rm_Name)))"

definition sweepZeroTrustGatewayPolicies :: "('s, 'c) pass_env \<Rightarrow> ('s, 'c) runner \<Rightarrow> (sweep_error + driftItem list) \<times> ('s, 'c) runner" where
  "sweepZeroTrustGatewayPolicies env =
     and_then (paced (cf_GatewayRules (pe_api env))) (\<lambda>remotes.
     and_then (wrapped ''list ZeroTrustGatewayPolicies'' (kc_GatewayPolicies (pe_client env))) (\<lambda>list.
       let mine = filter (judged env) list;
           refs = map (\<lambda>p. object_ref ''ZeroTrustGatewayPolicy'' (ob_SpecName p) [] [] p) mine in
       judge_pass env ObservedRule refs remotes
         ((options ''ZeroTrustGatewayPolicy'' accountScopeListed rm_ID rm_Name)
            \<lparr>co_extra := Some (\<lambda>ref remote. case by_key ru_Description mine (lr_key ref) of
                 Some (Some want) \<Rightarrow> if rr_Description remote \<noteq> want
                   then ''remote description '' @ show_q (rr_Description remote) @ '' does not match spec description '' @ show_q want else []
               | _ \<Rightarrow> [])\<rparr>)))"

definition sweepZeroTrustLists :: "('s, 'c) pass_env \<Rightarrow> ('s, 'c) runner \<Rightarrow> (sweep_error + driftItem list) \<times> ('s, 'c) runner" where
  "sweepZeroTrustLists env =
     and_then (paced (cf_GatewayLists (pe_api env))) (\<lambda>remotes.
     and_then (wrapped ''list ZeroTrustLists'' (kc_ZeroTrustLists (pe_client env))) (\<lambda>list.
       let mine = filter (judged env) list; refs = map (\<lambda>l. object_ref ''ZeroTrustList'' (ob_SpecName l) [] [] l) mine in
       judge_pass env ObservedList refs remotes
         ((options ''ZeroTrustList'' accountScopeListed rm_ID rm_Name)
            \<lparr>co_extra := Some (\<lambda>ref remote. case by_key lo_Type mine (lr_key ref) of
                 None \<Rightarrow> []
               | Some want \<Rightarrow> if want \<noteq> [] \<and> rl_Type remote \<noteq> want
                   then ''remote list type '' @ show_q (rl_Type remote) @ '' does not match spec type '' @ show_q want else [])\<rparr>)))"

text \<open>The optional name of a profile is the empty string when it is absent.\<close>

definition sweepDeviceProfiles :: "('s, 'c) pass_env \<Rightarrow> ('s, 'c) runner \<Rightarrow> (sweep_error + driftItem list) \<times> ('s, 'c) runner" where
  "sweepDeviceProfiles env =
     and_then (paced (cf_DeviceProfiles (pe_api env))) (\<lambda>remotes.
     and_then (wrapped ''list DeviceProfiles'' (kc_DeviceProfiles (pe_client env))) (\<lambda>list.
       let refs = map (\<lambda>p. object_ref ''DeviceProfile'' (ob_SpecName p) [] [] p) (filter (judged env) list) in
       judge_pass env (ObservedObject ''DeviceProfile'') refs remotes (options ''DeviceProfile'' accountScopeListed rm_ID rm_Name)))"

section \<open>Private network objects\<close>

definition live_owner :: "localRef option \<Rightarrow> string \<Rightarrow> namespacedName option \<Rightarrow> namespacedName option" where
  "live_owner found remoteID unmatched =
     (case found of Some ref \<Rightarrow> if lr_remoteID ref \<noteq> remoteID then Some (lr_key ref) else None | None \<Rightarrow> unmatched)"

definition privateOrphan :: "digests \<Rightarrow> string \<Rightarrow> string \<Rightarrow> localRef list \<Rightarrow> ('r \<Rightarrow> string) \<Rightarrow> ('r \<Rightarrow> string) \<Rightarrow> 'r \<Rightarrow> string set \<Rightarrow> namespacedName option" where
  "privateOrphan dg cluster key refs idOf commentOf remote claimed =
     (case parsePrivateOwnerComment (commentOf remote) of
        None \<Rightarrow>
          live_owner (List.find (\<lambda>ref. IsOwnedPrivateResourceSigned dg (commentOf remote) key cluster (nn_Namespace (lr_key ref)) (lr_specName ref)) refs)
            (idOf remote) None
      | Some (ownerCluster, namespace', name) \<Rightarrow>
          if ownerCluster \<noteq> cluster then None
          else live_owner (List.find (\<lambda>ref. nn_Namespace (lr_key ref) = namespace' \<and> lr_specName ref = name) refs) (idOf remote)
            (Some \<lparr>nn_Namespace = namespace', nn_Name = name\<rparr>))"

definition sweepVirtualNetworks :: "('s, 'c) pass_env \<Rightarrow> ('s, 'c) runner \<Rightarrow> (sweep_error + driftItem list) \<times> ('s, 'c) runner" where
  "sweepVirtualNetworks env =
     and_then (paced (cf_VirtualNetworks (pe_api env))) (\<lambda>remotes.
     and_run (clusterID env) (\<lambda>cluster.
     and_key env (\<lambda>key.
     and_then (wrapped ''list VirtualNetworks'' (kc_VirtualNetworks (pe_client env))) (\<lambda>list.
       let mine = filter (judged env) list; refs = map (\<lambda>n. object_ref ''VirtualNetwork'' (ob_SpecName n) (ob_Name n) [] n) mine;
           default = (\<lambda>k. by_key no_IsDefault mine k = Some True) in
       judge_pass env ObservedNetwork refs (filter (\<lambda>r. \<not> rv_Deleted r) remotes)
         ((options ''VirtualNetwork'' accountScopeListed rm_ID rm_Name)
            \<lparr>co_extra := Some (\<lambda>ref remote. if rv_IsDefault remote \<noteq> default (lr_key ref)
               then ''remote isDefault '' @ show_bool (rv_IsDefault remote) @ '' does not match spec isDefault '' @ show_bool (default (lr_key ref))
               else []),
             co_orphan := Some (privateOrphan (pe_digests env) cluster key refs rm_ID rv_Comment)\<rparr>)))))"

definition network_extra :: "(string \<Rightarrow> ipPrefix option) \<Rightarrow> (namespacedName \<Rightarrow> string option) \<Rightarrow> localRef \<Rightarrow> 'c remoteNetworkRoute \<Rightarrow> string" where
  "network_extra ParsePrefix networks ref remote =
     (case networks (lr_key ref) of
        None \<Rightarrow> []
      | Some want \<Rightarrow>
          (case ParsePrefix want of
             None \<Rightarrow> []
           | Some wantPrefix \<Rightarrow>
               if (case ParsePrefix (rn_Network remote) of None \<Rightarrow> True
                   | Some remotePrefix \<Rightarrow> prefix_masked remotePrefix \<noteq> prefix_masked wantPrefix)
               then ''remote network '' @ show_q (rn_Network remote) @ '' does not match spec network '' @ show_q want
               else []))"

definition sweepNetworkRoutes :: "('s, 'c) pass_env \<Rightarrow> ('s, 'c) runner \<Rightarrow> (sweep_error + driftItem list) \<times> ('s, 'c) runner" where
  "sweepNetworkRoutes env =
     and_then (paced (cf_NetworkRoutes (pe_api env))) (\<lambda>remotes.
     and_run (clusterID env) (\<lambda>cluster.
     and_key env (\<lambda>key.
     and_then (wrapped ''list NetworkRoutes'' (kc_NetworkRoutes (pe_client env))) (\<lambda>list.
       let mine = filter (judged env) list; refs = map (\<lambda>r. object_ref ''NetworkRoute'' [] (ob_Name r) [] r) mine in
       judge_pass env ObservedNetworkRoute refs (filter (\<lambda>r. \<not> rn_Deleted r) remotes)
         ((options ''NetworkRoute'' accountScopeListed rm_ID (\<lambda>_. []))
            \<lparr>co_extra := Some (network_extra (pe_ParsePrefix env) (by_key rt_Network mine)),
             co_orphan := Some (privateOrphan (pe_digests env) cluster key refs rm_ID rn_Comment)\<rparr>)))))"

definition sweepHostnameRoutes :: "('s, 'c) pass_env \<Rightarrow> ('s, 'c) runner \<Rightarrow> (sweep_error + driftItem list) \<times> ('s, 'c) runner" where
  "sweepHostnameRoutes env =
     and_then (paced (cf_HostnameRoutes (pe_api env))) (\<lambda>remotes.
     and_run (clusterID env) (\<lambda>cluster.
     and_key env (\<lambda>key.
     and_then (wrapped ''list HostnameRoutes'' (kc_HostnameRoutes (pe_client env))) (\<lambda>list.
       let mine = filter (judged env) list; refs = map (\<lambda>r. object_ref ''HostnameRoute'' [] (ob_Name r) [] r) mine in
       judge_pass env ObservedHostnameRoute refs (filter (\<lambda>r. \<not> rh_Deleted r) remotes)
         ((options ''HostnameRoute'' accountScopeListed rm_ID (\<lambda>_. []))
            \<lparr>co_extra := Some (\<lambda>ref remote. case by_key (\<lambda>r. trim_prefix (hr_Hostname r) ''*.'') mine (lr_key ref) of
                 None \<Rightarrow> []
               | Some want \<Rightarrow> if want \<noteq> [] \<and> \<not> equal_fold (rh_Hostname remote) want
                   then ''remote hostname '' @ show_q (rh_Hostname remote) @ '' does not match spec hostname '' @ show_q want else []),
             co_orphan := Some (privateOrphan (pe_digests env) cluster key refs rm_ID rh_Comment)\<rparr>)))))"

section \<open>DNS records\<close>

definition tunnelCNAMETarget :: "string \<Rightarrow> string" where
  "tunnelCNAMETarget tunnelID = tunnelID @ ''.cfargotunnel.com''"

record dnsTunnelInfo =
  ti_key :: namespacedName
  ti_tunnelID :: string
  ti_markers :: "string list"
  ti_checkpoints :: "(string, dnsCheckpoint) gomap"

definition dnsScanZones :: "zone list \<Rightarrow> accountGrant list \<Rightarrow> string set \<Rightarrow> zone list" where
  "dnsScanZones inventory grants checkpointZones =
     filter (\<lambda>z. zn_ID z \<in> checkpointZones \<or> list_ex (\<lambda>grant. ZoneMatches (gr_Zones grant) (zn_Name z)) grants) inventory"

definition dnsOwnershipMarkers :: "digests \<Rightarrow> 'x sweepObject_scheme \<Rightarrow> string \<Rightarrow> string \<Rightarrow> string \<Rightarrow> string list" where
  "dnsOwnershipMarkers dg tunnel key cluster ownerName =
     (let signed = SignDNSRecordComment dg key cluster (ob_Namespace tunnel) ownerName;
          legacy = DNSRecordComment dg cluster (ob_Namespace tunnel) ownerName in
      if signed = legacy then [signed] else [signed, legacy])"

definition dnsRecordOwned :: "dnsRecord \<Rightarrow> string \<Rightarrow> string list \<Rightarrow> bool" where
  "dnsRecordOwned record' checkpointComment markers \<longleftrightarrow>
     checkpointComment \<noteq> [] \<and> IsOwnedDNSRecord record' checkpointComment \<or> list_ex (IsOwnedDNSRecord record') markers"

definition owned_by_tunnel :: "(string \<Rightarrow> string + string) \<Rightarrow> dnsRecord \<Rightarrow> dnsTunnelInfo \<Rightarrow> bool" where
  "owned_by_tunnel toASCII remote tunnel =
     list_ex (\<lambda>marker. IsOwnedDNSRecordStrict toASCII remote marker (tunnelCNAMETarget (ti_tunnelID tunnel))) (ti_markers tunnel)"

definition optionalBoolEqual :: "bool option \<Rightarrow> bool option \<Rightarrow> bool" where
  "optionalBoolEqual observed desired \<longleftrightarrow> desired = None \<or> observed \<noteq> None \<and> the observed = the desired"

text \<open>A pointer printed with \<^verbatim>\<open>%v\<close>: its address.\<close>

definition show_flag :: "(bool \<Rightarrow> string) \<Rightarrow> bool option \<Rightarrow> string" where
  "show_flag address flag = (case flag of None \<Rightarrow> ''<nil>'' | Some b \<Rightarrow> address b)"

definition dnsSettingsDrift :: "(bool \<Rightarrow> string) \<Rightarrow> dnsRecordSettings option \<Rightarrow> dnsRecordSettings option \<Rightarrow> string" where
  "dnsSettingsDrift address checkpoint remote =
     (case checkpoint of
        None \<Rightarrow> []
      | Some want \<Rightarrow>
          (let remoteV4 = Option.bind remote ds_IPv4Only; remoteV6 = Option.bind remote ds_IPv6Only in
           if \<not> optionalBoolEqual remoteV4 (ds_IPv4Only want)
             then ''remote ipv4Only '' @ show_flag address remoteV4 @ '' does not match checkpointed '' @ show_flag address (ds_IPv4Only want)
           else if \<not> optionalBoolEqual remoteV6 (ds_IPv6Only want)
             then ''remote ipv6Only '' @ show_flag address remoteV6 @ '' does not match checkpointed '' @ show_flag address (ds_IPv6Only want)
           else []))"

definition dnsMismatchReason :: "('s, 'c) pass_env \<Rightarrow> dnsTunnelInfo \<Rightarrow> dnsCheckpoint \<Rightarrow> dnsRecord \<Rightarrow> string" where
  "dnsMismatchReason env tunnel checkpoint remote =
     (if \<not> dnsRecordOwned remote (cp_OwnershipComment checkpoint) (ti_markers tunnel)
        then ''remote record comment '' @ show_q (dn_Comment remote) @ '' no longer carries the checkpointed ownership marker''
      else if ti_tunnelID tunnel \<noteq> [] \<and> \<not> owned_by_tunnel (pe_toASCII env) remote tunnel
        then ''remote record is not a CNAME to '' @ tunnelCNAMETarget (ti_tunnelID tunnel) @ '' (type '' @ dn_Type remote @
             '', content '' @ show_q (dn_Content remote) @ '')''
      else if \<not> DNSHostnamesEqual (pe_toASCII env) (dn_Name remote) (cp_Hostname checkpoint)
        then ''remote record name '' @ show_q (dn_Name remote) @ '' no longer matches checkpointed hostname '' @ show_q (cp_Hostname checkpoint)
      else if cp_OwnershipComment checkpoint \<noteq> [] \<and> dn_Comment remote \<noteq> cp_OwnershipComment checkpoint
        then ''remote record comment '' @ show_q (dn_Comment remote) @ '' no longer matches checkpointed comment '' @
             show_q (cp_OwnershipComment checkpoint)
      else if cp_TTL checkpoint \<noteq> 0 \<and> dn_TTL remote \<noteq> cp_TTL checkpoint
        then ''remote record TTL '' @ show_int (dn_TTL remote) @ '' does not match checkpointed TTL '' @ show_int (cp_TTL checkpoint)
      else if cp_Proxied checkpoint \<noteq> None \<and> dn_Proxied remote \<noteq> the (cp_Proxied checkpoint)
        then ''remote record proxied '' @ show_bool (dn_Proxied remote) @ '' does not match checkpointed proxied '' @
             show_bool (the (cp_Proxied checkpoint))
      else dnsSettingsDrift (pe_address env) (cp_Settings checkpoint) (dn_Settings remote))"

definition dns_item :: "dnsTunnelInfo \<Rightarrow> string \<Rightarrow> driftCase \<Rightarrow> string \<Rightarrow> driftItem" where
  "dns_item tunnel recordID c reason =
     \<lparr>di_Kind = ''DNSRecord'', di_TargetKind = ''CloudflareTunnel'', di_Key = ti_key tunnel, di_RemoteID = recordID, di_Case = c, di_Reason = reason\<rparr>"

definition dnsOrphanCandidate :: "(string \<Rightarrow> string + string) \<Rightarrow> dnsRecord \<Rightarrow> dnsTunnelInfo list \<Rightarrow> driftItem option" where
  "dnsOrphanCandidate toASCII remote tunnels =
     map_option (\<lambda>tunnel. dns_item tunnel (dn_ID remote) DriftCaseOrphan
         (''remote record '' @ dn_ID remote @ '' ('' @ dn_Name remote @ '') carries this tunnel'' @ [CHR 0x27] @
          ''s ownership marker but is not checkpointed''))
       (List.find (\<lambda>tunnel. ti_tunnelID tunnel \<noteq> [] \<and> owned_by_tunnel toASCII remote tunnel) tunnels)"

definition parseTunnelTarget :: "string \<Rightarrow> string option" where
  "parseTunnelTarget content =
     (let name = to_lower (trim_suffix content ''.''); id' = trim_suffix name ''.cfargotunnel.com'' in
      if \<not> has_suffix name ''.cfargotunnel.com'' \<or> id' = [] then None else Some id')"

definition recorded :: "tunnelObject \<Rightarrow> dnsCheckpoint list" where
  "recorded tunnel = filter (\<lambda>cp. cp_RecordID cp \<noteq> []) (to_DNSRecords tunnel)"

definition tunnel_info :: "digests \<Rightarrow> string \<Rightarrow> string \<Rightarrow> tunnelObject \<Rightarrow> dnsTunnelInfo" where
  "tunnel_info dg key cluster tunnel =
     (let ownerNames = ob_Name tunnel # (case to_GatewayRef tunnel of None \<Rightarrow> [] | Some name \<Rightarrow> if name \<noteq> [] then [name] else []) in
      \<lparr>ti_key = object_key tunnel, ti_tunnelID = ob_StatusID tunnel,
       ti_markers = concat (map (dnsOwnershipMarkers dg tunnel key cluster) ownerNames),
       ti_checkpoints = fold (\<lambda>cp. mput (cp_RecordID cp) cp) (recorded tunnel) []\<rparr>)"

text \<open>The records found, the zones listed completely and the failures isolated to their zones.\<close>

record dns_listing =
  dl_remotes :: "(string, dnsRecord) gomap"
  dl_listed :: "string list"
  dl_failures :: "(string \<times> sweep_error) list"

fun list_zones :: "(string \<Rightarrow> dnsRecord call) \<Rightarrow> zone list \<Rightarrow> dns_listing \<Rightarrow> sweep_error + dns_listing" where
  "list_zones call [] acc = Inr acc"
| "list_zones call (z # zs) acc =
     (case call (zn_ID z) of
        (Some e, _) \<Rightarrow> Inl e
      | (None, Inl e) \<Rightarrow>
          if \<not> zoneFailureIsolatable e then Inl e else list_zones call zs (acc\<lparr>dl_failures := dl_failures acc @ [(zn_ID z, e)]\<rparr>)
      | (None, Inr records) \<Rightarrow>
          list_zones call zs (acc\<lparr>dl_listed := dl_listed acc @ [zn_ID z],
            dl_remotes := fold (\<lambda>r. mput (dn_ID r) r) records (dl_remotes acc)\<rparr>))"

definition judge_checkpoint :: "('s, 'c) pass_env \<Rightarrow> dns_listing \<Rightarrow> dnsTunnelInfo \<Rightarrow> string \<times> dnsCheckpoint \<Rightarrow> driftItem list" where
  "judge_checkpoint env listing tunnel entry =
     (case entry of (recordID, checkpoint) \<Rightarrow>
        if cp_ZoneID checkpoint \<notin> set (dl_listed listing) then []
        else case mget (dl_remotes listing) recordID of
          None \<Rightarrow> [dns_item tunnel recordID DriftCaseMissing
            (''checkpointed DNS record '' @ recordID @ '' ('' @ cp_Hostname checkpoint @ '') is absent from the zone listing'')]
        | Some remote \<Rightarrow>
            (let reason = dnsMismatchReason env tunnel checkpoint remote in
             if reason \<noteq> [] then [dns_item tunnel recordID DriftCaseMismatch reason] else []))"

definition judge_records :: "('s, 'c) pass_env \<Rightarrow> dnsTunnelInfo list \<Rightarrow> string set \<Rightarrow> dns_listing \<Rightarrow> driftItem list" where
  "judge_records env tunnels claimed listing =
     concat (map (\<lambda>tunnel. concat (map (judge_checkpoint env listing tunnel) (ti_checkpoints tunnel))) tunnels) @
     concat (map (\<lambda>(recordID, remote). if dn_ID remote \<in> claimed then []
       else case dnsOrphanCandidate (pe_toASCII env) remote tunnels of None \<Rightarrow> [] | Some item \<Rightarrow> [item]) (dl_remotes listing))"

definition sweepDNSRecords :: "('s, 'c) pass_env \<Rightarrow> ('s, 'c) runner \<Rightarrow> (sweep_error + (driftItem list \<times> sweep_error option)) \<times> ('s, 'c) runner" where
  "sweepDNSRecords env =
     and_run (clusterID env) (\<lambda>cluster.
     and_key env (\<lambda>key.
     and_then (wrapped (''get CloudflareAccount '' @ pe_accountName env) (kc_Grants (pe_client env) (pe_accountName env))) (\<lambda>grants.
     and_then (wrapped ''list CloudflareTunnels'' (kc_Tunnels (pe_client env))) (\<lambda>list.
       let mine = filter (judged env) list; tunnels = map (tunnel_info (pe_digests env) key cluster) mine;
           claimed = set (concat (map (map cp_RecordID \<circ> recorded) mine));
           checkpointZones = set (concat (map (map cp_ZoneID \<circ> recorded) mine)) in
       and_run (zones env 0) (\<lambda>inventory.
       and_then (list_zones (cf_DNSRecords (pe_api env)) (dnsScanZones inventory grants checkpointZones)
           \<lparr>dl_remotes = [], dl_listed = [], dl_failures = []\<rparr>) (\<lambda>listing st.
         (Inr (judge_records env tunnels claimed listing, scopedListingErr (dl_failures listing)), st)))))))"

section \<open>The registry and a whole pass\<close>

definition pass_outcome :: "sweep_error + driftItem list \<Rightarrow> driftItem list option \<times> sweep_error option" where
  "pass_outcome result = (case result of Inl e \<Rightarrow> (None, Some e) | Inr items \<Rightarrow> (Some items, None))"

definition dns_outcome :: "sweep_error + (driftItem list \<times> sweep_error option) \<Rightarrow> driftItem list option \<times> sweep_error option" where
  "dns_outcome result = (case result of Inl e \<Rightarrow> (None, Some e) | Inr (items, err) \<Rightarrow> (Some items, err))"

text \<open>The sweep functions of the registry by kind; DNS records are the one kind whose function also reports failures of single zones.\<close>

definition sweep_functions :: "('s, 'c) pass_env \<Rightarrow> (string \<times> (('s, 'c) runner \<Rightarrow> (sweep_error + driftItem list) \<times> ('s, 'c) runner)) list" where
  "sweep_functions env =
     [(''AccessApplication'', sweepAccessApplications env), (''AccessStandaloneApplication'', sweepAccessStandaloneApplications env),
      (''AccessPolicy'', sweepAccessPolicies env), (''AccessGroup'', sweepAccessGroups env), (''ServiceToken'', sweepServiceTokens env),
      (''IdentityProvider'', sweepIdentityProviders env), (''AccessCustomPage'', sweepAccessCustomPages env),
      (''AccessInfrastructureTarget'', sweepAccessInfrastructureTargets env), (''CloudflareTunnel'', sweepCloudflareTunnels env),
      (''ZeroTrustGatewayPolicy'', sweepZeroTrustGatewayPolicies env), (''ZeroTrustList'', sweepZeroTrustLists env),
      (''VirtualNetwork'', sweepVirtualNetworks env), (''NetworkRoute'', sweepNetworkRoutes env), (''HostnameRoute'', sweepHostnameRoutes env),
      (''DeviceProfile'', sweepDeviceProfiles env), (''DevicePostureRule'', sweepDevicePostureRules env),
      (''DevicePostureIntegration'', sweepDevicePostureIntegrations env), (''WARPConnector'', sweepWARPConnectors env)]"

definition sweep_func :: "string \<Rightarrow> ('s, 'c) pass_env \<Rightarrow> ('s, 'c) runner \<Rightarrow> (driftItem list option \<times> sweep_error option) \<times> ('s, 'c) runner" where
  "sweep_func kind env st =
     (if kind = ''DNSRecord'' then apfst dns_outcome (sweepDNSRecords env st)
      else case map_of (sweep_functions env) kind of
        None \<Rightarrow> ((None, None), st)
      | Some sweep \<Rightarrow> apfst pass_outcome (sweep st))"

text \<open>One pass of a target, with the channel of wakeups: the sweep function, then the handling of its items.\<close>

definition run_target_pass :: "string \<Rightarrow> ('s, 'c) pass_env \<Rightarrow> ('s, 'c) runner \<Rightarrow> wakeup list option \<Rightarrow> nat \<Rightarrow> ('s, 'c) runner \<times> wakeup list option" where
  "run_target_pass kind env st events capacity =
     (case sweep_func kind env st of
        (outcome, st') \<Rightarrow>
          (let done' = runTarget outcome \<lparr>ss_latch = rn_latch st', ss_events = events, ss_capacity = capacity\<rparr> in
           (st'\<lparr>rn_latch := ss_latch done'\<rparr>, ss_events done')))"

section \<open>What a sweep function ensures\<close>

text \<open>
  The objects a pass is responsible for: those of its account that are neither being deleted nor observed only, with the remote IDs
  their statuses record.
\<close>

definition belongs :: "('s, 'c) pass_env \<Rightarrow> 'x sweepObject_scheme \<Rightarrow> bool" where
  "belongs env x \<longleftrightarrow> ob_AccountRef x = pe_accountName env \<and> ob_DeletionTimestamp x \<in> {None, Some 0} \<and> ob_ManagementPolicy x \<noteq> ''ObserveOnly''"

lemma judged_belongs: "judged env x \<longleftrightarrow> belongs env x"
  by (auto simp: judged_def belongs_def deleting_def observeOnly_def ManagementPolicyObserveOnly_def time_is_zero_def split: option.split)

definition managed :: "('s, 'c) pass_env \<Rightarrow> sweep_error + 'x sweepObject_scheme list \<Rightarrow> (namespacedName \<times> string) set" where
  "managed env objects =
     (case objects of Inl e \<Rightarrow> {} | Inr list \<Rightarrow> (\<lambda>x. (object_key x, ob_StatusID x)) ` {x \<in> set list. belongs env x})"

definition managed_items :: "string \<Rightarrow> (namespacedName \<times> string) set \<Rightarrow> driftItem list \<Rightarrow> bool" where
  "managed_items kind objects items \<longleftrightarrow>
     (\<forall>i \<in> set items. di_Case i \<noteq> DriftCaseOrphan \<longrightarrow>
        di_TargetKind i = kind \<and> (di_Key i, di_RemoteID i) \<in> objects \<and> di_RemoteID i \<noteq> [])"

definition same_invalid :: "'o latch_ptr \<Rightarrow> 'o latch_ptr \<Rightarrow> bool" where
  "same_invalid a b \<longleftrightarrow> (\<forall>kind key. IsInvalidated kind key b = IsInvalidated kind key a) \<and> (b = None \<longleftrightarrow> a = None)"

definition pass_ensures :: "(('s, 'c) runner \<Rightarrow> (sweep_error + 'a) \<times> ('s, 'c) runner) \<Rightarrow> ('a \<Rightarrow> bool) \<Rightarrow> bool" where
  "pass_ensures m Q \<longleftrightarrow> (\<forall>st. same_invalid (rn_latch st) (rn_latch (snd (m st))) \<and> (\<forall>x. fst (m st) = Inr x \<longrightarrow> Q x))"

lemma same_invalid_refl [simp]: "same_invalid a a" by (simp add: same_invalid_def)

lemma same_invalid_trans: "same_invalid a b \<Longrightarrow> same_invalid b c \<Longrightarrow> same_invalid a c" by (simp add: same_invalid_def)

lemma wrapped_Inr [simp]: "wrapped message result = Inr x \<longleftrightarrow> result = Inr x"
  by (simp add: wrapped_def split: sum.split)

lemma ensures_then [pass_intros]: "(\<And>x. result = Inr x \<Longrightarrow> pass_ensures (k x) Q) \<Longrightarrow> pass_ensures (and_then result k) Q"
  by (cases result) (simp_all add: pass_ensures_def and_then_def)

lemma ensures_run [pass_intros]:
  assumes "pass_ensures m (\<lambda>_. True)" and "\<And>x. pass_ensures (k x) Q"
  shows "pass_ensures (and_run m k) Q"
  unfolding pass_ensures_def
proof (intro allI)
  fix st
  obtain r st' where m: "m st = (r, st')" by fastforce
  then have "same_invalid (rn_latch st) (rn_latch st')" using assms(1) by (auto simp: pass_ensures_def dest: spec [of _ st])
  then show "same_invalid (rn_latch st) (rn_latch (snd (and_run m k st))) \<and> (\<forall>x. fst (and_run m k st) = Inr x \<longrightarrow> Q x)"
    using assms(2) m by (cases r) (auto simp: and_run_def pass_ensures_def intro: same_invalid_trans)
qed

lemma ensures_key [pass_intros]:
  assumes "\<And>key. pass_ensures (k key) Q"
  shows "pass_ensures (and_key env k) Q"
  unfolding pass_ensures_def
proof (intro allI)
  fix st
  obtain key st' where m: "ownershipKey env st = (key, st')" by fastforce
  then have "rn_latch st' = rn_latch st"
    by (auto simp: ownershipKey_def split: if_splits prod.splits option.splits sum.splits)
  then show "same_invalid (rn_latch st) (rn_latch (snd (and_key env k st))) \<and> (\<forall>x. fst (and_key env k st) = Inr x \<longrightarrow> Q x)"
    using assms m by (auto simp: and_key_def pass_ensures_def) (metis fst_conv)+
qed

lemma ensures_pure [pass_intros]: "Q x \<Longrightarrow> pass_ensures (\<lambda>st. (Inr x, st)) Q"
  by (simp add: pass_ensures_def)

lemma ensures_zones [pass_intros]: "pass_ensures (zones env n) (\<lambda>_. True)"
  by (simp add: pass_ensures_def zones_def Let_def split: option.split sum.split)

lemma ensures_clusterID [pass_intros]: "pass_ensures (clusterID env) (\<lambda>_. True)"
  by (simp add: pass_ensures_def clusterID_def split: sum.split)

lemma ensures_scopes [pass_intros]: "pass_ensures (accessScopes env) (\<lambda>_. True)"
  unfolding accessScopes_def by (intro pass_intros TrueI)

text \<open>Confirming content never invalidates, and the two loops of a classification keep the latch otherwise.\<close>

lemma confirm_same_invalid: "same_invalid lp (snd (ConfirmContent kind key observed at lp))"
  by (auto simp: same_invalid_def ConfirmContent_def confirm_read_def confirm_record_def IsInvalidated_def Let_def split: option.split)

definition content_safe :: "('r, 'o) classifyOptions \<Rightarrow> bool" where
  "content_safe opts \<longleftrightarrow> (\<forall>content ref remote lp. co_content opts = Some content \<longrightarrow> same_invalid lp (snd (content ref remote lp)))"

lemma match_same_invalid: "content_safe opts \<Longrightarrow> same_invalid lp (snd (matchReason ref remote opts lp))"
  by (auto simp: matchReason_def content_safe_def split: option.split prod.split) (metis snd_conv)

lemma judge_ref_same_invalid: "content_safe opts \<Longrightarrow> same_invalid lp (snd (judge_ref remotes opts ref lp))"
  by (auto simp: judge_ref_def split: option.split prod.split) (metis match_same_invalid snd_conv)

lemma judge_refs_same_invalid: "content_safe opts \<Longrightarrow> same_invalid lp (snd (judge_refs remotes opts refs lp))"
proof (induction refs arbitrary: lp)
  case (Cons ref refs)
  have "same_invalid lp (snd (judge_ref remotes opts ref lp))" by (rule judge_ref_same_invalid [OF Cons.prems])
  moreover have "same_invalid (snd (judge_ref remotes opts ref lp)) (snd (judge_refs remotes opts refs (snd (judge_ref remotes opts ref lp))))"
    by (rule Cons.IH [OF Cons.prems])
  ultimately show ?case by (auto simp: split: prod.splits intro: same_invalid_trans)
qed simp

lemma classified_item:
  assumes "i \<in> set (fst (classify refs remotes opts latch))"
  shows "(\<exists>ref \<in> set refs. ref_item_ok remotes opts ref i) \<or>
    (\<exists>remote \<in> set remotes. i \<in> set (judge_remote refs opts remote) \<and> di_Case i = DriftCaseOrphan)"
proof -
  have "i \<in> set (fst (judge_refs remotes opts refs latch)) \<or> (\<exists>remote \<in> set remotes. i \<in> set (judge_remote refs opts remote))"
    using assms by (auto simp: classify_def split: prod.splits)
  then show ?thesis
    using judge_refs_sound [of i remotes opts refs latch] judge_ref_ok [of i remotes opts] by (auto simp: judge_remote_mem orphan_item_def)
qed

lemma ref_item_fields:
  assumes "ref_item_ok remotes opts ref i"
  shows "di_TargetKind i = lr_kind ref" "di_Key i = lr_key ref" "di_RemoteID i = lr_remoteID ref" "di_RemoteID i \<noteq> []"
proof -
  have "i = ref_item (co_kind opts) ref (di_Case i) (di_Reason i)" "lr_remoteID ref \<noteq> []"
    using assms by (simp_all add: ref_item_ok_def)
  then show "di_TargetKind i = lr_kind ref" "di_Key i = lr_key ref" "di_RemoteID i = lr_remoteID ref" "di_RemoteID i \<noteq> []"
    by (metis ref_item_def driftItem.select_convs)+
qed

lemma ensures_judge [pass_intros]:
  fixes env :: "('s, 'c) pass_env" and observe :: "'r \<Rightarrow> 'c observed"
  assumes "\<And>ref. ref \<in> set refs \<Longrightarrow> lr_kind ref = kind \<and> (lr_key ref, lr_remoteID ref) \<in> objects"
  shows "pass_ensures (judge_pass env observe refs remotes opts) (managed_items kind objects)"
  unfolding pass_ensures_def
proof (intro allI)
  fix st :: "('s, 'c) runner"
  let ?opts = "opts\<lparr>co_content := contentCheckWith (pe_start env) (rn_latch st) observe\<rparr>"
  obtain items latch where run: "classify refs remotes ?opts (rn_latch st) = (items, latch)" by fastforce
  have "content_safe ?opts" by (auto simp: content_safe_def contentCheckWith_def confirm_same_invalid split: if_splits)
  then have "same_invalid (rn_latch st) latch"
    using judge_refs_same_invalid [of ?opts "rn_latch st" remotes refs] run by (auto simp: classify_def split: prod.splits)
  moreover have "managed_items kind objects items"
    unfolding managed_items_def
  proof (intro ballI impI)
    fix i assume "i \<in> set items" and "di_Case i \<noteq> DriftCaseOrphan"
    then obtain ref where ref: "ref \<in> set refs" "ref_item_ok remotes ?opts ref i"
      using classified_item [of i refs remotes ?opts "rn_latch st"] run by auto
    then show "di_TargetKind i = kind \<and> (di_Key i, di_RemoteID i) \<in> objects \<and> di_RemoteID i \<noteq> []"
      using ref_item_fields [OF ref(2)] assms [OF ref(1)] by auto
  qed
  ultimately show "same_invalid (rn_latch st) (rn_latch (snd (judge_pass env observe refs remotes opts st))) \<and>
      (\<forall>x. fst (judge_pass env observe refs remotes opts st) = Inr x \<longrightarrow> managed_items kind objects x)"
    by (simp add: judge_pass_def run)
qed

lemma managed_Inr: "managed env (Inr list) = (\<lambda>x. (object_key x, ob_StatusID x)) ` {x \<in> set list. judged env x}"
  by (simp add: managed_def judged_belongs)

lemma scoped_objects_mem: "(x, scope) \<in> set (scoped_objects env zs list) \<Longrightarrow> x \<in> set list \<and> judged env x"
  by (auto simp: scoped_objects_def split: option.splits)

lemmas ref_defs = object_ref_def named_ref_def application_ref_def standalone_ref_def managed_Inr

text \<open>Every sweep function ensures that its items are about objects it may judge.\<close>

lemma ensures_applications: "pass_ensures (sweepAccessApplications env) (managed_items ''AccessApplication'' (managed env (kc_AccessApplications (pe_client env))))"
  unfolding sweepAccessApplications_def Let_def by (intro pass_intros) (auto simp: ref_defs dest!: scoped_objects_mem)

lemma ensures_standalone: "pass_ensures (sweepAccessStandaloneApplications env)
    (managed_items ''AccessStandaloneApplication'' (managed env (kc_StandaloneApplications (pe_client env))))"
  unfolding sweepAccessStandaloneApplications_def Let_def by (intro pass_intros) (auto simp: ref_defs dest!: scoped_objects_mem)

lemma ensures_policies: "pass_ensures (sweepAccessPolicies env) (managed_items ''AccessPolicy'' (managed env (kc_AccessPolicies (pe_client env))))"
  unfolding sweepAccessPolicies_def Let_def by (intro pass_intros) (auto simp: ref_defs)

lemma ensures_scoped: "pass_ensures (sweep_scoped_kind kind plural call objects env) (managed_items kind (managed env objects))"
  unfolding sweep_scoped_kind_def Let_def by (intro pass_intros) (auto simp: ref_defs dest!: scoped_objects_mem)

lemma ensures_named: "pass_ensures (sweep_named_kind kind plural call objects env) (managed_items kind (managed env objects))"
  unfolding sweep_named_kind_def Let_def by (intro pass_intros) (auto simp: ref_defs)

lemma ensures_targets: "pass_ensures (sweepAccessInfrastructureTargets env)
    (managed_items ''AccessInfrastructureTarget'' (managed env (kc_InfrastructureTargets (pe_client env))))"
  unfolding sweepAccessInfrastructureTargets_def Let_def by (intro pass_intros) (auto simp: ref_defs)

lemma ensures_tunnels: "pass_ensures (sweepCloudflareTunnels env) (managed_items ''CloudflareTunnel'' (managed env (kc_Tunnels (pe_client env))))"
  unfolding sweepCloudflareTunnels_def Let_def by (intro pass_intros) (auto simp: ref_defs)

lemma ensures_connectors: "pass_ensures (sweepWARPConnectors env) (managed_items ''WARPConnector'' (managed env (kc_WARPConnectors (pe_client env))))"
  unfolding sweepWARPConnectors_def Let_def by (intro pass_intros) (auto simp: ref_defs)

lemma ensures_gateway_policies: "pass_ensures (sweepZeroTrustGatewayPolicies env)
    (managed_items ''ZeroTrustGatewayPolicy'' (managed env (kc_GatewayPolicies (pe_client env))))"
  unfolding sweepZeroTrustGatewayPolicies_def Let_def by (intro pass_intros) (auto simp: ref_defs)

lemma ensures_lists: "pass_ensures (sweepZeroTrustLists env) (managed_items ''ZeroTrustList'' (managed env (kc_ZeroTrustLists (pe_client env))))"
  unfolding sweepZeroTrustLists_def Let_def by (intro pass_intros) (auto simp: ref_defs)

lemma ensures_profiles: "pass_ensures (sweepDeviceProfiles env) (managed_items ''DeviceProfile'' (managed env (kc_DeviceProfiles (pe_client env))))"
  unfolding sweepDeviceProfiles_def Let_def by (intro pass_intros) (auto simp: ref_defs)

lemma ensures_networks: "pass_ensures (sweepVirtualNetworks env) (managed_items ''VirtualNetwork'' (managed env (kc_VirtualNetworks (pe_client env))))"
  unfolding sweepVirtualNetworks_def Let_def by (intro pass_intros) (auto simp: ref_defs)

lemma ensures_network_routes: "pass_ensures (sweepNetworkRoutes env) (managed_items ''NetworkRoute'' (managed env (kc_NetworkRoutes (pe_client env))))"
  unfolding sweepNetworkRoutes_def Let_def by (intro pass_intros) (auto simp: ref_defs)

lemma ensures_hostname_routes: "pass_ensures (sweepHostnameRoutes env) (managed_items ''HostnameRoute'' (managed env (kc_HostnameRoutes (pe_client env))))"
  unfolding sweepHostnameRoutes_def Let_def by (intro pass_intros) (auto simp: ref_defs)

section \<open>Items about DNS records\<close>

text \<open>
  What an item says about the tunnels \<open>list\<close>: it targets a tunnel the pass is responsible for. A missing or mismatched record is checkpointed by
  that tunnel in a zone that was listed completely, and a missing one is not in that listing. An orphan is checkpointed by no such tunnel, was
  listed, carries a marker of the tunnel and is a CNAME to its target.
\<close>

definition dns_item_ok :: "('s, 'c) pass_env \<Rightarrow> tunnelObject list \<Rightarrow> (tunnelObject \<Rightarrow> string list) \<Rightarrow> driftItem \<Rightarrow> bool" where
  "dns_item_ok env list markers i \<longleftrightarrow>
     (\<exists>t \<in> set list. belongs env t \<and> di_TargetKind i = ''CloudflareTunnel'' \<and> di_Key i = object_key t \<and>
        (if di_Case i = DriftCaseOrphan then
           ob_StatusID t \<noteq> [] \<and> (\<forall>u \<in> set list. belongs env u \<longrightarrow> di_RemoteID i \<notin> cp_RecordID ` set (recorded u)) \<and>
           (\<exists>z records r m. cf_DNSRecords (pe_api env) z = (None, Inr records) \<and> r \<in> set records \<and> dn_ID r = di_RemoteID i \<and>
              m \<in> set (markers t) \<and> IsOwnedDNSRecord r m \<and> equal_fold (dn_Type r) ''CNAME'' \<and>
              DNSHostnamesEqual (pe_toASCII env) (dn_Content r) (tunnelCNAMETarget (ob_StatusID t)))
         else
           (\<exists>cp \<in> set (recorded t). cp_RecordID cp = di_RemoteID i \<and>
              (\<exists>records. cf_DNSRecords (pe_api env) (cp_ZoneID cp) = (None, Inr records) \<and>
                 (di_Case i = DriftCaseMissing \<longrightarrow> di_RemoteID i \<notin> dn_ID ` set records)))))"

definition listing_ok :: "(string \<Rightarrow> dnsRecord call) \<Rightarrow> dns_listing \<Rightarrow> bool" where
  "listing_ok call acc \<longleftrightarrow>
     (\<forall>z \<in> set (dl_listed acc). \<exists>records. call z = (None, Inr records) \<and> (\<forall>r \<in> set records. mget (dl_remotes acc) (dn_ID r) \<noteq> None)) \<and>
     (\<forall>(k, r) \<in> set (dl_remotes acc). k = dn_ID r \<and> (\<exists>z records. call z = (None, Inr records) \<and> r \<in> set records)) \<and>
     (\<forall>(z, e) \<in> set (dl_failures acc). call z = (None, Inl e) \<and> zoneFailureIsolatable e)"

lemma fold_put_lookup: "mget (fold (\<lambda>r. mput (f r) r) rs m) k \<noteq> None \<longleftrightarrow> k \<in> f ` set rs \<or> mget m k \<noteq> None"
  by (induction rs arbitrary: m) (auto simp: update_conv')

lemma fold_put_mem: "(k, r) \<in> set (fold (\<lambda>r. mput (f r) r) rs m) \<Longrightarrow> k = f r \<and> r \<in> set rs \<or> (k, r) \<in> set m"
proof (induction rs arbitrary: m)
  case (Cons x rs)
  then have "k = f r \<and> r \<in> set rs \<or> (k, r) \<in> set (mput (f x) x m)" by simp
  then show ?case using set_mput_subset [of "f x" x m] by auto
qed simp

lemma listing_ok_extend:
  assumes "listing_ok call acc" and "call z = (None, Inr records)"
  shows "listing_ok call (acc\<lparr>dl_listed := dl_listed acc @ [z], dl_remotes := fold (\<lambda>r. mput (dn_ID r) r) records (dl_remotes acc)\<rparr>)"
proof -
  let ?m = "fold (\<lambda>r. mput (dn_ID r) r) records (dl_remotes acc)"
  have "k = dn_ID r \<and> (\<exists>z records. call z = (None, Inr records) \<and> r \<in> set records)" if "(k, r) \<in> set ?m" for k r
    using fold_put_mem [OF that] assms by (fastforce simp: listing_ok_def)
  moreover have "\<exists>records. call y = (None, Inr records) \<and> (\<forall>r \<in> set records. mget ?m (dn_ID r) \<noteq> None)"
    if "y \<in> set (dl_listed acc @ [z])" for y
  proof (cases "y = z")
    case True
    then show ?thesis using assms(2) fold_put_lookup [of dn_ID records "dl_remotes acc"] by (intro exI [of _ records]) blast
  next
    case False
    then have "y \<in> set (dl_listed acc)" using that by simp
    then obtain rs where rs: "call y = (None, Inr rs)" "\<forall>r \<in> set rs. mget (dl_remotes acc) (dn_ID r) \<noteq> None"
      using assms(1) unfolding listing_ok_def by blast
    then show ?thesis using fold_put_lookup [of dn_ID records "dl_remotes acc"] by (intro exI [of _ rs]) blast
  qed
  ultimately show ?thesis using assms(1) by (auto simp: listing_ok_def)
qed

lemma list_zones_ok: "list_zones call zs acc = Inr out \<Longrightarrow> listing_ok call acc \<Longrightarrow> listing_ok call out"
proof (induction call zs acc rule: list_zones.induct)
  case (2 call z zs acc)
  show ?case
  proof (cases "call (zn_ID z)")
    case (Pair w result)
    show ?thesis
    proof (cases result)
      case (Inl e)
      then show ?thesis using 2 Pair by (cases w) (auto simp: listing_ok_def split: if_splits)
    next
      case (Inr records)
      then show ?thesis using 2 Pair listing_ok_extend [of call acc "zn_ID z" records] by (cases w) auto
    qed
  qed
qed simp

lemma strict_owner:
  assumes "owned_by_tunnel toASCII r info"
  obtains m where "m \<in> set (ti_markers info)" "IsOwnedDNSRecord r m" "equal_fold (dn_Type r) ''CNAME''"
    "DNSHostnamesEqual toASCII (dn_Content r) (tunnelCNAMETarget (ti_tunnelID info))"
proof -
  obtain m where "m \<in> set (ti_markers info)" "IsOwnedDNSRecordStrict toASCII r m (tunnelCNAMETarget (ti_tunnelID info))"
    using assms by (auto simp: owned_by_tunnel_def list_ex_iff)
  moreover have "tunnelCNAMETarget (ti_tunnelID info) \<noteq> []" by (simp add: tunnelCNAMETarget_def)
  ultimately show thesis by (intro that) (auto simp: IsOwnedDNSRecordStrict_def split: if_splits)
qed

lemma tunnel_info_fields [simp]:
  "ti_key (tunnel_info dg key cluster t) = object_key t" "ti_tunnelID (tunnel_info dg key cluster t) = ob_StatusID t"
  by (simp_all add: tunnel_info_def Let_def)

lemma info_checkpoint:
  assumes "(k, cp) \<in> set (ti_checkpoints (tunnel_info dg key cluster t))"
  shows "k = cp_RecordID cp \<and> cp \<in> set (recorded t)"
  using fold_put_mem [of k cp cp_RecordID "recorded t" "[]"] assms by (auto simp: tunnel_info_def Let_def)

lemma judged_checkpoint:
  assumes "i \<in> set (judge_checkpoint env listing (tunnel_info dg key cluster t) (k, cp))"
    and "(k, cp) \<in> set (ti_checkpoints (tunnel_info dg key cluster t))" and "t \<in> set list" and "judged env t"
    and "listing_ok (cf_DNSRecords (pe_api env)) listing"
  shows "dns_item_ok env list markers i"
proof -
  let ?info = "tunnel_info dg key cluster t"
  have k: "k = cp_RecordID cp" "cp \<in> set (recorded t)" using info_checkpoint [OF assms(2)] by auto
  have listed: "cp_ZoneID cp \<in> set (dl_listed listing)" using assms(1) by (auto simp: judge_checkpoint_def split: if_splits)
  then obtain records where zone: "cf_DNSRecords (pe_api env) (cp_ZoneID cp) = (None, Inr records)"
    "\<forall>r \<in> set records. mget (dl_remotes listing) (dn_ID r) \<noteq> None"
    using assms(5) unfolding listing_ok_def by blast
  have cases: "di_TargetKind i = ''CloudflareTunnel'' \<and> di_Key i = object_key t \<and> di_RemoteID i = k \<and> di_Case i \<noteq> DriftCaseOrphan \<and>
      (di_Case i = DriftCaseMissing \<longrightarrow> mget (dl_remotes listing) k = None)"
    using assms(1) listed by (auto simp: judge_checkpoint_def dns_item_def Let_def split: option.splits if_splits)
  then have "di_Case i = DriftCaseMissing \<longrightarrow> di_RemoteID i \<notin> dn_ID ` set records" using zone(2) by auto
  then show ?thesis unfolding dns_item_ok_def judged_belongs [symmetric] using cases k zone(1) assms(3,4) by (intro bexI [of _ t]) auto
qed

lemma judged_orphan:
  assumes "dnsOrphanCandidate (pe_toASCII env) r (map (tunnel_info dg key cluster) (filter (judged env) list)) = Some i"
    and "\<forall>u \<in> set list. judged env u \<longrightarrow> dn_ID r \<notin> cp_RecordID ` set (recorded u)"
    and "cf_DNSRecords (pe_api env) z = (None, Inr records)" and "r \<in> set records"
  shows "dns_item_ok env list (\<lambda>t. ti_markers (tunnel_info dg key cluster t)) i"
proof -
  obtain info where found: "List.find (\<lambda>info. ti_tunnelID info \<noteq> [] \<and> owned_by_tunnel (pe_toASCII env) r info)
        (map (tunnel_info dg key cluster) (filter (judged env) list)) = Some info"
      and i: "di_TargetKind i = ''CloudflareTunnel'' \<and> di_Key i = ti_key info \<and> di_RemoteID i = dn_ID r \<and> di_Case i = DriftCaseOrphan"
    using assms(1) unfolding dnsOrphanCandidate_def by (auto simp: dns_item_def)
  then have "info \<in> set (map (tunnel_info dg key cluster) (filter (judged env) list))" "ti_tunnelID info \<noteq> []"
      "owned_by_tunnel (pe_toASCII env) r info"
    using find_found [OF found] by blast+
  then obtain t where t: "t \<in> set list" "judged env t" "info = tunnel_info dg key cluster t" by auto
  obtain m where "m \<in> set (ti_markers info)" "IsOwnedDNSRecord r m" "equal_fold (dn_Type r) ''CNAME''"
    "DNSHostnamesEqual (pe_toASCII env) (dn_Content r) (tunnelCNAMETarget (ti_tunnelID info))"
    using strict_owner [OF \<open>owned_by_tunnel (pe_toASCII env) r info\<close>] by metis
  then have "\<exists>z records r' m. cf_DNSRecords (pe_api env) z = (None, Inr records) \<and> r' \<in> set records \<and> dn_ID r' = di_RemoteID i \<and>
      m \<in> set (ti_markers (tunnel_info dg key cluster t)) \<and> IsOwnedDNSRecord r' m \<and> equal_fold (dn_Type r') ''CNAME'' \<and>
      DNSHostnamesEqual (pe_toASCII env) (dn_Content r') (tunnelCNAMETarget (ob_StatusID t))"
    using assms(3,4) i t(3) by (metis tunnel_info_fields(2))
  then show ?thesis unfolding dns_item_ok_def judged_belongs [symmetric] using i t \<open>ti_tunnelID info \<noteq> []\<close> assms(2) by (intro bexI [of _ t]) auto
qed

lemma judged_records:
  assumes "i \<in> set (judge_records env (map (tunnel_info dg key cluster) (filter (judged env) list))
      (set (concat (map (map cp_RecordID \<circ> recorded) (filter (judged env) list)))) listing)"
    and "listing_ok (cf_DNSRecords (pe_api env)) listing"
  shows "dns_item_ok env list (\<lambda>t. ti_markers (tunnel_info dg key cluster t)) i"
proof -
  let ?infos = "map (tunnel_info dg key cluster) (filter (judged env) list)"
  consider t k cp where "t \<in> set list" "judged env t" "(k, cp) \<in> set (ti_checkpoints (tunnel_info dg key cluster t))"
      "i \<in> set (judge_checkpoint env listing (tunnel_info dg key cluster t) (k, cp))"
    | k r where "(k, r) \<in> set (dl_remotes listing)" "dnsOrphanCandidate (pe_toASCII env) r ?infos = Some i"
      "dn_ID r \<notin> set (concat (map (map cp_RecordID \<circ> recorded) (filter (judged env) list)))"
    using assms(1) by (auto simp: judge_records_def split: if_splits option.splits)
  then show ?thesis
  proof cases
    case 1
    then show ?thesis using judged_checkpoint [OF 1(4,3,1,2) assms(2)] by blast
  next
    case 2
    obtain z records where z: "cf_DNSRecords (pe_api env) z = (None, Inr records)" "r \<in> set records"
      using 2(1) assms(2) by (auto simp: listing_ok_def)
    have "\<forall>u \<in> set list. judged env u \<longrightarrow> dn_ID r \<notin> cp_RecordID ` set (recorded u)" using 2(3) by auto
    then show ?thesis by (rule judged_orphan [OF 2(2) _ z])
  qed
qed

lemma and_run_result:
  "and_run m k st = (Inr y, st') \<longleftrightarrow> (\<exists>x st1. m st = (Inr x, st1) \<and> k x st1 = (Inr y, st'))"
  by (auto simp: and_run_def split: prod.splits sum.splits)

lemma and_then_result: "and_then result k st = (Inr y, st') \<longleftrightarrow> (\<exists>x. result = Inr x \<and> k x st = (Inr y, st'))"
  by (auto simp: and_then_def split: sum.splits)

lemma and_key_result: "and_key env k st = k (fst (ownershipKey env st)) (snd (ownershipKey env st))"
  by (simp add: and_key_def split: prod.split)

lemmas pass_results = and_run_result and_then_result and_key_result

lemma dns_pass_items:
  assumes "sweepDNSRecords env st = (Inr (items, err), st')"
  obtains cluster st1 list listing where "clusterID env st = (Inr cluster, st1)" "kc_Tunnels (pe_client env) = Inr list"
    "listing_ok (cf_DNSRecords (pe_api env)) listing" "err = scopedListingErr (dl_failures listing)"
    "\<forall>i \<in> set items. dns_item_ok env list (\<lambda>t. ti_markers (tunnel_info (pe_digests env) (fst (ownershipKey env st1)) cluster t)) i"
proof -
  have "listing_ok (cf_DNSRecords (pe_api env)) \<lparr>dl_remotes = [], dl_listed = [], dl_failures = []\<rparr>" by (simp add: listing_ok_def)
  note listed = list_zones_ok [OF _ this]
  show thesis
    using assms unfolding sweepDNSRecords_def Let_def pass_results wrapped_Inr
    by (elim exE conjE, intro that) (auto intro: judged_records dest: listed)
qed

text \<open>
  C36: a pass over the DNS records is safe. Every item targets a tunnel of this account that is neither deleted nor observed only. A record
  is reported missing or mismatched only if that tunnel checkpoints it in a zone that was listed completely, and missing only
  if it is not listed there; an orphan is checkpointed by no such tunnel, carries the tunnel's marker and is a CNAME to its target. A partial
  pass names only zones whose listing failed with an error that may be isolated.
\<close>
theorem dns_sweep_safe:
  assumes "sweepDNSRecords env st = (Inr (items, err), st')"
  shows "\<exists>cluster st1 list. clusterID env st = (Inr cluster, st1) \<and> kc_Tunnels (pe_client env) = Inr list \<and>
    (\<forall>i \<in> set items. dns_item_ok env list (\<lambda>t. ti_markers (tunnel_info (pe_digests env) (fst (ownershipKey env st1)) cluster t)) i) \<and>
    (case err of None \<Rightarrow> True
     | Some e \<Rightarrow> \<exists>failures. e = Scoped failures \<and> failures \<noteq> [] \<and>
         (\<forall>(z, cause) \<in> set failures. cf_DNSRecords (pe_api env) z = (None, Inl cause) \<and> zoneFailureIsolatable cause))"
proof -
  obtain cluster st1 list listing where "clusterID env st = (Inr cluster, st1)" "kc_Tunnels (pe_client env) = Inr list"
    and ok: "listing_ok (cf_DNSRecords (pe_api env)) listing" "err = scopedListingErr (dl_failures listing)"
    and "\<forall>i \<in> set items. dns_item_ok env list (\<lambda>t. ti_markers (tunnel_info (pe_digests env) (fst (ownershipKey env st1)) cluster t)) i"
    by (rule dns_pass_items [OF assms])
  moreover have "case err of None \<Rightarrow> True
     | Some e \<Rightarrow> \<exists>failures. e = Scoped failures \<and> failures \<noteq> [] \<and>
         (\<forall>(z, cause) \<in> set failures. cf_DNSRecords (pe_api env) z = (None, Inl cause) \<and> zoneFailureIsolatable cause)"
    using ok by (simp add: scopedListingErr_def listing_ok_def split: option.split)
  ultimately show ?thesis by blast
qed

section \<open>What a pass may invalidate\<close>

definition managed_objects :: "('s, 'c) pass_env \<Rightarrow> (string \<times> (namespacedName \<times> string) set) list" where
  "managed_objects env =
     (let c = pe_client env in
      [(''AccessApplication'', managed env (kc_AccessApplications c)), (''AccessStandaloneApplication'', managed env (kc_StandaloneApplications c)),
       (''AccessPolicy'', managed env (kc_AccessPolicies c)), (''AccessGroup'', managed env (kc_AccessGroups c)),
       (''ServiceToken'', managed env (kc_ServiceTokens c)), (''IdentityProvider'', managed env (kc_IdentityProviders c)),
       (''AccessCustomPage'', managed env (kc_AccessCustomPages c)), (''AccessInfrastructureTarget'', managed env (kc_InfrastructureTargets c)),
       (''CloudflareTunnel'', managed env (kc_Tunnels c)), (''ZeroTrustGatewayPolicy'', managed env (kc_GatewayPolicies c)),
       (''ZeroTrustList'', managed env (kc_ZeroTrustLists c)), (''VirtualNetwork'', managed env (kc_VirtualNetworks c)),
       (''NetworkRoute'', managed env (kc_NetworkRoutes c)), (''HostnameRoute'', managed env (kc_HostnameRoutes c)),
       (''DeviceProfile'', managed env (kc_DeviceProfiles c)), (''DevicePostureRule'', managed env (kc_PostureRules c)),
       (''DevicePostureIntegration'', managed env (kc_PostureIntegrations c)), (''WARPConnector'', managed env (kc_WARPConnectors c))])"

text \<open>The kind whose gates a target closes: drift of a DNS record concerns the tunnel that wrote it.\<close>

definition target_kind :: "string \<Rightarrow> string" where
  "target_kind kind = (if kind = ''DNSRecord'' then ''CloudflareTunnel'' else kind)"

lemma zipped_lookup:
  assumes "list_all2 (\<lambda>(k, x) (k', y). k = k' \<and> P k x y) xs ys" and "map_of xs k = Some x"
  obtains y where "map_of ys k = Some y" and "P k x y"
  using assms
proof (induction xs ys arbitrary: thesis rule: list_all2_induct)
  case (Cons a xs b ys)
  then show ?case by (cases a; cases b) (auto split: if_splits)
qed simp

lemma sweep_ensures:
  assumes "map_of (sweep_functions env) kind = Some sweep"
  obtains objects where "map_of (managed_objects env) kind = Some objects" and "pass_ensures sweep (managed_items kind objects)"
proof -
  have "list_all2 (\<lambda>(k, f) (k', objects). k = k' \<and> pass_ensures f (managed_items k objects)) (sweep_functions env) (managed_objects env)"
    by (simp add: sweep_functions_def managed_objects_def Let_def ensures_applications ensures_standalone ensures_policies ensures_targets
        ensures_tunnels ensures_connectors ensures_gateway_policies ensures_lists ensures_profiles ensures_networks ensures_network_routes
        ensures_hostname_routes sweepAccessGroups_def sweepServiceTokens_def sweepIdentityProviders_def sweepAccessCustomPages_def
        sweepDevicePostureRules_def sweepDevicePostureIntegrations_def ensures_scoped ensures_named)
  from zipped_lookup [OF this assms] show thesis using that by blast
qed

definition managed_keys :: "string \<Rightarrow> ('s, 'c) pass_env \<Rightarrow> namespacedName set" where
  "managed_keys kind env = (case map_of (managed_objects env) (target_kind kind) of None \<Rightarrow> {} | Some objects \<Rightarrow> fst ` objects)"

text \<open>The effect of a sweep function, for every kind: the latch invalidates the same objects, and the items it would invalidate are managed.\<close>

definition outcome_ok :: "string \<Rightarrow> ('s, 'c) pass_env \<Rightarrow> driftItem list option \<times> sweep_error option \<Rightarrow> bool" where
  "outcome_ok kind env outcome \<longleftrightarrow>
     (\<forall>items. fst outcome = Some items \<longrightarrow> (\<forall>i \<in> set items. di_Case i \<noteq> DriftCaseOrphan \<longrightarrow>
        di_TargetKind i = target_kind kind \<and> di_Key i \<in> managed_keys kind env))"

lemma tunnel_objects: "map_of (managed_objects env) ''CloudflareTunnel'' = Some (managed env (kc_Tunnels (pe_client env)))"
  by (simp add: managed_objects_def Let_def)

lemma ensures_dns: "pass_ensures (sweepDNSRecords env) (\<lambda>_. True)"
  unfolding sweepDNSRecords_def Let_def by (intro pass_intros TrueI)

lemma dns_func_effect: "same_invalid (rn_latch st) (rn_latch (snd (sweepDNSRecords env st))) \<and> outcome_ok ''DNSRecord'' env (dns_outcome (fst (sweepDNSRecords env st)))"
proof -
  have "di_TargetKind i = ''CloudflareTunnel'' \<and> di_Key i \<in> managed_keys ''DNSRecord'' env"
    if run: "sweepDNSRecords env st = (Inr (items, err), st')" and item: "i \<in> set items" for items err st' i
  proof -
    obtain list markers where "kc_Tunnels (pe_client env) = Inr list" "dns_item_ok env list markers i"
      using dns_pass_items [OF run] item by metis
    then show ?thesis
      by (auto simp: managed_keys_def target_kind_def tunnel_objects managed_Inr dns_item_ok_def judged_belongs image_iff)
  qed
  then have "outcome_ok ''DNSRecord'' env (dns_outcome (fst (sweepDNSRecords env st)))"
    by (cases "sweepDNSRecords env st") (auto simp: outcome_ok_def dns_outcome_def target_kind_def split: sum.splits)
  then show ?thesis using ensures_dns [of env] by (simp add: pass_ensures_def)
qed

lemma sweep_func_effect:
  assumes "sweep_func kind env st = (outcome, st')"
  shows "same_invalid (rn_latch st) (rn_latch st') \<and> outcome_ok kind env outcome"
proof (cases "kind = ''DNSRecord''")
  case True
  then show ?thesis using assms dns_func_effect [of st env] by (cases "sweepDNSRecords env st") (auto simp: sweep_func_def)
next
  case False
  show ?thesis
  proof (cases "map_of (sweep_functions env) kind")
    case None
    then show ?thesis using assms False by (auto simp: sweep_func_def outcome_ok_def)
  next
    case (Some sweep)
    obtain objects where objects: "map_of (managed_objects env) kind = Some objects" "pass_ensures sweep (managed_items kind objects)"
      by (rule sweep_ensures [OF Some])
    obtain result where result: "sweep st = (result, st')" "outcome = pass_outcome result"
      using assms False Some by (cases "sweep st") (auto simp: sweep_func_def)
    have "same_invalid (rn_latch st) (rn_latch st')" "\<And>items. result = Inr items \<Longrightarrow> managed_items kind objects items"
      using objects(2) result(1) unfolding pass_ensures_def by (metis fst_conv snd_conv)+
    then show ?thesis
      using objects(1) False
      by (auto simp: result(2) outcome_ok_def pass_outcome_def managed_keys_def target_kind_def managed_items_def split: sum.splits)
         (metis fst_conv image_eqI)
  qed
qed

lemma runTarget_cases: "runTarget outcome st = st \<or> (\<exists>items. fst outcome = Some items \<and> runTarget outcome st = handleDriftResults items st)"
proof (cases outcome)
  case (Pair items err)
  show ?thesis unfolding Pair
    by (cases items; cases err) (simp_all add: runTarget_error runTarget_complete handleDriftResults_def)
qed

lemma handled_nil: "ss_latch st = None \<Longrightarrow> ss_latch (handleDriftResults items st) = None"
  by (induction items arbitrary: st) (simp_all add: handleDriftResults_def handle_item_def Invalidate_def split: driftCase.split)

text \<open>
  C37: a sweep closes only gates it is responsible for. Whatever Cloudflare and the API server answer, one pass of a target keeps every
  invalidation, and newly invalidates only objects of the target's kind (the tunnel, for DNS records) that belong to this
  account and are neither being deleted nor observed only.
\<close>
theorem pass_invalidates_managed:
  assumes "run_target_pass kind env st events capacity = (st', events')"
  shows "(IsInvalidated k key (rn_latch st) \<longrightarrow> IsInvalidated k key (rn_latch st')) \<and>
    (IsInvalidated k key (rn_latch st') \<longrightarrow>
       IsInvalidated k key (rn_latch st) \<or> k = target_kind kind \<and> key \<in> managed_keys kind env)"
proof -
  obtain outcome st1 where func: "sweep_func kind env st = (outcome, st1)" by fastforce
  note effect = sweep_func_effect [OF func]
  let ?ss = "\<lparr>ss_latch = rn_latch st1, ss_events = events, ss_capacity = capacity\<rparr>"
  have latch: "rn_latch st' = ss_latch (runTarget outcome ?ss)" using assms func by (auto simp: run_target_pass_def Let_def)
  consider "rn_latch st' = rn_latch st1"
    | items where "fst outcome = Some items" "rn_latch st' = ss_latch (handleDriftResults items ?ss)"
    using runTarget_cases [of outcome ?ss] latch by fastforce
  then show ?thesis
  proof cases
    case 1
    then show ?thesis using effect by (simp add: same_invalid_def)
  next
    case 2
    show ?thesis
    proof (cases "rn_latch st1")
      case None
      then have "rn_latch st = None" using effect by (simp add: same_invalid_def)
      moreover have "rn_latch st' = None" unfolding 2(2) by (rule handled_nil) (simp add: None)
      ultimately show ?thesis by (simp add: IsInvalidated_def)
    next
      case (Some l)
      then show ?thesis
        using effect 2(1) handled_invalid [of ?ss k key items] by (auto simp: 2(2) same_invalid_def outcome_ok_def)
    qed
  qed
qed

section \<open>Orphans of generated names\<close>

lemma remote_name_cluster:
  assumes "accessRemoteNameValue c ns n = accessRemoteNameValue c' ns' n'" and "CHR ''/'' \<notin> set c" and "CHR ''/'' \<notin> set c'"
  shows "c = c'"
  using assms cut_unique [of "CHR ''/''" c c' "ns @ ''/'' @ n" "ns' @ ''/'' @ n'"] by (simp add: accessRemoteNameValue_def)

lemma named_orphan_name:
  assumes "accessNamedOrphan cluster refs idOf nameOf remote claimed = Some key"
  shows "\<exists>ns spec. nameOf remote = accessRemoteNameValue cluster ns spec \<and>
    (\<forall>cluster' ns' spec'. CHR ''/'' \<notin> set cluster' \<and> nameOf remote = accessRemoteNameValue cluster' ns' spec' \<longrightarrow> cluster' = cluster) \<and>
    ((\<exists>ref \<in> set refs. nn_Namespace (lr_key ref) = ns \<and> lr_specName ref = spec \<and> key = lr_key ref \<and> lr_remoteID ref \<noteq> idOf remote) \<or>
     key = \<lparr>nn_Namespace = ns, nn_Name = spec\<rparr> \<and> (\<forall>ref \<in> set refs. nn_Namespace (lr_key ref) = ns \<longrightarrow> lr_specName ref \<noteq> spec))"
proof -
  obtain ns spec where parsed: "parseAccessRemoteName (nameOf remote) = Some (cluster, ns, spec)"
    using assms by (auto simp: accessNamedOrphan_def split: option.splits if_splits)
  then have name: "nameOf remote = accessRemoteNameValue cluster ns spec" "CHR ''/'' \<notin> set cluster"
    unfolding access_remote_name_roundtrip by auto
  have "(\<exists>ref \<in> set refs. nn_Namespace (lr_key ref) = ns \<and> lr_specName ref = spec \<and> key = lr_key ref \<and> lr_remoteID ref \<noteq> idOf remote) \<or>
     key = \<lparr>nn_Namespace = ns, nn_Name = spec\<rparr> \<and> (\<forall>ref \<in> set refs. nn_Namespace (lr_key ref) = ns \<longrightarrow> lr_specName ref \<noteq> spec)"
    using assms by (auto simp: accessNamedOrphan_def parsed find_None_iff split: option.splits if_splits dest!: find_found)
  then show ?thesis using name remote_name_cluster [of cluster ns spec] by metis
qed

text \<open>
  The kinds whose remote name is generated from the cluster, the namespace and a name: what their listings may return, as IDs with
  names, and the managed local objects with the name, the ID in the status and the zone (none in the account scope).
\<close>

record named_local =
  nl_key :: namespacedName
  nl_spec :: string
  nl_id :: string
  nl_zone :: string

definition listed_names :: "('c, 'r) remoteObject_scheme call \<Rightarrow> (string \<times> string) set" where
  "listed_names call = (case call of (None, Inr remotes) \<Rightarrow> (\<lambda>r. (rm_ID r, rm_Name r)) ` set remotes | _ \<Rightarrow> {})"

definition named_locals ::
  "('s, 'c) pass_env \<Rightarrow> ('x sweepObject_scheme \<Rightarrow> string) \<Rightarrow> ('x sweepObject_scheme \<Rightarrow> string) \<Rightarrow> sweep_error + 'x sweepObject_scheme list \<Rightarrow> named_local set" where
  "named_locals env spec zone objects =
     (case objects of
        Inl e \<Rightarrow> {}
      | Inr list \<Rightarrow> (\<lambda>x. \<lparr>nl_key = object_key x, nl_spec = spec x, nl_id = ob_StatusID x, nl_zone = zone x\<rparr>) ` {x \<in> set list. belongs env x})"

definition named_kinds :: "('s, 'c) pass_env \<Rightarrow> (string \<times> (string \<times> string) set \<times> named_local set) list" where
  "named_kinds env =
     (let api = pe_api env; c = pe_client env; account = (\<lambda>_. []) in
      [(''AccessStandaloneApplication'', \<Union>scope. listed_names (cf_AccessApplications api scope), named_locals env ob_Name zo_Zone (kc_StandaloneApplications c)),
       (''AccessPolicy'', listed_names (cf_AccessPolicies api), named_locals env ob_SpecName (\<lambda>_. []) (kc_AccessPolicies c)),
       (''AccessGroup'', \<Union>scope. listed_names (cf_AccessGroups api scope), named_locals env ob_SpecName zo_Zone (kc_AccessGroups c)),
       (''ServiceToken'', \<Union>scope. listed_names (cf_ServiceTokens api scope), named_locals env ob_SpecName zo_Zone (kc_ServiceTokens c)),
       (''IdentityProvider'', listed_names (cf_IdentityProviders api), named_locals env ob_SpecName account (kc_IdentityProviders c)),
       (''AccessCustomPage'', listed_names (cf_AccessCustomPages api), named_locals env ob_SpecName account (kc_AccessCustomPages c)),
       (''DevicePostureRule'', listed_names (cf_PostureRules api), named_locals env ob_SpecName account (kc_PostureRules c)),
       (''DevicePostureIntegration'', listed_names (cf_PostureIntegrations api), named_locals env ob_SpecName account (kc_PostureIntegrations c))])"

definition named_orphan_ok :: "string \<Rightarrow> string \<Rightarrow> (string \<times> string) set \<Rightarrow> named_local set \<Rightarrow> driftItem \<Rightarrow> bool" where
  "named_orphan_ok kind cluster remotes locals i \<longleftrightarrow> di_TargetKind i = kind \<and> di_RemoteID i \<noteq> [] \<and>
     (\<forall>l \<in> locals. nl_zone l = [] \<longrightarrow> nl_id l \<noteq> di_RemoteID i) \<and>
     (\<exists>ns spec name. (di_RemoteID i, name) \<in> remotes \<and> name = accessRemoteNameValue cluster ns spec \<and>
        (\<forall>cluster' ns' spec'. CHR ''/'' \<notin> set cluster' \<and> name = accessRemoteNameValue cluster' ns' spec' \<longrightarrow> cluster' = cluster) \<and>
        ((\<exists>l \<in> locals. di_Key i = nl_key l \<and> nn_Namespace (nl_key l) = ns \<and> nl_spec l = spec \<and> nl_id l \<noteq> di_RemoteID i) \<or>
         di_Key i = \<lparr>nn_Namespace = ns, nn_Name = spec\<rparr> \<and>
           (\<forall>l \<in> locals. nl_zone l = [] \<longrightarrow> nn_Namespace (nl_key l) = ns \<longrightarrow> nl_spec l \<noteq> spec)))"

text \<open>References and local objects correspond, except for objects of a zone that was not resolved.\<close>

definition refers :: "localRef \<Rightarrow> named_local \<Rightarrow> bool" where
  "refers ref l \<longleftrightarrow> lr_key ref = nl_key l \<and> lr_specName ref = nl_spec l \<and> lr_remoteID ref = nl_id l"

definition refs_match :: "localRef list \<Rightarrow> named_local set \<Rightarrow> bool" where
  "refs_match refs locals \<longleftrightarrow> (\<forall>ref \<in> set refs. \<exists>l \<in> locals. refers ref l) \<and> (\<forall>l \<in> locals. nl_zone l = [] \<longrightarrow> (\<exists>ref \<in> set refs. refers ref l))"

lemma judged_named_orphan:
  assumes "judge_pass env observe refs listed opts st = (Inr items, st')" and "i \<in> set items" and "di_Case i = DriftCaseOrphan"
    and opts: "co_orphan opts = Some (accessNamedOrphan cluster refs rm_ID rm_Name)" "co_idOf opts = rm_ID" "co_kind opts = kind"
    and "(\<lambda>r. (rm_ID r, rm_Name r)) ` set listed \<subseteq> remotes" and "refs_match refs locals"
  shows "named_orphan_ok kind cluster remotes locals i"
proof -
  let ?opts = "opts\<lparr>co_content := contentCheckWith (pe_start env) (rn_latch st) observe\<rparr>"
  have "i \<in> set (fst (classify refs listed ?opts (rn_latch st)))"
    using assms(1,2) by (auto simp: judge_pass_def split: prod.splits)
  then obtain remote where remote: "remote \<in> set listed" "i \<in> set (judge_remote refs ?opts remote)"
    using classified_item [of i refs listed ?opts] assms(3) by (auto simp: ref_item_ok_def)
  then have id: "di_RemoteID i = rm_ID remote" "di_TargetKind i = kind" "rm_ID remote \<noteq> []" "rm_ID remote \<notin> claimed_ids refs"
    and orphan: "accessNamedOrphan cluster refs rm_ID rm_Name remote (claimed_ids refs) = Some (di_Key i)"
    using opts by (auto simp: judge_remote_mem orphan_item_def)
  have matched: "\<And>ref. ref \<in> set refs \<Longrightarrow> \<exists>l \<in> locals. refers ref l" "\<And>l. l \<in> locals \<Longrightarrow> nl_zone l = [] \<Longrightarrow> \<exists>ref \<in> set refs. refers ref l"
    using assms(8) by (auto simp: refs_match_def)
  have free: "nl_id l \<noteq> di_RemoteID i" if "l \<in> locals" "nl_zone l = []" for l
    using matched(2) [OF that] id by (auto simp: refers_def claimed_ids_def image_iff)
  obtain ns spec where name: "rm_Name remote = accessRemoteNameValue cluster ns spec"
      "\<forall>cluster' ns' spec'. CHR ''/'' \<notin> set cluster' \<and> rm_Name remote = accessRemoteNameValue cluster' ns' spec' \<longrightarrow> cluster' = cluster"
    and owner: "(\<exists>ref \<in> set refs. nn_Namespace (lr_key ref) = ns \<and> lr_specName ref = spec \<and> di_Key i = lr_key ref \<and> lr_remoteID ref \<noteq> rm_ID remote) \<or>
      di_Key i = \<lparr>nn_Namespace = ns, nn_Name = spec\<rparr> \<and> (\<forall>ref \<in> set refs. nn_Namespace (lr_key ref) = ns \<longrightarrow> lr_specName ref \<noteq> spec)"
    using named_orphan_name [OF orphan] by blast
  have key: "(\<exists>l \<in> locals. di_Key i = nl_key l \<and> nn_Namespace (nl_key l) = ns \<and> nl_spec l = spec \<and> nl_id l \<noteq> di_RemoteID i) \<or>
      di_Key i = \<lparr>nn_Namespace = ns, nn_Name = spec\<rparr> \<and> (\<forall>l \<in> locals. nl_zone l = [] \<longrightarrow> nn_Namespace (nl_key l) = ns \<longrightarrow> nl_spec l \<noteq> spec)"
    using owner
  proof
    assume "\<exists>ref \<in> set refs. nn_Namespace (lr_key ref) = ns \<and> lr_specName ref = spec \<and> di_Key i = lr_key ref \<and> lr_remoteID ref \<noteq> rm_ID remote"
    then show ?thesis using matched(1) unfolding id(1) refers_def by metis
  next
    assume "di_Key i = \<lparr>nn_Namespace = ns, nn_Name = spec\<rparr> \<and> (\<forall>ref \<in> set refs. nn_Namespace (lr_key ref) = ns \<longrightarrow> lr_specName ref \<noteq> spec)"
    then show ?thesis using matched(2) unfolding refers_def by metis
  qed
  have "(di_RemoteID i, rm_Name remote) \<in> remotes" using assms(7) remote(1) id(1) by auto
  moreover have "di_RemoteID i \<noteq> []" using id by simp
  ultimately show ?thesis unfolding named_orphan_ok_def
    by (intro conjI ballI impI exI [of _ ns] exI [of _ spec] exI [of _ "rm_Name remote"] id(2) free name key)
qed

text \<open>The cluster of a pass does not depend on when it is looked up.\<close>

definition owns_orphans :: "('s, 'c) pass_env \<Rightarrow> string \<Rightarrow> (string \<times> string) set \<Rightarrow> named_local set \<Rightarrow>
    (('s, 'c) runner \<Rightarrow> (sweep_error + driftItem list) \<times> ('s, 'c) runner) \<Rightarrow> bool" where
  "owns_orphans env kind remotes locals m \<longleftrightarrow>
     (\<forall>st items st'. m st = (Inr items, st') \<longrightarrow> (\<exists>cluster. fst (clusterID env st) = Inr cluster \<and>
        (\<forall>i \<in> set items. di_Case i = DriftCaseOrphan \<longrightarrow> named_orphan_ok kind cluster remotes locals i)))"

lemma zones_keep_cluster: "zones env n st = (r, st') \<Longrightarrow> rn_clusterIDCache st' = rn_clusterIDCache st"
  by (auto simp: zones_def Let_def split: option.splits sum.splits if_splits)

lemma cluster_cached: "rn_clusterIDCache st' = rn_clusterIDCache st \<Longrightarrow> fst (clusterID env st') = fst (clusterID env st)"
  by (simp add: clusterID_def split: sum.split)

lemma scopes_keep_cluster:
  assumes "accessScopes env st = (Inr scopes, st')"
  shows "fst (clusterID env st') = fst (clusterID env st)"
  using assms unfolding accessScopes_def and_run_result by (intro cluster_cached) (auto dest: zones_keep_cluster)

lemma paced_names: "paced call = Inr listed \<Longrightarrow> (\<lambda>r. (rm_ID r, rm_Name r)) ` set listed \<subseteq> listed_names call"
  by (auto simp: paced_def listed_names_def split: prod.splits option.splits sum.splits)

lemma scoped_names:
  assumes "list_scopes call scopes = Inr listed"
  shows "(\<lambda>r. (rm_ID r, rm_Name r)) ` set listed \<subseteq> (\<Union>scope. listed_names (call scope))"
  using assms
proof (induction scopes arbitrary: listed)
  case (Cons scope scopes)
  then obtain first rest where "paced (call scope) = Inr first" "list_scopes call scopes = Inr rest" "listed = first @ rest"
    by (auto split: sum.splits)
  then show ?case using paced_names [of "call scope" first] Cons.IH [of rest] by auto
qed simp

lemma account_refs:
  assumes "\<And>x. ref x = object_ref kind (expected x) (spec x) [] x"
  shows "refs_match (map ref (filter (judged env) list)) (named_locals env spec zone (Inr list))"
  unfolding refs_match_def named_locals_def refers_def by (auto simp: assms object_ref_def judged_belongs)

lemma scoped_refs:
  assumes "\<And>x scope. ref (x, scope) = object_ref kind (expected x) (spec x) scope x"
  shows "refs_match (map ref (scoped_objects env zs list)) (named_locals env spec zo_Zone (Inr list))"
proof -
  have "(x, []) \<in> set (scoped_objects env zs list)" if "x \<in> set list" "judged env x" "zo_Zone x = []" for x
    using that by (auto simp: scoped_objects_def resolveScope_def)
  then show ?thesis
    unfolding refs_match_def named_locals_def refers_def
    by (force simp: assms object_ref_def judged_belongs dest: scoped_objects_mem)
qed

lemma owns_scoped: "owns_orphans env kind (\<Union>scope. listed_names (call scope)) (named_locals env ob_SpecName zo_Zone objects)
    (sweep_scoped_kind kind plural call objects env)"
  unfolding owns_orphans_def sweep_scoped_kind_def Let_def pass_results wrapped_Inr
proof (intro allI impI, elim exE conjE, rule exI, intro conjI ballI impI)
  fix st items st' scopes st1 listed cluster st2 zs st3 list i
  assume "accessScopes env st = (Inr scopes, st1)" "clusterID env st1 = (Inr cluster, st2)"
  then show "fst (clusterID env st) = Inr cluster" using scopes_keep_cluster by fastforce
  assume listed: "list_scopes call scopes = Inr listed" and list: "objects = Inr list"
    and item: "i \<in> set items" "di_Case i = DriftCaseOrphan"
    and run: "judge_pass env (ObservedObject kind) (map (\<lambda>(object, scope). named_ref kind cluster scope object) (scoped_objects env zs list)) listed
      ((options kind (scopeListed (set scopes)) rm_ID rm_Name)\<lparr>co_orphan := Some (accessNamedOrphan cluster
        (map (\<lambda>(object, scope). named_ref kind cluster scope object) (scoped_objects env zs list)) rm_ID rm_Name)\<rparr>) st3 = (Inr items, st')"
  then show "named_orphan_ok kind cluster (\<Union>scope. listed_names (call scope)) (named_locals env ob_SpecName zo_Zone objects) i"
    unfolding list
    by (intro judged_named_orphan [OF run item _ _ _ scoped_names [OF listed]] scoped_refs) (simp_all add: options_def named_ref_def)
qed

lemma owns_standalone: "owns_orphans env ''AccessStandaloneApplication'' (\<Union>scope. listed_names (cf_AccessApplications (pe_api env) scope))
    (named_locals env ob_Name zo_Zone (kc_StandaloneApplications (pe_client env))) (sweepAccessStandaloneApplications env)"
  unfolding owns_orphans_def sweepAccessStandaloneApplications_def listAccessApplications_def Let_def pass_results wrapped_Inr
proof (intro allI impI, elim exE conjE, rule exI, intro conjI ballI impI)
  fix st items st' scopes st1 listed cluster st2 zs st3 list i
  assume "accessScopes env st = (Inr scopes, st1)" "clusterID env st1 = (Inr cluster, st2)"
  then show "fst (clusterID env st) = Inr cluster" using scopes_keep_cluster by fastforce
  assume listed: "list_scopes (cf_AccessApplications (pe_api env)) scopes = Inr listed"
    and list: "kc_StandaloneApplications (pe_client env) = Inr list" and item: "i \<in> set items" "di_Case i = DriftCaseOrphan"
    and run: "judge_pass env ObservedApplication (map (standalone_ref cluster) (scoped_objects env zs list)) listed
      ((options ''AccessStandaloneApplication'' (scopeListed (set scopes)) rm_ID rm_Name)\<lparr>co_orphan := Some (accessNamedOrphan cluster
        (map (standalone_ref cluster) (scoped_objects env zs list)) rm_ID rm_Name)\<rparr>) st3 = (Inr items, st')"
  then show "named_orphan_ok ''AccessStandaloneApplication'' cluster (\<Union>scope. listed_names (cf_AccessApplications (pe_api env) scope))
      (named_locals env ob_Name zo_Zone (kc_StandaloneApplications (pe_client env))) i"
    unfolding list
    by (intro judged_named_orphan [OF run item _ _ _ scoped_names [OF listed]] scoped_refs) (simp_all add: options_def standalone_ref_def)
qed

lemma owns_named: "owns_orphans env kind (listed_names call) (named_locals env ob_SpecName (\<lambda>_. []) objects)
    (sweep_named_kind kind plural call objects env)"
  unfolding owns_orphans_def sweep_named_kind_def Let_def pass_results wrapped_Inr
proof (intro allI impI, elim exE conjE, rule exI, intro conjI ballI impI)
  fix st items st' listed cluster st1 list i
  assume "clusterID env st = (Inr cluster, st1)"
  then show "fst (clusterID env st) = Inr cluster" by simp
  assume listed: "paced call = Inr listed" and list: "objects = Inr list" and item: "i \<in> set items" "di_Case i = DriftCaseOrphan"
    and run: "judge_pass env (ObservedObject kind) (map (named_ref kind cluster []) (filter (judged env) list)) listed
      ((options kind accountScopeListed rm_ID rm_Name)\<lparr>co_orphan := Some (accessNamedOrphan cluster
        (map (named_ref kind cluster []) (filter (judged env) list)) rm_ID rm_Name)\<rparr>) st1 = (Inr items, st')"
  then show "named_orphan_ok kind cluster (listed_names call) (named_locals env ob_SpecName (\<lambda>_. []) objects) i"
    unfolding list
    by (intro judged_named_orphan [OF run item _ _ _ paced_names [OF listed]] account_refs) (simp_all add: options_def named_ref_def)
qed

lemma owns_policies: "owns_orphans env ''AccessPolicy'' (listed_names (cf_AccessPolicies (pe_api env)))
    (named_locals env ob_SpecName (\<lambda>_. []) (kc_AccessPolicies (pe_client env))) (sweepAccessPolicies env)"
  unfolding owns_orphans_def sweepAccessPolicies_def Let_def pass_results wrapped_Inr
proof (intro allI impI, elim exE conjE, rule exI, intro conjI ballI impI)
  fix st items st' listed cluster st1 i and list :: "policyObject list"
  assume "clusterID env st = (Inr cluster, st1)"
  then show "fst (clusterID env st) = Inr cluster" by simp
  let ?refs = "map (named_ref ''AccessPolicy'' cluster []) (filter (judged env) list)"
  let ?extra = "\<lambda>ref remote. case by_key po_Decision (filter (judged env) list) (lr_key ref) of None \<Rightarrow> []
     | Some want \<Rightarrow> if want \<noteq> [] \<and> rp_Decision remote \<noteq> want
         then ''remote decision '' @ show_q (rp_Decision remote) @ '' does not match spec decision '' @ show_q want else []"
  assume listed: "paced (cf_AccessPolicies (pe_api env)) = Inr listed" and list: "kc_AccessPolicies (pe_client env) = Inr list"
    and item: "i \<in> set items" "di_Case i = DriftCaseOrphan"
    and run: "judge_pass env ObservedPolicy ?refs listed ((options ''AccessPolicy'' accountScopeListed rm_ID rm_Name)
      \<lparr>co_extra := Some ?extra, co_orphan := Some (accessNamedOrphan cluster ?refs rm_ID rm_Name)\<rparr>) st1 = (Inr items, st')"
  then show "named_orphan_ok ''AccessPolicy'' cluster (listed_names (cf_AccessPolicies (pe_api env)))
      (named_locals env ob_SpecName (\<lambda>_. []) (kc_AccessPolicies (pe_client env))) i"
    unfolding list
    by (intro judged_named_orphan [OF run item _ _ _ paced_names [OF listed]] account_refs) (simp_all add: options_def named_ref_def)
qed

lemma map_of_kept: "k \<in> S \<Longrightarrow> map_of (filter (\<lambda>(k, v). k \<in> S) xs) k = map_of xs k"
  by (induction xs) auto

lemma owned_kinds:
  assumes "map_of (named_kinds env) kind = Some (remotes, locals)"
  obtains sweep where "map_of (sweep_functions env) kind = Some sweep" and "kind \<noteq> ''DNSRecord''" and "owns_orphans env kind remotes locals sweep"
proof -
  let ?kept = "filter (\<lambda>(k, f). k \<in> fst ` set (named_kinds env)) (sweep_functions env)"
  have "list_all2 (\<lambda>(k, x) (k', f). k = k' \<and> owns_orphans env k (fst x) (snd x) f) (named_kinds env) ?kept"
    by (simp add: named_kinds_def sweep_functions_def Let_def owns_standalone owns_policies owns_scoped owns_named
        sweepAccessGroups_def sweepServiceTokens_def sweepIdentityProviders_def sweepAccessCustomPages_def
        sweepDevicePostureRules_def sweepDevicePostureIntegrations_def)
  from zipped_lookup [OF this assms] obtain sweep where "map_of ?kept kind = Some sweep" "owns_orphans env kind remotes locals sweep"
    by auto
  moreover have kind: "kind \<in> fst ` set (named_kinds env)" using map_of_SomeD [OF assms] by force
  moreover have "kind \<noteq> ''DNSRecord''" using kind by (auto simp: named_kinds_def Let_def)
  ultimately show thesis using that map_of_kept [OF kind, of "sweep_functions env"] by simp
qed

text \<open>
  C38: a pass claims no object of another cluster. For the eight kinds with a generated remote name, an object that the pass of the kind
  reports as an orphan was returned by a listing of the kind under a name generated for this cluster, which no other cluster (whose ID has no
  slash) generates, and is not recorded by the status of any managed object of the account scope. It is attributed to a managed object
  of the namespace and name in that remote name, whose status records another remote, or, when there is none in the account scope,
  to that namespace and name. (Objects of a zone are left out while their zone is not resolved.)
\<close>
theorem named_orphans_own:
  assumes "sweep_func kind env st = ((Some items, err), st')" and "map_of (named_kinds env) kind = Some (remotes, locals)"
    and "i \<in> set items" and "di_Case i = DriftCaseOrphan"
  shows "\<exists>cluster. fst (clusterID env st) = Inr cluster \<and> named_orphan_ok kind cluster remotes locals i"
proof -
  obtain sweep where sweep: "map_of (sweep_functions env) kind = Some sweep" "kind \<noteq> ''DNSRecord''" "owns_orphans env kind remotes locals sweep"
    by (rule owned_kinds [OF assms(2)])
  have "sweep st = (Inr items, st')"
    using assms(1) sweep(1,2) by (cases "sweep st") (auto simp: sweep_func_def pass_outcome_def split: sum.splits)
  then show ?thesis using sweep(3) assms(3,4) unfolding owns_orphans_def by blast
qed

section \<open>Examples\<close>

text \<open>An account without remote or local objects, whose cluster ID and zones are read from the caches.\<close>

definition no_remotes :: "unit cloudflareAPI" where
  "no_remotes =
     \<lparr>cf_Zones = (\<lambda>_. (None, Inr [])), cf_AccessApplications = (\<lambda>_. (None, Inr [])), cf_AccessGroups = (\<lambda>_. (None, Inr [])),
      cf_ServiceTokens = (\<lambda>_. (None, Inr [])), cf_DNSRecords = (\<lambda>_. (None, Inr [])), cf_AccessPolicies = (None, Inr []),
      cf_IdentityProviders = (None, Inr []), cf_AccessCustomPages = (None, Inr []), cf_InfrastructureTargets = (None, Inr []),
      cf_Tunnels = (None, Inr []), cf_WARPConnectors = (None, Inr []), cf_GatewayRules = (None, Inr []), cf_GatewayLists = (None, Inr []),
      cf_VirtualNetworks = (None, Inr []), cf_NetworkRoutes = (None, Inr []), cf_HostnameRoutes = (None, Inr []),
      cf_DeviceProfiles = (None, Inr []), cf_PostureRules = (None, Inr []), cf_PostureIntegrations = (None, Inr [])\<rparr>"

definition no_objects :: kubeClient where
  "no_objects =
     \<lparr>kc_Namespace = (\<lambda>_. Inr ''c''), kc_Grants = (\<lambda>_. Inr []), kc_AccessApplications = Inr [], kc_StandaloneApplications = Inr [],
      kc_AccessPolicies = Inr [], kc_AccessGroups = Inr [], kc_ServiceTokens = Inr [], kc_IdentityProviders = Inr [],
      kc_AccessCustomPages = Inr [], kc_InfrastructureTargets = Inr [], kc_Tunnels = Inr [], kc_WARPConnectors = Inr [],
      kc_GatewayPolicies = Inr [], kc_ZeroTrustLists = Inr [], kc_VirtualNetworks = Inr [], kc_NetworkRoutes = Inr [],
      kc_HostnameRoutes = Inr [], kc_DeviceProfiles = Inr [], kc_PostureRules = Inr [], kc_PostureIntegrations = Inr []\<rparr>"

text \<open>A tunnel that checkpoints a record in a zone whose listing does not hold it, but another one with its marker.\<close>

definition example_swept_tunnel :: tunnelObject where
  "example_swept_tunnel =
     \<lparr>ob_Namespace = ''n'', ob_Name = ''t'', ob_UID = [], ob_DeletionTimestamp = None, ob_AccountRef = ''main'', ob_ManagementPolicy = [],
      ob_SpecName = [], ob_StatusID = ''id'', to_GatewayRef = None,
      to_DNSRecords = [\<lparr>cp_Hostname = ''a.io'', cp_RecordID = ''r1'', cp_ZoneID = ''z'', cp_OwnershipComment = [], cp_TTL = 0, cp_Proxied = None, cp_Settings = None\<rparr>]\<rparr>"

definition example_stray_record :: dnsRecord where
  "example_stray_record = \<lparr>dn_ID = ''r2'', dn_Name = ''b.io'', dn_Type = ''CNAME'', dn_Content = ''id.cfargotunnel.com'',
     dn_Comment = ''flareway c/n/t'', dn_TTL = 1, dn_Proxied = True, dn_Settings = None\<rparr>"

definition example_pass :: "(version_list, unit) pass_env" where
  "example_pass =
     \<lparr>pe_accountName = ''main'', pe_operatorNamespace = ''n'', pe_start = 1, pe_clock = (\<lambda>_. (1, 1)),
      pe_api = no_remotes\<lparr>cf_DNSRecords := (\<lambda>_. (None, Inr [example_stray_record]))\<rparr>,
      pe_client = no_objects\<lparr>kc_Tunnels := Inr [example_swept_tunnel]\<rparr>, pe_secrets = list_client, pe_random = Inl [],
      pe_digests = constant_digests, pe_toASCII = Inr, pe_ParsePrefix = (\<lambda>_. None), pe_address = (\<lambda>_. [])\<rparr>"

definition example_runner :: "(version_list, unit) runner" where
  "example_runner = \<lparr>rn_latch = Some NewLatch, rn_zonesCache = Some [\<lparr>zn_ID = ''z'', zn_Name = ''io''\<rparr>], rn_zonesCachedAt = 1, rn_clusterIDCache = ''c'',
     rn_ownershipKeyData = [], rn_ownershipKeyDone = True, rn_secrets = []\<rparr>"

lemma example_dns_pass:
  "(\<lambda>(r, st). case r of Inl e \<Rightarrow> False
     | Inr (items, err) \<Rightarrow> map (\<lambda>i. (di_RemoteID i, di_Case i)) items = [(''r1'', DriftCaseMissing), (''r2'', DriftCaseOrphan)] \<and> err = None)
   (sweepDNSRecords example_pass example_runner)"
  by code_simp

lemma example_run:
  "IsInvalidated ''CloudflareTunnel'' \<lparr>nn_Namespace = ''n'', nn_Name = ''t''\<rparr>
     (rn_latch (fst (run_target_pass ''DNSRecord'' example_pass example_runner None 0)))"
  by code_simp

theorem dns_sweep_safe_witness:
  "\<exists>i. dns_item_ok example_pass [example_swept_tunnel] (\<lambda>t. ti_markers (tunnel_info constant_digests [] ''c'' t)) i \<and> di_Case i = DriftCaseMissing"
proof -
  obtain items err st where run: "sweepDNSRecords example_pass example_runner = (Inr (items, err), st)"
      and items: "map (\<lambda>i. (di_RemoteID i, di_Case i)) items = [(''r1'', DriftCaseMissing), (''r2'', DriftCaseOrphan)]"
    using example_dns_pass by (auto split: prod.splits sum.splits)
  have cluster: "clusterID example_pass example_runner = (Inr ''c'', example_runner)" by (simp add: clusterID_def example_runner_def)
  have key: "fst (ownershipKey example_pass example_runner) = []" by (simp add: ownershipKey_def example_runner_def)
  have list: "kc_Tunnels (pe_client example_pass) = Inr [example_swept_tunnel]" by (simp add: example_pass_def)
  have digests: "pe_digests example_pass = constant_digests" by (simp add: example_pass_def)
  have "\<exists>i \<in> set items. di_Case i = DriftCaseMissing" using items by auto
  then obtain i where "i \<in> set items" "di_Case i = DriftCaseMissing" by blast
  then show ?thesis using dns_sweep_safe [OF run] unfolding cluster list digests by (auto simp: key)
qed

theorem pass_invalidates_managed_witness:
  "\<lparr>nn_Namespace = ''n'', nn_Name = ''t''\<rparr> \<in> managed_keys ''DNSRecord'' example_pass"
proof -
  obtain st events where run: "run_target_pass ''DNSRecord'' example_pass example_runner None 0 = (st, events)" by fastforce
  have "\<not> IsInvalidated kind key (rn_latch example_runner)" for kind key by (simp add: example_runner_def IsInvalidated_def NewLatch_def)
  then show ?thesis
    using pass_invalidates_managed [OF run, of "''CloudflareTunnel''" "\<lparr>nn_Namespace = ''n'', nn_Name = ''t''\<rparr>"] example_run
    by (simp add: run)
qed

text \<open>An AccessGroup whose remote was replaced: the old remote still has the generated name.\<close>

definition example_group :: zoneObject where
  "example_group = \<lparr>ob_Namespace = ''n'', ob_Name = ''g'', ob_UID = [], ob_DeletionTimestamp = None, ob_AccountRef = ''main'', ob_ManagementPolicy = [],
     ob_SpecName = ''a'', ob_StatusID = ''new'', zo_Zone = []\<rparr>"

definition example_group_pass :: "(version_list, unit) pass_env" where
  "example_group_pass = example_pass\<lparr>
     pe_api := no_remotes\<lparr>cf_AccessGroups := (\<lambda>scope. (None, Inr (if scope = [] then
       [\<lparr>rm_ID = ''old'', rm_Name = ''flareway/c/n/a'', rm_Content = ()\<rparr>, \<lparr>rm_ID = ''new'', rm_Name = ''flareway/c/n/a'', rm_Content = ()\<rparr>,
        \<lparr>rm_ID = ''other'', rm_Name = ''flareway/d/n/a'', rm_Content = ()\<rparr>] else [])))\<rparr>,
     pe_client := no_objects\<lparr>kc_AccessGroups := Inr [example_group]\<rparr>\<rparr>"

lemma example_group_items:
  "map_option (map (\<lambda>i. (di_RemoteID i, di_Case i, di_Key i))) (fst (fst (sweep_func ''AccessGroup'' example_group_pass example_runner))) =
     Some [(''old'', DriftCaseOrphan, \<lparr>nn_Namespace = ''n'', nn_Name = ''g''\<rparr>)]"
  by code_simp

theorem named_orphans_own_witness:
  "\<exists>i. di_RemoteID i = ''old'' \<and> di_Key i = \<lparr>nn_Namespace = ''n'', nn_Name = ''g''\<rparr> \<and>
     named_orphan_ok ''AccessGroup'' ''c'' (\<Union>scope. listed_names (cf_AccessGroups (pe_api example_group_pass) scope))
       (named_locals example_group_pass ob_SpecName zo_Zone (Inr [example_group])) i"
proof -
  obtain items err st where run: "sweep_func ''AccessGroup'' example_group_pass example_runner = ((Some items, err), st)"
      and items: "map (\<lambda>i. (di_RemoteID i, di_Case i, di_Key i)) items = [(''old'', DriftCaseOrphan, \<lparr>nn_Namespace = ''n'', nn_Name = ''g''\<rparr>)]"
    using example_group_items by (cases "sweep_func ''AccessGroup'' example_group_pass example_runner") auto
  obtain i where i: "i \<in> set items" "di_RemoteID i = ''old''" "di_Case i = DriftCaseOrphan" "di_Key i = \<lparr>nn_Namespace = ''n'', nn_Name = ''g''\<rparr>"
    using items by auto
  have kinds: "map_of (named_kinds example_group_pass) ''AccessGroup'' = Some (\<Union>scope. listed_names (cf_AccessGroups (pe_api example_group_pass) scope),
      named_locals example_group_pass ob_SpecName zo_Zone (Inr [example_group]))"
    by (simp add: named_kinds_def Let_def) (simp add: example_group_pass_def)
  have "fst (clusterID example_group_pass example_runner) = Inr ''c''" by (simp add: clusterID_def example_runner_def)
  then show ?thesis using named_orphans_own [OF run kinds i(1,3)] i by auto
qed

end
