(* ===== verification/Spec2Isabelle.thy ===== *)
theory Spec2Isabelle
  imports FreshnessGate AckTracker Tunnel SweepTargets
begin

text \<open>
  Verification of flareway, a Kubernetes operator that turns Gateway API objects, AccessApplications and private
  network routes into an Envoy configuration behind a Cloudflare tunnel.

  \<^bold>\<open>The program.\<close> A pure translator (\<^verbatim>\<open>src/internal/gatewayapi\<close>) reads a snapshot of Kubernetes objects (\<^verbatim>\<open>Inputs\<close>) and
  returns an intermediate representation (\<^verbatim>\<open>src/internal/ir\<close>) with the statuses to report. Tenant authorization
  (\<^verbatim>\<open>src/internal/authz\<close>) decides which hostnames, exposures, private routes and backends a namespace may use. The
  representation is served over xDS; a tracker (\<^verbatim>\<open>src/internal/xds/server\<close>) records which snapshot Envoy acknowledged.
  Controllers that talk to Cloudflare are gated by freshness (\<^verbatim>\<open>src/internal/freshness\<close>, \<^verbatim>\<open>src/internal/controller/freshness_gate.go\<close>):
  an object is confirmed only against what was last read remotely. Remote objects carry ownership markers
  (\<^verbatim>\<open>src/internal/cloudflare/ledger.go, ownership.go\<close>) signed with a cluster key (\<^verbatim>\<open>src/internal/ownership\<close>), and a periodic sweep
  (\<^verbatim>\<open>src/internal/sweep\<close>) compares remote listings with what the statuses record and closes the gate of an object that drifted. The
  tunnel connector is configured (\<^verbatim>\<open>src/internal/cloudflared\<close>) from the same representation.

  \<^bold>\<open>The theories.\<close>
  \<^item> \<open>Prelude\<close>: Go's strings, maps (association lists \<open>gomap\<close> with \<open>mget\<close>, \<open>mput\<close>), comparison functions and
    \<^verbatim>\<open>slices.SortFunc\<close> with the locale \<open>comparator\<close>, 32-bit wrap-around and time.
  \<^item> \<open>Freshness\<close> (\<^verbatim>\<open>freshness/types.go, grades.go, evaluate.go, latch.go\<close>): grades, policies, the gate and the latch; the
    latch's split read and record steps are an explicit run of events.
  \<^item> \<open>FreshnessGate\<close> (\<^verbatim>\<open>controller/freshness_gate.go\<close>): the gate of one reconcile, its persisted stamp and its release.
  \<^item> \<open>ApiTypes\<close>, \<open>IR\<close>: the records of the inputs and of the representation.
  \<^item> \<open>Authz\<close> (\<^verbatim>\<open>authz/evaluate.go\<close>): evaluation of the grants of an account, with a declarative specification of what a
    grant permits that the evaluation refines.
  \<^item> \<open>Status\<close> (\<^verbatim>\<open>gatewayapi/status/conditions.go\<close>): merging of conditions and of the entries a controller owns.
  \<^item> \<open>Hostname\<close> (\<^verbatim>\<open>hostname.go, refgrant.go\<close>), \<open>RouteFilters\<close> and \<open>Rules\<close> (\<^verbatim>\<open>rules.go\<close>), \<open>Backends\<close> (\<^verbatim>\<open>backends.go\<close>): host
    intersection, reference grants, filters, matches, backend resolution, clusters and BackendTLSPolicies.
  \<^item> \<open>Listeners\<close> and \<open>Routes\<close> (\<^verbatim>\<open>translate.go\<close>): validation, conflicts and ports of Listeners; attachment, virtual hosts and the
    order of routes.
  \<^item> \<open>AccessRegions\<close>, \<open>AccessCompile\<close>, \<open>AccessDomains\<close> (\<^verbatim>\<open>access.go\<close>): path regions and destinations, the compilation of
    one AccessApplication against the Gateway, and the partition of every virtual host into protection domains.
  \<^item> \<open>PrivateAccess\<close> (\<^verbatim>\<open>private_access.go\<close>): destinations through NetworkRoutes and HostnameRoutes.
  \<^item> \<open>Revocation\<close> (\<^verbatim>\<open>access_revocation.go\<close>): tombstones of revoked applications and what they hold.
  \<^item> \<open>Translate\<close> (\<^verbatim>\<open>translate.go\<close>): the composition of all of these, and \<^verbatim>\<open>CompileAccessApplication\<close>.
  \<^item> \<open>AckTracker\<close> (\<^verbatim>\<open>xds/server/tracker.go\<close>): the acknowledgement state of Delta xDS streams as a run of events.
  \<^item> \<open>Cloudflared\<close> (\<^verbatim>\<open>cloudflared/config.go, compile.go\<close>): the remotely managed configuration of the tunnel, from a Gateway or
    from a Direct configuration, down to the JSON payload.
  \<^item> \<open>Tunnel\<close>: the translator followed by the tunnel compiler.
  \<^item> \<open>Ownership\<close> (\<^verbatim>\<open>cloudflare/ledger.go, cloudflare/ownership.go, ownership/ownership.go\<close>): plaintext and signed markers with their
    length limits, and the creation and repair of the signing key by concurrent callers, as a run of interleaved steps.
  \<^item> \<open>Sweep\<close> (\<^verbatim>\<open>sweep/classify.go, account_sweeper.go, sweeper.go, types.go\<close>): classification of a listing, the outcome of a pass, what
    its drift items do to the latch and the wakeup channel, pacing, and which accounts are swept.
  \<^item> \<open>SweepTargets\<close> (\<^verbatim>\<open>sweep/targets*.go\<close>): the sweep function of every registered kind with the caches they share, and a whole
    pass from the listings to the latch.

  \<^bold>\<open>What is shown.\<close> The first properties are about the whole translator: a domain forwards traffic for an application
  only with evidence that requests are authenticated; a route that is exposed without protection is neither claimed by an accepted
  application nor outside the grants of the account; a host of a revoked application stays blocked while its tombstone
  is retained; every domain is well formed and, outside conformance mode, with a tunnel and an account, has a guard. The others are about the components: Listeners fail closed and do not share ports
  or conflict, routes are attached exactly where their parents and hostnames say, virtual hosts are ordered by precedence,
  backends and filters are authorised, statuses are merged without losing another controller's entries, private
  destinations stay inside the network of an authorised route, claims of an application are on hosts the Gateway serves; the
  gate opens only on evidence and the latch never confirms against a baseline that was invalidated; the tracker
  reports convergence only for streams that acknowledged the expected snapshot, and reports it once they did. The tunnel
  forwards traffic of an application only where the translator proved it authenticated, its ingress rules are complete and ordered, and
  a Direct configuration is rejected unless it is safe. Markers fit their limits, are recognised by every reader across the migration to signed markers
  and name one owner; concurrent callers end with the same key, also when their reads come from a stale cache and others write the Secret. A sweep judges only what was listed completely, closes
  exactly the gates of drifted objects, and these belong to its account and are managed; for the kinds with a generated remote name it
  attributes no object of another cluster.

  \<^bold>\<open>Interfaces.\<close> The locale \<open>comparator\<close> (a total preorder as a comparison function) is interpreted on the comparison functions of
  the code and gives sortedness of every sorted list. The locale \<open>domain_contract\<close> states what a predicate on
  protection domains has to satisfy for the four kinds of domains that the partition emits; it is interpreted four
  times, for authenticated forwarding, for exposure, for well-formedness and for the guards the tunnel relies on.
  The latch interprets the locale \<open>invalidator\<close>, the interface through which the sweep closes gates.

  \<^bold>\<open>Modelling conventions.\<close> A pointer that may be nil is an option. An error or an early return is the left side of a sum. A Go
  map that is iterated is an association list, and where the order of the iteration could matter the code sorts
  afterwards, the result is again a map, or the order of the drift items has no meaning; maps that are only looked up are functions. A loop over a slice is a fold or a
  structural recursion, and the one unbounded loop (the search for a free Envoy port) has a termination proof, so
  no fuel is used anywhere; a call for the signing key makes at most three requests, and is shown to return after them. Code outside the repository is a parameter: the record \<open>externals\<close> holds label selector matching,
  X.509 parsing, duration and prefix parsing and SHA-256, and no property assumes anything of them; \<open>digests\<close>, \<open>tunnel_externals\<close>, \<open>secret_client\<close> and \<open>pass_env\<close> do the
  same for digests, regular expressions, the Secret client and the remote calls of a pass. Where a property relies on their documented behaviour the
  hypothesis is named: \<open>digest_sizes\<close> (a digest has 32 bytes) and \<open>secret_laws\<close> (optimistic concurrency of writes by
  the API server; a read returns some version, as from the manager's cache). The run of the callers also assumes that nobody deletes the Secret or replaces a valid key. Times are
  nanoseconds since the zero time, as integers.

  \<^bold>\<open>Not modelled.\<close> The reconcile loops of the controllers and the Cloudflare clients are calls to the Kubernetes API and to a
  remote service; the xDS translator and the data plane builders fill in the fields of third-party messages; PKI, bootstrap rendering,
  observability and the command are input and output. Of the sweep, the construction of the sweepers and the timers and goroutines that
  start the passes are left out; of the Cloudflare clients only the record types and limits that the sweep and the markers use are modelled.
\<close>

end
